(* ===== verification/Prelude.thy ===== *)
theory Prelude
  imports Main "HOL-Library.Word"
begin

text \<open>
  What every component theory shares: the machine-integer types of the C++ code, the two
  helpers of the C++ standard library that appear everywhere (\<open>std::clamp\<close> and the stable
  \<open>std::max\<close> and \<open>std::min\<close> on integers are HOL's own \<open>max\<close> and \<open>min\<close>), a steady
  clock that is read as an input, and generic facts on lists and options.
\<close>

unbundle bit_operations_syntax

named_theorems wire_simps "lengths and contents of encoded byte strings"
named_theorems inv_intros "introduction rules for component invariants"

type_synonym u8 = "8 word"
type_synonym u16 = "16 word"
type_synonym u32 = "32 word"
type_synonym u64 = "64 word"
type_synonym bytes = "u8 list"

text \<open>
  A \<open>steady_clock::time_point\<close> is the count of nanoseconds since the clock's epoch; the
  value-initialised time point is 0. Successive calls of \<open>steady_clock::now()\<close> inside one
  operation read successive elements of a clock stream.
\<close>

type_synonym time_point = int
type_synonym clock = "nat \<Rightarrow> time_point"

definition now :: "clock \<Rightarrow> time_point" where
  "now c = c 0"

definition later :: "clock \<Rightarrow> clock" where
  "later c = (\<lambda>n. c (Suc n))"

definition int_max32 :: int where
  "int_max32 = 2147483647"

definition clamp_int :: "int \<Rightarrow> int \<Rightarrow> int \<Rightarrow> int" where
  "clamp_int v lo hi = (if v < lo then lo else if hi < v then hi else v)"

lemma clamp_int_bounds: "lo \<le> hi \<Longrightarrow> lo \<le> clamp_int v lo hi \<and> clamp_int v lo hi \<le> hi"
  by (simp add: clamp_int_def)

lemma clamp_int_id: "lo \<le> v \<Longrightarrow> v \<le> hi \<Longrightarrow> clamp_int v lo hi = v"
  by (simp add: clamp_int_def)

lemma clamp_int_mono: "v \<le> w \<Longrightarrow> lo \<le> hi \<Longrightarrow> clamp_int v lo hi \<le> clamp_int w lo hi"
  by (simp add: clamp_int_def)

lemma take_drop_split: "n \<le> m \<Longrightarrow> take n xs @ take (m - n) (drop n xs) = take m xs"
  by (metis le_add_diff_inverse take_add)

lemma take_drop_chunk: "n = a + b \<Longrightarrow> take n (drop k xs) = take a (drop k xs) @ take b (drop (k + a) xs)"
  by (simp add: take_add add.commute)

lemma take_length_append: "take (length xs) (xs @ ys) = xs"
  by simp

lemma last_take_nth: "0 < n \<Longrightarrow> n \<le> length xs \<Longrightarrow> last (take n xs) = xs ! (n - 1)"
  by (subst last_conv_nth) (auto simp: min_absorb2)

lemma unat_u8_less [simp]: "unat (w :: u8) < 256"
  by (rule order.strict_trans2 [OF unsigned_less]) simp

lemma unat_u16_less [simp]: "unat (w :: u16) < 65536"
  by (rule order.strict_trans2 [OF unsigned_less]) simp

lemma unat_u32_less [simp]: "unat (w :: u32) < 4294967296"
  by (rule order.strict_trans2 [OF unsigned_less]) simp

subsection \<open>std::size_t arithmetic and checked element access\<close>

text \<open>Unsigned subtraction wraps; reading past the end of a vector is undefined (\<open>None\<close>).\<close>

definition size_sub :: "nat \<Rightarrow> nat \<Rightarrow> nat" where
  "size_sub a b = (if b \<le> a then a - b else a + 2 ^ 64 - b)"

definition nth_opt :: "'a list \<Rightarrow> nat \<Rightarrow> 'a option" where
  "nth_opt xs i = (if i < length xs then Some (xs ! i) else None)"

definition slice :: "'a list \<Rightarrow> nat \<Rightarrow> nat \<Rightarrow> 'a list option" where
  "slice xs i n = (if i + n \<le> length xs then Some (take n (drop i xs)) else None)"

lemma size_sub_le [simp]: "b \<le> a \<Longrightarrow> size_sub a b = a - b"
  by (simp add: size_sub_def)

lemma nth_opt_less [simp]: "i < length xs \<Longrightarrow> nth_opt xs i = Some (xs ! i)"
  by (simp add: nth_opt_def)

lemma slice_within [simp]: "i + n \<le> length xs \<Longrightarrow> slice xs i n = Some (take n (drop i xs))"
  by (simp add: slice_def)

lemma in_set_slice: "p \<in> set (take n (drop i xs)) \<Longrightarrow> p \<in> set xs"
  by (meson in_set_dropD in_set_takeD)

end
