(* ===== verification/Fp.thy ===== *)
theory Fp
  imports Complex_Main Prelude
begin

text \<open>
  The C++ floating-point types: \<open>float\<close> is IEEE-754 binary32 and \<open>double\<close> is binary64, with
  the default rounding (to nearest, ties to even), gradual underflow and overflow to
  infinity. A value is a rational number or one of NaN and the infinities; the sign of zero
  is not represented (the code never divides by a computed zero and never inspects a sign
  bit). Every operation is the exact one followed by one rounding, so no contraction to fused
  operations and no excess precision is assumed. All definitions are executable on rationals.
\<close>

datatype fmt = F32 | F64

fun prec :: "fmt \<Rightarrow> int" where
  "prec F32 = 24"
| "prec F64 = 53"

fun emin :: "fmt \<Rightarrow> int" where
  "emin F32 = -126"
| "emin F64 = -1022"

fun emax :: "fmt \<Rightarrow> int" where
  "emax F32 = 127"
| "emax F64 = 1023"

datatype fp = NaN | PInf | NInf | Fin rat

subsection \<open>Powers of two, binary logarithm, rounding to an integer\<close>

definition pow2 :: "int \<Rightarrow> rat" where
  "pow2 e = (if 0 \<le> e then 2 ^ nat e else 1 / 2 ^ nat (- e))"

function nlog2 :: "int \<Rightarrow> int" where
  "nlog2 n = (if n < 2 then 0 else 1 + nlog2 (n div 2))"
  by pat_completeness auto
termination
  by (relation "measure nat") auto

declare nlog2.simps [simp del]

definition ilog2 :: "rat \<Rightarrow> int" where
  "ilog2 x = (let (a, b) = quotient_of x; e = nlog2 a - nlog2 b
              in if pow2 e \<le> x then e else e - 1)"

definition rne :: "rat \<Rightarrow> int" where
  "rne x = (let f = \<lfloor>x\<rfloor>; d = x - of_int f
            in if d < 1 / 2 then f else if 1 / 2 < d then f + 1 else if even f then f else f + 1)"

definition quantum :: "fmt \<Rightarrow> rat \<Rightarrow> int" where
  "quantum f x = max (ilog2 \<bar>x\<bar>) (emin f) - (prec f - 1)"

definition rndq :: "fmt \<Rightarrow> rat \<Rightarrow> rat" where
  "rndq f x = (if x = 0 then 0 else let q = quantum f x in of_int (rne (x / pow2 q)) * pow2 q)"

definition rnd :: "fmt \<Rightarrow> rat \<Rightarrow> fp" where
  "rnd f x = (let y = rndq f x
              in if pow2 (emax f + 1) \<le> y then PInf
                 else if y \<le> - pow2 (emax f + 1) then NInf else Fin y)"

lemma pow2_pos [simp]: "0 < pow2 e"
  by (simp add: pow2_def)

lemma pow2_nonneg [simp]: "0 \<le> pow2 e"
  by (rule less_imp_le) simp

lemma pow2_nonzero [simp]: "pow2 e \<noteq> 0"
  using pow2_pos [of e] by linarith

lemma pow2_0 [simp]: "pow2 0 = 1"
  by (simp add: pow2_def)

lemma pow2_1 [simp]: "pow2 1 = 2"
  by (simp add: pow2_def)

lemma pow2_powi: "pow2 e = 2 powi e"
  by (simp add: pow2_def power_int_def inverse_eq_divide power_one_over)

lemma pow2_add: "pow2 (a + b) = pow2 a * pow2 b"
  by (simp add: pow2_powi power_int_add)

lemma pow2_diff: "pow2 (a - b) = pow2 a / pow2 b"
  by (simp add: pow2_powi power_int_diff)

lemma pow2_mono: "a \<le> b \<Longrightarrow> pow2 a \<le> pow2 b"
  by (simp add: pow2_powi power_int_increasing)

lemma pow2_strict_mono: "a < b \<Longrightarrow> pow2 a < pow2 b"
  by (simp add: pow2_powi power_int_strict_increasing)

lemma pow2_less_iff [simp]: "pow2 a < pow2 b \<longleftrightarrow> a < b"
  by (meson not_less pow2_mono pow2_strict_mono)

lemma pow2_le_iff [simp]: "pow2 a \<le> pow2 b \<longleftrightarrow> a \<le> b"
  by (meson not_less pow2_mono pow2_strict_mono)

lemma pow2_int: "0 \<le> e \<Longrightarrow> pow2 e = of_int (2 ^ nat e)"
  by (simp add: pow2_def)

lemma nlog2_bounds: "0 < n \<Longrightarrow> 0 \<le> nlog2 n \<and> 2 ^ nat (nlog2 n) \<le> n \<and> n < 2 ^ nat (nlog2 n + 1)"
proof (induction n rule: nlog2.induct)
  case (1 n)
  show ?case
  proof (cases "n < 2")
    case True
    with 1 show ?thesis by (simp add: nlog2.simps [of n])
  next
    case False
    then have ih: "0 \<le> nlog2 (n div 2)" "2 ^ nat (nlog2 (n div 2)) \<le> n div 2"
      "n div 2 < 2 ^ nat (nlog2 (n div 2) + 1)" using "1.IH" by auto
    then have "nat (1 + nlog2 (n div 2)) = Suc (nat (nlog2 (n div 2)))"
      "nat (1 + nlog2 (n div 2) + 1) = Suc (nat (nlog2 (n div 2) + 1))" by linarith+
    moreover have "2 * 2 ^ nat (nlog2 (n div 2)) \<le> n" "n < 2 * 2 ^ nat (nlog2 (n div 2) + 1)"
      using ih(2,3) by presburger+
    ultimately show ?thesis using ih(1) False by (simp add: nlog2.simps [of n])
  qed
qed

lemma nlog2_rat:
  assumes "0 < a"
  shows "pow2 (nlog2 a) \<le> of_int a \<and> of_int a < pow2 (nlog2 a + 1)"
proof -
  let ?l = "nlog2 a"
  have l: "0 \<le> ?l" "2 ^ nat ?l \<le> a" "a < 2 ^ nat (?l + 1)"
    using nlog2_bounds [of a] assms by auto
  then have "of_int (2 ^ nat ?l) \<le> (of_int a :: rat)" "(of_int a :: rat) < of_int (2 ^ nat (?l + 1))"
    by (simp_all only: of_int_le_iff of_int_less_iff)
  with l(1) show ?thesis by (simp add: pow2_int)
qed

lemma ilog2_spec:
  assumes "0 < x"
  shows "pow2 (ilog2 x) \<le> x \<and> x < pow2 (ilog2 x + 1)"
proof -
  obtain a b where q: "quotient_of x = (a, b)" by fastforce
  have b: "0 < b" using quotient_of_denom_pos [OF q] .
  have x: "x = of_int a / of_int b" using quotient_of_div [OF q] .
  with assms b have a: "0 < a" by (simp add: zero_less_divide_iff)
  let ?la = "nlog2 a" and ?lb = "nlog2 b"
  note A = nlog2_rat [OF a] and B = nlog2_rat [OF b]
  have "x < pow2 (?la + 1) / pow2 ?lb"
    unfolding x using A B a by (intro frac_less) auto
  then have hi: "x < pow2 (?la - ?lb + 1)"
    by (simp add: pow2_diff [symmetric] algebra_simps)
  have "pow2 ?la / pow2 (?lb + 1) \<le> x"
    unfolding x using A B a b by (intro frac_le) auto
  then have lo: "pow2 (?la - ?lb - 1) \<le> x"
    by (simp add: pow2_diff [symmetric] algebra_simps)
  show ?thesis
    using hi lo by (simp add: ilog2_def q Let_def)
qed

lemma ilog2_unique: "0 < x \<Longrightarrow> pow2 e \<le> x \<Longrightarrow> x < pow2 (e + 1) \<Longrightarrow> ilog2 x = e"
proof -
  assume x: "0 < x" and lo: "pow2 e \<le> x" and hi: "x < pow2 (e + 1)"
  have "pow2 (ilog2 x) < pow2 (e + 1)" "pow2 e < pow2 (ilog2 x + 1)"
    using ilog2_spec [OF x] lo hi by linarith+
  then show ?thesis by simp
qed

lemma ilog2_mono: "0 < x \<Longrightarrow> x \<le> y \<Longrightarrow> ilog2 x \<le> ilog2 y"
proof -
  assume x: "0 < x" and xy: "x \<le> y"
  have "pow2 (ilog2 x) < pow2 (ilog2 y + 1)"
    using ilog2_spec [OF x] ilog2_spec [of y] x xy by linarith
  then show ?thesis by simp
qed

lemma rne_of_int [simp]: "rne (of_int k) = k"
  by (simp add: rne_def)

lemma rne_0 [simp]: "rne 0 = 0"
  by (simp add: rne_def)

lemma rne_near: "\<bar>of_int (rne x) - x\<bar> \<le> 1 / 2"
  unfolding rne_def Let_def by (auto simp: abs_if) linarith+

lemma rne_mono: "x \<le> y \<Longrightarrow> rne x \<le> rne y"
proof -
  assume xy: "x \<le> y"
  then have f: "\<lfloor>x\<rfloor> \<le> \<lfloor>y\<rfloor>" by (rule floor_mono)
  show ?thesis
  proof (cases "\<lfloor>x\<rfloor> = \<lfloor>y\<rfloor>")
    case True
    with xy show ?thesis by (auto simp: rne_def Let_def)
  next
    case False
    with f have "\<lfloor>x\<rfloor> + 1 \<le> \<lfloor>y\<rfloor>" by simp
    then show ?thesis by (auto simp: rne_def Let_def)
  qed
qed

lemma rne_minus: "rne (- x) = - rne x"
proof -
  have c: "\<lceil>x\<rceil> = (if x = of_int \<lfloor>x\<rfloor> then \<lfloor>x\<rfloor> else \<lfloor>x\<rfloor> + 1)"
    by (simp add: ceiling_altdef)
  show ?thesis
    by (auto simp: rne_def Let_def floor_minus c)
qed

subsection \<open>The rounding function\<close>

lemma quantum_minus [simp]: "quantum f (- x) = quantum f x"
  by (simp add: quantum_def)

lemma rndq_0 [simp]: "rndq f 0 = 0"
  by (simp add: rndq_def)

lemma rndq_minus: "rndq f (- x) = - rndq f x"
  by (simp add: rndq_def Let_def rne_minus)

lemma rne_div_pow2_le:
  assumes "x \<le> pow2 k" and "q \<le> k"
  shows "of_int (rne (x / pow2 q)) * pow2 q \<le> pow2 k"
proof -
  have "x / pow2 q \<le> pow2 (k - q)"
    using assms(1) by (simp add: pow2_diff divide_right_mono)
  also have "\<dots> = of_int (2 ^ nat (k - q))" using assms(2) by (simp add: pow2_int)
  finally have "rne (x / pow2 q) \<le> 2 ^ nat (k - q)" by (metis rne_mono rne_of_int)
  then have "(of_int (rne (x / pow2 q)) :: rat) \<le> of_int (2 ^ nat (k - q))"
    by (simp only: of_int_le_iff)
  also have "\<dots> = pow2 (k - q)" using assms(2) by (simp add: pow2_int)
  finally show ?thesis by (simp add: pow2_diff pos_le_divide_eq)
qed

lemma rne_div_pow2_ge:
  assumes "pow2 k \<le> x" and "q \<le> k"
  shows "pow2 k \<le> of_int (rne (x / pow2 q)) * pow2 q"
proof -
  have "(of_int (2 ^ nat (k - q)) :: rat) = pow2 (k - q)" using assms(2) by (simp add: pow2_int)
  also have "\<dots> \<le> x / pow2 q"
    using assms(1) by (simp add: pow2_diff divide_right_mono)
  finally have "2 ^ nat (k - q) \<le> rne (x / pow2 q)" by (metis rne_mono rne_of_int)
  then have "(of_int (2 ^ nat (k - q)) :: rat) \<le> of_int (rne (x / pow2 q))"
    by (simp only: of_int_le_iff)
  then have "pow2 k / pow2 q \<le> of_int (rne (x / pow2 q))"
    using assms(2) by (simp add: pow2_int pow2_diff [symmetric])
  then show ?thesis by (simp add: pos_divide_le_eq)
qed

lemma prec_ge_1: "1 \<le> prec f"
  by (cases f) simp_all

lemma rndq_nonneg: "0 \<le> x \<Longrightarrow> 0 \<le> rndq f x"
proof -
  assume "0 \<le> x"
  then have "0 \<le> x / pow2 (quantum f x)" by simp
  then have "0 \<le> rne (x / pow2 (quantum f x))" by (metis rne_mono rne_0)
  then show ?thesis by (simp add: rndq_def Let_def)
qed

lemma rndq_mono_pos:
  assumes "0 < x" and "x \<le> y"
  shows "rndq f x \<le> rndq f y"
proof (cases "quantum f x = quantum f y")
  case True
  have "x / pow2 (quantum f y) \<le> y / pow2 (quantum f y)"
    using assms(2) by (simp add: divide_right_mono)
  then have "rne (x / pow2 (quantum f y)) \<le> rne (y / pow2 (quantum f y))" by (rule rne_mono)
  with True assms show ?thesis
    by (simp add: rndq_def Let_def mult_right_mono)
next
  case False
  from assms have "ilog2 x \<le> ilog2 y" by (rule ilog2_mono)
  with False assms have lt: "max (ilog2 x) (emin f) < ilog2 y"
    by (auto simp: quantum_def max_def split: if_splits)
  let ?k = "ilog2 y"
  have "x < pow2 (ilog2 x + 1)" using ilog2_spec [OF assms(1)] by simp
  also have "\<dots> \<le> pow2 ?k" using lt by simp
  finally have "x \<le> pow2 ?k" by simp
  moreover have "quantum f x \<le> ?k" using lt assms prec_ge_1 [of f] unfolding quantum_def by auto
  ultimately have "rndq f x \<le> pow2 ?k"
    using assms by (simp add: rndq_def Let_def rne_div_pow2_le)
  moreover have "pow2 ?k \<le> y" using ilog2_spec [of y] assms by simp
  moreover have "quantum f y \<le> ?k" using lt assms prec_ge_1 [of f] unfolding quantum_def by auto
  ultimately show ?thesis
    using assms rne_div_pow2_ge [of ?k y "quantum f y"] by (simp add: rndq_def Let_def)
qed

lemma rndq_mono: "x \<le> y \<Longrightarrow> rndq f x \<le> rndq f y"
proof -
  assume xy: "x \<le> y"
  consider "0 < x" | "x \<le> 0" "0 \<le> y" | "y < 0" using xy by linarith
  then show ?thesis
  proof cases
    case 1
    then show ?thesis using xy by (rule rndq_mono_pos)
  next
    case 2
    then have "0 \<le> rndq f y" "0 \<le> rndq f (- x)" by (simp_all add: rndq_nonneg)
    then show ?thesis by (simp add: rndq_minus)
  next
    case 3
    then have "rndq f (- y) \<le> rndq f (- x)" using xy by (intro rndq_mono_pos) auto
    then show ?thesis by (simp add: rndq_minus)
  qed
qed

text \<open>A number with at most \<open>prec\<close> significant bits and no finer than the format's last
  subnormal place is represented exactly.\<close>

lemma rndq_exact:
  assumes x: "x = of_int m * pow2 e" and m: "\<bar>m\<bar> < 2 ^ nat (prec f)" and e: "emin f - (prec f - 1) \<le> e"
  shows "rndq f x = x"
proof (cases "m = 0")
  case True
  then show ?thesis using x by simp
next
  case False
  have xp: "0 < \<bar>x\<bar>" using x False by simp
  have "\<bar>x\<bar> = of_int \<bar>m\<bar> * pow2 e" using x by (simp add: abs_mult abs_of_pos)
  also have "\<dots> < of_int (2 ^ nat (prec f)) * pow2 e"
    using m by (intro mult_strict_right_mono) (simp_all only: of_int_less_iff pow2_pos)
  also have "\<dots> = pow2 (prec f + e)" by (cases f) (simp_all add: pow2_add pow2_int)
  finally have "pow2 (ilog2 \<bar>x\<bar>) < pow2 (prec f + e)" using ilog2_spec [OF xp] by linarith
  then have q: "quantum f x \<le> e" using e by (simp add: quantum_def)
  have "x / pow2 (quantum f x) = of_int m * pow2 (e - quantum f x)" using x by (simp add: pow2_diff)
  also have "\<dots> = of_int (m * 2 ^ nat (e - quantum f x))" using q by (simp add: pow2_int)
  finally have "x / pow2 (quantum f x) = of_int (m * 2 ^ nat (e - quantum f x))" .
  then have "of_int (rne (x / pow2 (quantum f x))) * pow2 (quantum f x) = x"
    by (metis rne_of_int nonzero_eq_divide_eq pow2_nonzero)
  then show ?thesis using xp by (simp add: rndq_def Let_def)
qed

lemma rndq_small_int: "\<bar>k\<bar> < 2 ^ 24 \<Longrightarrow> rndq f (of_int k) = of_int k"
  by (rule rndq_exact [where m = k and e = 0]) (cases f; simp)+

lemma rndq_1 [simp]: "rndq f 1 = 1"
  using rndq_small_int [of 1 f] by simp

lemma rndq_half [simp]: "rndq f (1 / 2) = 1 / 2"
  by (rule rndq_exact [where m = 1 and e = "-1"]) (cases f; simp add: pow2_def)+

lemma rndq_bounds:
  assumes "a \<le> x" and "x \<le> b" and "rndq f a = a" and "rndq f b = b"
  shows "a \<le> rndq f x \<and> rndq f x \<le> b"
  using rndq_mono [OF assms(1), of f] rndq_mono [OF assms(2), of f] assms(3,4) by simp

lemma rnd_Fin: "\<bar>rndq f x\<bar> < pow2 (emax f + 1) \<Longrightarrow> rnd f x = Fin (rndq f x)"
  by (auto simp: rnd_def Let_def abs_less_iff)

lemma emax_pow2: "2 ^ 24 < pow2 (emax f + 1)"
  by (cases f) (simp_all add: pow2_def)

lemma rnd_in_range:
  assumes "a \<le> x" and "x \<le> b" and "rndq f a = a" and "rndq f b = b"
    and "- (2 ^ 24) \<le> a" and "b \<le> 2 ^ 24"
  shows "rnd f x = Fin (rndq f x) \<and> a \<le> rndq f x \<and> rndq f x \<le> b"
proof -
  have bd: "a \<le> rndq f x \<and> rndq f x \<le> b" using assms(1-4) by (rule rndq_bounds)
  then have "\<bar>rndq f x\<bar> < pow2 (emax f + 1)" using assms(5,6) emax_pow2 [of f] by linarith
  with bd show ?thesis by (simp add: rnd_Fin)
qed

subsection \<open>Comparisions, arithmetic, conversions\<close>

fun isfinite :: "fp \<Rightarrow> bool" where
  "isfinite (Fin _) = True"
| "isfinite _ = False"

fun flt :: "fp \<Rightarrow> fp \<Rightarrow> bool" where
  "flt NaN _ = False"
| "flt _ NaN = False"
| "flt (Fin a) (Fin b) = (a < b)"
| "flt _ NInf = False"
| "flt NInf _ = True"
| "flt PInf _ = False"
| "flt _ PInf = True"

fun feq :: "fp \<Rightarrow> fp \<Rightarrow> bool" where
  "feq NaN _ = False"
| "feq a b = (a = b)"

definition fle :: "fp \<Rightarrow> fp \<Rightarrow> bool" where
  "fle a b = (flt a b \<or> feq a b)"

fun fneg :: "fp \<Rightarrow> fp" where
  "fneg NaN = NaN"
| "fneg PInf = NInf"
| "fneg NInf = PInf"
| "fneg (Fin a) = Fin (- a)"

fun fabs :: "fp \<Rightarrow> fp" where
  "fabs NaN = NaN"
| "fabs PInf = PInf"
| "fabs NInf = PInf"
| "fabs (Fin a) = Fin \<bar>a\<bar>"

fun fadd :: "fmt \<Rightarrow> fp \<Rightarrow> fp \<Rightarrow> fp" where
  "fadd f NaN _ = NaN"
| "fadd f _ NaN = NaN"
| "fadd f (Fin a) (Fin b) = rnd f (a + b)"
| "fadd f PInf NInf = NaN"
| "fadd f NInf PInf = NaN"
| "fadd f PInf _ = PInf"
| "fadd f _ PInf = PInf"
| "fadd f NInf _ = NInf"
| "fadd f _ NInf = NInf"

definition fsub :: "fmt \<Rightarrow> fp \<Rightarrow> fp \<Rightarrow> fp" where
  "fsub f a b = fadd f a (fneg b)"

definition inf_of :: "rat \<Rightarrow> fp" where
  "inf_of s = (if s = 0 then NaN else if 0 < s then PInf else NInf)"

fun fmul :: "fmt \<Rightarrow> fp \<Rightarrow> fp \<Rightarrow> fp" where
  "fmul f NaN _ = NaN"
| "fmul f _ NaN = NaN"
| "fmul f (Fin a) (Fin b) = rnd f (a * b)"
| "fmul f (Fin a) PInf = inf_of a"
| "fmul f (Fin a) NInf = inf_of (- a)"
| "fmul f PInf (Fin a) = inf_of a"
| "fmul f NInf (Fin a) = inf_of (- a)"
| "fmul f PInf PInf = PInf"
| "fmul f NInf NInf = PInf"
| "fmul f _ _ = NInf"

text \<open>A zero divisor is read as \<open>+0\<close>.\<close>

fun fdiv :: "fmt \<Rightarrow> fp \<Rightarrow> fp \<Rightarrow> fp" where
  "fdiv f NaN _ = NaN"
| "fdiv f _ NaN = NaN"
| "fdiv f (Fin a) (Fin b) = (if b = 0 then inf_of a else rnd f (a / b))"
| "fdiv f (Fin a) _ = Fin 0"
| "fdiv f PInf (Fin b) = (if 0 \<le> b then PInf else NInf)"
| "fdiv f NInf (Fin b) = (if 0 \<le> b then NInf else PInf)"
| "fdiv f _ _ = NaN"

definition fmax :: "fp \<Rightarrow> fp \<Rightarrow> fp" where
  "fmax a b = (if flt a b then b else a)"

definition fmin :: "fp \<Rightarrow> fp \<Rightarrow> fp" where
  "fmin a b = (if flt b a then b else a)"

definition fclamp :: "fp \<Rightarrow> fp \<Rightarrow> fp \<Rightarrow> fp" where
  "fclamp v lo hi = (if flt v lo then lo else if flt hi v then hi else v)"

definition of_num :: "fmt \<Rightarrow> int \<Rightarrow> fp" where
  "of_num f n = rnd f (of_int n)"

text \<open>
  \<open>std::lround\<close> and \<open>std::llround\<close> round half away from zero, \<open>std::floor\<close> and
  \<open>std::ceil\<close> are exact, and a cast to an integer type truncates. The conversion of a NaN
  or an infinity to an integer has no defined result in C++: the integer readers below are
  partial there.
\<close>

definition round_away :: "rat \<Rightarrow> int" where
  "round_away q = (if 0 \<le> q then \<lfloor>q + 1 / 2\<rfloor> else - \<lfloor>1 / 2 - q\<rfloor>)"

definition trunc_rat :: "rat \<Rightarrow> int" where
  "trunc_rat q = (if 0 \<le> q then \<lfloor>q\<rfloor> else - \<lfloor>- q\<rfloor>)"

fun lround :: "fp \<Rightarrow> int option" where
  "lround (Fin q) = Some (round_away q)"
| "lround _ = None"

fun ftrunc :: "fp \<Rightarrow> int option" where
  "ftrunc (Fin q) = Some (trunc_rat q)"
| "ftrunc _ = None"

fun fceil :: "fp \<Rightarrow> fp" where
  "fceil (Fin q) = Fin (of_int \<lceil>q\<rceil>)"
| "fceil v = v"

fun ffloor :: "fp \<Rightarrow> fp" where
  "ffloor (Fin q) = Fin (of_int \<lfloor>q\<rfloor>)"
| "ffloor v = v"

subsection \<open>Square root, correctly rounded\<close>

function isqrt :: "int \<Rightarrow> int" where
  "isqrt n = (if n \<le> 0 then 0
     else let r = 2 * isqrt (n div 4) in if (r + 1) * (r + 1) \<le> n then r + 1 else r)"
  by pat_completeness auto
termination
  by (relation "measure nat") auto

declare isqrt.simps [simp del]

definition sqrt_quantum :: "fmt \<Rightarrow> rat \<Rightarrow> int" where
  "sqrt_quantum f x = max (ilog2 x div 2) (emin f) - (prec f - 1)"

definition sqrt_rnd :: "fmt \<Rightarrow> rat \<Rightarrow> rat" where
  "sqrt_rnd f x = (if x = 0 then 0 else
     let q = sqrt_quantum f x;
         y = x / pow2 (2 * q);
         n = isqrt \<lfloor>y\<rfloor>;
         h = (of_int n + 1 / 2) ^ 2
     in of_int (if y < h then n else if h < y then n + 1 else if even n then n else n + 1) * pow2 q)"

fun fsqrt :: "fmt \<Rightarrow> fp \<Rightarrow> fp" where
  "fsqrt f (Fin x) = (if x < 0 then NaN else Fin (sqrt_rnd f x))"
| "fsqrt f PInf = PInf"
| "fsqrt f _ = NaN"

lemma isqrt_spec:
  "0 \<le> n \<Longrightarrow> 0 \<le> isqrt n \<and> isqrt n * isqrt n \<le> n \<and> n < (isqrt n + 1) * (isqrt n + 1)"
proof (induction n rule: isqrt.induct)
  case (1 n)
  show ?case
  proof (cases "n \<le> 0")
    case True
    then show ?thesis using "1.prems" by (simp add: isqrt.simps)
  next
    case False
    let ?r = "isqrt (n div 4)"
    have ih: "0 \<le> ?r" "?r * ?r \<le> n div 4" "n div 4 < (?r + 1) * (?r + 1)" using "1.IH" False by auto
    then have "4 * (?r * ?r) \<le> n" "n < 4 * ((?r + 1) * (?r + 1))" by presburger+
    then have "2 * ?r * (2 * ?r) \<le> n" "n < (2 * ?r + 1 + 1) * (2 * ?r + 1 + 1)"
      by (simp_all add: algebra_simps)
    with False ih(1) show ?thesis by (simp add: isqrt.simps [of n] Let_def)
  qed
qed

lemma isqrt_nonneg: "0 \<le> isqrt n"
  using isqrt_spec [of n] by (cases "n \<le> 0") (simp_all add: isqrt.simps)

lemma sqrt_rnd_nonneg: "0 \<le> sqrt_rnd f x"
  using isqrt_nonneg by (simp add: sqrt_rnd_def Let_def)

text \<open>A cast to \<open>std::size_t\<close>: defined when the truncated value is in range.\<close>

definition cast_size :: "fp \<Rightarrow> nat option" where
  "cast_size v = (case ftrunc v of Some k \<Rightarrow> if 0 \<le> k \<and> k < 2 ^ 64 then Some (nat k) else None | None \<Rightarrow> None)"

text \<open>A square root never exceeds a bound on the quantum's grid whose square bounds the argument.\<close>

lemma sqrt_rnd_le:
  assumes x: "0 \<le> x" "x \<le> B * B" and B: "B = of_int m * pow2 e" "0 \<le> B" and e: "sqrt_quantum f x \<le> e"
  shows "sqrt_rnd f x \<le> B"
proof (cases "x = 0")
  case True
  then show ?thesis using B(2) by (simp add: sqrt_rnd_def)
next
  case False
  let ?q = "sqrt_quantum f x" and ?k = "m * 2 ^ nat (e - sqrt_quantum f x)"
  let ?y = "x / pow2 (2 * ?q)"
  let ?n = "isqrt \<lfloor>?y\<rfloor>"
  have "of_int (2 ^ nat (e - ?q)) = pow2 (e - ?q)" using e by (subst pow2_int) auto
  then have "pow2 e = of_int (2 ^ nat (e - ?q)) * pow2 ?q"
    by (simp only: pow2_diff) simp
  then have Bk: "B = of_int ?k * pow2 ?q" using B(1) by simp
  have "0 \<le> m" using B pow2_pos [of e] by (simp add: zero_le_mult_iff not_le [symmetric])
  then have k0: "0 \<le> ?k" by simp
  have "?y \<le> B * B / pow2 (2 * ?q)" using x(2) by (simp add: divide_right_mono)
  also have "\<dots> = of_int (?k * ?k)" unfolding Bk by (simp add: pow2_add [symmetric] mult_2 [symmetric] power2_eq_square field_simps)
  finally have yk: "?y \<le> of_int (?k * ?k)" .
  have fl: "0 \<le> \<lfloor>?y\<rfloor>" "\<lfloor>?y\<rfloor> \<le> ?k * ?k" using x(1) yk by (simp, linarith)
  have n: "0 \<le> ?n" "?n * ?n \<le> \<lfloor>?y\<rfloor>" using isqrt_spec [OF fl(1)] by auto
  have nk: "?n \<le> ?k"
  proof (rule ccontr)
    assume "\<not> ?n \<le> ?k"
    then have "?k * ?k < ?n * ?n" using k0 by (intro mult_strict_mono') auto
    with n(2) fl(2) show False by linarith
  qed
  have "(if ?y < (of_int ?n + 1 / 2) ^ 2 then ?n else if (of_int ?n + 1 / 2) ^ 2 < ?y then ?n + 1 else if even ?n then ?n else ?n + 1) \<le> ?k"
    (is "?r \<le> _")
  proof (cases "?n = ?k")
    case True
    have "(of_int j * of_int j :: rat) < (of_int j + 1 / 2) ^ 2" if "0 \<le> j" for j :: int
    proof -
      have "0 \<le> (of_int j :: rat)" using that by simp
      then show ?thesis by (simp add: power2_eq_square algebra_simps)
    qed
    from this [OF k0] have "of_int (?k * ?k) < (of_int ?k + 1 / 2 :: rat) ^ 2" by (simp only: of_int_mult)
    with yk have "?y < (of_int ?k + 1 / 2) ^ 2" by (rule order.strict_trans1)
    then show ?thesis unfolding True by (simp only: if_True order_refl)
  next
    case False
    with nk show ?thesis by auto
  qed
  then have "(of_int ?r :: rat) \<le> of_int ?k" by (simp only: of_int_le_iff)
  then have "of_int ?r * pow2 ?q \<le> B" unfolding Bk by (intro mult_right_mono) auto
  then show ?thesis using False by (simp add: sqrt_rnd_def Let_def)
qed

text \<open>\<open>std::llround\<close>: defined when the rounded value fits \<open>long long\<close>. A narrowing cast to
  \<open>int\<close> keeps the low 32 bits.\<close>

definition llround :: "fp \<Rightarrow> int option" where
  "llround v = (case lround v of Some k \<Rightarrow> if - (2 ^ 63) \<le> k \<and> k < 2 ^ 63 then Some k else None | None \<Rightarrow> None)"

definition cast_int :: "int \<Rightarrow> int" where
  "cast_int k = (k + 2 ^ 31) mod 2 ^ 32 - 2 ^ 31"

lemma cast_int_range: "- (2 ^ 31) \<le> cast_int k \<and> cast_int k < 2 ^ 31"
  by (simp add: cast_int_def)

lemma cast_int_id: "- (2 ^ 31) \<le> k \<Longrightarrow> k < 2 ^ 31 \<Longrightarrow> cast_int k = k"
  by (simp add: cast_int_def)

lemma rndq_error: "\<bar>rndq f x - x\<bar> \<le> pow2 (quantum f x) / 2"
proof (cases "x = 0")
  case False
  let ?q = "quantum f x" and ?k = "of_int (rne (x / pow2 (quantum f x))) :: rat"
  have "\<bar>?k - x / pow2 ?q\<bar> * pow2 ?q \<le> 1 / 2 * pow2 ?q"
    by (intro mult_right_mono rne_near) simp
  moreover have "\<bar>?k - x / pow2 ?q\<bar> * pow2 ?q = \<bar>(?k - x / pow2 ?q) * pow2 ?q\<bar>" by (simp add: abs_mult abs_of_pos)
  moreover have "(?k - x / pow2 ?q) * pow2 ?q = ?k * pow2 ?q - x" by (simp add: left_diff_distrib)
  ultimately show ?thesis using False by (simp add: rndq_def Let_def)
qed (simp add: less_imp_le)

lemma quantum_le: "x \<noteq> 0 \<Longrightarrow> \<bar>x\<bar> < pow2 (k + 1) \<Longrightarrow> emin f \<le> k \<Longrightarrow> quantum f x \<le> k - (prec f - 1)"
proof -
  assume x: "x \<noteq> 0" "\<bar>x\<bar> < pow2 (k + 1)" "emin f \<le> k"
  have "pow2 (ilog2 \<bar>x\<bar>) < pow2 (k + 1)" using ilog2_spec [of "\<bar>x\<bar>"] x by linarith
  then show ?thesis using x(3) by (simp add: quantum_def)
qed

lemma rndq_error_le: "\<bar>x\<bar> < pow2 (k + 1) \<Longrightarrow> emin f \<le> k \<Longrightarrow> \<bar>rndq f x - x\<bar> \<le> pow2 (k - prec f)"
proof (cases "x = 0")
  case False
  assume x: "\<bar>x\<bar> < pow2 (k + 1)" "emin f \<le> k"
  have "pow2 (quantum f x) / 2 \<le> pow2 (k - (prec f - 1)) / 2"
    using quantum_le [OF False x] by simp
  also have "\<dots> = pow2 (k - prec f)" by (simp add: pow2_diff) 
  finally show ?thesis using rndq_error [of f x] by linarith
qed simp

lemma rndq_F64_int: "\<bar>k\<bar> < 2 ^ 53 \<Longrightarrow> rndq F64 (of_int k) = of_int k"
  by (rule rndq_exact [where m = k and e = 0]) simp_all

lemma of_num_F64: "\<bar>k\<bar> < 2 ^ 53 \<Longrightarrow> of_num F64 k = Fin (of_int k)"
proof -
  assume k: "\<bar>k\<bar> < 2 ^ 53"
  have "\<bar>of_int k :: rat\<bar> = of_int \<bar>k\<bar>" by simp
  also have "\<dots> < of_int (2 ^ 53)" using k by (simp only: of_int_less_iff)
  also have "\<dots> < pow2 (emax F64 + 1)" by (simp add: pow2_def)
  finally show ?thesis using rndq_F64_int [OF k] by (simp add: of_num_def rnd_Fin)
qed

subsection \<open>Rounding half away from zero\<close>

lemma round_away_mono: "a \<le> b \<Longrightarrow> round_away a \<le> round_away b"
proof -
  assume ab: "a \<le> b"
  consider "0 \<le> a" | "a < 0" "0 \<le> b" | "b < 0" using ab by linarith
  then show ?thesis
  proof cases
    case 1
    with ab show ?thesis by (simp add: round_away_def floor_mono)
  next
    case 2
    then have "0 \<le> \<lfloor>1 / 2 - a\<rfloor>" "0 \<le> \<lfloor>b + 1 / 2\<rfloor>" by simp_all
    then have "- \<lfloor>1 / 2 - a\<rfloor> \<le> \<lfloor>b + 1 / 2\<rfloor>" by linarith
    with 2 show ?thesis by (simp add: round_away_def)
  next
    case 3
    have "\<lfloor>1 / 2 - b\<rfloor> \<le> \<lfloor>1 / 2 - a\<rfloor>" using ab by (intro floor_mono) simp
    with 3 ab show ?thesis by (simp add: round_away_def)
  qed
qed

lemma round_away_of_int [simp]: "round_away (of_int k) = k"
proof -
  have "\<lfloor>of_int j + (1 / 2 :: rat)\<rfloor> = j" for j by (simp add: floor_eq_iff)
  from this [of k] this [of "- k"] show ?thesis by (simp add: round_away_def algebra_simps)
qed

lemma round_away_range: "of_int a \<le> x \<Longrightarrow> x \<le> of_int b \<Longrightarrow> a \<le> round_away x \<and> round_away x \<le> b"
  using round_away_mono [of "of_int a" x] round_away_mono [of x "of_int b"] by (simp add: round_away_of_int)

lemma round_away_01 [simp]: "round_away 0 = 0" "round_away 1 = 1"
  using round_away_of_int [of 0] round_away_of_int [of 1] by simp_all

lemma round_away_numeral [simp]:
  "round_away (numeral k) = numeral k" "round_away (- numeral k) = - numeral k"
  using round_away_of_int [of "numeral k"] round_away_of_int [of "- numeral k"] by simp_all

lemma round_away_near: "\<bar>of_int (round_away x) - x\<bar> \<le> 1 / 2"
proof (cases "0 \<le> x")
  case True
  then show ?thesis unfolding round_away_def abs_le_iff by simp linarith
next
  case False
  then show ?thesis unfolding round_away_def abs_le_iff by simp linarith
qed

end
