(* ===== verification/Bytes.thy ===== *)
theory Bytes
  imports Prelude "HOL-Library.Monad_Syntax"
begin

text \<open>
  Byte-level encoding shared by the wire protocols: the little-endian \<open>ByteBuffer\<close>
  (src/core/ByteBuffer.cpp) and readers (include/libera/core/ByteRead.hpp), and the
  big-endian appenders and readers of the LightSpace Net packets. A pointer that may be null
  is an optional byte list; reading through a pointer past the end of the data is undefined
  in C++, so a read is partial and \<open>None\<close> stands for the undefined read. The locale
  \<open>codec\<close> is the contract between the appenders and the readers of one integer type; it
  is interpreted on each of the five pairs the code has.
\<close>

subsection \<open>ByteBuffer\<close>

record ByteBuffer =
  buffer :: bytes

definition bb_clear :: "ByteBuffer \<Rightarrow> ByteBuffer" where
  "bb_clear b = b\<lparr>buffer := []\<rparr>"

definition appendChar :: "u8 \<Rightarrow> ByteBuffer \<Rightarrow> ByteBuffer" where
  "appendChar v b = b\<lparr>buffer := buffer b @ [v]\<rparr>"

definition appendUInt8 :: "u8 \<Rightarrow> ByteBuffer \<Rightarrow> ByteBuffer" where
  "appendUInt8 v b = b\<lparr>buffer := buffer b @ [v]\<rparr>"

definition le16 :: "u16 \<Rightarrow> bytes" where
  "le16 v = [ucast (v AND 0xFF), ucast (drop_bit 8 v AND 0xFF)]"

definition le32 :: "u32 \<Rightarrow> bytes" where
  "le32 v = [ucast (v AND 0xFF), ucast (drop_bit 8 v AND 0xFF),
             ucast (drop_bit 16 v AND 0xFF), ucast (drop_bit 24 v AND 0xFF)]"

definition appendUInt16 :: "u16 \<Rightarrow> ByteBuffer \<Rightarrow> ByteBuffer" where
  "appendUInt16 v b = b\<lparr>buffer := buffer b @ le16 v\<rparr>"

text \<open>A signed 16-bit value is the word of its two's complement bits.\<close>

definition appendInt16 :: "u16 \<Rightarrow> ByteBuffer \<Rightarrow> ByteBuffer" where
  "appendInt16 v b = appendUInt16 v b"

definition appendUInt32 :: "u32 \<Rightarrow> ByteBuffer \<Rightarrow> ByteBuffer" where
  "appendUInt32 v b = b\<lparr>buffer := buffer b @ le32 v\<rparr>"

definition bb_size :: "ByteBuffer \<Rightarrow> nat" where
  "bb_size b = length (buffer b)"

subsection \<open>Reads through a pointer\<close>

definition rd8 :: "bytes \<Rightarrow> nat \<Rightarrow> u8 option" where
  "rd8 data i = (if i < length data then Some (data ! i) else None)"

definition readLe16 :: "bytes \<Rightarrow> u16 option" where
  "readLe16 data = do {
     b0 \<leftarrow> rd8 data 0; b1 \<leftarrow> rd8 data 1;
     Some (ucast b0 OR push_bit 8 (ucast b1)) }"

definition readLe32 :: "bytes \<Rightarrow> u32 option" where
  "readLe32 data = do {
     b0 \<leftarrow> rd8 data 0; b1 \<leftarrow> rd8 data 1; b2 \<leftarrow> rd8 data 2; b3 \<leftarrow> rd8 data 3;
     Some (ucast b0 OR push_bit 8 (ucast b1) OR push_bit 16 (ucast b2) OR push_bit 24 (ucast b3)) }"

subsection \<open>Big-endian appenders and readers\<close>

definition be16 :: "u16 \<Rightarrow> bytes" where
  "be16 v = [ucast (drop_bit 8 v AND 0xFF), ucast (v AND 0xFF)]"

definition be32 :: "u32 \<Rightarrow> bytes" where
  "be32 v = [ucast (drop_bit 24 v AND 0xFF), ucast (drop_bit 16 v AND 0xFF),
             ucast (drop_bit 8 v AND 0xFF), ucast (v AND 0xFF)]"

definition be64 :: "u64 \<Rightarrow> bytes" where
  "be64 v = be32 (ucast (drop_bit 32 v AND 0xFFFFFFFF)) @ be32 (ucast (v AND 0xFFFFFFFF))"

definition appendBe16 :: "bytes \<Rightarrow> u16 \<Rightarrow> bytes" where
  "appendBe16 output v = output @ be16 v"

definition appendBe32 :: "bytes \<Rightarrow> u32 \<Rightarrow> bytes" where
  "appendBe32 output v = output @ be32 v"

definition appendBe64 :: "bytes \<Rightarrow> u64 \<Rightarrow> bytes" where
  "appendBe64 output v =
     appendBe32 (appendBe32 output (ucast (drop_bit 32 v AND 0xFFFFFFFF))) (ucast (v AND 0xFFFFFFFF))"

definition readBe16 :: "bytes \<Rightarrow> u16 option" where
  "readBe16 data = do {
     b0 \<leftarrow> rd8 data 0; b1 \<leftarrow> rd8 data 1;
     Some (push_bit 8 (ucast b0) OR ucast b1) }"

definition readBe32 :: "bytes \<Rightarrow> u32 option" where
  "readBe32 data = do {
     b0 \<leftarrow> rd8 data 0; b1 \<leftarrow> rd8 data 1; b2 \<leftarrow> rd8 data 2; b3 \<leftarrow> rd8 data 3;
     Some (push_bit 24 (ucast b0) OR push_bit 16 (ucast b1) OR push_bit 8 (ucast b2) OR ucast b3) }"

definition readBe64 :: "bytes \<Rightarrow> u64 option" where
  "readBe64 data = do {
     hi \<leftarrow> readBe32 data; lo \<leftarrow> readBe32 (drop 4 data);
     Some (push_bit 32 (ucast hi) OR ucast lo) }"

subsection \<open>The contract of an integer encoding\<close>

locale codec =
  fixes width :: nat
    and put :: "'v \<Rightarrow> bytes"
    and get :: "bytes \<Rightarrow> 'v option"
  assumes length_put: "length (put v) = width"
    and get_put: "get (put v @ rest) = Some v"
    and get_total: "width \<le> length data \<Longrightarrow> \<exists>v. get data = Some v \<and> put v = take width data"
    and get_short: "length data < width \<Longrightarrow> get data = None"
begin

lemma get_at: "length pre = n \<Longrightarrow> get (drop n (pre @ put v @ post)) = Some v"
  by (simp add: get_put)

lemma get_at_end: "length pre = n \<Longrightarrow> get (drop n (pre @ put v)) = Some v"
  using get_put [of v "[]"] by simp

lemma get_drop: "n + width \<le> length data \<Longrightarrow> \<exists>v. get (drop n data) = Some v"
  using get_total [of "drop n data"] by force

lemma put_inj: "put v = put w \<Longrightarrow> v = w"
  using get_put [of v "[]"] get_put [of w "[]"] by simp

lemma get_defined_iff: "get data \<noteq> None \<longleftrightarrow> width \<le> length data"
  using get_total [of data] get_short [of data] by fastforce

lemma get_SomeE: "width \<le> length data \<Longrightarrow> (\<And>v. get data = Some v \<Longrightarrow> P) \<Longrightarrow> P"
  using get_total by blast

lemma length_put_all: "length (concat (map put vs)) = width * length vs"
  by (induction vs) (simp_all add: length_put)

lemma get_nth_of_all:
  "i < length vs \<Longrightarrow> get (drop (width * i) (concat (map put vs) @ rest)) = Some (vs ! i)"
proof (induction vs arbitrary: i)
  case Nil
  then show ?case by simp
next
  case (Cons v vs)
  then show ?case
    by (cases i) (simp_all add: get_put length_put)
qed

end

lemma rd8_in: "i < length data \<Longrightarrow> rd8 data i = Some (data ! i)"
  by (simp add: rd8_def)

lemma rd8_out: "length data \<le> i \<Longrightarrow> rd8 data i = None"
  by (simp add: rd8_def)

lemma length_ge_2: "2 \<le> length xs \<Longrightarrow> \<exists>a b ys. xs = a # b # ys"
  by (cases xs; cases "tl xs") auto

lemma length_ge_4: "4 \<le> length xs \<Longrightarrow> \<exists>a b c d ys. xs = a # b # c # d # ys"
proof -
  assume l: "4 \<le> length xs"
  obtain a b ys where 1: "xs = a # b # ys" using l length_ge_2 [of xs] by fastforce
  with l obtain c d zs where "ys = c # d # zs" using length_ge_2 [of ys] by fastforce
  with 1 show ?thesis by blast
qed

lemma ff_mask: "(255 :: 'a::len word) = mask 8"
  by (simp add: mask_eq_exp_minus_1)

lemma ffffffff_mask: "(4294967295 :: 'a::len word) = mask 32"
  by (simp add: mask_eq_exp_minus_1)

lemmas byte_defs = le16_def le32_def be16_def be32_def be64_def ff_mask ffffffff_mask
lemmas read_defs = readLe16_def readLe32_def readBe16_def readBe32_def readBe64_def

lemma le16_get_put: "readLe16 (le16 v @ rest) = Some v"
  by (simp add: read_defs byte_defs rd8_def) (rule bit_word_eqI, auto simp: bit_simps)

lemma bytes_of_u32:
  fixes v :: u32
  shows "ucast (ucast (v AND 255) :: u8) OR push_bit 8 (ucast (ucast (drop_bit 8 v AND 255) :: u8)) OR
    push_bit 16 (ucast (ucast (drop_bit 16 v AND 255) :: u8)) OR
    push_bit 24 (ucast (ucast (drop_bit 24 v AND 255) :: u8)) = v" (is "?w = v")
proof (rule bit_word_eqI)
  fix n assume "n < LENGTH(32)"
  then show "bit ?w n = bit v n"
    by (cases "n < 8"; cases "n < 16"; cases "n < 24") (auto simp: bit_simps ff_mask)
qed

lemma le32_get_put: "readLe32 (le32 v @ rest) = Some v"
  using bytes_of_u32 [of v] by (simp add: readLe32_def le32_def rd8_def)

lemma be16_get_put: "readBe16 (be16 v @ rest) = Some v"
  by (simp add: read_defs byte_defs rd8_def) (rule bit_word_eqI, auto simp: bit_simps)

lemma be32_get_put: "readBe32 (be32 v @ rest) = Some v"
  using bytes_of_u32 [of v] by (simp add: readBe32_def be32_def rd8_def or.commute or.left_commute)

lemma length_be32: "length (be32 v) = 4"
  by (simp add: be32_def)

lemma be64_get_put: "readBe64 (be64 v @ rest) = Some v"
  by (simp add: readBe64_def be64_def be32_get_put length_be32 ffffffff_mask)
     (rule bit_word_eqI, auto simp: bit_simps)

lemma le16_put_get: "2 \<le> length data \<Longrightarrow> \<exists>v. readLe16 data = Some v \<and> le16 v = take 2 data"
  by (drule length_ge_2, elim exE, simp add: read_defs byte_defs rd8_def)
     (intro conjI bit_word_eqI; auto simp: bit_simps dest: bit_imp_le_length)

lemma le32_put_get: "4 \<le> length data \<Longrightarrow> \<exists>v. readLe32 data = Some v \<and> le32 v = take 4 data"
  by (drule length_ge_4, elim exE, simp add: read_defs byte_defs rd8_def)
     (intro conjI bit_word_eqI; auto simp: bit_simps dest: bit_imp_le_length)

lemma be16_put_get: "2 \<le> length data \<Longrightarrow> \<exists>v. readBe16 data = Some v \<and> be16 v = take 2 data"
  by (drule length_ge_2, elim exE, simp add: read_defs byte_defs rd8_def)
     (intro conjI bit_word_eqI; auto simp: bit_simps dest: bit_imp_le_length)

lemma be32_put_get: "4 \<le> length data \<Longrightarrow> \<exists>v. readBe32 data = Some v \<and> be32 v = take 4 data"
  by (drule length_ge_4, elim exE, simp add: read_defs byte_defs rd8_def)
     (intro conjI bit_word_eqI; auto simp: bit_simps dest: bit_imp_le_length)

lemma be64_put_get:
  assumes "8 \<le> length data"
  shows "\<exists>v. readBe64 data = Some v \<and> be64 v = take 8 data"
proof -
  obtain hi where hi: "readBe32 data = Some hi" "be32 hi = take 4 data"
    using be32_put_get [of data] assms by auto
  obtain lo where lo: "readBe32 (drop 4 data) = Some lo" "be32 lo = take 4 (drop 4 data)"
    using be32_put_get [of "drop 4 data"] assms by force
  have "ucast (drop_bit 32 (push_bit 32 (ucast hi) OR ucast lo :: u64) AND 0xFFFFFFFF) = hi"
    "ucast ((push_bit 32 (ucast hi) OR ucast lo :: u64) AND 0xFFFFFFFF) = lo"
    by (rule bit_word_eqI, auto simp: bit_simps ffffffff_mask dest: bit_imp_le_length)+
  with hi lo assms show ?thesis
    by (simp add: readBe64_def be64_def flip: take_add)
qed

lemma length_wire [wire_simps]:
  "length (le16 v) = 2" "length (le32 w) = 4" "length (be16 v) = 2" "length (be32 w) = 4" "length (be64 x) = 8"
  by (simp_all add: le16_def le32_def be16_def be32_def be64_def)

lemma read_short:
  "length data < 2 \<Longrightarrow> readLe16 data = None" "length data < 4 \<Longrightarrow> readLe32 data = None"
  "length data < 2 \<Longrightarrow> readBe16 data = None" "length data < 4 \<Longrightarrow> readBe32 data = None"
  by (auto simp: read_defs rd8_out bind_eq_None_conv rd8_def split: if_splits)

lemma readBe64_short: "length data < 8 \<Longrightarrow> readBe64 data = None"
  by (cases "length data < 4") (auto simp: readBe64_def read_short bind_eq_None_conv)

interpretation cLe16: codec 2 le16 readLe16
  by unfold_locales (rule length_wire le16_get_put le16_put_get read_short; assumption?)+

interpretation cLe32: codec 4 le32 readLe32
  by unfold_locales (rule length_wire le32_get_put le32_put_get read_short; assumption?)+

interpretation cBe16: codec 2 be16 readBe16
  by unfold_locales (rule length_wire be16_get_put be16_put_get read_short; assumption?)+

interpretation cBe32: codec 4 be32 readBe32
  by unfold_locales (rule length_wire be32_get_put be32_put_get read_short; assumption?)+

interpretation cBe64: codec 8 be64 readBe64
  by unfold_locales (rule length_wire be64_get_put be64_put_get readBe64_short; assumption?)+

end
