(* ===== verification/Laser_Point.thy ===== *)
theory Laser_Point
  imports Fp
begin

text \<open>
  The laser point (include/libera/core/LaserPoint.hpp), the sanitising of incoming points
  and the unit-range encoders of LaserControllerStreaming that every transport uses. Points
  hold binary32 values of theory Fp.
\<close>

record LaserPoint =
  pt_x :: fp
  pt_y :: fp
  pt_r :: fp
  pt_g :: fp
  pt_b :: fp
  pt_i :: fp
  pt_u1 :: fp
  pt_u2 :: fp

definition default_point :: LaserPoint where
  "default_point = \<lparr>pt_x = Fin 0, pt_y = Fin 0, pt_r = Fin 0, pt_g = Fin 0, pt_b = Fin 0, pt_i = Fin 1,
     pt_u1 = Fin 0, pt_u2 = Fin 0\<rparr>"

definition sanitizeSignedUnitValue :: "fp \<Rightarrow> fp" where
  "sanitizeSignedUnitValue v = (if \<not> isfinite v then Fin 0 else fclamp v (Fin (-1)) (Fin 1))"

definition sanitizeUnitValue :: "fp \<Rightarrow> fp" where
  "sanitizeUnitValue v = (if \<not> isfinite v then Fin 0 else fclamp v (Fin 0) (Fin 1))"

definition sanitizeFiniteValue :: "fp \<Rightarrow> fp" where
  "sanitizeFiniteValue v = (if \<not> isfinite v then Fin 0 else v)"

definition sanitizeLaserPoint :: "LaserPoint \<Rightarrow> LaserPoint" where
  "sanitizeLaserPoint p =
     (if \<not> isfinite (pt_x p) \<or> \<not> isfinite (pt_y p)
      then p\<lparr>pt_x := Fin 0, pt_y := Fin 0, pt_r := Fin 0, pt_g := Fin 0, pt_b := Fin 0, pt_i := Fin 0,
             pt_u1 := Fin 0, pt_u2 := Fin 0\<rparr>
      else p\<lparr>pt_r := sanitizeFiniteValue (pt_r p), pt_g := sanitizeFiniteValue (pt_g p),
             pt_b := sanitizeFiniteValue (pt_b p), pt_i := sanitizeFiniteValue (pt_i p),
             pt_u1 := sanitizeFiniteValue (pt_u1 p), pt_u2 := sanitizeFiniteValue (pt_u2 p)\<rparr>)"

definition sanitizeLaserPoints :: "LaserPoint list \<Rightarrow> LaserPoint list" where
  "sanitizeLaserPoints ps = map sanitizeLaserPoint ps"

subsection \<open>Encoders\<close>

text \<open>
  The cast of the rounded value to an unsigned type wraps modulo its width. The argument of
  \<open>lround\<close> is always finite here (\<open>encode_defined\<close>), so the model's \<open>None\<close> for
  an unspecified \<open>lround\<close> is never the result.
\<close>

definition scaleSignedUnit :: "fp \<Rightarrow> rat \<Rightarrow> fp" where
  "scaleSignedUnit v s =
     (let clamped = sanitizeSignedUnitValue v;
          normalized = fadd F32 (fmul F32 clamped (Fin (1 / 2))) (Fin (1 / 2))
      in fmul F32 normalized (Fin s))"

definition scaleUnit :: "fp \<Rightarrow> rat \<Rightarrow> fp" where
  "scaleUnit v s = fmul F32 (sanitizeUnitValue v) (Fin s)"

definition encodeUnsigned16FromSignedUnit :: "fp \<Rightarrow> u16 option" where
  "encodeUnsigned16FromSignedUnit v = map_option word_of_int (lround (scaleSignedUnit v 65535))"

definition encodeUnsigned16FromUnit :: "fp \<Rightarrow> u16 option" where
  "encodeUnsigned16FromUnit v = map_option word_of_int (lround (scaleUnit v 65535))"

definition encodeUnsigned12FromSignedUnit :: "fp \<Rightarrow> u16 option" where
  "encodeUnsigned12FromSignedUnit v = map_option word_of_int (lround (scaleSignedUnit v 4095))"

definition encodeUnsigned12FromUnit :: "fp \<Rightarrow> u16 option" where
  "encodeUnsigned12FromUnit v = map_option word_of_int (lround (scaleUnit v 4095))"

definition encodeUnsigned8FromUnit :: "fp \<Rightarrow> u8 option" where
  "encodeUnsigned8FromUnit v = map_option word_of_int (lround (scaleUnit v 255))"

subsection \<open>Lemmas\<close>

definition finite_point :: "LaserPoint \<Rightarrow> bool" where
  "finite_point p \<longleftrightarrow> isfinite (pt_x p) \<and> isfinite (pt_y p) \<and> isfinite (pt_r p) \<and> isfinite (pt_g p)
     \<and> isfinite (pt_b p) \<and> isfinite (pt_i p) \<and> isfinite (pt_u1 p) \<and> isfinite (pt_u2 p)"

lemma isfinite_iff: "isfinite v \<longleftrightarrow> (\<exists>q. v = Fin q)"
  by (cases v) auto

lemma isfinite_sanitizeFinite [simp]: "isfinite (sanitizeFiniteValue v)"
  by (simp add: sanitizeFiniteValue_def)

lemma sanitizeFinite_id: "isfinite v \<Longrightarrow> sanitizeFiniteValue v = v"
  by (simp add: sanitizeFiniteValue_def)

lemma finite_sanitizeLaserPoint: "finite_point (sanitizeLaserPoint p)"
  by (simp add: finite_point_def sanitizeLaserPoint_def)

lemma sanitizeLaserPoint_id: "finite_point p \<Longrightarrow> sanitizeLaserPoint p = p"
  by (simp add: finite_point_def sanitizeLaserPoint_def sanitizeFinite_id)

lemma sanitizeLaserPoints_finite: "p \<in> set (sanitizeLaserPoints ps) \<Longrightarrow> finite_point p"
  by (auto simp: sanitizeLaserPoints_def finite_sanitizeLaserPoint)

lemma length_sanitizeLaserPoints [simp]: "length (sanitizeLaserPoints ps) = length ps"
  by (simp add: sanitizeLaserPoints_def)

lemma sanitizeSigned_range: "\<exists>q. sanitizeSignedUnitValue v = Fin q \<and> -1 \<le> q \<and> q \<le> 1"
  by (cases v) (auto simp: sanitizeSignedUnitValue_def fclamp_def)

lemma sanitizeUnit_range: "\<exists>q. sanitizeUnitValue v = Fin q \<and> 0 \<le> q \<and> q \<le> 1"
  by (cases v) (auto simp: sanitizeUnitValue_def fclamp_def)

lemma fmul_Fin_range:
  assumes "0 \<le> q" "q \<le> 1" and "0 \<le> s" "s < 2 ^ 24"
  shows "\<exists>r. fmul F32 (Fin q) (Fin (of_int s)) = Fin r \<and> r = rndq F32 (q * of_int s) \<and> 0 \<le> r \<and> r \<le> of_int s"
proof -
  have "rnd F32 (q * of_int s) = Fin (rndq F32 (q * of_int s)) \<and> 0 \<le> rndq F32 (q * of_int s)
      \<and> rndq F32 (q * of_int s) \<le> of_int s"
  proof (rule rnd_in_range)
    show "rndq F32 (of_int s) = of_int s" by (rule rndq_small_int) (use assms in simp)
    have "of_int s \<le> (of_int (2 ^ 24) :: rat)" using assms(4) by (simp only: of_int_le_iff)
    then show "of_int s \<le> (2 ^ 24 :: rat)" by simp
  qed (use assms in \<open>auto simp: mult_left_le_one_le\<close>)
  then show ?thesis by simp
qed

lemma half_normalized:
  assumes "-1 \<le> q" "q \<le> 1"
  shows "\<exists>r. fadd F32 (fmul F32 (Fin q) (Fin (1 / 2))) (Fin (1 / 2)) = Fin r
    \<and> r = rndq F32 (rndq F32 (q / 2) + 1 / 2) \<and> 0 \<le> r \<and> r \<le> 1"
proof -
  have n: "rndq F32 (- (1 / 2)) = - (1 / 2)" by (simp only: rndq_minus rndq_half)
  have 1: "rnd F32 (q / 2) = Fin (rndq F32 (q / 2)) \<and> - (1 / 2) \<le> rndq F32 (q / 2) \<and> rndq F32 (q / 2) \<le> 1 / 2"
    by (rule rnd_in_range) (use assms n in auto)
  have "rnd F32 (rndq F32 (q / 2) + 1 / 2) = Fin (rndq F32 (rndq F32 (q / 2) + 1 / 2))
     \<and> 0 \<le> rndq F32 (rndq F32 (q / 2) + 1 / 2) \<and> rndq F32 (rndq F32 (q / 2) + 1 / 2) \<le> 1"
    by (rule rnd_in_range) (use 1 in auto)
  with 1 show ?thesis by simp
qed

text \<open>The scaled value as one monotone function of the clamped input.\<close>

definition signed_scale :: "int \<Rightarrow> rat \<Rightarrow> rat" where
  "signed_scale s q = rndq F32 (rndq F32 (rndq F32 (q / 2) + 1 / 2) * of_int s)"

lemma signed_scale_mono: "0 \<le> s \<Longrightarrow> q \<le> r \<Longrightarrow> signed_scale s q \<le> signed_scale s r"
  unfolding signed_scale_def by (intro rndq_mono mult_right_mono add_right_mono divide_right_mono) auto

lemma scaleSignedUnit_eq:
  assumes "sanitizeSignedUnitValue v = Fin q" and "0 \<le> s" "s < 2 ^ 24"
  shows "scaleSignedUnit v (of_int s) = Fin (signed_scale s q) \<and> 0 \<le> signed_scale s q \<and> signed_scale s q \<le> of_int s"
proof -
  have q: "-1 \<le> q" "q \<le> 1" using sanitizeSigned_range [of v] assms(1) by auto
  obtain r where r: "fadd F32 (fmul F32 (Fin q) (Fin (1 / 2))) (Fin (1 / 2)) = Fin r"
    "r = rndq F32 (rndq F32 (q / 2) + 1 / 2)" "0 \<le> r" "r \<le> 1"
    using half_normalized [OF q] by blast
  show ?thesis
    using fmul_Fin_range [OF r(3,4) assms(2,3)] assms(1) r(1,2)
    by (auto simp: scaleSignedUnit_def signed_scale_def Let_def simp del: fmul.simps fadd.simps)
qed

lemma scaleUnit_eq:
  assumes "sanitizeUnitValue v = Fin q" and "0 \<le> s" "s < 2 ^ 24"
  shows "scaleUnit v (of_int s) = Fin (rndq F32 (q * of_int s)) \<and> 0 \<le> rndq F32 (q * of_int s)
    \<and> rndq F32 (q * of_int s) \<le> of_int s"
  using fmul_Fin_range [of q s] sanitizeUnit_range [of v] assms
  by (auto simp: scaleUnit_def simp del: fmul.simps)

lemma lround_Fin: "lround (Fin q) = Some (round_away q)"
  by simp

lemma unat_word_of_int_range:
  assumes "0 \<le> k" "k \<le> m" "m < 2 ^ LENGTH('a::len)"
  shows "unat (word_of_int k :: 'a word) = nat k"
  using assms by (simp add: unat_eq_nat_uint uint_word_of_int)

lemma encode_signed_unit:
  assumes "0 \<le> s" and "s < 2 ^ 16"
  shows "\<exists>q. sanitizeSignedUnitValue v = Fin q \<and>
    map_option word_of_int (lround (scaleSignedUnit v (of_int s))) = Some (word_of_int (round_away (signed_scale s q)) :: u16)
    \<and> unat (word_of_int (round_away (signed_scale s q)) :: u16) = nat (round_away (signed_scale s q))
    \<and> 0 \<le> round_away (signed_scale s q) \<and> round_away (signed_scale s q) \<le> s"
proof -
  obtain q where q: "sanitizeSignedUnitValue v = Fin q" using sanitizeSigned_range by blast
  have sc: "scaleSignedUnit v (of_int s) = Fin (signed_scale s q)" "0 \<le> signed_scale s q" "signed_scale s q \<le> of_int s"
    using scaleSignedUnit_eq [OF q, of s] assms by auto
  have rr: "0 \<le> round_away (signed_scale s q) \<and> round_away (signed_scale s q) \<le> s"
    using round_away_range [of 0 _ s] sc(2,3) by simp
  then have "unat (word_of_int (round_away (signed_scale s q)) :: u16) = nat (round_away (signed_scale s q))"
    using assms by (intro unat_word_of_int_range [where m = s]) auto
  with q sc rr show ?thesis by simp
qed

lemma encode_unit:
  assumes "0 \<le> s" and "s < 2 ^ 16"
  shows "\<exists>q. sanitizeUnitValue v = Fin q \<and>
    lround (scaleUnit v (of_int s)) = Some (round_away (rndq F32 (q * of_int s)))
    \<and> 0 \<le> round_away (rndq F32 (q * of_int s)) \<and> round_away (rndq F32 (q * of_int s)) \<le> s"
proof -
  obtain q where q: "sanitizeUnitValue v = Fin q" using sanitizeUnit_range by blast
  have sc: "scaleUnit v (of_int s) = Fin (rndq F32 (q * of_int s))" "0 \<le> rndq F32 (q * of_int s)"
    "rndq F32 (q * of_int s) \<le> of_int s"
    using scaleUnit_eq [OF q, of s] assms by auto
  have "0 \<le> round_away (rndq F32 (q * of_int s)) \<and> round_away (rndq F32 (q * of_int s)) \<le> s"
    using round_away_range [of 0 _ s] sc(2,3) by simp
  with q sc show ?thesis by simp
qed

lemma clamp_mono_signed:
  "fle v w \<Longrightarrow> isfinite v \<Longrightarrow> isfinite w \<Longrightarrow> sanitizeSignedUnitValue v = Fin q \<Longrightarrow>
   sanitizeSignedUnitValue w = Fin r \<Longrightarrow> q \<le> r"
  by (cases v; cases w) (auto simp: sanitizeSignedUnitValue_def fclamp_def fle_def split: if_splits)

lemma clamp_mono_unit:
  "fle v w \<Longrightarrow> isfinite v \<Longrightarrow> isfinite w \<Longrightarrow> sanitizeUnitValue v = Fin q \<Longrightarrow>
   sanitizeUnitValue w = Fin r \<Longrightarrow> q \<le> r"
  by (cases v; cases w) (auto simp: sanitizeUnitValue_def fclamp_def fle_def split: if_splits)

text \<open>The 12-bit position encoder is total, always produces a value that fits in 12 bits
  (whatever the input: NaN, infinite or out of range), and never inverts the order of two
  finite coordinates.\<close>

theorem encode12_bounded_monotone:
  "(\<exists>a. encodeUnsigned12FromSignedUnit v = Some a \<and> a \<le> 4095) \<and>
   (isfinite v \<and> isfinite w \<and> fle v w \<longrightarrow>
     (\<exists>a b. encodeUnsigned12FromSignedUnit v = Some a \<and> encodeUnsigned12FromSignedUnit w = Some b \<and> a \<le> b))"
proof -
  obtain q where q: "sanitizeSignedUnitValue v = Fin q"
    "encodeUnsigned12FromSignedUnit v = Some (word_of_int (round_away (signed_scale 4095 q)))"
    "unat (word_of_int (round_away (signed_scale 4095 q)) :: u16) = nat (round_away (signed_scale 4095 q))"
    "round_away (signed_scale 4095 q) \<le> 4095"
    using encode_signed_unit [of 4095 v] by (auto simp: encodeUnsigned12FromSignedUnit_def)
  obtain r where r: "sanitizeSignedUnitValue w = Fin r"
    "encodeUnsigned12FromSignedUnit w = Some (word_of_int (round_away (signed_scale 4095 r)))"
    "unat (word_of_int (round_away (signed_scale 4095 r)) :: u16) = nat (round_away (signed_scale 4095 r))"
    using encode_signed_unit [of 4095 w] by (auto simp: encodeUnsigned12FromSignedUnit_def)
  have "word_of_int (round_away (signed_scale 4095 q)) \<le> (word_of_int (round_away (signed_scale 4095 r)) :: u16)"
    if "isfinite v" "isfinite w" "fle v w"
    using clamp_mono_signed [OF that(3,1,2) q(1) r(1)] q(3) r(3)
    by (simp add: word_le_nat_alt signed_scale_mono round_away_mono nat_mono)
  with q r show ?thesis by (simp add: word_le_nat_alt)
qed

theorem encode12_bounded_monotone_witness:
  "isfinite (Fin 0) \<and> isfinite (Fin 1) \<and> fle (Fin 0) (Fin 1) \<and>
   (\<exists>a b. encodeUnsigned12FromSignedUnit (Fin 0) = Some a \<and> encodeUnsigned12FromSignedUnit (Fin 1) = Some b \<and> a \<le> b)"
  using encode12_bounded_monotone [of "Fin 0" "Fin 1"] by (simp add: fle_def)

end
