(* ===== verification/Text.thy ===== *)
theory Text
  imports Prelude
begin

text \<open>
  The formatting of \<open>std::ostringstream\<close> and \<open>std::to_string\<close> that the status parsers
  use: decimal and hexadecimal numerals, in the digits the streams print, and fixed-width
  two-digit bytes (\<open>std::setw(2) << std::setfill('0')\<close>).
\<close>

definition hex_digit :: "bool \<Rightarrow> nat \<Rightarrow> char" where
  "hex_digit up d = (if up then ''0123456789ABCDEF'' else ''0123456789abcdef'') ! d"

fun digits_of :: "nat \<Rightarrow> bool \<Rightarrow> nat \<Rightarrow> string" where
  "digits_of b up n =
     (if b < 2 \<or> n < b then [hex_digit up n] else digits_of b up (n div b) @ [hex_digit up (n mod b)])"

declare digits_of.simps [simp del]

definition dec_string :: "nat \<Rightarrow> string" where
  "dec_string n = digits_of 10 True n"

definition hex_byte :: "bool \<Rightarrow> u8 \<Rightarrow> string" where
  "hex_byte up b = [hex_digit up (unat b div 16), hex_digit up (unat b mod 16)]"

definition hex_bytes :: "bool \<Rightarrow> bytes \<Rightarrow> string" where
  "hex_bytes up bs = concat (map (hex_byte up) bs)"

lemma hex_digit_inj: "d < 16 \<Longrightarrow> e < 16 \<Longrightarrow> hex_digit up d = hex_digit up e \<Longrightarrow> d = e"
proof -
  have dis: "distinct ''0123456789ABCDEF''" "distinct ''0123456789abcdef''" by simp_all
  assume "d < 16" "e < 16" "hex_digit up d = hex_digit up e"
  then show ?thesis
    using nth_eq_iff_index_eq [OF dis(1), of d e] nth_eq_iff_index_eq [OF dis(2), of d e]
    by (simp add: hex_digit_def split: if_splits)
qed

lemma digits_of_nonempty [simp]: "digits_of b up n \<noteq> []"
  by (subst digits_of.simps) simp

lemma digits_of_inj:
  "2 \<le> b \<Longrightarrow> b \<le> 16 \<Longrightarrow> digits_of b up m = digits_of b up n \<Longrightarrow> m = n"
proof (induction b up m arbitrary: n rule: digits_of.induct)
  case (1 b up m)
  note eq = "1.prems"(3) [unfolded digits_of.simps [of b up m] digits_of.simps [of b up n]]
  show ?case
  proof (cases "m < b")
    case True
    have "digits_of b up (n div b) \<noteq> []" by simp
    with True eq "1.prems"(1,2) show ?thesis
      by (cases "n < b") (auto intro: hex_digit_inj [of _ _ up])
  next
    case False
    with eq "1.prems"(1,2) have n: "\<not> n < b"
      and d: "digits_of b up (m div b) = digits_of b up (n div b)"
      and r: "hex_digit up (m mod b) = hex_digit up (n mod b)"
      by (auto split: if_splits)
    have "m mod b < b" "n mod b < b" using "1.prems"(1) by simp_all
    then have "m mod b < 16" "n mod b < 16" using "1.prems"(2) by linarith+
    with r have "m mod b = n mod b" by (intro hex_digit_inj [of _ _ up]) auto
    moreover have "m div b = n div b"
      using "1.IH" [OF _ "1.prems"(1,2) d] False "1.prems"(1) by simp
    ultimately show ?thesis by (metis div_mult_mod_eq)
  qed
qed

lemma dec_string_inj: "dec_string m = dec_string n \<Longrightarrow> m = n"
  unfolding dec_string_def by (rule digits_of_inj) auto

lemma length_hex_byte [simp]: "length (hex_byte up b) = 2"
  by (simp add: hex_byte_def)

lemma length_hex_bytes [wire_simps]: "length (hex_bytes up bs) = 2 * length bs"
  by (induction bs) (simp_all add: hex_bytes_def)

lemma hex_byte_inj: "hex_byte up a = hex_byte up b \<Longrightarrow> a = b"
proof -
  assume "hex_byte up a = hex_byte up b"
  then have h: "hex_digit up (unat a div 16) = hex_digit up (unat b div 16)"
    "hex_digit up (unat a mod 16) = hex_digit up (unat b mod 16)" by (simp_all add: hex_byte_def)
  have bd: "unat a div 16 < 16" "unat b div 16 < 16"
    using unat_u8_less [of a] unat_u8_less [of b] by linarith+
  have "unat a div 16 = unat b div 16" using bd h(1) by (rule hex_digit_inj)
  moreover have "unat a mod 16 = unat b mod 16" using h(2) by (intro hex_digit_inj [of _ _ up]) auto
  ultimately have "unat a = unat b" by (metis div_mult_mod_eq)
  then show ?thesis by (simp only: word_unat_eq_iff)
qed

lemma hex_bytes_inj: "hex_bytes up as = hex_bytes up bs \<Longrightarrow> as = bs"
proof (induction as arbitrary: bs)
  case Nil
  then have "length (hex_bytes up bs) = 0" by (simp add: hex_bytes_def)
  then show ?case by (simp only: length_hex_bytes) simp
next
  case (Cons a as)
  then obtain b bs' where bs: "bs = b # bs'"
    by (cases bs) (simp_all add: hex_bytes_def hex_byte_def)
  with Cons.prems have "hex_byte up a @ hex_bytes up as = hex_byte up b @ hex_bytes up bs'"
    by (simp add: hex_bytes_def)
  then have "hex_byte up a = hex_byte up b" "hex_bytes up as = hex_bytes up bs'" by simp_all
  with Cons.IH bs show ?case by (auto dest: hex_byte_inj)
qed

end
