(* ===== verification/Geometry.thy ===== *)
theory Geometry
  imports Laser_Point "HOL-Library.Monad_Syntax"
begin

text \<open>
  The plane geometry the point generators share: \<open>std::sqrt(dx * dx + dy * dy)\<close> in
  binary32, its range over the unit square, and what a dark point is.
\<close>

definition planarDistance :: "fp \<Rightarrow> fp \<Rightarrow> fp" where
  "planarDistance dx dy = fsqrt F32 (fadd F32 (fmul F32 dx dx) (fmul F32 dy dy))"

definition dark :: "LaserPoint \<Rightarrow> bool" where
  "dark p \<longleftrightarrow> pt_r p = Fin 0 \<and> pt_g p = Fin 0 \<and> pt_b p = Fin 0 \<and> pt_i p = Fin 0"

definition unlit :: "LaserPoint \<Rightarrow> bool" where
  "unlit p \<longleftrightarrow> pt_r p = Fin 0 \<and> pt_g p = Fin 0 \<and> pt_b p = Fin 0"

definition unit_value :: "fp \<Rightarrow> bool" where
  "unit_value v = (case v of Fin q \<Rightarrow> -1 \<le> q \<and> q \<le> 1 | _ \<Rightarrow> False)"

text \<open>A point inside the documented coordinate range.\<close>

definition in_unit_square :: "LaserPoint \<Rightarrow> bool" where
  "in_unit_square p \<longleftrightarrow> unit_value (pt_x p) \<and> unit_value (pt_y p)"

lemma fsub_unit:
  assumes "-1 \<le> a" "a \<le> 1" "-1 \<le> b" "b \<le> 1"
  shows "\<exists>d. fsub F32 (Fin a) (Fin b) = Fin d \<and> -2 \<le> d \<and> d \<le> 2"
proof -
  have n: "rndq F32 2 = 2" using rndq_small_int [of 2 F32] by simp
  then have m: "rndq F32 (- 2) = - 2" by (simp only: rndq_minus)
  have "rnd F32 (a - b) = Fin (rndq F32 (a - b)) \<and> -2 \<le> rndq F32 (a - b) \<and> rndq F32 (a - b) \<le> 2"
    by (rule rnd_in_range [OF _ _ m n]) (use assms in auto)
  then show ?thesis by (simp add: fsub_def)
qed

lemma rnd_to_int_range:
  assumes "0 \<le> x" "x \<le> of_int k" "\<bar>k\<bar> < 2 ^ 24"
  shows "rnd F32 x = Fin (rndq F32 x) \<and> 0 \<le> rndq F32 x \<and> rndq F32 x \<le> of_int k"
proof (rule rnd_in_range)
  show "rndq F32 (of_int k) = of_int k" using assms(3) by (rule rndq_small_int)
  have "k \<le> 2 ^ 24" using assms(3) by simp
  then have "of_int k \<le> (of_int (2 ^ 24) :: rat)" by (simp only: of_int_le_iff)
  then show "of_int k \<le> (2 ^ 24 :: rat)" by simp
qed (use assms in auto)

lemma square_unit:
  assumes "-2 \<le> d" "d \<le> 2"
  shows "\<exists>s. fmul F32 (Fin d) (Fin d) = Fin s \<and> 0 \<le> s \<and> s \<le> 4"
proof -
  have "d * d \<le> 4" using assms mult_mono [of "\<bar>d\<bar>" 2 "\<bar>d\<bar>" 2] by (simp add: abs_le_iff flip: abs_mult)
  then show ?thesis using rnd_to_int_range [of "d * d" 4] by simp
qed

lemma sqrt_le_3:
  assumes "0 \<le> x" "x \<le> 8"
  shows "sqrt_rnd F32 x \<le> 3"
proof (cases "x = 0")
  case True
  then show ?thesis by (simp add: sqrt_rnd_def)
next
  case False
  have "pow2 (ilog2 x) \<le> x" using ilog2_spec [of x] False assms by auto
  also have "\<dots> \<le> pow2 3" using assms by (simp add: pow2_def)
  finally have "ilog2 x \<le> 3" by simp
  then have "sqrt_quantum F32 x \<le> 0" by (simp add: sqrt_quantum_def)
  then show ?thesis
    using assms by (intro sqrt_rnd_le [where m = 3 and e = 0]) auto
qed

lemma of_num_small: "\<bar>k\<bar> < 2 ^ 24 \<Longrightarrow> of_num F32 k = Fin (of_int k)"
proof -
  assume k: "\<bar>k\<bar> < 2 ^ 24"
  have "\<bar>of_int k :: rat\<bar> = of_int \<bar>k\<bar>" by simp
  also have "\<dots> < of_int (2 ^ 24)" using k by (simp only: of_int_less_iff)
  also have "\<dots> < pow2 (emax F32 + 1)" using emax_pow2 [of F32] by simp
  finally show ?thesis using rndq_small_int [OF k, of F32] by (simp add: of_num_def rnd_Fin)
qed

lemma planarDistance_range:
  assumes "unit_value a" "unit_value b" "unit_value c" "unit_value d"
  shows "\<exists>r. planarDistance (fsub F32 a b) (fsub F32 c d) = Fin r \<and> 0 \<le> r \<and> r \<le> 3"
proof -
  obtain qa qb qc qd where u: "a = Fin qa" "-1 \<le> qa" "qa \<le> 1" "b = Fin qb" "-1 \<le> qb" "qb \<le> 1"
    "c = Fin qc" "-1 \<le> qc" "qc \<le> 1" "d = Fin qd" "-1 \<le> qd" "qd \<le> 1"
    using assms by (auto simp: unit_value_def split: fp.splits)
  obtain dx dy where d: "fsub F32 a b = Fin dx" "-2 \<le> dx" "dx \<le> 2"
    "fsub F32 c d = Fin dy" "-2 \<le> dy" "dy \<le> 2"
    using fsub_unit u by metis
  obtain x2 y2 where sq: "fmul F32 (Fin dx) (Fin dx) = Fin x2" "0 \<le> x2" "x2 \<le> 4"
    "fmul F32 (Fin dy) (Fin dy) = Fin y2" "0 \<le> y2" "y2 \<le> 4"
    using square_unit d by metis
  have "fadd F32 (Fin x2) (Fin y2) = Fin (rndq F32 (x2 + y2))" "0 \<le> rndq F32 (x2 + y2)" "rndq F32 (x2 + y2) \<le> 8"
    using rnd_to_int_range [of "x2 + y2" 8] sq by simp_all
  then show ?thesis
    by (simp add: planarDistance_def d sq sqrt_rnd_nonneg sqrt_le_3 del: fmul.simps fadd.simps)
qed

lemma sanitizeSigned_unit: "unit_value (sanitizeSignedUnitValue v)"
  using sanitizeSigned_range [of v] by (auto simp: unit_value_def)

end
