(* ===== verification/Ether_Dream_Wire.thy ===== *)
theory Ether_Dream_Wire
  imports Laser_Point Bytes Text
begin

text \<open>
  The Ether Dream wire format: the command builder (src/EtherDream/EtherDreamCommand.cpp)
  and the 22-byte response (src/EtherDream/EtherDreamResponse.cpp). A command is the byte
  buffer and the opcode; a response decodes into the status record with the field order and
  the offsets of the code.
\<close>

subsection \<open>Commands\<close>

record EtherDreamCommand =
  cmd_buffer :: ByteBuffer
  opcode :: u8

definition COORD_SCALE :: rat where "COORD_SCALE = 32767"
definition CHANNEL_SCALE :: rat where "CHANNEL_SCALE = 65535"
definition RATE_CHANGE_BIT :: u16 where "RATE_CHANGE_BIT = 0x8000"

definition ch :: "char \<Rightarrow> u8" where
  "ch c = of_char c"

definition cmd_reset :: "EtherDreamCommand \<Rightarrow> EtherDreamCommand" where
  "cmd_reset c = c\<lparr>cmd_buffer := bb_clear (cmd_buffer c), opcode := 0\<rparr>"

definition encodeCoordinate :: "fp \<Rightarrow> u16 option" where
  "encodeCoordinate v =
     (let clamped = sanitizeSignedUnitValue v;
          scaled = fmul F32 clamped (Fin COORD_SCALE);
          half = (if fle (Fin 0) scaled then fadd F32 scaled (Fin (1 / 2)) else fsub F32 scaled (Fin (1 / 2)))
      in do { rounded \<leftarrow> ftrunc half; Some (word_of_int (clamp_int rounded (-32768) 32767)) })"

definition encodeChannel :: "fp \<Rightarrow> u16 option" where
  "encodeChannel v =
     (let clamped = sanitizeUnitValue v;
          scaled = fmul F32 clamped (Fin CHANNEL_SCALE)
      in do { rounded \<leftarrow> ftrunc (fadd F32 scaled (Fin (1 / 2)));
              Some (word_of_int (clamp_int rounded 0 65535)) })"

definition setDataCommand :: "u16 \<Rightarrow> EtherDreamCommand \<Rightarrow> EtherDreamCommand" where
  "setDataCommand pointCount c =
     (let c1 = cmd_reset c
      in c1\<lparr>cmd_buffer := appendUInt16 pointCount (appendChar (ch CHR ''d'') (cmd_buffer c1)),
            opcode := ch CHR ''d''\<rparr>)"

definition addPoint :: "LaserPoint \<Rightarrow> bool \<Rightarrow> EtherDreamCommand \<Rightarrow> EtherDreamCommand option" where
  "addPoint p setRateChangeFlag c = do {
     let control = (if setRateChangeFlag then RATE_CHANGE_BIT else 0);
     x \<leftarrow> encodeCoordinate (pt_x p);
     y \<leftarrow> encodeCoordinate (pt_y p);
     r \<leftarrow> encodeChannel (pt_r p);
     g \<leftarrow> encodeChannel (pt_g p);
     b \<leftarrow> encodeChannel (pt_b p);
     i \<leftarrow> encodeChannel (pt_i p);
     u1 \<leftarrow> encodeChannel (pt_u1 p);
     u2 \<leftarrow> encodeChannel (pt_u2 p);
     Some (c\<lparr>cmd_buffer :=
       appendUInt16 u2 (appendUInt16 u1 (appendUInt16 i (appendUInt16 b (appendUInt16 g (appendUInt16 r
         (appendInt16 y (appendInt16 x (appendUInt16 control (cmd_buffer c)))))))))\<rparr>) }"

definition setBeginCommand :: "u32 \<Rightarrow> EtherDreamCommand \<Rightarrow> EtherDreamCommand" where
  "setBeginCommand rate c =
     (let c1 = cmd_reset c
      in c1\<lparr>cmd_buffer := appendUInt32 rate (appendUInt16 0 (appendChar (ch CHR ''b'') (cmd_buffer c1))),
            opcode := ch CHR ''b''\<rparr>)"

definition setPointRateCommand :: "u32 \<Rightarrow> EtherDreamCommand \<Rightarrow> EtherDreamCommand" where
  "setPointRateCommand rate c =
     (let c1 = cmd_reset c
      in c1\<lparr>cmd_buffer := appendUInt32 rate (appendChar (ch CHR ''q'') (cmd_buffer c1)),
            opcode := ch CHR ''q''\<rparr>)"

definition setSingleByteCommand :: "u8 \<Rightarrow> EtherDreamCommand \<Rightarrow> EtherDreamCommand" where
  "setSingleByteCommand opcodeValue c =
     (let c1 = cmd_reset c
      in c1\<lparr>cmd_buffer := appendChar opcodeValue (cmd_buffer c1), opcode := opcodeValue\<rparr>)"

definition cmd_isReady :: "EtherDreamCommand \<Rightarrow> bool" where
  "cmd_isReady c = (opcode c \<noteq> 0 \<and> bb_size (cmd_buffer c) \<noteq> 0)"

fun addPoints :: "LaserPoint list \<Rightarrow> bool list \<Rightarrow> EtherDreamCommand \<Rightarrow> EtherDreamCommand option" where
  "addPoints (p # ps) (f # fs) c = do { c' \<leftarrow> addPoint p f c; addPoints ps fs c' }"
| "addPoints _ _ c = Some c"

subsection \<open>Responses\<close>

datatype LightEngineState = LE_Ready | LE_Warmup | LE_Cooldown | LE_Estop | LE_other u8

datatype PlaybackState = PB_Idle | PB_Prepared | PB_Playing | PB_Paused | PB_other u8

text \<open>The casts of a raw byte to the two enumerations keep every byte value.\<close>

definition light_of_byte :: "u8 \<Rightarrow> LightEngineState" where
  "light_of_byte b = (if b = 0 then LE_Ready else if b = 1 then LE_Warmup else if b = 2 then LE_Cooldown
     else if b = 3 then LE_Estop else LE_other b)"

definition playback_of_byte :: "u8 \<Rightarrow> PlaybackState" where
  "playback_of_byte b = (if b = 0 then PB_Idle else if b = 1 then PB_Prepared else if b = 2 then PB_Playing
     else if b = 3 then PB_Paused else PB_other b)"

record EtherDreamStatus =
  protocol :: u8
  lightEngineState :: LightEngineState
  playbackState :: PlaybackState
  source :: u8
  lightEngineFlags :: u16
  playbackFlags :: u16
  sourceFlags :: u16
  bufferFullness :: u16
  pointRate :: u32
  pointCount :: u32

definition PlaybackFlagUnderflow :: u16 where "PlaybackFlagUnderflow = 0x02"
definition PlaybackFlagEstop :: u16 where "PlaybackFlagEstop = 0x04"

definition initial_status :: EtherDreamStatus where
  "initial_status = \<lparr>protocol = 0, lightEngineState = LE_Ready, playbackState = PB_Idle, source = 0,
     lightEngineFlags = 0, playbackFlags = 0, sourceFlags = 0, bufferFullness = 0, pointRate = 0,
     pointCount = 0\<rparr>"

record EtherDreamResponse =
  response :: u8
  command :: u8
  status :: EtherDreamStatus

text \<open>
  \<open>decode\<close> returns the boolean and the response it wrote; \<open>None\<close> would be a read past the
  end of the data.
\<close>

definition decode :: "bytes option \<Rightarrow> EtherDreamResponse \<Rightarrow> (bool \<times> EtherDreamResponse) option" where
  "decode data r = (case data of
     None \<Rightarrow> Some (False, r)
   | Some d \<Rightarrow>
       if length d < 22 then Some (False, r)
       else do {
         resp \<leftarrow> rd8 d 0;
         cmd \<leftarrow> rd8 d 1;
         let s = drop 2 d;
         prot \<leftarrow> rd8 s 0;
         le \<leftarrow> rd8 s 1;
         pb \<leftarrow> rd8 s 2;
         src \<leftarrow> rd8 s 3;
         lef \<leftarrow> readLe16 (drop 4 s);
         pbf \<leftarrow> readLe16 (drop 6 s);
         srf \<leftarrow> readLe16 (drop 8 s);
         full \<leftarrow> readLe16 (drop 10 s);
         rate \<leftarrow> readLe32 (drop 12 s);
         cnt \<leftarrow> readLe32 (drop 16 s);
         Some (True, r\<lparr>response := resp, command := cmd, status :=
           \<lparr>protocol = prot, lightEngineState = light_of_byte le, playbackState = playback_of_byte pb,
            source = src, lightEngineFlags = lef, playbackFlags = pbf, sourceFlags = srf,
            bufferFullness = full, pointRate = rate, pointCount = cnt\<rparr>\<rparr>) })"

definition light_toString :: "LightEngineState \<Rightarrow> string" where
  "light_toString s = (case s of LE_Ready \<Rightarrow> ''ready'' | LE_Warmup \<Rightarrow> ''warmup'' | LE_Cooldown \<Rightarrow> ''cooldown''
     | LE_Estop \<Rightarrow> ''estop'' | LE_other _ \<Rightarrow> ''unknown'')"

definition playback_toString :: "PlaybackState \<Rightarrow> string" where
  "playback_toString s = (case s of PB_Idle \<Rightarrow> ''idle'' | PB_Prepared \<Rightarrow> ''prepared'' | PB_Playing \<Rightarrow> ''playing''
     | PB_Paused \<Rightarrow> ''paused'' | PB_other _ \<Rightarrow> ''unknown'')"

definition hasPlaybackUnderflow :: "EtherDreamStatus \<Rightarrow> bool" where
  "hasPlaybackUnderflow s = (playbackFlags s AND PlaybackFlagUnderflow \<noteq> 0)"

definition hasPlaybackEstop :: "EtherDreamStatus \<Rightarrow> bool" where
  "hasPlaybackEstop s = (playbackFlags s AND PlaybackFlagEstop \<noteq> 0)"

definition describe :: "EtherDreamStatus \<Rightarrow> string" where
  "describe s = ''lt='' @ light_toString (lightEngineState s) @ '' pb='' @ playback_toString (playbackState s)
     @ '' buffer='' @ dec_string (unat (bufferFullness s)) @ '' rate='' @ dec_string (unat (pointRate s))
     @ '' count='' @ dec_string (unat (pointCount s))
     @ '' flags{le=0x'' @ digits_of 16 True (unat (lightEngineFlags s))
     @ '' pb=0x'' @ digits_of 16 True (unat (playbackFlags s))
     @ '' src=0x'' @ digits_of 16 True (unat (sourceFlags s)) @ ''}''"

fun hex_line :: "bytes \<Rightarrow> string" where
  "hex_line [] = []"
| "hex_line [b] = hex_byte False b"
| "hex_line (b # bs) = hex_byte False b @ '' '' @ hex_line bs"

definition toHexLine :: "bytes option \<Rightarrow> string" where
  "toHexLine data = (case data of None \<Rightarrow> [] | Some d \<Rightarrow> if length d = 0 then [] else hex_line d)"

subsection \<open>Lemmas on the encoders\<close>

lemma trunc_rat_nonneg: "0 \<le> q \<Longrightarrow> trunc_rat q = \<lfloor>q\<rfloor>"
  by (simp add: trunc_rat_def)

lemma sum_half_Fin:
  assumes "0 \<le> r" and "r \<le> 65535"
  shows "\<exists>t. fadd F32 (Fin r) (Fin (1 / 2)) = Fin t \<and> 0 \<le> t \<and> t \<le> 65536"
proof -
  have "rnd F32 (r + 1 / 2) = Fin (rndq F32 (r + 1 / 2)) \<and> 0 \<le> rndq F32 (r + 1 / 2) \<and> rndq F32 (r + 1 / 2) \<le> 65536"
  proof (rule rnd_in_range)
    show "rndq F32 65536 = 65536" using rndq_small_int [of 65536 F32] by simp
  qed (use assms in auto)
  then show ?thesis by simp
qed

lemma encodeChannel_total: "\<exists>w. encodeChannel v = Some w"
proof -
  obtain q where q: "sanitizeUnitValue v = Fin q" "0 \<le> q" "q \<le> 1" using sanitizeUnit_range [of v] by blast
  obtain r where r: "fmul F32 (Fin q) (Fin 65535) = Fin r" "0 \<le> r" "r \<le> 65535"
    using fmul_Fin_range [OF q(2,3), of 65535] by auto
  obtain t where t: "fadd F32 (Fin r) (Fin (1 / 2)) = Fin t" using sum_half_Fin [OF r(2,3)] by blast
  show ?thesis using q(1) r(1) t
    by (simp add: encodeChannel_def CHANNEL_SCALE_def Let_def del: fmul.simps fadd.simps)
qed

lemma fmul_signed_Fin:
  assumes "-1 \<le> q" and "q \<le> 1"
  shows "\<exists>r. fmul F32 (Fin q) (Fin 32767) = Fin r \<and> -32767 \<le> r \<and> r \<le> 32767"
proof -
  have n: "rndq F32 32767 = 32767" using rndq_small_int [of 32767 F32] by simp
  then have m: "rndq F32 (- 32767) = - 32767" by (simp only: rndq_minus)
  have "rnd F32 (q * 32767) = Fin (rndq F32 (q * 32767)) \<and> -32767 \<le> rndq F32 (q * 32767) \<and> rndq F32 (q * 32767) \<le> 32767"
    by (rule rnd_in_range [OF _ _ m n]) (use assms in auto)
  then show ?thesis by simp
qed

lemma encodeCoordinate_total: "\<exists>w. encodeCoordinate v = Some w"
proof -
  obtain q where q: "sanitizeSignedUnitValue v = Fin q" "-1 \<le> q" "q \<le> 1"
    using sanitizeSigned_range [of v] by blast
  obtain r where r: "fmul F32 (Fin q) (Fin 32767) = Fin r" "-32767 \<le> r" "r \<le> 32767"
    using fmul_signed_Fin [OF q(2,3)] by blast
  have n: "rndq F32 32768 = 32768" using rndq_small_int [of 32768 F32] by simp
  then have m: "rndq F32 (- 32768) = - 32768" by (simp only: rndq_minus)
  have "rnd F32 (r + 1 / 2) = Fin (rndq F32 (r + 1 / 2))" "rnd F32 (r - 1 / 2) = Fin (rndq F32 (r - 1 / 2))"
    using rnd_in_range [OF _ _ m n, of "r + 1 / 2"] rnd_in_range [OF _ _ m n, of "r - 1 / 2"] r by auto
  then show ?thesis using q(1) r(1)
    by (auto simp: encodeCoordinate_def COORD_SCALE_def Let_def fsub_def simp del: fmul.simps)
qed

lemma addPoint_appends:
  "\<exists>c' block. addPoint p f c = Some c' \<and> buffer (cmd_buffer c') = buffer (cmd_buffer c) @ block
     \<and> length block = 18 \<and> opcode c' = opcode c
     \<and> take 2 block = le16 (if f then RATE_CHANGE_BIT else 0)"
proof -
  obtain x y r g b i u1 u2 where e: "encodeCoordinate (pt_x p) = Some x" "encodeCoordinate (pt_y p) = Some y"
    "encodeChannel (pt_r p) = Some r" "encodeChannel (pt_g p) = Some g" "encodeChannel (pt_b p) = Some b"
    "encodeChannel (pt_i p) = Some i" "encodeChannel (pt_u1 p) = Some u1" "encodeChannel (pt_u2 p) = Some u2"
    by (metis encodeCoordinate_total encodeChannel_total)
  show ?thesis
    by (simp add: addPoint_def e Let_def appendUInt16_def appendInt16_def length_wire)
qed

lemma addPoints_appends:
  "length ps = length fs \<Longrightarrow> \<exists>c' blocks. addPoints ps fs c = Some c'
     \<and> buffer (cmd_buffer c') = buffer (cmd_buffer c) @ blocks \<and> length blocks = 18 * length ps
     \<and> opcode c' = opcode c"
proof (induction ps fs arbitrary: c rule: list_induct2)
  case Nil
  then show ?case by simp
next
  case (Cons p ps f fs)
  obtain c1 blk where 1: "addPoint p f c = Some c1" "buffer (cmd_buffer c1) = buffer (cmd_buffer c) @ blk"
    "length blk = 18" "opcode c1 = opcode c" using addPoint_appends [of p f c] by blast
  obtain c2 bs where "addPoints ps fs c1 = Some c2" "buffer (cmd_buffer c2) = buffer (cmd_buffer c1) @ bs"
    "length bs = 18 * length ps" "opcode c2 = opcode c1" using Cons.IH [of c1] by blast
  with 1 show ?case by simp
qed

subsection \<open>The response layout as a specification\<close>

text \<open>What the device sends for a given response: the fields in wire order.\<close>

definition light_byte :: "LightEngineState \<Rightarrow> u8" where
  "light_byte s = (case s of LE_Ready \<Rightarrow> 0 | LE_Warmup \<Rightarrow> 1 | LE_Cooldown \<Rightarrow> 2 | LE_Estop \<Rightarrow> 3 | LE_other b \<Rightarrow> b)"

definition playback_byte :: "PlaybackState \<Rightarrow> u8" where
  "playback_byte s = (case s of PB_Idle \<Rightarrow> 0 | PB_Prepared \<Rightarrow> 1 | PB_Playing \<Rightarrow> 2 | PB_Paused \<Rightarrow> 3 | PB_other b \<Rightarrow> b)"

definition wf_status :: "EtherDreamStatus \<Rightarrow> bool" where
  "wf_status s \<longleftrightarrow> (\<forall>b. lightEngineState s = LE_other b \<longrightarrow> 3 < b) \<and> (\<forall>b. playbackState s = PB_other b \<longrightarrow> 3 < b)"

definition response_bytes :: "EtherDreamResponse \<Rightarrow> bytes" where
  "response_bytes r = (let s = status r in
     [response r, command r, protocol s, light_byte (lightEngineState s), playback_byte (playbackState s), source s]
     @ le16 (lightEngineFlags s) @ le16 (playbackFlags s) @ le16 (sourceFlags s) @ le16 (bufferFullness s)
     @ le32 (pointRate s) @ le32 (pointCount s))"

lemma length_response_bytes [wire_simps]: "length (response_bytes r) = 22"
  by (simp add: response_bytes_def Let_def length_wire)

lemma light_of_byte_inverse: "(\<forall>b. s = LE_other b \<longrightarrow> 3 < b) \<Longrightarrow> light_of_byte (light_byte s) = s"
  by (cases s) (auto simp: light_of_byte_def light_byte_def)

lemma playback_of_byte_inverse: "(\<forall>b. s = PB_other b \<longrightarrow> 3 < b) \<Longrightarrow> playback_of_byte (playback_byte s) = s"
  by (cases s) (auto simp: playback_of_byte_def playback_byte_def)

text \<open>A data command built from any previous command state has the announced layout: it is
  ready to send, its size is the three header bytes plus 18 bytes for each point whatever the
  points contain, it starts with the data opcode, and the point count reads back from it.\<close>

theorem data_command_layout:
  assumes "length ps = length fs"
  shows "\<exists>c'. addPoints ps fs (setDataCommand n c) = Some c' \<and> cmd_isReady c'
    \<and> bb_size (cmd_buffer c') = 3 + 18 * length ps
    \<and> rd8 (buffer (cmd_buffer c')) 0 = Some (ch CHR ''d'')
    \<and> readLe16 (drop 1 (buffer (cmd_buffer c'))) = Some n"
proof -
  have s: "buffer (cmd_buffer (setDataCommand n c)) = ch CHR ''d'' # le16 n" "opcode (setDataCommand n c) = ch CHR ''d''"
    by (simp_all add: setDataCommand_def cmd_reset_def bb_clear_def appendUInt16_def appendChar_def Let_def)
  obtain c' bs where c': "addPoints ps fs (setDataCommand n c) = Some c'"
    "buffer (cmd_buffer c') = (ch CHR ''d'' # le16 n) @ bs" "length bs = 18 * length ps" "opcode c' = ch CHR ''d''"
    using addPoints_appends [OF assms, of "setDataCommand n c"] s by auto
  have "ch CHR ''d'' \<noteq> 0" by (simp add: ch_def of_char_def)
  with c' show ?thesis
    by (simp add: cmd_isReady_def bb_size_def length_wire rd8_def le16_get_put)
qed

theorem data_command_layout_witness:
  "\<exists>c'. addPoints [default_point, default_point] [True, False] (setDataCommand 2 \<lparr>cmd_buffer = \<lparr>buffer = [7, 7]\<rparr>, opcode = 9\<rparr>) = Some c'
    \<and> bb_size (cmd_buffer c') = 39 \<and> readLe16 (drop 1 (buffer (cmd_buffer c'))) = Some 2"
  using data_command_layout [of "[default_point, default_point]" "[True, False]" 2 "\<lparr>cmd_buffer = \<lparr>buffer = [7, 7]\<rparr>, opcode = 9\<rparr>"]
  by auto

text \<open>The response decoder reads inside its data for every pointer and size, accepts exactly
  a non-null buffer of at least 22 bytes, leaves the response alone otherwise, and returns the
  very fields a device encoded, whatever follows them.\<close>

theorem decode_total_roundtrip:
  "(\<exists>ok r'. decode data r = Some (ok, r') \<and> (ok \<longleftrightarrow> (\<exists>d. data = Some d \<and> 22 \<le> length d)) \<and> (\<not> ok \<longrightarrow> r' = r))
   \<and> (wf_status (status s) \<longrightarrow> decode (Some (response_bytes s @ extra)) r =
        Some (True, r\<lparr>response := response s, command := command s, status := status s\<rparr>))"
proof (intro conjI impI)
  show "\<exists>ok r'. decode data r = Some (ok, r') \<and> (ok \<longleftrightarrow> (\<exists>d. data = Some d \<and> 22 \<le> length d)) \<and> (\<not> ok \<longrightarrow> r' = r)"
  proof (cases "\<exists>d. data = Some d \<and> 22 \<le> length d")
    case True
    then obtain d where d: "data = Some d" "22 \<le> length d" by blast
    show ?thesis
      using cLe16.get_drop [of 6 d] cLe16.get_drop [of 8 d] cLe16.get_drop [of 10 d] cLe16.get_drop [of 12 d]
        cLe32.get_drop [of 14 d] cLe32.get_drop [of 18 d] d
      by (auto simp: decode_def rd8_def Let_def)
  next
    case False
    then show ?thesis by (auto simp: decode_def not_le split: option.splits)
  qed
next
  assume "wf_status (status s)"
  then have "light_of_byte (light_byte (lightEngineState (status s))) = lightEngineState (status s)"
    "playback_of_byte (playback_byte (playbackState (status s))) = playbackState (status s)"
    by (simp_all add: wf_status_def light_of_byte_inverse playback_of_byte_inverse)
  then show "decode (Some (response_bytes s @ extra)) r =
      Some (True, r\<lparr>response := response s, command := command s, status := status s\<rparr>)"
    by (simp add: decode_def response_bytes_def Let_def length_wire rd8_def le16_get_put le32_get_put nth_append)
qed

theorem decode_total_roundtrip_witness:
  "decode (Some (response_bytes \<lparr>response = 97, command = 63, status = initial_status\<lparr>bufferFullness := 300, playbackState := PB_Playing\<rparr>\<rparr> @ [])) \<lparr>response = 0, command = 0, status = initial_status\<rparr> =
     Some (True, \<lparr>response = 97, command = 63, status = initial_status\<lparr>bufferFullness := 300, playbackState := PB_Playing\<rparr>\<rparr>)"
  using decode_total_roundtrip [of None "\<lparr>response = 0, command = 0, status = initial_status\<rparr>" "\<lparr>response = 97, command = 63, status = initial_status\<lparr>bufferFullness := 300, playbackState := PB_Playing\<rparr>\<rparr>" "[]"]
  by (simp add: wf_status_def initial_status_def)

end
