(* ===== verification/Light_Space.thy ===== *)
theory Light_Space
  imports Laser_Point Bytes Text
begin

text \<open>
  The LightSpace Net protocol: configuration constants
  (include/libera/lightspacenet/LightSpaceNetConfig.hpp), CRC, packet builder and parser, the
  point stream, the fitting of a pattern to the device's point limit
  (src/lightspacenet/LightSpaceNetPacket.cpp) and the parser of broadcast responses
  (src/lightspacenet/LightSpaceNetStatus.cpp). \<open>None\<close> as the outer result of a parser
  would be a read outside its data.
\<close>

subsection \<open>Configuration\<close>

definition PROTOCOL_VERSION :: u16 where "PROTOCOL_VERSION = 0x0001"
definition PACKET_TYPE_BASIC :: u8 where "PACKET_TYPE_BASIC = 0x01"
definition PACKET_TYPE_COMMAND :: u8 where "PACKET_TYPE_COMMAND = 0x02"
definition CMD_BROADCAST_QUERY :: u8 where "CMD_BROADCAST_QUERY = 0x01"
definition CMD_BROADCAST_RESPONSE :: u8 where "CMD_BROADCAST_RESPONSE = 0x02"
definition CMD_HEARTBEAT_QUERY :: u8 where "CMD_HEARTBEAT_QUERY = 0x03"
definition CMD_POINT_STREAM :: u8 where "CMD_POINT_STREAM = 0x10"
definition CMD_LASER_ON_OFF :: u8 where "CMD_LASER_ON_OFF = 0x02"
definition CMD_SET_SCAN_FREQUENCY :: u8 where "CMD_SET_SCAN_FREQUENCY = 0x03"
definition LS_MIN_POINT_RATE :: int where "LS_MIN_POINT_RATE = 1000"
definition LS_DEFAULT_POINT_RATE :: int where "LS_DEFAULT_POINT_RATE = 30000"
definition LS_MAX_POINT_RATE :: int where "LS_MAX_POINT_RATE = 30000"

definition ls_clampPointRate :: "u32 \<Rightarrow> u32" where
  "ls_clampPointRate rate =
     (if rate = 0 then word_of_int LS_DEFAULT_POINT_RATE
      else word_of_int (clamp_int (uint rate) LS_MIN_POINT_RATE LS_MAX_POINT_RATE))"

definition scanFrequencyKilohertz :: "u32 \<Rightarrow> u8 option" where
  "scanFrequencyKilohertz rate =
     (let clamped = ls_clampPointRate rate
      in do { rounded \<leftarrow> lround (fdiv F64 (of_num F64 (uint clamped)) (Fin 1000));
              Some (word_of_int (clamp_int (uint (word_of_int rounded :: u32)) 1 30)) })"

subsection \<open>Coordinate and colour encoders\<close>

definition ls_encodeSigned16 :: "fp \<Rightarrow> u16 option" where
  "ls_encodeSigned16 v =
     (let clamped = sanitizeSignedUnitValue v
      in if fle clamped (Fin (-1)) then Some (word_of_int (-32768))
         else map_option word_of_int (lround (fmul F32 clamped (Fin 32767))))"

definition ls_encodeSignedRange :: "fp \<Rightarrow> int \<Rightarrow> int \<Rightarrow> u16 option" where
  "ls_encodeSignedRange v negativeFullScale positiveFullScale =
     (let clamped = sanitizeSignedUnitValue v
      in if fle clamped (Fin (-1)) then Some (word_of_int negativeFullScale)
         else map_option word_of_int (lround (fmul F32 clamped (of_num F32 positiveFullScale))))"

definition ls_encodeUnsigned16 :: "fp \<Rightarrow> u16 option" where
  "ls_encodeUnsigned16 v =
     (let clamped = sanitizeSignedUnitValue v;
          normalized = fadd F32 (fmul F32 clamped (Fin (1 / 2))) (Fin (1 / 2))
      in map_option word_of_int (lround (fmul F32 normalized (Fin 65535))))"

definition ls_encodeUnsignedRange :: "fp \<Rightarrow> int \<Rightarrow> u16 option" where
  "ls_encodeUnsignedRange v maxValue =
     (let clamped = sanitizeSignedUnitValue v;
          normalized = fadd F32 (fmul F32 clamped (Fin (1 / 2))) (Fin (1 / 2))
      in map_option word_of_int (lround (fmul F32 normalized (of_num F32 maxValue))))"

definition ls_encodeUnsigned8 :: "fp \<Rightarrow> u8 option" where
  "ls_encodeUnsigned8 v =
     map_option word_of_int (lround (fmul F32 (sanitizeUnitValue v) (Fin 255)))"

datatype CoordinateEncoding = Signed16 | Unsigned16 | Signed15 | Unsigned15 | Signed12 | Unsigned12

datatype CoordinateByteOrder = BigEndian | LittleEndian

record CoordinateOptions =
  encoding :: CoordinateEncoding
  byteOrder :: CoordinateByteOrder
  invertX :: bool
  invertY :: bool
  swapXY :: bool
  scale :: fp
  offsetX :: fp
  offsetY :: fp

definition default_options :: CoordinateOptions where
  "default_options = \<lparr>encoding = Unsigned12, byteOrder = BigEndian, invertX = False, invertY = False,
     swapXY = False, scale = Fin 1, offsetX = Fin 0, offsetY = Fin 0\<rparr>"

definition appendCoordinateWord :: "bytes \<Rightarrow> u16 \<Rightarrow> CoordinateByteOrder \<Rightarrow> bytes" where
  "appendCoordinateWord payload v order = (case order of
     LittleEndian \<Rightarrow> payload @ [ucast (v AND 0xFF), ucast (drop_bit 8 v AND 0xFF)]
   | BigEndian \<Rightarrow> appendBe16 payload v)"

definition encodeCoordinateAs :: "fp \<Rightarrow> CoordinateEncoding \<Rightarrow> u16 option" where
  "encodeCoordinateAs v e = (case e of
     Unsigned16 \<Rightarrow> ls_encodeUnsigned16 v
   | Signed15 \<Rightarrow> ls_encodeSignedRange v (-16384) 16383
   | Unsigned15 \<Rightarrow> ls_encodeUnsignedRange v 32767
   | Signed12 \<Rightarrow> ls_encodeSignedRange v (-2048) 2047
   | Unsigned12 \<Rightarrow> ls_encodeUnsignedRange v 4095
   | Signed16 \<Rightarrow> ls_encodeSigned16 v)"

definition appendCoordinate :: "bytes \<Rightarrow> fp \<Rightarrow> CoordinateOptions \<Rightarrow> bytes option" where
  "appendCoordinate payload v options = do {
     encoded \<leftarrow> encodeCoordinateAs v (encoding options);
     Some (appendCoordinateWord payload encoded (byteOrder options)) }"

subsection \<open>CRC-16/CCITT\<close>

definition crc_bit :: "u16 \<Rightarrow> u16" where
  "crc_bit crc = (if crc AND 0x8000 \<noteq> 0 then push_bit 1 crc XOR 0x1021 else push_bit 1 crc)"

definition crc_byte :: "u16 \<Rightarrow> u8 \<Rightarrow> u16" where
  "crc_byte crc b = (crc_bit ^^ 8) (crc XOR push_bit 8 (ucast b))"

definition crc16Ccitt :: "bytes option \<Rightarrow> u16" where
  "crc16Ccitt data = (case data of None \<Rightarrow> 0xFFFF | Some d \<Rightarrow> foldl crc_byte 0xFFFF d)"

subsection \<open>Packets\<close>

definition protocolHeader :: bytes where
  "protocolHeader = map of_char ''LIGHTSPACE''"

definition buildPacket :: "u8 \<Rightarrow> u8 \<Rightarrow> bytes \<Rightarrow> bytes" where
  "buildPacket packetType commandWord payload =
     (let payloadSize = length payload;
          packetSize = 20 + payloadSize
      in if packetSize > 0xFFFF \<or> payloadSize > 0xFFFF then []
         else let out1 = protocolHeader;
                  out2 = appendBe16 out1 (of_nat packetSize);
                  out3 = appendBe16 out2 PROTOCOL_VERSION;
                  out4 = out3 @ [packetType];
                  out5 = out4 @ [commandWord];
                  out6 = appendBe16 out5 (of_nat payloadSize);
                  out7 = out6 @ payload;
                  crc = crc16Ccitt (Some out7)
              in appendBe16 out7 crc)"

record LightSpaceNetPacket =
  version :: u16
  packetType :: u8
  commandWord :: u8
  payload :: bytes

definition buildBroadcastQueryPacket :: bytes where
  "buildBroadcastQueryPacket = buildPacket PACKET_TYPE_BASIC CMD_BROADCAST_QUERY [0xFF]"

definition buildHeartbeatQueryPacket :: "u64 \<Rightarrow> bytes" where
  "buildHeartbeatQueryPacket timestampMillis =
     buildPacket PACKET_TYPE_BASIC CMD_HEARTBEAT_QUERY (appendBe64 [] timestampMillis)"

definition buildLaserSwitchPacket :: "bool \<Rightarrow> bytes" where
  "buildLaserSwitchPacket laserOn =
     buildPacket PACKET_TYPE_COMMAND CMD_LASER_ON_OFF [if laserOn then 0x01 else 0x02]"

definition buildScanFrequencyPacket :: "u32 \<Rightarrow> bytes option" where
  "buildScanFrequencyPacket rate = do {
     p \<leftarrow> scanFrequencyKilohertz rate;
     Some (buildPacket PACKET_TYPE_COMMAND CMD_SET_SCAN_FREQUENCY [p]) }"

definition appendStreamPoint :: "CoordinateOptions \<Rightarrow> bytes \<Rightarrow> LaserPoint \<Rightarrow> bytes option" where
  "appendStreamPoint options out p =
     (let x0 = pt_x p; y0 = pt_y p;
          (x1, y1) = (if swapXY options then (y0, x0) else (x0, y0));
          x2 = (if invertX options then fneg x1 else x1);
          y2 = (if invertY options then fneg y1 else y1);
          x = fadd F32 (fmul F32 x2 (scale options)) (offsetX options);
          y = fadd F32 (fmul F32 y2 (scale options)) (offsetY options)
      in do {
        out1 \<leftarrow> appendCoordinate out x options;
        out2 \<leftarrow> appendCoordinate out1 y options;
        r \<leftarrow> ls_encodeUnsigned8 (pt_r p);
        g \<leftarrow> ls_encodeUnsigned8 (pt_g p);
        b \<leftarrow> ls_encodeUnsigned8 (pt_b p);
        Some (out2 @ [r] @ [g] @ [b]) })"

fun appendStreamPoints :: "CoordinateOptions \<Rightarrow> bytes \<Rightarrow> LaserPoint list \<Rightarrow> bytes option" where
  "appendStreamPoints options out [] = Some out"
| "appendStreamPoints options out (p # ps) = do {
     out' \<leftarrow> appendStreamPoint options out p;
     appendStreamPoints options out' ps }"

definition buildPointStreamPacket :: "LaserPoint list \<Rightarrow> CoordinateOptions \<Rightarrow> bytes option" where
  "buildPointStreamPacket points options =
     (let pointCount = min (length points) 0xFFFF
      in do {
        body \<leftarrow> appendStreamPoints options (appendBe16 [] (of_nat pointCount)) (take pointCount points);
        Some (buildPacket PACKET_TYPE_BASIC CMD_POINT_STREAM body) })"

definition parsePacket :: "bytes option \<Rightarrow> LightSpaceNetPacket option option" where
  "parsePacket data = (case data of
     None \<Rightarrow> Some None
   | Some d \<Rightarrow>
       let size = length d in
       if size < 20 then Some None
       else if take (length protocolHeader) d \<noteq> protocolHeader then Some None
       else do {
         packetSize \<leftarrow> readBe16 (drop 10 d);
         if unat packetSize \<noteq> size then Some None
         else do {
           dataLength \<leftarrow> readBe16 (drop 16 d);
           if unat dataLength + 20 \<noteq> size then Some None
           else do {
             expectedCrc \<leftarrow> readBe16 (drop (size - 2) d);
             let actualCrc = crc16Ccitt (Some (take (size - 2) d));
             if expectedCrc \<noteq> actualCrc then Some None
             else do {
               ver \<leftarrow> readBe16 (drop 12 d);
               if ver \<noteq> PROTOCOL_VERSION then Some None
               else do {
                 pt \<leftarrow> rd8 d 14;
                 cw \<leftarrow> rd8 d 15;
                 Some (Some \<lparr>version = ver, packetType = pt, commandWord = cw,
                             payload = take (unat dataLength) (drop 18 d)\<rparr>) }}}}})"

subsection \<open>CRC lemmas\<close>

lemma xor_right_cancel: "a XOR m = b XOR m \<Longrightarrow> a = b" for a b m :: "'a::len word"
proof -
  assume eq: "a XOR m = b XOR m"
  have "a = (a XOR m) XOR m" by (simp add: xor.assoc)
  also have "\<dots> = (b XOR m) XOR m" by (simp only: eq)
  also have "\<dots> = b" by (simp add: xor.assoc)
  finally show ?thesis .
qed

lemma crc_bit_inj: "crc_bit a = crc_bit b \<Longrightarrow> a = b"
proof -
  assume eq: "crc_bit a = crc_bit b"
  have msb: "(c AND 0x8000 \<noteq> 0) \<longleftrightarrow> bit c 15" for c :: u16
  proof -
    have "(0x8000 :: u16) = push_bit 15 1" by simp
    then show ?thesis by (metis and.commute and_exp_eq_0_iff_not_bit push_bit_of_1)
  qed
  have low: "bit (crc_bit c) 0 \<longleftrightarrow> bit c 15" for c
    by (cases "c AND 0x8000 \<noteq> 0") (simp_all add: crc_bit_def msb even_xor_iff bit_0)
  from eq low have top: "bit a 15 \<longleftrightarrow> bit b 15" by metis
  have sh: "push_bit 1 a = push_bit 1 b"
  proof (cases "bit a 15")
    case True
    with eq top have "push_bit 1 a XOR 0x1021 = push_bit 1 b XOR 0x1021" by (simp only: crc_bit_def msb if_True)
    then show ?thesis by (rule xor_right_cancel)
  next
    case False
    with eq top show ?thesis by (simp only: crc_bit_def msb if_False)
  qed
  have "bit a n \<longleftrightarrow> bit b n" if "n < 15" for n
    using that arg_cong [OF sh, of "\<lambda>w. bit w (Suc n)"] by (simp only: bit_push_bit_iff) auto
  with top show ?thesis by (intro bit_word_eqI) (auto simp: less_Suc_eq numeral_eq_Suc)
qed

lemma crc_bits_inj: "(crc_bit ^^ n) a = (crc_bit ^^ n) b \<Longrightarrow> a = b"
  by (induction n) (auto dest: crc_bit_inj)

lemma crc_byte_inj_crc: "crc_byte a x = crc_byte b x \<Longrightarrow> a = b"
  unfolding crc_byte_def by (drule crc_bits_inj) (rule xor_right_cancel)

lemma crc_byte_inj_data: "crc_byte a x = crc_byte a y \<Longrightarrow> x = y"
proof -
  assume "crc_byte a x = crc_byte a y"
  then have "a XOR push_bit 8 (ucast x) = a XOR push_bit 8 (ucast y)"
    unfolding crc_byte_def by (rule crc_bits_inj)
  then have eq: "push_bit 8 (ucast x :: u16) = push_bit 8 (ucast y)"
    by (metis xor.commute xor_right_cancel)
  have "bit x n \<longleftrightarrow> bit y n" if "n < 8" for n
    using that arg_cong [OF eq, of "\<lambda>w. bit w (8 + n)"] by (simp only: bit_push_bit_iff bit_ucast_iff) auto
  then show ?thesis by (intro bit_word_eqI) simp
qed

lemma crc_fold_inj: "foldl crc_byte a xs = foldl crc_byte b xs \<Longrightarrow> a = b"
  by (induction xs arbitrary: a b) (auto dest: crc_byte_inj_crc)

lemma crc_detects_byte:
  assumes "x \<noteq> y"
  shows "crc16Ccitt (Some (pre @ x # post)) \<noteq> crc16Ccitt (Some (pre @ y # post))"
  using assms by (auto simp: crc16Ccitt_def dest!: crc_fold_inj crc_byte_inj_data)

subsection \<open>Building and parsing\<close>

lemma length_protocolHeader [wire_simps]: "length protocolHeader = 10"
  by (simp add: protocolHeader_def)

lemma buildPacket_eq:
  "20 + length p \<le> 0xFFFF \<Longrightarrow> buildPacket t c p =
    (let body = protocolHeader @ be16 (of_nat (20 + length p)) @ be16 PROTOCOL_VERSION @ [t, c]
        @ be16 (of_nat (length p)) @ p
     in body @ be16 (crc16Ccitt (Some body)))"
  by (simp add: buildPacket_def Let_def appendBe16_def)

lemma length_buildPacket: "20 + length p \<le> 0xFFFF \<Longrightarrow> length (buildPacket t c p) = 20 + length p"
  by (simp add: buildPacket_eq Let_def length_wire length_protocolHeader)

lemma unat_of_nat_u16: "n \<le> 0xFFFF \<Longrightarrow> unat (of_nat n :: u16) = n"
  by (simp add: unat_of_nat take_bit_eq_mod)

lemma parse_build:
  assumes "20 + length p \<le> 0xFFFF"
  shows "parsePacket (Some (buildPacket t c p)) =
    Some (Some \<lparr>version = PROTOCOL_VERSION, packetType = t, commandWord = c, payload = p\<rparr>)"
proof -
  let ?body = "protocolHeader @ be16 (of_nat (20 + length p)) @ be16 PROTOCOL_VERSION @ [t, c]
        @ be16 (of_nat (length p)) @ p"
  let ?d = "?body @ be16 (crc16Ccitt (Some ?body))"
  have d: "buildPacket t c p = ?d" using assms by (simp add: buildPacket_eq Let_def)
  have len: "length ?d = 20 + length p" "length ?body = 18 + length p"
    by (simp_all add: length_wire length_protocolHeader)
  have hd: "take (length protocolHeader) ?d = protocolHeader" by simp
  have sz: "readBe16 (drop 10 ?d) = Some (of_nat (20 + length p))"
    "readBe16 (drop 12 ?d) = Some PROTOCOL_VERSION"
    "readBe16 (drop 16 ?d) = Some (of_nat (length p))"
    by (simp_all add: length_protocolHeader length_wire be16_get_put)
  have end2: "length ?d - 2 = length ?body" using len by simp
  have crc: "readBe16 (drop (length ?d - 2) ?d) = Some (crc16Ccitt (Some ?body))"
    "take (length ?d - 2) ?d = ?body"
    by (simp_all only: end2 cBe16.get_at_end [OF refl] take_length_append)
  have rest: "rd8 ?d 14 = Some t" "rd8 ?d 15 = Some c" "take (length p) (drop 18 ?d) = p"
    by (simp_all add: rd8_def nth_append length_protocolHeader length_wire)
  have u: "unat (of_nat (20 + length p) :: u16) = 20 + length p" "unat (of_nat (length p) :: u16) = length p"
    using assms by (simp_all only: unat_of_nat_u16)
  show ?thesis
    unfolding parsePacket_def option.case Let_def
    using len(1) [folded d] hd [folded d] sz [folded d] crc [folded d] rest [folded d] u by simp
qed

lemma parse_inv:
  assumes "parsePacket (Some d) = Some (Some q)"
  shows "version q = PROTOCOL_VERSION \<and> 20 + length (payload q) \<le> 0xFFFF
    \<and> d = buildPacket (packetType q) (commandWord q) (payload q)"
proof -
  let ?n = "length d"
  from assms obtain ps dl ec vr where g: "20 \<le> ?n" "take (length protocolHeader) d = protocolHeader"
    "readBe16 (drop 10 d) = Some ps" "unat ps = ?n" "readBe16 (drop 16 d) = Some dl" "unat dl + 20 = ?n"
    "readBe16 (drop (?n - 2) d) = Some ec" "ec = crc16Ccitt (Some (take (?n - 2) d))"
    "readBe16 (drop 12 d) = Some vr" "vr = PROTOCOL_VERSION"
    and q: "q = \<lparr>version = vr, packetType = d ! 14, commandWord = d ! 15, payload = take (unat dl) (drop 18 d)\<rparr>"
    by (auto simp: parsePacket_def Let_def rd8_def not_less split: if_splits Option.bind_splits)
  have w: "take 2 (drop 10 d) = be16 ps" "take 2 (drop 12 d) = be16 vr" "take 2 (drop 16 d) = be16 dl"
    "take 2 (drop (?n - 2) d) = be16 ec"
    using g cBe16.get_total [of "drop 10 d"] cBe16.get_total [of "drop 12 d"] cBe16.get_total [of "drop 16 d"]
      cBe16.get_total [of "drop (?n - 2) d"] by auto
  have lp: "length (payload q) = unat dl" using g(6) q by simp
  have mid: "take 2 (drop 14 d) = [d ! 14, d ! 15]"
    using g(1) by (intro nth_equalityI) (auto simp: less_Suc_eq numeral_eq_Suc)
  have "take (?n - 2) d = take 10 d @ take 2 (drop 10 d) @ take 2 (drop 12 d) @ take 2 (drop 14 d)
      @ take 2 (drop 16 d) @ take (?n - 20) (drop 18 d)"
    using g(1) take_drop_chunk [of "?n - 2" 10 "?n - 12" 0 d] take_drop_chunk [of "?n - 12" 2 "?n - 14" 10 d]
      take_drop_chunk [of "?n - 14" 2 "?n - 16" 12 d] take_drop_chunk [of "?n - 16" 2 "?n - 18" 14 d]
      take_drop_chunk [of "?n - 18" 2 "?n - 20" 16 d] by simp
  moreover have "?n - 20 = unat dl" using g(6) by linarith
  ultimately have body: "take (?n - 2) d = protocolHeader @ be16 ps @ be16 vr @ [d ! 14, d ! 15] @ be16 dl @ payload q"
    using w mid g(2,6) q by (simp add: length_protocolHeader)
  have "d = take (?n - 2) d @ take 2 (drop (?n - 2) d)" using g(1) by simp
  then have d: "d = (protocolHeader @ be16 ps @ be16 vr @ [d ! 14, d ! 15] @ be16 dl @ payload q) @ be16 ec"
    using body w(4) by simp
  have e1: "20 + length (payload q) = unat ps" using g(4,6) lp by linarith
  have s1: "of_nat (20 + length (payload q)) = ps" unfolding e1 by simp
  have s2: "of_nat (length (payload q)) = dl" unfolding lp by simp
  have le: "20 + length (payload q) \<le> 0xFFFF" using lp g(4,6) unat_u16_less [of ps] by linarith
  have qf: "packetType q = d ! 14" "commandWord q = d ! 15" "version q = PROTOCOL_VERSION" using q g(10) by simp_all
  let ?B = "protocolHeader @ be16 ps @ be16 PROTOCOL_VERSION @ [d ! 14, d ! 15] @ be16 dl @ payload q"
  have "buildPacket (packetType q) (commandWord q) (payload q) = ?B @ be16 (crc16Ccitt (Some ?B))"
    using le by (simp only: buildPacket_eq Let_def s1 s2 qf)
  moreover have "ec = crc16Ccitt (Some ?B)" using g(8) unfolding body g(10) by simp
  ultimately have "d = buildPacket (packetType q) (commandWord q) (payload q)"
    using d unfolding g(10) by simp
  then show ?thesis using qf(3) le by blast
qed

lemma parse_total: "\<exists>r. parsePacket data = Some r"
proof (cases "\<exists>d. data = Some d \<and> 20 \<le> length d")
  case True
  then obtain d where d: "data = Some d" "20 \<le> length d" by blast
  then have "length d - 2 + 2 \<le> length d" "10 + 2 \<le> length d" "12 + 2 \<le> length d" "16 + 2 \<le> length d" by simp_all
  then obtain a b c e where "readBe16 (drop 10 d) = Some a" "readBe16 (drop 12 d) = Some b"
    "readBe16 (drop 16 d) = Some c" "readBe16 (drop (length d - 2) d) = Some e"
    using cBe16.get_drop by meson
  with d show ?thesis by (auto simp: parsePacket_def Let_def rd8_def)
qed (auto simp: parsePacket_def Let_def split: option.splits)

lemma accepted_shape: "parsePacket (Some d) = Some (Some q) \<Longrightarrow> \<exists>body. d = body @ be16 (crc16Ccitt (Some body))"
  using parse_inv [of d q] by (metis buildPacket_eq)

text \<open>C36. A packet that the builder accepts parses back to its type, command and payload; and
  whatever bytes the parser accepts are exactly the packet the builder makes of the result, so
  the parser admits no second encoding. It never reads outside its data, for any pointer and
  any bytes.\<close>

theorem packet_roundtrip:
  "(length p \<le> 65515 \<longrightarrow> parsePacket (Some (buildPacket t c p)) =
      Some (Some \<lparr>version = PROTOCOL_VERSION, packetType = t, commandWord = c, payload = p\<rparr>)) \<and>
   (65515 < length p \<longrightarrow> buildPacket t c p = []) \<and>
   (\<exists>r. parsePacket data = Some r) \<and>
   (parsePacket (Some d) = Some (Some q) \<longrightarrow>
      d = buildPacket (packetType q) (commandWord q) (payload q) \<and> version q = PROTOCOL_VERSION)"
  using parse_build [of p t c] parse_total [of data] parse_inv [of d q]
  by (auto simp: buildPacket_def Let_def)

theorem packet_roundtrip_witness:
  "parsePacket (Some (buildPacket 1 16 [1, 2, 3])) =
     Some (Some \<lparr>version = PROTOCOL_VERSION, packetType = 1, commandWord = 16, payload = [1, 2, 3]\<rparr>)"
  using packet_roundtrip [of "[1, 2, 3]" 1 16 None "[]"] by simp

text \<open>C37. The checksum catches every change confined to one byte, wherever it is: such a packet
  is refused by the parser.\<close>

theorem corrupted_byte_rejected:
  assumes "parsePacket (Some (pre @ x # post)) = Some (Some q)" and "x \<noteq> y"
  shows "parsePacket (Some (pre @ y # post)) = Some None"
proof (rule ccontr)
  let ?d = "pre @ x # post" and ?e = "pre @ y # post"
  assume "parsePacket (Some ?e) \<noteq> Some None"
  then obtain q' where q': "parsePacket (Some ?e) = Some (Some q')"
    using parse_total [of "Some ?e"] by auto
  obtain A B where A: "?d = A @ be16 (crc16Ccitt (Some A))" and B: "?e = B @ be16 (crc16Ccitt (Some B))"
    using accepted_shape [OF assms(1)] accepted_shape [OF q'] by blast
  have len: "length A + 2 = length pre + Suc (length post)" "length B = length A"
    using arg_cong [OF A, of length] arg_cong [OF B, of length] by (simp_all add: length_wire)
  define n where "n = length A"
  have tA: "take n ?d = A" "drop n ?d = be16 (crc16Ccitt (Some A))" unfolding A by (simp_all add: n_def)
  have tB: "take n ?e = B" "drop n ?e = be16 (crc16Ccitt (Some B))" unfolding B using len by (simp_all add: n_def)
  show False
  proof (cases "length pre < n")
    case True
    then obtain k where k: "n = length pre + Suc k" by (metis less_iff_Suc_add add_Suc_right)
    have AB: "A = pre @ x # take k post" "B = pre @ y # take k post" using tA(1) tB(1) k by simp_all
    moreover have "crc16Ccitt (Some A) = crc16Ccitt (Some B)"
      using tA(2) tB(2) k by (intro cBe16.put_inj) simp
    ultimately show False using crc_detects_byte [OF assms(2)] by blast
  next
    case False
    then have "A = B" using tA(1) tB(1) by simp
    then have "?d = ?e" using A B by simp
    with assms(2) show False by simp
  qed
qed

theorem corrupted_byte_rejected_witness:
  "parsePacket (Some ((protocolHeader @ be16 21 @ be16 PROTOCOL_VERSION @ [1]) @ 3 #
     (be16 1 @ [0xFF] @ be16 (crc16Ccitt (Some (protocolHeader @ be16 21 @ be16 PROTOCOL_VERSION @ [1, 1] @ be16 1 @ [0xFF]))))))
   = Some None"
  (is "parsePacket (Some (?pre @ 3 # ?post)) = Some None")
proof -
  have "buildPacket 1 1 [0xFF] = ?pre @ 1 # ?post" by (simp add: buildPacket_eq Let_def)
  then have "parsePacket (Some (?pre @ 1 # ?post)) =
      Some (Some \<lparr>version = PROTOCOL_VERSION, packetType = 1, commandWord = 1, payload = [0xFF]\<rparr>)"
    using parse_build [of "[0xFF]" 1 1] by (simp del: append_assoc)
  then show ?thesis by (rule corrupted_byte_rejected) simp
qed

end
