(* ===== verification/Light_Space_Pattern.thy ===== *)
theory Light_Space_Pattern
  imports Light_Space Geometry
begin

text \<open>
  The point stream packet of LightSpace Net and \<open>fitCurrentPatternToPointLimit\<close>
  (src/lightspacenet/LightSpaceNetPacket.cpp): a pattern longer than the device's limit keeps a
  prefix and ends in a dark eased move to the pattern's last point.
\<close>

subsection \<open>Blank travel\<close>

definition ls_cubicEaseInOut :: "fp \<Rightarrow> fp" where
  "ls_cubicEaseInOut t =
     (let clamped = fclamp t (Fin 0) (Fin 1)
      in if flt clamped (Fin (1 / 2))
         then fmul F32 (fmul F32 (fmul F32 (Fin 4) clamped) clamped) clamped
         else let inv = fadd F32 (fmul F32 (Fin (-2)) clamped) (Fin 2)
              in fsub F32 (Fin 1) (fdiv F32 (fmul F32 (fmul F32 inv inv) inv) (Fin 2)))"

definition fullCoordinateWidth :: fp where
  "fullCoordinateWidth = Fin 2"

definition blankTravelSpacing :: fp where
  "blankTravelSpacing = fmul F32 fullCoordinateWidth (rnd F32 (2 / 100))"

definition minBlankTravelPointCount :: nat where "minBlankTravelPointCount = 2"
definition maxBlankTravelPointCount :: nat where "maxBlankTravelPointCount = 128"

definition blankTravelPointCount :: "LaserPoint \<Rightarrow> LaserPoint \<Rightarrow> nat option" where
  "blankTravelPointCount from to =
     (let fromX = sanitizeSignedUnitValue (pt_x from);
          fromY = sanitizeSignedUnitValue (pt_y from);
          toX = sanitizeSignedUnitValue (pt_x to);
          toY = sanitizeSignedUnitValue (pt_y to);
          dx = fsub F32 toX fromX;
          dy = fsub F32 toY fromY;
          distance = planarDistance dx dy
      in do {
        travelSegments \<leftarrow> cast_size (fceil (fdiv F32 distance blankTravelSpacing));
        Some (min maxBlankTravelPointCount (max (travelSegments + 1) minBlankTravelPointCount)) })"

definition blankTravelPoint :: "LaserPoint \<Rightarrow> LaserPoint \<Rightarrow> nat \<Rightarrow> nat \<Rightarrow> LaserPoint" where
  "blankTravelPoint from to pointCount i =
     (let dx = fsub F32 (pt_x to) (pt_x from);
          dy = fsub F32 (pt_y to) (pt_y from);
          t = fdiv F32 (of_num F32 (int i)) (of_num F32 (int (max (pointCount - 1) 1)));
          eased = ls_cubicEaseInOut t
      in from\<lparr>pt_x := fadd F32 (pt_x from) (fmul F32 dx eased),
              pt_y := fadd F32 (pt_y from) (fmul F32 dy eased),
              pt_r := Fin 0, pt_g := Fin 0, pt_b := Fin 0, pt_i := Fin 0\<rparr>)"

definition appendBlankTravelPoints ::
    "LaserPoint list \<Rightarrow> LaserPoint \<Rightarrow> LaserPoint \<Rightarrow> nat \<Rightarrow> LaserPoint list" where
  "appendBlankTravelPoints output from to pointCount =
     output @ map (blankTravelPoint from to pointCount) [0..<pointCount]"

subsection \<open>Fitting a pattern to the point limit\<close>

text \<open>The loop that settles the length of the dark tail runs at most 8 times.\<close>

fun settleBlankTail :: "nat \<Rightarrow> LaserPoint list \<Rightarrow> nat \<Rightarrow> nat \<Rightarrow> nat option" where
  "settleBlankTail 0 points maximumPointCount blankTailCount = Some blankTailCount"
| "settleBlankTail (Suc n) points maximumPointCount blankTailCount =
     (let visiblePointCount = maximumPointCount - blankTailCount;
          lastVisiblePoint = points ! (visiblePointCount - 1)
      in do {
        travel \<leftarrow> blankTravelPointCount lastVisiblePoint (last points);
        let desiredBlankTailCount = min travel (maximumPointCount - 1);
        if desiredBlankTailCount = blankTailCount then Some blankTailCount
        else settleBlankTail n points maximumPointCount desiredBlankTailCount })"

definition fitCurrentPatternToPointLimit :: "LaserPoint list \<Rightarrow> nat \<Rightarrow> LaserPoint list option" where
  "fitCurrentPatternToPointLimit points maximumPointCount =
     (if length points \<le> maximumPointCount then Some points
      else if points = [] \<or> maximumPointCount = 0 then Some []
      else if maximumPointCount = 1 then
        Some [(last points)\<lparr>pt_r := Fin 0, pt_g := Fin 0, pt_b := Fin 0, pt_i := Fin 0\<rparr>]
      else do {
        let finalPoint = last points;
        travel \<leftarrow> blankTravelPointCount (points ! (maximumPointCount - 2)) finalPoint;
        blankTailCount \<leftarrow> settleBlankTail 8 points maximumPointCount (min travel (maximumPointCount - 1));
        let visiblePointCount = maximumPointCount - blankTailCount;
        let fitted = take visiblePointCount points;
        Some (appendBlankTravelPoints fitted (last fitted) finalPoint blankTailCount) })"

subsection \<open>The travel count is defined and bounded\<close>

lemma blankTravelSpacing_eq: "blankTravelSpacing = Fin (10737418 / 268435456)"
  by code_simp

lemma blankTravelPointCount_total:
  "\<exists>n. blankTravelPointCount p q = Some n \<and> 2 \<le> n \<and> n \<le> 128"
proof -
  define dist where "dist = planarDistance (fsub F32 (sanitizeSignedUnitValue (pt_x q)) (sanitizeSignedUnitValue (pt_x p)))
    (fsub F32 (sanitizeSignedUnitValue (pt_y q)) (sanitizeSignedUnitValue (pt_y p)))"
  obtain r where r: "dist = Fin r" "0 \<le> r" "r \<le> 3"
    unfolding dist_def using planarDistance_range sanitizeSigned_unit by meson
  define z where "z = rndq F32 (r / (10737418 / 268435456))"
  have z: "fdiv F32 (Fin r) blankTravelSpacing = Fin z" "0 \<le> z" "z \<le> 100"
    using rnd_to_int_range [of "r / (10737418 / 268435456)" 100] r
    by (simp_all add: z_def blankTravelSpacing_eq field_simps)
  have cz: "0 \<le> \<lceil>z\<rceil>" "\<lceil>z\<rceil> \<le> 100" using z by (simp_all add: ceiling_le_iff)
  have "cast_size (fceil (Fin z)) = Some (nat \<lceil>z\<rceil>)" using cz by (simp add: cast_size_def trunc_rat_def)
  then show ?thesis
    using r z
    by (simp add: blankTravelPointCount_def Let_def dist_def [symmetric] minBlankTravelPointCount_def maxBlankTravelPointCount_def
      del: fmul.simps fadd.simps fsqrt.simps fdiv.simps fceil.simps)
qed

lemma settleBlankTail_bounds:
  assumes "1 \<le> t" "t \<le> m - 1" "t \<le> 128" "2 \<le> m"
  shows "\<exists>t'. settleBlankTail n points m t = Some t' \<and> 1 \<le> t' \<and> t' \<le> m - 1 \<and> t' \<le> 128"
  using assms
proof (induction n arbitrary: t)
  case 0
  then show ?case by simp
next
  case (Suc n)
  obtain k where k: "blankTravelPointCount (points ! (m - t - 1)) (last points) = Some k" "2 \<le> k" "k \<le> 128"
    using blankTravelPointCount_total by blast
  have "1 \<le> min k (m - 1)" "min k (m - 1) \<le> m - 1" "min k (m - 1) \<le> 128" using k Suc.prems by auto
  then show ?case using Suc.IH [of "min k (m - 1)"] Suc.prems k by (auto simp: Let_def)
qed

lemma dark_blankTravelPoint: "dark (blankTravelPoint p q n i)"
  by (simp add: dark_def blankTravelPoint_def Let_def)

text \<open>C38. Fitting a pattern to the device limit always produces a result within the limit; a
  pattern that fits is returned unchanged; a longer one keeps a prefix of the source and fills
  the rest, exactly up to the limit and with at least one and at most 128 points, with dark
  points.\<close>

theorem fit_respects_limit:
  "\<exists>out. fitCurrentPatternToPointLimit points m = Some out \<and> length out \<le> m
    \<and> (length points \<le> m \<longrightarrow> out = points)
    \<and> (m < length points \<and> 0 < m \<longrightarrow> length out = m \<and>
        (\<exists>v. v < m \<and> m \<le> v + 128 \<and> take v out = take v points \<and> (\<forall>p \<in> set (drop v out). dark p)))"
proof -
  consider "length points \<le> m" | "m < length points" "m = 0" | "m < length points" "m = 1"
    | "m < length points" "2 \<le> m" by linarith
  then show ?thesis
  proof cases
    case 1
    then show ?thesis by (simp add: fitCurrentPatternToPointLimit_def)
  next
    case 2
    then show ?thesis by (simp add: fitCurrentPatternToPointLimit_def)
  next
    case 3
    then show ?thesis by (auto simp: fitCurrentPatternToPointLimit_def dark_def intro: exI [of _ 0])
  next
    case 4
    obtain k where k: "blankTravelPointCount (points ! (m - 2)) (last points) = Some k" "2 \<le> k" "k \<le> 128"
      using blankTravelPointCount_total by blast
    have "1 \<le> min k (m - 1)" "min k (m - 1) \<le> m - 1" "min k (m - 1) \<le> 128" using k 4 by auto
    then obtain t where t: "settleBlankTail 8 points m (min k (m - 1)) = Some t" "1 \<le> t" "t \<le> m - 1" "t \<le> 128"
      using settleBlankTail_bounds 4(2) by blast
    let ?fit = "take (m - t) points"
    let ?out = "?fit @ map (blankTravelPoint (last ?fit) (last points) t) [0..<t]"
    have out: "fitCurrentPatternToPointLimit points m = Some ?out"
      using 4 k(1) t(1) by (auto simp: fitCurrentPatternToPointLimit_def appendBlankTravelPoints_def Let_def)
    have fl: "length ?fit = m - t" using 4 t by simp
    have "length ?out = m" using fl t 4 by simp
    moreover have "take (m - t) ?out = take (m - t) points" using fl by simp
    moreover have "\<forall>p \<in> set (drop (m - t) ?out). dark p" using fl by (auto simp: dark_blankTravelPoint)
    moreover have "m - t < m" "m \<le> m - t + 128" using t 4 by auto
    ultimately obtain o' where "fitCurrentPatternToPointLimit points m = Some o'" "length o' = m"
      "m - t < m" "m \<le> m - t + 128" "take (m - t) o' = take (m - t) points" "\<forall>p \<in> set (drop (m - t) o'). dark p"
      using out by blast
    then show ?thesis using 4(1) by auto
  qed
qed

theorem fit_respects_limit_witness:
  "\<exists>out. fitCurrentPatternToPointLimit (replicate 5 default_point) 3 = Some out \<and> length out = 3"
  using fit_respects_limit [of "replicate 5 default_point" 3] by auto

subsection \<open>The point stream packet\<close>

lemma lround_fmul_total:
  assumes "-1 \<le> q" "q \<le> 1" "0 \<le> s" "s < 2 ^ 16"
  shows "\<exists>k. lround (fmul F32 (Fin q) (Fin (of_int s))) = Some k"
proof -
  have n: "rndq F32 (of_int s) = of_int s" by (rule rndq_small_int) (use assms in simp)
  then have m: "rndq F32 (- of_int s) = - of_int s" by (simp only: rndq_minus)
  have sb: "(of_int s :: rat) \<le> 2 ^ 24" using assms(4) by (simp add: order.trans [of _ "2 ^ 16"] flip: of_int_le_iff)
  have "q * of_int s \<le> of_int s" "- of_int s \<le> q * of_int s"
    using assms mult_right_mono [of q 1 "of_int s"] mult_right_mono [of "-1" q "of_int s"] by auto
  then have "rnd F32 (q * of_int s) = Fin (rndq F32 (q * of_int s))"
    using rnd_in_range [OF _ _ m n, of "q * of_int s"] sb assms(3) by auto
  then show ?thesis by simp
qed

lemma encodeCoordinateAs_total: "\<exists>w. encodeCoordinateAs v e = Some w"
proof -
  obtain q where q: "sanitizeSignedUnitValue v = Fin q" "-1 \<le> q" "q \<le> 1"
    using sanitizeSigned_range by blast
  obtain r where r: "fadd F32 (fmul F32 (Fin q) (Fin (1 / 2))) (Fin (1 / 2)) = Fin r" "0 \<le> r" "r \<le> 1"
    using half_normalized [OF q(2,3)] by blast
  have sg: "\<exists>k. lround (fmul F32 (Fin q) (Fin (of_int s))) = Some k"
    and un: "\<exists>k. lround (fmul F32 (Fin r) (Fin (of_int s))) = Some k" if "0 \<le> s" "s < 2 ^ 16" for s
    using lround_fmul_total [OF q(2,3) that] lround_fmul_total [of r s] r that by auto
  show ?thesis
    using q(1) r(1) sg [of 32767] sg [of 16383] sg [of 2047] un [of 65535] un [of 32767] un [of 4095]
    by (cases e) (auto simp: encodeCoordinateAs_def ls_encodeUnsigned16_def ls_encodeSignedRange_def
        ls_encodeUnsignedRange_def ls_encodeSigned16_def Let_def of_num_small
        simp del: fmul.simps fadd.simps lround.simps)
qed

lemma ls_encodeUnsigned8_total: "\<exists>w. ls_encodeUnsigned8 v = Some w"
proof -
  obtain q where q: "sanitizeUnitValue v = Fin q" "0 \<le> q" "q \<le> 1" using sanitizeUnit_range by blast
  then show ?thesis using lround_fmul_total [of q 255]
    by (auto simp: ls_encodeUnsigned8_def simp del: fmul.simps lround.simps)
qed

lemma appendCoordinate_total: "\<exists>w. appendCoordinate out v opt = Some (out @ w) \<and> length w = 2"
proof -
  obtain w where "encodeCoordinateAs v (encoding opt) = Some w" using encodeCoordinateAs_total by blast
  then show ?thesis
    by (auto simp: appendCoordinate_def appendCoordinateWord_def appendBe16_def length_wire
        split: CoordinateByteOrder.splits)
qed

lemma appendStreamPoint_total: "\<exists>w. appendStreamPoint opt out p = Some (out @ w) \<and> length w = 7"
proof -
  obtain r g b where c: "ls_encodeUnsigned8 (pt_r p) = Some r" "ls_encodeUnsigned8 (pt_g p) = Some g"
    "ls_encodeUnsigned8 (pt_b p) = Some b" by (metis ls_encodeUnsigned8_total)
  have "\<exists>w. (do { out1 \<leftarrow> appendCoordinate out x opt; out2 \<leftarrow> appendCoordinate out1 y opt;
      r \<leftarrow> ls_encodeUnsigned8 (pt_r p); g \<leftarrow> ls_encodeUnsigned8 (pt_g p); b \<leftarrow> ls_encodeUnsigned8 (pt_b p);
      Some (out2 @ [r] @ [g] @ [b]) }) = Some (out @ w) \<and> length w = 7" for x y
  proof -
    obtain a where a: "appendCoordinate out x opt = Some (out @ a)" "length a = 2"
      using appendCoordinate_total by blast
    obtain e where "appendCoordinate (out @ a) y opt = Some ((out @ a) @ e)" "length e = 2"
      using appendCoordinate_total by blast
    with a c show ?thesis by simp
  qed
  then show ?thesis by (simp add: appendStreamPoint_def Let_def split: prod.splits)
qed

lemma appendStreamPoints_total:
  "\<exists>w. appendStreamPoints opt out ps = Some (out @ w) \<and> length w = 7 * length ps"
proof (induction ps arbitrary: out)
  case Nil
  then show ?case by simp
next
  case (Cons p ps)
  obtain a where a: "appendStreamPoint opt out p = Some (out @ a)" "length a = 7"
    using appendStreamPoint_total by blast
  obtain b where "appendStreamPoints opt (out @ a) ps = Some ((out @ a) @ b)" "length b = 7 * length ps"
    using Cons.IH by blast
  with a show ?case by simp
qed

text \<open>The point stream packet is always defined, whatever the points and the coordinate
  options. Up to 9359 points (in particular for the 700 the transport is limited to) the receiver
  parses it back as a point stream whose payload is the point count and seven bytes for each
  point; with more points the packet is empty.\<close>

theorem point_stream_packet:
  "\<exists>pkt. buildPointStreamPacket points options = Some pkt \<and>
     (9359 < length points \<longrightarrow> pkt = []) \<and>
     (length points \<le> 9359 \<longrightarrow> length pkt = 22 + 7 * length points \<and>
       (\<exists>q. parsePacket (Some pkt) = Some (Some q) \<and> packetType q = PACKET_TYPE_BASIC
          \<and> commandWord q = CMD_POINT_STREAM \<and> length (payload q) = 2 + 7 * length points
          \<and> readBe16 (payload q) = Some (of_nat (length points))))"
proof -
  let ?n = "min (length points) 0xFFFF"
  obtain w where w: "appendStreamPoints options (appendBe16 [] (of_nat ?n)) (take ?n points)
      = Some (appendBe16 [] (of_nat ?n) @ w)" "length w = 7 * length (take ?n points)"
    using appendStreamPoints_total by blast
  let ?body = "be16 (of_nat ?n) @ w"
  have lb: "length ?body = 2 + 7 * ?n" using w(2) by (simp add: length_wire)
  have pkt: "buildPointStreamPacket points options = Some (buildPacket PACKET_TYPE_BASIC CMD_POINT_STREAM ?body)"
    using w by (simp add: buildPointStreamPacket_def Let_def appendBe16_def)
  show ?thesis
  proof (cases "length points \<le> 9359")
    case True
    then have n: "?n = length points" by simp
    have "20 + length ?body \<le> 0xFFFF" using lb True n by linarith
    from parse_build [OF this] length_buildPacket [OF this] show ?thesis
      using pkt lb True n be16_get_put [of "of_nat (length points)" w] by simp
  next
    case False
    then have "0xFFFF < 20 + length ?body" using lb by linarith
    then have "buildPacket PACKET_TYPE_BASIC CMD_POINT_STREAM ?body = []" by (simp add: buildPacket_def)
    with pkt False show ?thesis by simp
  qed
qed

theorem point_stream_packet_witness:
  "\<exists>pkt. buildPointStreamPacket [default_point] default_options = Some pkt \<and> length pkt = 29"
  using point_stream_packet [of "[default_point]" default_options] by auto

end
