(* ===== verification/Device_Status.thy ===== *)
theory Device_Status
  imports Light_Space
begin

text \<open>
  Device status parsers: the LightSpace Net broadcast response
  (src/lightspacenet/LightSpaceNetStatus.cpp) with its two payload layouts, and the LaserCube
  network status (src/lasercubenet/LaserCubeNetStatus.cpp). The time of the parse is an
  argument. An outer \<open>None\<close> would be a read past the end of the data.
\<close>

subsection \<open>LightSpace Net broadcast response\<close>

definition char_of_byte :: "u8 \<Rightarrow> char" where
  "char_of_byte b = char_of (unat b)"

definition byte_of_char :: "char \<Rightarrow> nat" where
  "byte_of_char c = of_char c"

text \<open>\<open>std::isspace\<close> and \<open>std::isprint\<close> of the C locale.\<close>

definition isspace :: "char \<Rightarrow> bool" where
  "isspace c = (let n = byte_of_char c in n = 32 \<or> (9 \<le> n \<and> n \<le> 13))"

definition isprint :: "char \<Rightarrow> bool" where
  "isprint c = (let n = byte_of_char c in 32 \<le> n \<and> n \<le> 126)"

definition makeIpString :: "bytes \<Rightarrow> string option" where
  "makeIpString data = do {
     a \<leftarrow> rd8 data 0; b \<leftarrow> rd8 data 1; c \<leftarrow> rd8 data 2; d \<leftarrow> rd8 data 3;
     Some (dec_string (unat a) @ ''.'' @ dec_string (unat b) @ ''.'' @ dec_string (unat c) @ ''.''
           @ dec_string (unat d)) }"

definition sanitizeDeviceName :: "string \<Rightarrow> string" where
  "sanitizeDeviceName s =
     (let v1 = rev (dropWhile (\<lambda>c. byte_of_char c = 0 \<or> isspace c) (rev s));
          v2 = dropWhile isspace v1
      in if \<exists>c \<in> set v2. byte_of_char c = 0 \<or> \<not> isprint c then [] else v2)"

definition isCommonSubnetMask :: "bytes \<Rightarrow> bool option" where
  "isCommonSubnetMask data = do {
     mask \<leftarrow> readBe32 data;
     Some (mask \<in> set [0xFF000000, 0xFFFF0000, 0xFFFFFF00, 0xFFFFFF80, 0xFFFFFFC0, 0xFFFFFFE0,
                       0xFFFFFFF0, 0xFFFFFFF8, 0xFFFFFFFC]) }"

definition isLikelyIpv4Address :: "bytes \<Rightarrow> bool option" where
  "isLikelyIpv4Address data = do {
     a \<leftarrow> rd8 data 0; d \<leftarrow> rd8 data 3;
     Some (a \<noteq> 0 \<and> a \<noteq> 255 \<and> d \<noteq> 0 \<and> d \<noteq> 255) }"

definition isObservedNetworkLayout :: "bytes \<Rightarrow> bool option" where
  "isObservedNetworkLayout p =
     (if length p \<noteq> 19 then Some False
      else do {
        ip \<leftarrow> isLikelyIpv4Address (drop 6 p);
        mask \<leftarrow> isCommonSubnetMask (drop 10 p);
        gateway \<leftarrow> isLikelyIpv4Address (drop 14 p);
        Some (ip \<and> mask \<and> gateway) })"

record LightSpaceNetStatus =
  deviceId :: u32
  firmwareVersion :: u16
  hardwareVersion :: u16
  ipAddress :: string
  macAddress :: bytes
  macAddressString :: string
  deviceName :: string
  lastSeen :: time_point

definition stableId :: "LightSpaceNetStatus \<Rightarrow> string" where
  "stableId s = (if \<exists>b \<in> set (macAddress s). b \<noteq> 0 then macAddressString s
                 else dec_string (unat (deviceId s)))"

definition displayLabel :: "LightSpaceNetStatus \<Rightarrow> string" where
  "displayLabel s = (if deviceName s \<noteq> [] then deviceName s else ''LightSpace '' @ stableId s)"

definition parseBroadcastResponse :: "time_point \<Rightarrow> bytes option \<Rightarrow> LightSpaceNetStatus option option" where
  "parseBroadcastResponse t data = do {
     parsed \<leftarrow> parsePacket data;
     case parsed of
       None \<Rightarrow> Some None
     | Some pkt \<Rightarrow>
         if packetType pkt \<noteq> PACKET_TYPE_BASIC \<or> commandWord pkt \<noteq> CMD_BROADCAST_RESPONSE then Some None
         else if length (payload pkt) < 18 then Some None
         else do {
           let p = payload pkt;
           dev \<leftarrow> readBe32 p;
           fw \<leftarrow> readBe16 (drop 4 p);
           observed \<leftarrow> isObservedNetworkLayout p;
           if observed then do {
             hw \<leftarrow> rd8 p 18;
             ip \<leftarrow> makeIpString (drop 6 p);
             Some (Some \<lparr>deviceId = dev, firmwareVersion = fw, hardwareVersion = ucast hw, ipAddress = ip,
               macAddress = replicate 6 0, macAddressString = [], deviceName = [], lastSeen = t\<rparr>) }
           else do {
             hw \<leftarrow> readBe16 (drop 6 p);
             ip \<leftarrow> makeIpString (drop 8 p);
             let mac = take 6 (drop 12 p);
             let name = (if length p > 18 then sanitizeDeviceName (map char_of_byte (drop 18 p)) else []);
             Some (Some \<lparr>deviceId = dev, firmwareVersion = fw, hardwareVersion = hw, ipAddress = ip,
               macAddress = mac, macAddressString = hex_bytes True mac, deviceName = name, lastSeen = t\<rparr>) } } }"

subsection \<open>LaserCube network status\<close>

record LaserCubeNetStatus =
  payloadVersion :: u8
  firmwareMajor :: u8
  firmwareMinor :: u8
  lc_firmwareVersion :: string
  outputEnabled :: bool
  interlockEnabled :: bool
  temperatureWarning :: bool
  overTemperature :: bool
  packetErrors :: u8
  lc_pointRate :: u32
  pointRateMax :: u32
  bufferFree :: u16
  bufferMax :: u16
  batteryPercent :: u8
  temperatureC :: u8
  connectionType :: u8
  serialNumber :: string
  lc_ipAddress :: string
  modelNumber :: u8
  modelName :: string
  lc_lastSeen :: time_point

definition isPluggedIn :: "LaserCubeNetStatus \<Rightarrow> bool" where
  "isPluggedIn s = (batteryPercent s = 255)"

definition batteryLevel :: "LaserCubeNetStatus \<Rightarrow> fp" where
  "batteryLevel s = (if 100 < unat (batteryPercent s) then Fin 1
     else fdiv F32 (of_num F32 (uint (batteryPercent s))) (Fin 100))"

definition lasercube_parse :: "time_point \<Rightarrow> bytes option \<Rightarrow> LaserCubeNetStatus option option" where
  "lasercube_parse t data = (case data of
     None \<Rightarrow> Some None
   | Some d \<Rightarrow>
     if length d < 64 then Some None
     else do {
       ver \<leftarrow> rd8 d 2;
       if ver \<noteq> 0 then Some None
       else do {
         major \<leftarrow> rd8 d 3;
         minor \<leftarrow> rd8 d 4;
         flags \<leftarrow> rd8 d 5;
         let newFlagLayout = (0 < major \<or> 13 \<le> minor);
         let interlock = (if newFlagLayout then flags AND 0x02 \<noteq> 0 else flags AND 0x08 \<noteq> 0);
         let tempWarn = (if newFlagLayout then flags AND 0x04 \<noteq> 0 else flags AND 0x10 \<noteq> 0);
         let overTemp = (if newFlagLayout then flags AND 0x08 \<noteq> 0 else flags AND 0x20 \<noteq> 0);
         let errors = (if newFlagLayout then drop_bit 4 flags AND 0x0F else 0);
         rate \<leftarrow> readLe32 (drop 10 d);
         rateMax \<leftarrow> readLe32 (drop 14 d);
         free \<leftarrow> readLe16 (drop 19 d);
         bmax \<leftarrow> readLe16 (drop 21 d);
         battery \<leftarrow> rd8 d 23;
         temp \<leftarrow> rd8 d 24;
         conn \<leftarrow> rd8 d 25;
         ip \<leftarrow> makeIpString (drop 32 d);
         model \<leftarrow> rd8 d 37;
         Some (Some \<lparr>payloadVersion = ver, firmwareMajor = major, firmwareMinor = minor,
           lc_firmwareVersion = dec_string (unat major) @ ''.'' @ dec_string (unat minor),
           outputEnabled = (flags AND 0x01 \<noteq> 0), interlockEnabled = interlock,
           temperatureWarning = tempWarn, overTemperature = overTemp, packetErrors = errors,
           lc_pointRate = rate, pointRateMax = rateMax, bufferFree = free, bufferMax = bmax,
           batteryPercent = battery, temperatureC = temp, connectionType = conn,
           serialNumber = hex_bytes True (take 6 (drop 26 d)), lc_ipAddress = ip, modelNumber = model,
           modelName = map char_of_byte (takeWhile (\<lambda>b. b \<noteq> 0) (drop 38 d)), lc_lastSeen = t\<rparr>) } })"

subsection \<open>The parsers stay inside their data\<close>

lemma makeIpString_total: "4 \<le> length d \<Longrightarrow> \<exists>s. makeIpString d = Some s"
  by (drule length_ge_4) (auto simp: makeIpString_def rd8_def)

lemma isLikelyIpv4Address_total: "4 \<le> length d \<Longrightarrow> \<exists>s. isLikelyIpv4Address d = Some s"
  by (drule length_ge_4) (auto simp: isLikelyIpv4Address_def rd8_def)

lemma isCommonSubnetMask_total: "4 \<le> length d \<Longrightarrow> \<exists>s. isCommonSubnetMask d = Some s"
  using cBe32.get_total [of d] by (auto simp: isCommonSubnetMask_def)

lemma isObservedNetworkLayout_total: "\<exists>b. isObservedNetworkLayout p = Some b \<and> (b \<longrightarrow> length p = 19)"
proof (cases "length p = 19")
  case True
  then obtain a b c where "isLikelyIpv4Address (drop 6 p) = Some a" "isCommonSubnetMask (drop 10 p) = Some b"
    "isLikelyIpv4Address (drop 14 p) = Some c"
    using isLikelyIpv4Address_total [of "drop 6 p"] isCommonSubnetMask_total [of "drop 10 p"]
      isLikelyIpv4Address_total [of "drop 14 p"] by auto
  with True show ?thesis by (simp add: isObservedNetworkLayout_def)
qed (auto simp: isObservedNetworkLayout_def)

lemma parseBroadcastResponse_payload:
  assumes "parsePacket data = Some (Some pkt)" "packetType pkt = PACKET_TYPE_BASIC"
    "commandWord pkt = CMD_BROADCAST_RESPONSE" "18 \<le> length (payload pkt)"
  shows "\<exists>s. parseBroadcastResponse t data = Some (Some s) \<and> Some (deviceId s) = readBe32 (payload pkt)
    \<and> Some (firmwareVersion s) = readBe16 (drop 4 (payload pkt)) \<and> length (macAddress s) = 6 \<and> lastSeen s = t
    \<and> (isObservedNetworkLayout (payload pkt) = Some True \<longrightarrow> Some (ipAddress s) = makeIpString (drop 6 (payload pkt)) \<and> macAddress s = replicate 6 0)
    \<and> (isObservedNetworkLayout (payload pkt) = Some False \<longrightarrow> Some (ipAddress s) = makeIpString (drop 8 (payload pkt))
        \<and> macAddress s = take 6 (drop 12 (payload pkt)) \<and> macAddressString s = hex_bytes True (macAddress s))"
proof -
  let ?p = "payload pkt"
  obtain dev fw hw where r: "readBe32 ?p = Some dev" "readBe16 (drop 4 ?p) = Some fw" "readBe16 (drop 6 ?p) = Some hw"
    using cBe32.get_total [of ?p] cBe16.get_drop [of 4 ?p] cBe16.get_drop [of 6 ?p] assms(4) by auto
  obtain ip1 ip2 where ip: "makeIpString (drop 6 ?p) = Some ip1" "makeIpString (drop 8 ?p) = Some ip2"
    using makeIpString_total [of "drop 6 ?p"] makeIpString_total [of "drop 8 ?p"] assms(4) by force
  obtain b where b: "isObservedNetworkLayout ?p = Some b" "b \<longrightarrow> length ?p = 19"
    using isObservedNetworkLayout_total by blast
  show ?thesis using assms r ip b
    by (cases b) (simp_all add: parseBroadcastResponse_def rd8_def Let_def)
qed

lemma parseBroadcastResponse_other:
  assumes "\<not> (\<exists>pkt. parsePacket data = Some (Some pkt) \<and> packetType pkt = PACKET_TYPE_BASIC
     \<and> commandWord pkt = CMD_BROADCAST_RESPONSE \<and> 18 \<le> length (payload pkt))"
  shows "parseBroadcastResponse t data = Some None"
proof -
  obtain r where "parsePacket data = Some r" using parse_total by blast
  with assms show ?thesis by (cases r) (auto simp: parseBroadcastResponse_def not_le)
qed

text \<open>The broadcast response parser is total and never reads outside the packet; it accepts
  exactly the well-formed broadcast responses with at least 18 bytes of payload, and it reads the
  address at the offset of the layout it detects: offset 6 when the payload is the 19-byte
  network layout, otherwise offset 8 with the MAC address at 12, whose string identifies it.\<close>

theorem broadcast_response_layouts:
  "(\<exists>r. parseBroadcastResponse t data = Some r) \<and>
   (parseBroadcastResponse t data = Some (Some s) \<longrightarrow> (\<exists>pkt. parsePacket data = Some (Some pkt)
      \<and> packetType pkt = PACKET_TYPE_BASIC \<and> commandWord pkt = CMD_BROADCAST_RESPONSE
      \<and> 18 \<le> length (payload pkt) \<and> Some (deviceId s) = readBe32 (payload pkt)
      \<and> (isObservedNetworkLayout (payload pkt) = Some True \<longrightarrow> Some (ipAddress s) = makeIpString (drop 6 (payload pkt)))
      \<and> (isObservedNetworkLayout (payload pkt) = Some False \<longrightarrow> Some (ipAddress s) = makeIpString (drop 8 (payload pkt))
           \<and> macAddress s = take 6 (drop 12 (payload pkt)) \<and> macAddressString s = hex_bytes True (macAddress s))))"
proof (cases "\<exists>pkt. parsePacket data = Some (Some pkt) \<and> packetType pkt = PACKET_TYPE_BASIC
     \<and> commandWord pkt = CMD_BROADCAST_RESPONSE \<and> 18 \<le> length (payload pkt)")
  case True
  then obtain pkt where p: "parsePacket data = Some (Some pkt)" "packetType pkt = PACKET_TYPE_BASIC"
    "commandWord pkt = CMD_BROADCAST_RESPONSE" "18 \<le> length (payload pkt)" by blast
  from parseBroadcastResponse_payload [OF p, of t] p show ?thesis by auto
next
  case False
  then show ?thesis using parseBroadcastResponse_other [of data t] by simp
qed

lemma flag_bits:
  fixes w :: u8
  shows "w AND 2 \<noteq> 0 \<longleftrightarrow> bit w 1" "w AND 4 \<noteq> 0 \<longleftrightarrow> bit w 2" "w AND 8 \<noteq> 0 \<longleftrightarrow> bit w 3"
    "w AND 16 \<noteq> 0 \<longleftrightarrow> bit w 4" "w AND 32 \<noteq> 0 \<longleftrightarrow> bit w 5"
  using and_exp_eq_0_iff_not_bit [of w 1] and_exp_eq_0_iff_not_bit [of w 2] and_exp_eq_0_iff_not_bit [of w 3]
    and_exp_eq_0_iff_not_bit [of w 4] and_exp_eq_0_iff_not_bit [of w 5] by simp_all

lemma high_nibble: "unat (drop_bit 4 w AND 0x0F) = unat w div 16" for w :: u8
proof -
  have m: "(0x0F :: u8) = mask 4" by (simp add: mask_eq_exp_minus_1)
  have "drop_bit 4 w AND mask 4 = drop_bit 4 w"
    by (rule bit_word_eqI) (auto simp: bit_simps dest: bit_imp_le_length)
  then show ?thesis by (simp add: m unat_drop_bit_eq) (simp add: drop_bit_eq_div)
qed

lemma lasercube_shape:
  assumes "64 \<le> length d" and "d ! 2 = 0"
  shows "\<exists>s. lasercube_parse t (Some d) = Some (Some s) \<and> firmwareMajor s = d ! 3 \<and> firmwareMinor s = d ! 4
    \<and> (let new = (0 < d ! 3 \<or> 13 \<le> d ! 4) in
        interlockEnabled s = (if new then bit (d ! 5) 1 else bit (d ! 5) 3)
      \<and> temperatureWarning s = (if new then bit (d ! 5) 2 else bit (d ! 5) 4)
      \<and> overTemperature s = (if new then bit (d ! 5) 3 else bit (d ! 5) 5)
      \<and> packetErrors s = (if new then drop_bit 4 (d ! 5) AND 0x0F else 0))"
proof -
  obtain a b c e ip where "readLe32 (drop 10 d) = Some a" "readLe32 (drop 14 d) = Some b"
    "readLe16 (drop 19 d) = Some c" "readLe16 (drop 21 d) = Some e" "makeIpString (drop 32 d) = Some ip"
    using cLe32.get_drop [of 10 d] cLe32.get_drop [of 14 d] cLe16.get_drop [of 19 d] cLe16.get_drop [of 21 d]
      makeIpString_total [of "drop 32 d"] assms(1) by force
  then show ?thesis using assms
    by (simp add: lasercube_parse_def rd8_def Let_def flag_bits)
qed

lemma lasercube_reject:
  "\<not> (64 \<le> length d \<and> d ! 2 = 0) \<Longrightarrow> lasercube_parse t (Some d) = Some None"
  by (auto simp: lasercube_parse_def rd8_def)

text \<open>The LaserCube status parser is total and never reads outside its data; it accepts
  exactly the buffers of at least 64 bytes with payload version 0, and reads the interlock and
  temperature bits at the positions of the firmware's flag layout: the new one from version 0.13
  on.\<close>

theorem lasercube_status_layouts:
  "(\<exists>r. lasercube_parse t data = Some r) \<and>
   (\<forall>d. data = Some d \<longrightarrow> ((\<exists>s. lasercube_parse t data = Some (Some s)) \<longleftrightarrow> 64 \<le> length d \<and> d ! 2 = 0)) \<and>
   (\<forall>s. lasercube_parse t data = Some (Some s) \<longrightarrow> (\<exists>d. data = Some d \<and>
      (if firmwareMajor s = 0 \<and> firmwareMinor s < 13
       then (interlockEnabled s \<longleftrightarrow> bit (d ! 5) 3) \<and> (temperatureWarning s \<longleftrightarrow> bit (d ! 5) 4)
          \<and> (overTemperature s \<longleftrightarrow> bit (d ! 5) 5) \<and> packetErrors s = 0
       else (interlockEnabled s \<longleftrightarrow> bit (d ! 5) 1) \<and> (temperatureWarning s \<longleftrightarrow> bit (d ! 5) 2)
          \<and> (overTemperature s \<longleftrightarrow> bit (d ! 5) 3) \<and> unat (packetErrors s) = unat (d ! 5) div 16)))"
proof (cases "\<exists>d. data = Some d \<and> 64 \<le> length d \<and> d ! 2 = 0")
  case True
  then obtain d where d: "data = Some d" "64 \<le> length d" "d ! 2 = 0" by blast
  obtain s where s: "lasercube_parse t data = Some (Some s)" "firmwareMajor s = d ! 3" "firmwareMinor s = d ! 4"
     "let new = (0 < d ! 3 \<or> 13 \<le> d ! 4) in
        interlockEnabled s = (if new then bit (d ! 5) 1 else bit (d ! 5) 3)
      \<and> temperatureWarning s = (if new then bit (d ! 5) 2 else bit (d ! 5) 4)
      \<and> overTemperature s = (if new then bit (d ! 5) 3 else bit (d ! 5) 5)
      \<and> packetErrors s = (if new then drop_bit 4 (d ! 5) AND 0x0F else 0)"
    using lasercube_shape [OF d(2,3)] d(1) by blast
  have "0 < d ! 3 \<longleftrightarrow> d ! 3 \<noteq> 0" by (simp add: word_gt_0)
  with s d show ?thesis by (auto simp: Let_def not_less high_nibble)
next
  case False
  then have "lasercube_parse t data = Some None"
    using lasercube_reject by (cases data) (auto simp: lasercube_parse_def)
  with False show ?thesis by auto
qed

theorem broadcast_response_layouts_witness:
  "\<exists>pkt. parsePacket (Some (buildPacket PACKET_TYPE_BASIC CMD_BROADCAST_RESPONSE (replicate 18 1))) = Some (Some pkt)
     \<and> payload pkt = replicate 18 1
     \<and> (\<exists>s. parseBroadcastResponse 0 (Some (buildPacket PACKET_TYPE_BASIC CMD_BROADCAST_RESPONSE (replicate 18 1))) = Some s)"
  using parse_build [of "replicate 18 1" PACKET_TYPE_BASIC CMD_BROADCAST_RESPONSE]
    broadcast_response_layouts [of 0 "Some (buildPacket PACKET_TYPE_BASIC CMD_BROADCAST_RESPONSE (replicate 18 1))"]
  by auto

theorem lasercube_status_layouts_witness:
  "\<exists>s. lasercube_parse 0 (Some (replicate 64 0)) = Some (Some s)"
proof -
  have "(\<exists>s. lasercube_parse 0 (Some (replicate 64 0)) = Some (Some s)) \<longleftrightarrow> 64 \<le> length (replicate 64 (0 :: u8)) \<and> replicate 64 (0 :: u8) ! 2 = 0"
    using lasercube_status_layouts [of 0 "Some (replicate 64 0)"] by blast
  then show ?thesis by simp
qed

end
