(* ===== verification/Buffer_Estimator.thy ===== *)
theory Buffer_Estimator
  imports Fp "HOL-Library.Monad_Syntax"
begin

text \<open>
  The buffer arithmetic of src/core/BufferEstimator.cpp: the projection of a buffer
  snapshot to a later time, the minimum and target fill levels and the sleep bounds. The C++
  \<open>int\<close> values are integers; casts that narrow are written out. \<open>None\<close> stands for an
  unspecified \<open>llround\<close> (a NaN or a value outside \<open>long long\<close>).
\<close>

record BufferEstimate =
  est_bufferFullness :: int
  projected :: bool

definition estimateFromSnapshot :: "int \<Rightarrow> time_point \<Rightarrow> u32 \<Rightarrow> time_point \<Rightarrow> BufferEstimate option" where
  "estimateFromSnapshot snapshotBufferFullness snapshotTime rate t =
     (if rate = 0 then Some \<lparr>est_bufferFullness = snapshotBufferFullness, projected = False\<rparr>
      else if snapshotTime = 0 then Some \<lparr>est_bufferFullness = snapshotBufferFullness, projected = False\<rparr>
      else let elapsed = t - snapshotTime in
        if elapsed \<le> 0 then Some \<lparr>est_bufferFullness = snapshotBufferFullness, projected = False\<rparr>
        else let elapsedUs = elapsed div 1000 in
          if elapsedUs \<le> 0 then Some \<lparr>est_bufferFullness = snapshotBufferFullness, projected = False\<rparr>
          else let consumed = fdiv F64 (fmul F64 (of_num F64 (uint rate)) (of_num F64 elapsedUs)) (Fin 1000000)
            in do {
              r \<leftarrow> llround (fsub F64 (of_num F64 snapshotBufferFullness) consumed);
              let estimated = cast_int r;
              Some \<lparr>est_bufferFullness = max 0 estimated, projected = True\<rparr> })"

definition minimumBufferPoints :: "u32 \<Rightarrow> int \<Rightarrow> int \<Rightarrow> int option" where
  "minimumBufferPoints rate minimumBufferTime minimumBufferFloor =
     (let fromTime = fdiv F64 (fmul F64 (of_num F64 (uint rate)) (of_num F64 minimumBufferTime)) (Fin 1000)
      in do {
        r \<leftarrow> llround fromTime;
        let pointsFromTime = cast_int r;
        Some (max pointsFromTime minimumBufferFloor) })"

definition targetBufferPoints :: "u32 \<Rightarrow> int \<Rightarrow> int \<Rightarrow> int \<Rightarrow> int \<Rightarrow> int option" where
  "targetBufferPoints rate bufferCapacity targetLatency minimumBufferFloor safetyHeadroomPoints =
     (if bufferCapacity \<le> 0 then Some 0
      else let minimumTarget = clamp_int minimumBufferFloor 0 bufferCapacity in
        if rate = 0 then Some minimumTarget
        else let latencyMs = max 0 targetLatency;
                 requestedFromTime =
                   fdiv F64 (fmul F64 (of_num F64 (uint rate)) (of_num F64 latencyMs)) (Fin 1000)
          in do {
            r \<leftarrow> llround requestedFromTime;
            let requested = cast_int r;
            let maxSafetyHeadroom = max 0 (bufferCapacity - minimumTarget);
            let safetyHeadroom = clamp_int safetyHeadroomPoints 0 maxSafetyHeadroom;
            let maximumTarget = max minimumTarget (bufferCapacity - safetyHeadroom);
            Some (clamp_int requested minimumTarget maximumTarget) })"

definition clampSleepMillis :: "int \<Rightarrow> int \<Rightarrow> int \<Rightarrow> int" where
  "clampSleepMillis millis minimumSleepMillis maximumSleepMillis =
     (let (lo, hi) = (if maximumSleepMillis < minimumSleepMillis
                      then (maximumSleepMillis, minimumSleepMillis)
                      else (minimumSleepMillis, maximumSleepMillis))
      in clamp_int millis lo hi)"

subsection \<open>Lemmas\<close>

lemma estimate_not_projected:
  "rate = 0 \<or> snap = 0 \<or> t - snap < 1000 \<Longrightarrow>
   estimateFromSnapshot n snap rate t = Some \<lparr>est_bufferFullness = n, projected = False\<rparr>"
  by (auto simp: estimateFromSnapshot_def Let_def)

text \<open>A double whose magnitude is within \<open>2 ^ 53\<close>: no overflow, and one rounding.\<close>

lemma rnd_F64_Fin: "\<bar>x\<bar> \<le> 2 ^ 53 \<Longrightarrow> rnd F64 x = Fin (rndq F64 x)"
proof -
  assume x: "\<bar>x\<bar> \<le> 2 ^ 53"
  have p: "rndq F64 (2 ^ 53) = 2 ^ 53"
    by (rule rndq_exact [where m = 1 and e = 53]) (simp_all add: pow2_def)
  then have "rndq F64 (- (2 ^ 53)) = - (2 ^ 53)" by (simp only: rndq_minus)
  with p x have "- (2 ^ 53) \<le> rndq F64 x \<and> rndq F64 x \<le> 2 ^ 53" by (intro rndq_bounds) auto
  moreover have "(2 ^ 53 :: rat) < pow2 (emax F64 + 1)" by (simp add: pow2_def)
  ultimately show ?thesis by (intro rnd_Fin) (auto simp: abs_less_iff)
qed

text \<open>\<open>rate * amount / unit\<close>, the computation the three point counts share.\<close>

lemma scaled_points:
  assumes "0 \<le> a" "0 \<le> b" "a < 2 ^ 53" "b < 2 ^ 53" "a * b < 2 ^ 53" and d: "1 \<le> d"
  shows "fdiv F64 (fmul F64 (of_num F64 a) (of_num F64 b)) (Fin d) = Fin (rndq F64 (of_int (a * b) / d))"
proof -
  have "\<bar>a * b\<bar> < 2 ^ 53" using assms by simp
  then have "rnd F64 (of_int (a * b)) = Fin (of_int (a * b))"
    by (metis of_num_F64 of_num_def)
  moreover have "\<bar>of_int (a * b) / d\<bar> \<le> 2 ^ 53"
  proof -
    have "of_int (a * b) \<le> (of_int (2 ^ 53) :: rat)" using assms by (simp only: of_int_le_iff)
    moreover have "of_int (a * b) / d \<le> of_int (a * b) / 1" using assms by (intro divide_left_mono) auto
    moreover have "0 \<le> of_int (a * b) / d" using assms by simp
    ultimately show ?thesis by simp
  qed
  ultimately show ?thesis using assms by (simp add: of_num_F64 rnd_F64_Fin)
qed

lemma rndq_F64_near:
  assumes "\<bar>x\<bar> < 2 ^ 33"
  shows "\<bar>rndq F64 x - x\<bar> \<le> 1 / 2 ^ 20"
proof -
  have "\<bar>x\<bar> < pow2 (32 + 1)" using assms by (simp add: pow2_def)
  then have "\<bar>rndq F64 x - x\<bar> \<le> pow2 (32 - prec F64)" by (rule rndq_error_le) simp
  then show ?thesis by (simp add: pow2_def)
qed

lemma llround_near:
  assumes "\<bar>x\<bar> \<le> 2 ^ 33"
  shows "llround (Fin x) = Some (round_away x)"
proof -
  have "\<bar>of_int (round_away x) :: rat\<bar> < of_int (2 ^ 63)"
    using round_away_near [of x] assms unfolding of_int_power of_int_numeral abs_le_iff abs_less_iff by simp
  then have "\<bar>round_away x\<bar> < 2 ^ 63" by (simp only: of_int_less_iff of_int_abs [symmetric])
  then show ?thesis by (simp add: llround_def abs_less_iff)
qed

text \<open>The projection in the range where no cast wraps: at most \<open>int\<close>'s worth of points consumed.\<close>

definition consumedPoints :: "u32 \<Rightarrow> int \<Rightarrow> rat" where
  "consumedPoints rate us = of_int (uint rate * us) / 1000000"

definition estimated_value :: "int \<Rightarrow> u32 \<Rightarrow> int \<Rightarrow> int" where
  "estimated_value n rate us =
     max 0 (round_away (rndq F64 (of_int n - rndq F64 (consumedPoints rate us))))"

lemma estimate_in_range:
  assumes n: "0 \<le> n" "n \<le> int_max32" and rate: "rate \<noteq> 0" and snap: "snap \<noteq> 0"
    and us: "us = (t - snap) div 1000" "1 \<le> us" and c: "uint rate * us \<le> 1000000 * int_max32"
  shows "estimateFromSnapshot n snap rate t =
      Some \<lparr>est_bufferFullness = estimated_value n rate us, projected = True\<rparr>"
    and "0 \<le> rndq F64 (consumedPoints rate us)" "rndq F64 (consumedPoints rate us) \<le> of_int int_max32"
    and "\<bar>rndq F64 (consumedPoints rate us) - consumedPoints rate us\<bar> \<le> 1 / 2 ^ 20"
proof -
  let ?c = "consumedPoints rate us"
  have r0: "1 \<le> uint rate" using rate by (metis int_one_le_iff_zero_less uint_0_iff unsigned_greater_eq order_le_less)
  have r1: "uint rate < 2 ^ 32" using uint_lt2p [of rate] by simp
  have "us * 1 \<le> us * uint rate" using us(2) r0 by (intro mult_left_mono) auto
  then have usb: "us < 2 ^ 53" using c by (simp add: int_max32_def mult.commute)
  have c': "(of_int (uint rate * us) :: rat) \<le> of_int (1000000 * int_max32)" using c by (simp only: of_int_le_iff)
  have "0 \<le> uint rate * us" using us(2) by (intro mult_nonneg_nonneg) auto
  then have c0: "0 \<le> ?c" unfolding consumedPoints_def by (simp del: of_int_mult)
  have c1: "?c \<le> of_int int_max32" using c' by (simp add: consumedPoints_def)
  have "\<bar>?c\<bar> < 2 ^ 33" using c0 c1 by (simp add: int_max32_def)
  then show near: "\<bar>rndq F64 ?c - ?c\<bar> \<le> 1 / 2 ^ 20" by (rule rndq_F64_near)
  have b: "0 \<le> rndq F64 ?c \<and> rndq F64 ?c \<le> of_int int_max32"
    using c0 c1 by (intro rndq_bounds) (simp_all add: int_max32_def rndq_F64_int [of 2147483647, simplified])
  then show "0 \<le> rndq F64 ?c" "rndq F64 ?c \<le> of_int int_max32" by auto
  have n1: "(of_int n :: rat) \<le> of_int int_max32" using n(2) by (simp only: of_int_le_iff)
  have n0: "(0 :: rat) \<le> of_int n" using n by simp
  let ?d = "of_int n - rndq F64 ?c"
  have d: "- of_int int_max32 \<le> ?d" "?d \<le> of_int int_max32" using b n0 n1 by auto
  have im: "rndq F64 (of_int int_max32) = of_int int_max32" by (rule rndq_F64_int) (simp add: int_max32_def)
  have e: "- of_int int_max32 \<le> rndq F64 ?d \<and> rndq F64 ?d \<le> of_int int_max32"
    using d by (intro rndq_bounds) (simp_all add: im rndq_minus)
  have "round_away (- of_int int_max32) \<le> round_away (rndq F64 ?d)"
    "round_away (rndq F64 ?d) \<le> round_away (of_int int_max32)" using e round_away_mono by blast+
  then have "- int_max32 \<le> round_away (rndq F64 ?d)" "round_away (rndq F64 ?d) \<le> int_max32"
    using round_away_of_int [of "- int_max32"] round_away_of_int [of int_max32] by simp_all
  then have ci: "cast_int (round_away (rndq F64 ?d)) = round_away (rndq F64 ?d)"
    by (intro cast_int_id) (simp_all add: int_max32_def)
  have "\<bar>?d\<bar> \<le> 2 ^ 53" "\<bar>rndq F64 ?d\<bar> \<le> 2 ^ 33" using d e by (simp_all add: int_max32_def abs_le_iff)
  then have ll: "llround (fsub F64 (Fin (of_int n)) (Fin (rndq F64 ?c))) = Some (round_away (rndq F64 ?d))"
    by (simp add: fsub_def rnd_F64_Fin llround_near)
  have "fdiv F64 (fmul F64 (of_num F64 (uint rate)) (of_num F64 us)) (Fin 1000000) = Fin (rndq F64 ?c)"
    unfolding consumedPoints_def using us(2) r1 usb c
    by (intro scaled_points) (simp_all add: int_max32_def)
  moreover have "of_num F64 n = Fin (of_int n)" using n by (intro of_num_F64) (simp add: int_max32_def)
  moreover have "snap < t" using us by linarith
  ultimately show "estimateFromSnapshot n snap rate t =
      Some \<lparr>est_bufferFullness = estimated_value n rate us, projected = True\<rparr>"
    using rate snap us(2) by (auto simp: estimateFromSnapshot_def Let_def us(1) [symmetric] ll ci estimated_value_def)
qed

lemma rnd_F64_int: "\<bar>k\<bar> < 2 ^ 53 \<Longrightarrow> rnd F64 (of_int k) = Fin (of_int k)"
  using of_num_F64 [of k] by (simp add: of_num_def)

lemma rnd_F64_numeral:
  "(numeral k :: int) < 2 ^ 53 \<Longrightarrow> rnd F64 (numeral k) = Fin (numeral k)"
  "(numeral k :: int) < 2 ^ 53 \<Longrightarrow> rnd F64 (- numeral k) = Fin (- numeral k)"
  using rnd_F64_int [of "numeral k"] rnd_F64_int [of "- numeral k"] by simp_all

subsection \<open>Properties\<close>

text \<open>
  C39. The projected buffer fullness. For a snapshot taken at a known time and a query at
  least a microsecond later, as long as the points consumed since fit an \<open>int\<close>, the
  estimate is marked projected, is never negative and never above the snapshot, and is
  within one point of the snapshot less the points consumed (or of zero once that is
  negative), in spite of the two double roundings.
\<close>

theorem estimate_sound:
  assumes "0 \<le> n" "n \<le> int_max32" and "rate \<noteq> 0" and "snap \<noteq> 0"
    and "us = (t - snap) div 1000" "1 \<le> us" and "uint rate * us \<le> 1000000 * int_max32"
  shows "\<exists>e. estimateFromSnapshot n snap rate t = Some \<lparr>est_bufferFullness = e, projected = True\<rparr> \<and>
      0 \<le> e \<and> e \<le> n \<and> \<bar>of_int e - max 0 (of_int n - of_int (uint rate * us) / 1000000 :: rat)\<bar> < 1"
proof -
  note est = estimate_in_range [OF assms]
  let ?c = "consumedPoints rate us" and ?e = "estimated_value n rate us"
  let ?d = "of_int n - rndq F64 ?c"
  let ?r = "round_away (rndq F64 ?d)"
  have n: "(0 :: rat) \<le> of_int n" "(of_int n :: rat) \<le> of_int int_max32" using assms(1,2) by (simp_all only: of_int_le_iff of_int_0_le_iff)
  then have "\<bar>?d\<bar> < 2 ^ 33" using est(2,3) by (simp add: int_max32_def abs_less_iff)
  then have near: "\<bar>rndq F64 ?d - ?d\<bar> \<le> 1 / 2 ^ 20" by (rule rndq_F64_near)
  have "rndq F64 ?d \<le> rndq F64 (of_int n)" using est(2) by (intro rndq_mono) simp
  also have "\<dots> = of_int n" using assms(1,2) by (intro rndq_F64_int) (simp add: int_max32_def)
  finally have "?r \<le> n" using round_away_mono [of _ "of_int n"] by simp
  then have le: "?e \<le> n" using assms(1) by (simp add: estimated_value_def)
  have "\<bar>of_int ?r - (of_int n - ?c)\<bar> < 1"
    using near est(4) round_away_near [of "rndq F64 ?d"] unfolding abs_le_iff abs_less_iff by simp
  moreover have "of_int ?e = max (0 :: rat) (of_int ?r)" by (simp add: estimated_value_def of_int_max)
  ultimately have "\<bar>of_int ?e - max 0 (of_int n - ?c)\<bar> < 1" by (auto simp: max_def abs_less_iff)
  with est(1) le show ?thesis by (auto simp: consumedPoints_def estimated_value_def)
qed

theorem estimate_sound_witness:
  "\<exists>e. estimateFromSnapshot 1800 5000 30000 20005000 = Some \<lparr>est_bufferFullness = e, projected = True\<rparr> \<and>
      0 \<le> e \<and> e \<le> 1800 \<and> \<bar>of_int e - max 0 (of_int 1800 - of_int (uint (30000 :: u32) * 20000) / 1000000 :: rat)\<bar> < 1"
  by (rule estimate_sound) (simp_all add: int_max32_def)

text \<open>
  The projection is wrong for an old snapshot. Points consumed are narrowed to \<open>int\<close>
  after \<open>llround\<close>, so once they pass \<open>2 ^ 31\<close> the value wraps and the estimate is far
  above the snapshot: 25000 s after a snapshot of 1000 points at 100 kpps it is 1794968296
  points (the exact projection is 0).
\<close>

theorem stale_snapshot_wraps:
  "estimateFromSnapshot 1000 1000 100000 25000000001000 = Some \<lparr>est_bufferFullness = 1794968296, projected = True\<rparr>"
proof -
  have "llround (fsub F64 (of_num F64 1000)
      (fdiv F64 (fmul F64 (of_num F64 100000) (of_num F64 25000000000)) (Fin 1000000))) = Some (- 2499999000)"
    by (simp add: of_num_def rnd_F64_numeral fsub_def llround_def)
  then show ?thesis by (simp add: estimateFromSnapshot_def Let_def cast_int_def)
qed

text \<open>
  The target fill level. For a positive capacity, whatever the rate and latency, the
  target (when \<open>llround\<close> is defined) is between the floor clamped to the buffer and the
  capacity less the safety headroom, where the headroom only yields to the floor; the floor
  is the target when the rate is unknown, and an empty buffer has target 0.
\<close>

theorem target_within_buffer:
  assumes "0 < cap" and "targetBufferPoints rate cap latency flr headroom = Some k"
  shows "clamp_int flr 0 cap \<le> k \<and> k \<le> cap \<and>
    (k = clamp_int flr 0 cap \<or> k + max 0 headroom \<le> cap) \<and>
    (rate = 0 \<longrightarrow> k = clamp_int flr 0 cap)"
  using assms
  by (auto simp: targetBufferPoints_def Let_def clamp_int_def bind_eq_Some_conv split: if_splits)

theorem target_within_buffer_witness:
  "targetBufferPoints 30000 1800 50 300 256 = Some 1500 \<and> clamp_int 300 0 1800 \<le> 1500 \<and> (1500 :: int) \<le> 1800"
proof -
  have "llround (fdiv F64 (fmul F64 (of_num F64 30000) (of_num F64 50)) (Fin 1000)) = Some 1500"
    by (simp add: of_num_def rnd_F64_numeral llround_def)
  then have t: "targetBufferPoints 30000 1800 50 300 256 = Some 1500"
    by (simp add: targetBufferPoints_def Let_def cast_int_def clamp_int_def)
  show ?thesis using target_within_buffer [OF _ t] t by simp
qed

end
