(* ===== verification/Frame_Scheduler.thy ===== *)
theory Frame_Scheduler
  imports Geometry
begin

text \<open>
  The frame scheduler (src/core/FrameScheduler.cpp, include/libera/core/FrameScheduler.hpp):
  submitted frames wait in \<open>pendingFrames\<close>, move to \<open>frameQueue\<close> at the next pull, and are
  played from the front, by points (\<open>fillPoints\<close>) or by transport frames (\<open>fillFrame\<close>);
  between two frames that are far apart a dark eased move is inserted. The mutex makes each
  operation atomic, so each is one function of the state; \<open>std::try_to_lock\<close> appears as the
  argument \<open>owns\<close>. \<open>std::deque\<close>s of frames are lists, \<open>steady_clock::now()\<close> reads the
  clock stream. \<open>None\<close> is undefined behaviour of the code: a read past the end of a vector or
  a float outside the integer type it is cast to (or, for the loops, not returning).
\<close>

subsection \<open>State\<close>

record Frame =
  fr_points :: "LaserPoint list"
  fr_time :: time_point
  playCount :: nat
  nextPoint :: nat
  firstPlayTime :: time_point

definition default_frame :: Frame where
  "default_frame = \<lparr>fr_points = [], fr_time = 0, playCount = 0, nextPoint = 0, firstPlayTime = 0\<rparr>"

record FSState =
  pendingFrames :: "Frame list"
  frameQueue :: "Frame list"
  pendingTransitionPoints :: "LaserPoint list"
  nominalFramePointCount :: nat

definition fs_init :: FSState where
  "fs_init = \<lparr>pendingFrames = [], frameQueue = [], pendingTransitionPoints = [], nominalFramePointCount = 1\<rparr>"

record PointFillRequest =
  minimumPointsRequired :: nat
  maximumPointsRequired :: nat
  estimatedFirstPointRenderTime :: time_point
  currentPointIndex :: u64
  allowShortRead :: bool

record FramePullRequest =
  fp_maximumPointsRequired :: nat
  fp_blankFramePointCount :: nat
  fp_estimatedFirstPointRenderTime :: time_point
  fp_currentPointIndex :: u64
  advanceWhenAvailable :: bool
  repeatCurrentFrameWhenIdle :: bool

definition blankTransitionDistanceThreshold :: fp where
  "blankTransitionDistanceThreshold = rnd F32 (2 / 10)"

definition blankPointsPerUnitDistance :: fp where
  "blankPointsPerUnitDistance = Fin 20"

definition minBlankPointsPerEnd :: nat where
  "minBlankPointsPerEnd = 2"

subsection \<open>Scheduling helpers\<close>

definition frameIsDueAt :: "Frame \<Rightarrow> time_point \<Rightarrow> bool" where
  "frameIsDueAt frame estimatedFirstRenderTime =
     (if fr_time frame = 0 then True else fr_time frame \<le> estimatedFirstRenderTime)"

definition fs_pointsToMillis :: "nat \<Rightarrow> u32 \<Rightarrow> fp" where
  "fs_pointsToMillis pointCount rate =
     (if rate = 0 \<or> pointCount = 0 then Fin 0
      else let millis = fdiv F64 (fmul F64 (of_num F64 (int pointCount)) (Fin 1000)) (of_num F64 (uint rate))
           in fmax millis (Fin 0))"

text \<open>\<open>duration_cast\<close> from fractional milliseconds to the clock's nanoseconds truncates.\<close>

definition cast_int64 :: "fp \<Rightarrow> int option" where
  "cast_int64 v = (case ftrunc v of Some k \<Rightarrow> if - (2 ^ 63) \<le> k \<and> k < 2 ^ 63 then Some k else None | None \<Rightarrow> None)"

definition renderTimeForBufferedPoints :: "time_point \<Rightarrow> u32 \<Rightarrow> nat \<Rightarrow> time_point option" where
  "renderTimeForBufferedPoints estimatedFirstRenderTime rate bufferedPointCount =
     map_option (\<lambda>d. estimatedFirstRenderTime + d)
       (cast_int64 (fmul F64 (fs_pointsToMillis bufferedPointCount rate) (Fin 1000000)))"

definition cubicEaseInOut :: "fp \<Rightarrow> fp" where
  "cubicEaseInOut t =
     (let clamped = fclamp t (Fin 0) (Fin 1)
      in if flt clamped (Fin (1 / 2))
         then fmul F32 (fmul F32 (fmul F32 (Fin 4) clamped) clamped) clamped
         else let inv = fadd F32 (fmul F32 (Fin (-2)) clamped) (Fin 2)
              in fsub F32 (Fin 1) (fdiv F32 (fmul F32 (fmul F32 inv inv) inv) (Fin 2)))"

definition appendBlankPoints :: "LaserPoint list \<Rightarrow> nat \<Rightarrow> LaserPoint list" where
  "appendBlankPoints buffer n =
     (if n = 0 then buffer else buffer @ replicate n (default_point\<lparr>pt_i := Fin 0\<rparr>))"

definition transitionPoint :: "LaserPoint \<Rightarrow> fp \<Rightarrow> fp \<Rightarrow> nat \<Rightarrow> nat \<Rightarrow> LaserPoint" where
  "transitionPoint from dx dy totalCount i =
     (let t = fdiv F32 (of_num F32 (int i)) (of_num F32 (int (max (totalCount - 1) 1)));
          eased = cubicEaseInOut t
      in from\<lparr>pt_x := fadd F32 (pt_x from) (fmul F32 dx eased),
              pt_y := fadd F32 (pt_y from) (fmul F32 dy eased),
              pt_r := Fin 0, pt_g := Fin 0, pt_b := Fin 0, pt_i := Fin 0\<rparr>)"

definition generateTransitionPoints :: "LaserPoint \<Rightarrow> LaserPoint \<Rightarrow> LaserPoint list option" where
  "generateTransitionPoints from to =
     (let dx = fsub F32 (pt_x to) (pt_x from);
          dy = fsub F32 (pt_y to) (pt_y from);
          distance = planarDistance dx dy
      in do {
        count \<leftarrow> cast_size (fmul F32 distance blankPointsPerUnitDistance);
        let countPerEnd = max minBlankPointsPerEnd count;
        let totalCount = max ((countPerEnd * 2) mod 2 ^ 64) 2;
        Some (map (transitionPoint from dx dy totalCount) [0..<totalCount]) })"

definition drainPendingTransitionUnsafe ::
    "LaserPoint list \<Rightarrow> nat \<Rightarrow> FSState \<Rightarrow> LaserPoint list \<times> FSState" where
  "drainPendingTransitionUnsafe outputBuffer maxPoints s =
     (if pendingTransitionPoints s = [] then (outputBuffer, s)
      else let spaceLeft = size_sub maxPoints (length outputBuffer);
               toDrain = min spaceLeft (length (pendingTransitionPoints s))
           in (outputBuffer @ take toDrain (pendingTransitionPoints s),
               s\<lparr>pendingTransitionPoints := drop toDrain (pendingTransitionPoints s)\<rparr>))"

definition drainPendingFramesUnsafe :: "FSState \<Rightarrow> FSState" where
  "drainPendingFramesUnsafe s =
     s\<lparr>frameQueue := frameQueue s @ pendingFrames s, pendingFrames := []\<rparr>"

fun skipStaleFrames :: "time_point \<Rightarrow> Frame list \<Rightarrow> Frame list" where
  "skipStaleFrames t (f # g # q) =
     (if playCount f \<noteq> 0 then f # g # q
      else if \<not> frameIsDueAt g t then f # g # q
      else skipStaleFrames t (g # q))"
| "skipStaleFrames t q = q"

subsection \<open>Submission\<close>

fun queuedPointsOf :: "nat \<Rightarrow> Frame list \<Rightarrow> nat" where
  "queuedPointsOf framePointFloor [] = 0"
| "queuedPointsOf framePointFloor (f # fs) =
     (let remainingPoints = length (fr_points f) - min (nextPoint f) (length (fr_points f))
      in (if 0 < remainingPoints then max remainingPoints framePointFloor else 0) + queuedPointsOf framePointFloor fs)"

definition queuedPointCountUnsafe :: "nat \<Rightarrow> FSState \<Rightarrow> nat" where
  "queuedPointCountUnsafe minimumQueuedPointsPerFrame s =
     (let framePointFloor = max minimumQueuedPointsPerFrame 1
      in queuedPointsOf framePointFloor (pendingFrames s) + queuedPointsOf framePointFloor (frameQueue s))"

definition enqueueFrame :: "Frame \<Rightarrow> FSState \<Rightarrow> bool \<times> FSState" where
  "enqueueFrame frame s =
     (if fr_points frame = [] then (False, s)
      else (True, s\<lparr>nominalFramePointCount := max (length (fr_points frame)) 1,
                    pendingFrames := pendingFrames s @ [frame]\<rparr>))"

definition tryEnqueueFrameIfReady :: "bool \<Rightarrow> Frame \<Rightarrow> nat \<Rightarrow> nat \<Rightarrow> FSState \<Rightarrow> bool \<times> FSState" where
  "tryEnqueueFrameIfReady owns frame queuedPointBudget minimumQueuedPointsPerFrame s =
     (if fr_points frame = [] then (False, s)
      else if \<not> owns then (False, s)
      else if queuedPointBudget < queuedPointCountUnsafe minimumQueuedPointsPerFrame s then (False, s)
      else (True, s\<lparr>nominalFramePointCount := max (length (fr_points frame)) 1,
                    pendingFrames := pendingFrames s @ [frame]\<rparr>))"

definition fs_reset :: "FSState \<Rightarrow> FSState" where
  "fs_reset s = s\<lparr>pendingFrames := [], frameQueue := [], pendingTransitionPoints := [], nominalFramePointCount := 1\<rparr>"

definition fs_isReadyForNewFrame :: "nat \<Rightarrow> nat \<Rightarrow> FSState \<Rightarrow> bool" where
  "fs_isReadyForNewFrame queuedPointBudget minimumQueuedPointsPerFrame s =
     (queuedPointCountUnsafe minimumQueuedPointsPerFrame s \<le> queuedPointBudget)"

definition fs_tryIsReadyForNewFrame :: "bool \<Rightarrow> nat \<Rightarrow> nat \<Rightarrow> FSState \<Rightarrow> bool" where
  "fs_tryIsReadyForNewFrame owns queuedPointBudget minimumQueuedPointsPerFrame s =
     (if \<not> owns then False
      else queuedPointCountUnsafe minimumQueuedPointsPerFrame s \<le> queuedPointBudget)"

definition fs_queuedFrameCount :: "FSState \<Rightarrow> nat" where
  "fs_queuedFrameCount s = length (pendingFrames s) + length (frameQueue s)"

subsection \<open>Filling by points\<close>

definition beginPlay :: "Frame \<Rightarrow> clock \<Rightarrow> Frame \<times> clock" where
  "beginPlay f c =
     (if playCount f = 0 then (f\<lparr>firstPlayTime := now c, playCount := playCount f + 1\<rparr>, later c) else (f, c))"

definition emitPoints :: "nat \<Rightarrow> Frame \<Rightarrow> LaserPoint list \<Rightarrow> (Frame \<times> LaserPoint list) option" where
  "emitPoints maxPoints f out =
     (let available = size_sub (length (fr_points f)) (nextPoint f);
          spaceLeft = size_sub maxPoints (length out);
          toAdd = min available spaceLeft
      in do {
        chunk \<leftarrow> slice (fr_points f) (nextPoint f) toAdd;
        Some (f\<lparr>nextPoint := nextPoint f + toAdd\<rparr>, out @ chunk) })"

text \<open>The switch at the end of a frame: to the next queued frame when it is due, to nothing
  when the hold time has expired (the first component), or to a replay.\<close>

definition advanceFrame ::
    "u32 \<Rightarrow> int \<Rightarrow> time_point \<Rightarrow> nat \<Rightarrow> Frame \<Rightarrow> Frame list \<Rightarrow> clock \<Rightarrow> (bool \<times> Frame list \<times> clock) option" where
  "advanceFrame rate maxFrameHoldTime est buffered f q c = do {
     due \<leftarrow> (case q of [] \<Rightarrow> Some False
             | g # _ \<Rightarrow> map_option (frameIsDueAt g) (renderTimeForBufferedPoints est rate buffered));
     if due then Some (False, q, c)
     else if 0 < maxFrameHoldTime \<and> maxFrameHoldTime * 1000000 \<le> now c - firstPlayTime f
     then Some (True, q, later c)
     else Some (False, f\<lparr>nextPoint := 0, playCount := playCount f + 1\<rparr> # q,
                if 0 < maxFrameHoldTime then later c else c) }"

text \<open>The dark move to the next frame's first point, when the two are further apart than the
  threshold: it replaces the pending transition and is drained as far as there is room.\<close>

definition transitionTo ::
    "LaserPoint \<Rightarrow> LaserPoint \<Rightarrow> nat \<Rightarrow> LaserPoint list \<Rightarrow> FSState \<Rightarrow> (LaserPoint list \<times> FSState) option" where
  "transitionTo lastPoint firstPoint maxPoints out s =
     (let dx = fsub F32 (pt_x firstPoint) (pt_x lastPoint);
          dy = fsub F32 (pt_y firstPoint) (pt_y lastPoint);
          distance = planarDistance dx dy
      in if flt blankTransitionDistanceThreshold distance
         then do {
           ps \<leftarrow> generateTransitionPoints lastPoint firstPoint;
           Some (drainPendingTransitionUnsafe out maxPoints (s\<lparr>pendingTransitionPoints := ps\<rparr>)) }
         else Some (out, s))"

partial_function (option) fillLoop ::
    "PointFillRequest \<Rightarrow> u32 \<Rightarrow> int \<Rightarrow> time_point \<Rightarrow> FSState \<Rightarrow> clock \<Rightarrow> LaserPoint list
      \<Rightarrow> (LaserPoint list \<times> FSState \<times> clock) option" where
  "fillLoop req rate hold est s c out =
     (case frameQueue s of [] \<Rightarrow> None
      | f0 # q \<Rightarrow>
        (case beginPlay f0 c of (f1, c1) \<Rightarrow>
         if fr_points f1 = [] then None
         else do {
           (f, out1) \<leftarrow> emitPoints (maximumPointsRequired req) f1 out;
           let s1 = s\<lparr>frameQueue := f # q\<rparr>;
           if minimumPointsRequired req \<le> length out1 \<and> length (fr_points f) \<le> nextPoint f
           then Some (out1, s1, c1)
           else if length out1 = maximumPointsRequired req then Some (out1, s1, c1)
           else do {
             (expired, q2, c2) \<leftarrow> advanceFrame rate hold est (length out1) f q c1;
             let s2 = s1\<lparr>frameQueue := q2\<rparr>;
             if expired
             then Some (appendBlankPoints out1
                    (if length out1 < minimumPointsRequired req then minimumPointsRequired req - length out1 else 0),
                    s2, c2)
             else (case q2 of [] \<Rightarrow> None
               | g # _ \<Rightarrow> do {
                 firstPoint \<leftarrow> nth_opt (fr_points g) (nextPoint g);
                 (out2, s3) \<leftarrow> transitionTo (last (fr_points f)) firstPoint (maximumPointsRequired req) out1 s2;
                 if length out2 = maximumPointsRequired req then Some (out2, s3, c2)
                 else fillLoop req rate hold est s3 c2 out2 }) } }))"

definition fillPoints ::
    "PointFillRequest \<Rightarrow> u32 \<Rightarrow> int \<Rightarrow> FSState \<Rightarrow> clock \<Rightarrow> LaserPoint list
      \<Rightarrow> (LaserPoint list \<times> FSState \<times> clock) option" where
  "fillPoints req rate hold s0 c0 outputBuffer =
     (let s1 = drainPendingFramesUnsafe s0
      in if maximumPointsRequired req = 0 then Some (outputBuffer, s1, c0)
      else let minPoints = minimumPointsRequired req;
               maxPoints = maximumPointsRequired req;
               (out, s) = drainPendingTransitionUnsafe outputBuffer maxPoints s1
      in if length out = maxPoints then Some (out, s, c0)
      else let (est, c) = (if estimatedFirstPointRenderTime req = 0 then (now c0, later c0)
                           else (estimatedFirstPointRenderTime req, c0))
      in if frameQueue s = [] then Some (appendBlankPoints out minPoints, s, c)
      else let q = skipStaleFrames est (frameQueue s); s2 = s\<lparr>frameQueue := q\<rparr>
      in if playCount (hd q) = 0 \<and> \<not> frameIsDueAt (hd q) est
         then Some (appendBlankPoints out minPoints, s2, later c)
         else fillLoop req rate hold est s2 c out)"

subsection \<open>Filling a transport frame\<close>

text \<open>An output frame carries points and a time only.\<close>

definition outputFrameOf :: "LaserPoint list \<Rightarrow> time_point \<Rightarrow> Frame" where
  "outputFrameOf ps t = default_frame\<lparr>fr_points := ps, fr_time := t\<rparr>"

definition loadBlankFrame :: "FramePullRequest \<Rightarrow> Frame" where
  "loadBlankFrame req =
     outputFrameOf (appendBlankPoints [] (min (fp_blankFramePointCount req) (fp_maximumPointsRequired req))) 0"

definition frontExhausted :: "Frame list \<Rightarrow> bool" where
  "frontExhausted fs = (case fs of [] \<Rightarrow> False | f # _ \<Rightarrow> length (fr_points f) \<le> nextPoint f)"

lemma frameQueue_drain [simp]: "frameQueue (snd (drainPendingTransitionUnsafe out m s)) = frameQueue s"
  by (simp add: drainPendingTransitionUnsafe_def Let_def)

lemma frameQueue_transitionTo: "transitionTo a b m out s = Some (out', s') \<Longrightarrow> frameQueue s' = frameQueue s"
  by (auto simp: transitionTo_def Let_def bind_eq_Some_conv split: if_splits)
    (metis frameQueue_drain snd_conv FSState.select_convs(2) FSState.surjective FSState.update_convs(3))

function fillFrameLoop ::
    "FramePullRequest \<Rightarrow> int \<Rightarrow> time_point \<Rightarrow> FSState \<Rightarrow> clock \<Rightarrow> LaserPoint list
      \<Rightarrow> (Frame \<times> FSState \<times> clock) option" where
  "fillFrameLoop req hold est s c out =
     (case frameQueue s of [] \<Rightarrow> Some (loadBlankFrame req, s, c)
      | f # q \<Rightarrow>
        if fr_points f = [] then None
        else if playCount f = 0 \<and> nextPoint f = 0 \<and> \<not> advanceWhenAvailable req \<and> \<not> frameIsDueAt f est
        then Some (loadBlankFrame req, s, c)
        else if length (fr_points f) \<le> nextPoint f
        then
          (if q \<noteq> [] \<and> (advanceWhenAvailable req \<or> frameIsDueAt (hd q) est)
           then do {
             firstPoint \<leftarrow> nth_opt (fr_points (hd q)) 0;
             (out1, s1) \<leftarrow> transitionTo (last (fr_points f)) firstPoint (fp_maximumPointsRequired req) out
               (s\<lparr>frameQueue := q\<rparr>);
             if length out1 = fp_maximumPointsRequired req then Some (outputFrameOf out1 0, s1, c)
             else fillFrameLoop req hold est s1 c out1 }
           else let checked = 0 < playCount f \<and> 0 < hold; c1 = (if checked then later c else c)
           in if checked \<and> hold * 1000000 \<le> now c - firstPlayTime f
              then Some (loadBlankFrame req, s\<lparr>frameQueue := q\<rparr>, c1)
              else if \<not> repeatCurrentFrameWhenIdle req then Some (outputFrameOf out 0, s, c1)
              else fillFrameLoop req hold est (s\<lparr>frameQueue := f\<lparr>nextPoint := 0\<rparr> # q\<rparr>) c1 out)
        else
          let (f1, c1) = (if nextPoint f = 0
                then (if playCount f = 0 then (f\<lparr>firstPlayTime := now c, playCount := 1\<rparr>, later c)
                      else (f\<lparr>playCount := playCount f + 1\<rparr>, c))
                else (f, c));
              available = size_sub (length (fr_points f1)) (nextPoint f1);
              toCopy = min available (fp_maximumPointsRequired req)
          in do {
            chunk \<leftarrow> slice (fr_points f1) (nextPoint f1) toCopy;
            Some (outputFrameOf (out @ chunk) (if out = [] then fr_time f1 else 0),
                  s\<lparr>frameQueue := f1\<lparr>nextPoint := nextPoint f1 + toCopy\<rparr> # q\<rparr>, c1) })"
  by pat_completeness auto
termination
  by (relation "measure (\<lambda>(req, hold, est, s, c, out).
      2 * length (frameQueue s) + (if frontExhausted (frameQueue s) then 1 else 0))")
    (auto simp: frontExhausted_def dest!: frameQueue_transitionTo split: list.splits)

declare fillFrameLoop.simps [simp del]

definition fillFrame ::
    "FramePullRequest \<Rightarrow> int \<Rightarrow> FSState \<Rightarrow> clock \<Rightarrow> (Frame \<times> FSState \<times> clock) option" where
  "fillFrame req hold s0 c0 =
     (let s1 = drainPendingFramesUnsafe s0;
          (est, c) = (if fp_estimatedFirstPointRenderTime req = 0 then (now c0, later c0)
                      else (fp_estimatedFirstPointRenderTime req, c0));
          maxPoints = fp_maximumPointsRequired req
      in if maxPoints = 0 then Some (default_frame, s1, c)
      else let (out, s) = drainPendingTransitionUnsafe [] maxPoints s1
      in if pendingTransitionPoints s1 \<noteq> [] \<and> length out = maxPoints then Some (outputFrameOf out 0, s, c)
      else if frameQueue s = [] then Some (loadBlankFrame req, s, c)
      else fillFrameLoop req hold est (s\<lparr>frameQueue := skipStaleFrames est (frameQueue s)\<rparr>) c out)"

subsection \<open>Invariant\<close>

definition frame_fresh :: "Frame \<Rightarrow> bool" where
  "frame_fresh f \<longleftrightarrow> nextPoint f < length (fr_points f) \<and> (\<forall>p \<in> set (fr_points f). in_unit_square p)"

definition frame_ok :: "Frame \<Rightarrow> bool" where
  "frame_ok f \<longleftrightarrow> fr_points f \<noteq> [] \<and> nextPoint f \<le> length (fr_points f) \<and> (\<forall>p \<in> set (fr_points f). in_unit_square p)"

definition queue_ok :: "Frame list \<Rightarrow> bool" where
  "queue_ok fs = (case fs of [] \<Rightarrow> True | f # q \<Rightarrow> frame_ok f \<and> (\<forall>g \<in> set q. frame_fresh g))"

definition fs_inv :: "FSState \<Rightarrow> bool" where
  "fs_inv s \<longleftrightarrow> (\<forall>f \<in> set (pendingFrames s). frame_fresh f) \<and> queue_ok (frameQueue s)
     \<and> (\<forall>p \<in> set (pendingTransitionPoints s). dark p)"

definition content :: "Frame list \<Rightarrow> LaserPoint set" where
  "content fs = (\<Union>f \<in> set fs. set (fr_points f))"

lemma content_simps [simp]:
  "content [] = {}" "content (f # fs) = set (fr_points f) \<union> content fs" "content (fs @ gs) = content fs \<union> content gs"
  by (auto simp: content_def)

lemma fresh_ok [inv_intros]: "frame_fresh f \<Longrightarrow> frame_ok f"
  by (auto simp: frame_fresh_def frame_ok_def)

lemma queue_ok_fresh [inv_intros]: "\<forall>f \<in> set fs. frame_fresh f \<Longrightarrow> queue_ok fs"
  by (auto simp: queue_ok_def fresh_ok split: list.splits)

lemma queue_ok_append: "queue_ok q \<Longrightarrow> \<forall>f \<in> set p. frame_fresh f \<Longrightarrow> queue_ok (q @ p)"
  by (cases q) (auto simp: queue_ok_def fresh_ok split: list.splits)

lemma fs_inv_drain [inv_intros]: "fs_inv s \<Longrightarrow> fs_inv (drainPendingFramesUnsafe s)"
  by (auto simp: fs_inv_def drainPendingFramesUnsafe_def intro: queue_ok_append)

lemma queue_ok_skip: "queue_ok q \<Longrightarrow> queue_ok (skipStaleFrames t q)"
  by (induction t q rule: skipStaleFrames.induct) (auto simp: queue_ok_def fresh_ok)

lemma content_skip: "content (skipStaleFrames t q) \<subseteq> content q"
  by (induction t q rule: skipStaleFrames.induct) auto

lemma skip_eq_Nil [simp]: "skipStaleFrames t q = [] \<longleftrightarrow> q = []"
  by (induction t q rule: skipStaleFrames.induct) auto

subsection \<open>Every step is defined\<close>

lemma appendBlankPoints_eq: "appendBlankPoints out n = out @ replicate n (default_point\<lparr>pt_i := Fin 0\<rparr>)"
  by (simp add: appendBlankPoints_def)

lemma dark_blank [simp]: "dark (default_point\<lparr>pt_i := Fin 0\<rparr>)"
  by (simp add: dark_def default_point_def)

lemma dark_transitionPoint [simp]: "dark (transitionPoint p dx dy n i)"
  by (simp add: dark_def transitionPoint_def Let_def)

lemma generateTransition_total:
  assumes "in_unit_square p" "in_unit_square q"
  shows "\<exists>ps. generateTransitionPoints p q = Some ps \<and> (\<forall>x \<in> set ps. dark x) \<and> 4 \<le> length ps \<and> length ps \<le> 120"
proof -
  obtain r where r: "planarDistance (fsub F32 (pt_x q) (pt_x p)) (fsub F32 (pt_y q) (pt_y p)) = Fin r" "0 \<le> r" "r \<le> 3"
    using planarDistance_range assms unfolding in_unit_square_def by meson
  define z where "z = rndq F32 (r * 20)"
  have z: "fmul F32 (Fin r) blankPointsPerUnitDistance = Fin z" "0 \<le> z" "z \<le> 60"
    using rnd_to_int_range [of "r * 20" 60] r by (simp_all add: z_def blankPointsPerUnitDistance_def)
  have fz: "0 \<le> \<lfloor>z\<rfloor>" "\<lfloor>z\<rfloor> \<le> 60" using z by (simp_all add: floor_le_iff)
  then have n: "nat \<lfloor>z\<rfloor> \<le> 60" by linarith
  have "cast_size (Fin z) = Some (nat \<lfloor>z\<rfloor>)" using fz z by (simp add: cast_size_def trunc_rat_def)
  then show ?thesis
    using r z n by (auto simp: generateTransitionPoints_def Let_def minBlankPointsPerEnd_def simp del: fmul.simps)
qed

lemma drainPendingTransition_spec:
  assumes "length out \<le> m" and "drainPendingTransitionUnsafe out m s = (out', s')"
  shows "\<exists>xs. out' = out @ xs \<and> set xs \<subseteq> set (pendingTransitionPoints s) \<and> length out' \<le> m \<and>
     set (pendingTransitionPoints s') \<subseteq> set (pendingTransitionPoints s) \<and>
     frameQueue s' = frameQueue s \<and> pendingFrames s' = pendingFrames s"
  using assms
  by (auto simp: drainPendingTransitionUnsafe_def Let_def dest: in_set_takeD in_set_dropD split: if_splits)

lemma transitionTo_total:
  assumes "in_unit_square p" "in_unit_square q" "length out \<le> m" "\<forall>x \<in> set (pendingTransitionPoints s). dark x"
  shows "\<exists>xs s'. transitionTo p q m out s = Some (out @ xs, s') \<and> (\<forall>x \<in> set xs. dark x) \<and> length (out @ xs) \<le> m \<and>
     (\<forall>x \<in> set (pendingTransitionPoints s'). dark x) \<and> frameQueue s' = frameQueue s \<and> pendingFrames s' = pendingFrames s"
proof (cases "flt blankTransitionDistanceThreshold (planarDistance (fsub F32 (pt_x q) (pt_x p)) (fsub F32 (pt_y q) (pt_y p)))")
  case True
  obtain ps where ps: "generateTransitionPoints p q = Some ps" "\<forall>x \<in> set ps. dark x"
    using generateTransition_total assms(1,2) by blast
  obtain out' s' where d: "drainPendingTransitionUnsafe out m (s\<lparr>pendingTransitionPoints := ps\<rparr>) = (out', s')" by fastforce
  obtain xs where xs: "out' = out @ xs" "set xs \<subseteq> set ps" "length out' \<le> m"
    "set (pendingTransitionPoints s') \<subseteq> set ps" "frameQueue s' = frameQueue s" "pendingFrames s' = pendingFrames s"
    using drainPendingTransition_spec [OF assms(3) d] by auto
  have "transitionTo p q m out s = Some (out @ xs, s')"
    using True ps(1) d xs(1) by (simp add: transitionTo_def Let_def)
  moreover have "\<forall>x \<in> set xs. dark x" "\<forall>x \<in> set (pendingTransitionPoints s'). dark x" using xs(2,4) ps(2) by auto
  ultimately show ?thesis using xs by blast
next
  case False
  with assms show ?thesis by (simp add: transitionTo_def Let_def)
qed

lemma emitPoints_spec:
  assumes "frame_ok f" "length out < m"
  shows "\<exists>k. emitPoints m f out = Some (f\<lparr>nextPoint := nextPoint f + k\<rparr>, out @ take k (drop (nextPoint f) (fr_points f)))
     \<and> k = min (length (fr_points f) - nextPoint f) (m - length out)"
  using assms by (auto simp: emitPoints_def Let_def frame_ok_def min_def)


lemma rnd_F64_range:
  assumes "0 \<le> x" "x \<le> pow2 k" "k \<le> 62" "0 \<le> k"
  shows "rnd F64 x = Fin (rndq F64 x) \<and> 0 \<le> rndq F64 x \<and> rndq F64 x \<le> pow2 k"
proof -
  have p: "rndq F64 (pow2 k) = pow2 k" using assms by (intro rndq_exact [where m = 1 and e = k]) auto
  then have b: "0 \<le> rndq F64 x \<and> rndq F64 x \<le> pow2 k" using assms by (intro rndq_bounds) auto
  moreover have "pow2 k < pow2 (emax F64 + 1)" using assms by simp
  ultimately have "\<bar>rndq F64 x\<bar> < pow2 (emax F64 + 1)" by linarith
  with b show ?thesis by (blast intro: rnd_Fin)
qed

lemma rnd_F64_0 [simp]: "rnd F64 0 = Fin 0"
  using rnd_F64_range [of 0 0] by simp

lemma renderTime_total: "n \<le> 2 ^ 32 \<Longrightarrow> \<exists>t. renderTimeForBufferedPoints est rate n = Some t"
proof (cases "rate = 0 \<or> n = 0")
  case True
  then show ?thesis
    by (auto simp: renderTimeForBufferedPoints_def fs_pointsToMillis_def cast_int64_def trunc_rat_def)
next
  case False
  assume n: "n \<le> 2 ^ 32"
  define r where "r = uint rate"
  have r0: "1 \<le> r" unfolding r_def using False by (metis int_one_le_iff_zero_less uint_0_iff unsigned_greater_eq order_le_less)
  have r1: "r < 2 ^ 32" unfolding r_def using uint_lt2p [of rate] by simp
  have nn: "of_num F64 (int n) = Fin (of_int (int n))" "of_num F64 r = Fin (of_int r)"
    by (rule of_num_F64, use n r0 r1 in simp)+
  have "(of_nat n :: rat) \<le> of_nat (2 ^ 32)" using n by (simp only: of_nat_le_iff)
  then have n': "(of_int (int n) :: rat) \<le> 2 ^ 32" by simp
  define a where "a = rndq F64 (of_int (int n) * 1000)"
  have a: "rnd F64 (of_int (int n) * 1000) = Fin a" "0 \<le> a" "a \<le> pow2 42"
    using rnd_F64_range [of "of_int (int n) * 1000" 42] n' by (simp_all add: a_def pow2_def)
  define b where "b = rndq F64 (a / of_int r)"
  have "a / of_int r \<le> a / 1" using a r0 by (intro divide_left_mono) auto
  then have b: "rnd F64 (a / of_int r) = Fin b" "0 \<le> b" "b \<le> pow2 42"
    using rnd_F64_range [of "a / of_int r" 42] a r0 by (simp_all add: b_def)
  define d where "d = rndq F64 (b * 1000000)"
  have d: "rnd F64 (b * 1000000) = Fin d" "0 \<le> d" "d \<le> pow2 62"
    using rnd_F64_range [of "b * 1000000" 62] b by (simp_all add: d_def pow2_def)
  have "fmax (Fin b) (Fin 0) = Fin b" using b by (simp add: fmax_def)
  then have m: "fs_pointsToMillis n rate = Fin b"
    using False a b r0 unfolding fs_pointsToMillis_def Let_def r_def [symmetric] nn by simp
  have "0 \<le> \<lfloor>d\<rfloor>" "\<lfloor>d\<rfloor> \<le> 2 ^ 62" using d by (simp_all add: floor_le_iff pow2_def)
  then have "- (2 ^ 63) \<le> \<lfloor>d\<rfloor>" "\<lfloor>d\<rfloor> < 2 ^ 63" by auto
  then show ?thesis
    using d by (simp add: renderTimeForBufferedPoints_def m cast_int64_def trunc_rat_def)
qed

lemma advanceFrame_spec:
  assumes "frame_ok f" "\<forall>g \<in> set q. frame_fresh g" "n \<le> 2 ^ 32"
  shows "\<exists>e q' c'. advanceFrame rate hold est n f q c = Some (e, q', c') \<and>
     (\<forall>g \<in> set q'. frame_fresh g) \<and> content q' \<subseteq> content (f # q) \<and> (\<not> e \<longrightarrow> q' \<noteq> [])"
proof -
  obtain due where due: "(case q of [] \<Rightarrow> Some False
      | g # _ \<Rightarrow> map_option (frameIsDueAt g) (renderTimeForBufferedPoints est rate n)) = Some due"
    and ne: "due \<Longrightarrow> q \<noteq> []"
    using renderTime_total [OF assms(3), of est rate] by (cases q) auto
  have "frame_fresh (f\<lparr>nextPoint := 0, playCount := playCount f + 1\<rparr>)"
    using assms(1) by (auto simp: frame_fresh_def frame_ok_def)
  with assms(2) ne show ?thesis by (auto simp: advanceFrame_def due)
qed

text \<open>What a fill may add to the output: dark points and points of the queued frames.\<close>

definition drawn_from :: "LaserPoint set \<Rightarrow> LaserPoint list \<Rightarrow> bool" where
  "drawn_from C xs \<longleftrightarrow> (\<forall>x \<in> set xs. dark x \<or> x \<in> C)"

lemma drawn_from_simps [simp]:
  "drawn_from C []" "drawn_from C (xs @ ys) \<longleftrightarrow> drawn_from C xs \<and> drawn_from C ys"
  "drawn_from C (replicate n (default_point\<lparr>pt_i := Fin 0\<rparr>))"
  by (auto simp: drawn_from_def)

lemma drawn_from_mono: "drawn_from C xs \<Longrightarrow> C \<subseteq> D \<Longrightarrow> drawn_from D xs"
  by (auto simp: drawn_from_def)

lemma drawn_from_dark [intro]: "\<forall>x \<in> set xs. dark x \<Longrightarrow> drawn_from C xs"
  by (auto simp: drawn_from_def)

lemma drawn_from_slice [intro]: "set ys \<subseteq> C \<Longrightarrow> drawn_from C (take k (drop n ys))"
  by (auto simp: drawn_from_def dest: in_set_slice)

definition fill_result :: "PointFillRequest \<Rightarrow> FSState \<Rightarrow> LaserPoint list \<Rightarrow> (LaserPoint list \<times> FSState \<times> clock) option \<Rightarrow> bool" where
  "fill_result req s out res \<longleftrightarrow> (\<exists>xs s' c'. res = Some (out @ xs, s', c') \<and> fs_inv s' \<and>
     pendingFrames s' = pendingFrames s \<and> content (frameQueue s') \<subseteq> content (frameQueue s) \<and>
     drawn_from (content (frameQueue s)) xs \<and>
     minimumPointsRequired req \<le> length (out @ xs) \<and> length (out @ xs) \<le> maximumPointsRequired req)"

lemma frame_fresh_emit: "frame_ok f \<Longrightarrow> k \<le> length (fr_points f) - nextPoint f \<Longrightarrow>
    frame_ok (f\<lparr>nextPoint := nextPoint f + k\<rparr>)"
  by (auto simp: frame_ok_def)

lemma beginPlay_ok: "beginPlay f c = (f1, c1) \<Longrightarrow> fr_points f1 = fr_points f \<and> nextPoint f1 = nextPoint f"
  by (auto simp: beginPlay_def split: if_splits)

lemma fill_result_trans:
  assumes "fill_result req s2 (out @ xs) res"
    and "pendingFrames s2 = pendingFrames s" "content (frameQueue s2) \<subseteq> content (frameQueue s)"
    and "drawn_from (content (frameQueue s)) xs"
  shows "fill_result req s out res"
  using assms unfolding fill_result_def
  by (metis (no_types, lifting) append.assoc drawn_from_mono drawn_from_simps(2) subset_trans)

lemma fill_result_now:
  assumes "fs_inv s'" "pendingFrames s' = pendingFrames s" "content (frameQueue s') \<subseteq> content (frameQueue s)"
    and "drawn_from (content (frameQueue s)) xs"
    and "minimumPointsRequired req \<le> length (out @ xs)" "length (out @ xs) \<le> maximumPointsRequired req"
  shows "fill_result req s out (Some (out @ xs, s', c'))"
  using assms unfolding fill_result_def by blast

lemma fillLoop_spec:
  assumes "fs_inv s" "frameQueue s \<noteq> []" "length out < maximumPointsRequired req"
    and "minimumPointsRequired req \<le> maximumPointsRequired req" "maximumPointsRequired req \<le> 2 ^ 32"
  shows "fill_result req s out (fillLoop req rate hold est s c out)"
  using assms
proof (induction "2 * (maximumPointsRequired req - length out) + (if frontExhausted (frameQueue s) then 1 else 0)"
    arbitrary: s c out rule: less_induct)
  case less
  let ?m = "maximumPointsRequired req" and ?n = "minimumPointsRequired req"
  obtain f0 q where q: "frameQueue s = f0 # q" using less.prems(2) by (cases "frameQueue s") auto
  obtain f1 c1 where f1: "beginPlay f0 c = (f1, c1)" by fastforce
  have pts: "fr_points f1 = fr_points f0" "nextPoint f1 = nextPoint f0" using beginPlay_ok [OF f1] by auto
  have inv: "frame_ok f0" "\<forall>g \<in> set q. frame_fresh g" "\<forall>g \<in> set (pendingFrames s). frame_fresh g"
    "\<forall>x \<in> set (pendingTransitionPoints s). dark x" using less.prems(1) q by (auto simp: fs_inv_def queue_ok_def)
  then have ok1: "frame_ok f1" using pts by (simp add: frame_ok_def)
  define k where "k = min (length (fr_points f0) - nextPoint f0) (?m - length out)"
  define f where "f = f1\<lparr>nextPoint := nextPoint f0 + k\<rparr>"
  define ys where "ys = take k (drop (nextPoint f0) (fr_points f0))"
  have em: "emitPoints ?m f1 out = Some (f, out @ ys)"
    using emitPoints_spec [OF ok1 less.prems(3)] by (simp add: f_def ys_def pts k_def)
  have lys: "length ys = k" by (simp add: ys_def k_def)
  have okf: "frame_ok f" using ok1 by (auto simp: f_def frame_ok_def pts k_def)
  have fp: "fr_points f = fr_points f0" by (simp add: f_def pts)
  let ?s1 = "s\<lparr>frameQueue := f # q\<rparr>"
  have inv1: "fs_inv ?s1" using inv okf by (simp add: fs_inv_def queue_ok_def)
  have dys: "drawn_from (content (frameQueue s)) ys" by (auto simp: ys_def q)
  have le: "length (out @ ys) \<le> ?m" using less.prems(3) lys by (simp add: k_def)
  have c1s: "content (frameQueue ?s1) \<subseteq> content (frameQueue s)" by (simp add: q fp)
  obtain e q2 c2 where adv: "advanceFrame rate hold est (length (out @ ys)) f q c1 = Some (e, q2, c2)"
    and q2: "\<forall>g \<in> set q2. frame_fresh g" "content q2 \<subseteq> content (f # q)" "\<not> e \<longrightarrow> q2 \<noteq> []"
    using advanceFrame_spec [OF okf inv(2), of "length (out @ ys)"] le less.prems(5) by (meson order_trans)
  have unfold: "fillLoop req rate hold est s c out =
     (if ?n \<le> length (out @ ys) \<and> length (fr_points f) \<le> nextPoint f then Some (out @ ys, ?s1, c1)
      else if length (out @ ys) = ?m then Some (out @ ys, ?s1, c1)
      else if e then Some (appendBlankPoints (out @ ys) (if length (out @ ys) < ?n then ?n - length (out @ ys) else 0),
               s\<lparr>frameQueue := q2\<rparr>, c2)
      else case q2 of [] \<Rightarrow> None | g # _ \<Rightarrow> do {
         firstPoint \<leftarrow> nth_opt (fr_points g) (nextPoint g);
         (out2, s3) \<leftarrow> transitionTo (last (fr_points f)) firstPoint ?m (out @ ys) (s\<lparr>frameQueue := q2\<rparr>);
         if length out2 = ?m then Some (out2, s3, c2) else fillLoop req rate hold est s3 c2 out2 })"
    using ok1 by (subst fillLoop.simps) (simp add: q f1 em adv frame_ok_def Let_def del: length_append)
  consider (fin) "?n \<le> length (out @ ys) \<and> length (fr_points f) \<le> nextPoint f \<or> length (out @ ys) = ?m"
    | (expired) "\<not> (?n \<le> length (out @ ys) \<and> length (fr_points f) \<le> nextPoint f)" "length (out @ ys) \<noteq> ?m" "e"
    | (go) "\<not> (?n \<le> length (out @ ys) \<and> length (fr_points f) \<le> nextPoint f)" "length (out @ ys) \<noteq> ?m" "\<not> e"
    by blast
  then show ?case
  proof cases
    case fin
    then have "fillLoop req rate hold est s c out = Some (out @ ys, ?s1, c1)" unfolding unfold by auto
    moreover have "?n \<le> length (out @ ys)" using fin less.prems(4) by auto
    ultimately show ?thesis using inv1 c1s dys le by (simp only:) (rule fill_result_now; simp)
  next
    case expired
    let ?b = "if length (out @ ys) < ?n then ?n - length (out @ ys) else 0"
    let ?bs = "replicate ?b (default_point\<lparr>pt_i := Fin 0\<rparr>)"
    have "fillLoop req rate hold est s c out = Some (out @ (ys @ ?bs), s\<lparr>frameQueue := q2\<rparr>, c2)"
      unfolding unfold using expired by (auto simp: appendBlankPoints_eq)
    moreover have "fs_inv (s\<lparr>frameQueue := q2\<rparr>)" using inv q2 by (simp add: fs_inv_def queue_ok_fresh)
    moreover have "content q2 \<subseteq> content (frameQueue s)" using q2(2) fp q by simp
    ultimately show ?thesis using dys le less.prems(4) by (simp only:) (rule fill_result_now; simp)
  next
    case go
    then obtain g r where g: "q2 = g # r" using q2(3) by (cases q2) auto
    have fg: "frame_fresh g" using q2(1) g by simp
    then have n1: "nextPoint g < length (fr_points g)" and in1: "in_unit_square (fr_points g ! nextPoint g)"
      by (auto simp: frame_fresh_def)
    have in0: "in_unit_square (last (fr_points f))" using okf by (simp add: frame_ok_def)
    obtain xs s3 where tr: "transitionTo (last (fr_points f)) (fr_points g ! nextPoint g) ?m (out @ ys) (s\<lparr>frameQueue := q2\<rparr>)
          = Some ((out @ ys) @ xs, s3)"
      and xs: "\<forall>x \<in> set xs. dark x" "length ((out @ ys) @ xs) \<le> ?m" "\<forall>x \<in> set (pendingTransitionPoints s3). dark x"
        "frameQueue s3 = q2" "pendingFrames s3 = pendingFrames s"
      using transitionTo_total [OF in0 in1 le, of "s\<lparr>frameQueue := q2\<rparr>"] inv(4) by auto
    have inv3: "fs_inv s3" using xs inv(3) q2(1) by (simp add: fs_inv_def queue_ok_fresh)
    have c3: "content (frameQueue s3) \<subseteq> content (frameQueue s)" using q2(2) fp q xs(4) by simp
    have d3: "drawn_from (content (frameQueue s)) (ys @ xs)" using dys xs(1) by auto
    have eq: "fillLoop req rate hold est s c out =
       (if length (out @ ys @ xs) = ?m then Some (out @ (ys @ xs), s3, c2)
        else fillLoop req rate hold est s3 c2 (out @ (ys @ xs)))"
      unfolding unfold using go g n1 tr by auto
    show ?thesis
    proof (cases "length (out @ ys @ xs) = ?m")
      case True
      then have "fillLoop req rate hold est s c out = Some (out @ (ys @ xs), s3, c2)"
        using eq by (metis (no_types, lifting))
      then show ?thesis using inv3 xs c3 d3 less.prems(4) True by (simp only:) (rule fill_result_now; simp)
    next
      case False
      have lt: "length (out @ (ys @ xs)) < ?m" using False xs(2) by simp
      have nex: "\<not> frontExhausted (frameQueue s3)" using xs(4) g n1 by (simp add: frontExhausted_def)
      have "k = 0 \<Longrightarrow> frontExhausted (frameQueue s)"
        using q less.prems(3) by (auto simp: k_def frontExhausted_def)
      then have "2 * (?m - length (out @ (ys @ xs))) + (if frontExhausted (frameQueue s3) then 1 else 0)
          < 2 * (?m - length out) + (if frontExhausted (frameQueue s) then 1 else 0)"
        using nex lys lt by (cases "k = 0") auto
      from less.hyps [OF this inv3 _ lt less.prems(4,5)]
      have "fill_result req s3 (out @ (ys @ xs)) (fillLoop req rate hold est s3 c2 (out @ (ys @ xs)))"
        using xs(4) g by simp
      moreover have "fillLoop req rate hold est s c out = fillLoop req rate hold est s3 c2 (out @ (ys @ xs))"
        unfolding eq by (rule if_not_P [OF False])
      ultimately show ?thesis using xs(5) c3 d3 by (simp only:) (rule fill_result_trans [where xs = "ys @ xs"])
    qed
  qed
qed

subsection \<open>A whole fill\<close>

lemma fs_inv_skip [inv_intros]: "fs_inv s \<Longrightarrow> fs_inv (s\<lparr>frameQueue := skipStaleFrames t (frameQueue s)\<rparr>)"
  by (simp add: fs_inv_def queue_ok_skip)

lemma drain_into_empty:
  assumes "fs_inv s" and "drainPendingTransitionUnsafe [] m s = (out, s')"
  shows "fs_inv s' \<and> frameQueue s' = frameQueue s \<and> pendingFrames s' = pendingFrames s \<and> (\<forall>x \<in> set out. dark x)
     \<and> length out \<le> m \<and> (length out < m \<longrightarrow> out = pendingTransitionPoints s \<and> pendingTransitionPoints s' = [])"
proof -
  from drainPendingTransition_spec [OF _ assms(2)] assms(1)
  have "fs_inv s' \<and> frameQueue s' = frameQueue s \<and> pendingFrames s' = pendingFrames s \<and> (\<forall>x \<in> set out. dark x)
     \<and> length out \<le> m" by (auto simp: fs_inv_def)
  moreover have "length out < m \<longrightarrow> out = pendingTransitionPoints s \<and> pendingTransitionPoints s' = []"
    using assms(2) by (auto simp: drainPendingTransitionUnsafe_def Let_def min_def split: if_splits)
  ultimately show ?thesis by blast
qed

text \<open>
  C19. Filling a point request from the frame queue. From any state that satisfies the
  invariant (queued frames in the documented coordinate range, cursors inside their frames),
  \<open>fillPoints\<close> returns whatever the clock, the rate and the hold time are: no undefined cast
  or out-of-range read is reached and the loop ends. The invariant is kept; every point
  produced is a point of a submitted frame or is dark; at least the minimum is produced and
  at most the maximum, except that blanks appended behind a left-over transition may pass it.
\<close>

theorem fillPoints_sound:
  assumes "fs_inv s" and "0 < maximumPointsRequired req"
    and "minimumPointsRequired req \<le> maximumPointsRequired req" and "maximumPointsRequired req \<le> 2 ^ 32"
  shows "\<exists>out s' c'. fillPoints req rate hold s c [] = Some (out, s', c') \<and> fs_inv s' \<and> pendingFrames s' = [] \<and>
     content (frameQueue s') \<subseteq> content (frameQueue s @ pendingFrames s) \<and>
     drawn_from (content (frameQueue s @ pendingFrames s)) out \<and> minimumPointsRequired req \<le> length out \<and>
     (length out \<le> maximumPointsRequired req \<or>
      out = pendingTransitionPoints s @ replicate (minimumPointsRequired req) (default_point\<lparr>pt_i := Fin 0\<rparr>))"
proof -
  let ?m = "maximumPointsRequired req" and ?n = "minimumPointsRequired req"
  define s1 where "s1 = drainPendingFramesUnsafe s"
  have s1: "fs_inv s1" "frameQueue s1 = frameQueue s @ pendingFrames s" "pendingFrames s1 = []"
    "pendingTransitionPoints s1 = pendingTransitionPoints s"
    using assms(1) by (simp_all add: s1_def fs_inv_drain) (simp_all add: drainPendingFramesUnsafe_def)
  obtain out s2 where d: "drainPendingTransitionUnsafe [] ?m s1 = (out, s2)" by fastforce
  note D = drain_into_empty [OF s1(1) d]
  have dout: "drawn_from C out" for C using D by auto
  obtain est c1 where est: "(if estimatedFirstPointRenderTime req = 0 then (now c, later c)
      else (estimatedFirstPointRenderTime req, c)) = (est, c1)" by fastforce
  define q where "q = skipStaleFrames est (frameQueue s2)"
  have unfold: "fillPoints req rate hold s c [] =
     (if length out = ?m then Some (out, s2, c)
      else if frameQueue s2 = [] then Some (appendBlankPoints out ?n, s2, c1)
      else if playCount (hd q) = 0 \<and> \<not> frameIsDueAt (hd q) est
      then Some (appendBlankPoints out ?n, s2\<lparr>frameQueue := q\<rparr>, later c1)
      else fillLoop req rate hold est (s2\<lparr>frameQueue := q\<rparr>) c1 out)"
    unfolding fillPoints_def Let_def s1_def [symmetric] using assms(2) d est q_def by simp
  have cq: "content q \<subseteq> content (frameQueue s @ pendingFrames s)"
    using content_skip [of est "frameQueue s2"] D s1(2) by (simp add: q_def)
  have inv2: "fs_inv (s2\<lparr>frameQueue := q\<rparr>)" unfolding q_def using D fs_inv_skip by blast
  show ?thesis
  proof (cases "length out = ?m")
    case True
    then show ?thesis unfolding unfold using D s1 dout assms(3) by auto
  next
    case False
    with D s1(4) have p: "out = pendingTransitionPoints s" "length out < ?m" by auto
    have blanks: "appendBlankPoints out ?n = pendingTransitionPoints s @ replicate ?n (default_point\<lparr>pt_i := Fin 0\<rparr>)"
      by (simp add: appendBlankPoints_eq p(1))
    have dp: "drawn_from C (pendingTransitionPoints s)" for C using dout p by simp
    show ?thesis
    proof (cases "frameQueue s2 = [] \<or> playCount (hd q) = 0 \<and> \<not> frameIsDueAt (hd q) est")
      case True
      then show ?thesis unfolding unfold blanks using False D s1 inv2 cq dp by (auto simp: Let_def)
    next
      case fill: False
      have "fill_result req (s2\<lparr>frameQueue := q\<rparr>) out (fillLoop req rate hold est (s2\<lparr>frameQueue := q\<rparr>) c1 out)"
        using fill p(2) assms(3,4) inv2 by (intro fillLoop_spec) (simp_all add: q_def)
      moreover have "fillPoints req rate hold s c [] = fillLoop req rate hold est (s2\<lparr>frameQueue := q\<rparr>) c1 out"
        unfolding unfold using False fill by auto
      ultimately show ?thesis using D s1(3) cq dout unfolding fill_result_def
        by (fastforce intro: drawn_from_mono)
    qed
  qed
qed

text \<open>\<open>fillFrame\<close>: the loop is total, and one submission is below twice the maximum.\<close>

definition frame_result ::
    "FramePullRequest \<Rightarrow> FSState \<Rightarrow> LaserPoint list \<Rightarrow> (Frame \<times> FSState \<times> clock) option \<Rightarrow> bool" where
  "frame_result req s out res \<longleftrightarrow> (\<exists>fr s' c'. res = Some (fr, s', c') \<and> fs_inv s' \<and>
     pendingFrames s' = pendingFrames s \<and> content (frameQueue s') \<subseteq> content (frameQueue s) \<and>
     drawn_from (content (frameQueue s)) (fr_points fr) \<and>
     length (fr_points fr) < 2 * fp_maximumPointsRequired req)"

lemma frame_result_mono:
  assumes "frame_result req s2 out2 res" "pendingFrames s2 = pendingFrames s"
    and "content (frameQueue s2) \<subseteq> content (frameQueue s)"
  shows "frame_result req s out res"
  using assms unfolding frame_result_def by (metis drawn_from_mono subset_trans)

lemma frame_result_now:
  assumes "fs_inv s'" "pendingFrames s' = pendingFrames s" "content (frameQueue s') \<subseteq> content (frameQueue s)"
    and "drawn_from (content (frameQueue s)) (fr_points fr)" "length (fr_points fr) < 2 * fp_maximumPointsRequired req"
  shows "frame_result req s out (Some (fr, s', c'))"
  using assms unfolding frame_result_def by blast

lemma fr_points_outputFrameOf [simp]: "fr_points (outputFrameOf ps t) = ps"
  by (simp add: outputFrameOf_def)

lemma loadBlank_points:
  "drawn_from C (fr_points (loadBlankFrame req))" "length (fr_points (loadBlankFrame req)) \<le> fp_maximumPointsRequired req"
  by (simp_all add: loadBlankFrame_def appendBlankPoints_eq)

lemma frame_result_blank:
  assumes "fs_inv s'" "pendingFrames s' = pendingFrames s" "content (frameQueue s') \<subseteq> content (frameQueue s)"
    and "0 < fp_maximumPointsRequired req"
  shows "frame_result req s out (Some (loadBlankFrame req, s', c'))"
  using assms loadBlank_points(1) loadBlank_points(2) [of req] by (intro frame_result_now) auto

lemma fillFrameLoop_spec:
  assumes "fs_inv s" "length out < fp_maximumPointsRequired req" "\<forall>x \<in> set out. dark x"
  shows "frame_result req s out (fillFrameLoop req hold est s c out)"
  using assms
proof (induction req hold est s c out rule: fillFrameLoop.induct)
  case (1 req hold est s c out)
  let ?m = "fp_maximumPointsRequired req"
  have m: "0 < ?m" using "1.prems"(2) by simp
  show ?case
  proof (cases "frameQueue s")
    case Nil
    then show ?thesis using "1.prems" m by (simp add: fillFrameLoop.simps frame_result_blank)
  next
    case q: (Cons f q)
    have inv: "frame_ok f" "\<forall>g \<in> set q. frame_fresh g" "\<forall>g \<in> set (pendingFrames s). frame_fresh g"
      "\<forall>x \<in> set (pendingTransitionPoints s). dark x" using "1.prems"(1) q by (auto simp: fs_inv_def queue_ok_def)
    have ne: "fr_points f \<noteq> []" using inv(1) by (simp add: frame_ok_def)
    have invq: "fs_inv (s\<lparr>frameQueue := q\<rparr>)" using inv by (simp add: fs_inv_def queue_ok_fresh)
    consider (wait) "playCount f = 0 \<and> nextPoint f = 0 \<and> \<not> advanceWhenAvailable req \<and> \<not> frameIsDueAt f est"
      | (ended) "\<not> (playCount f = 0 \<and> nextPoint f = 0 \<and> \<not> advanceWhenAvailable req \<and> \<not> frameIsDueAt f est)"
          "length (fr_points f) \<le> nextPoint f"
      | (play) "\<not> (playCount f = 0 \<and> nextPoint f = 0 \<and> \<not> advanceWhenAvailable req \<and> \<not> frameIsDueAt f est)"
          "nextPoint f < length (fr_points f)"
      by linarith
    then show ?thesis
    proof cases
      case wait
      then show ?thesis using q ne "1.prems"(1) m by (simp add: fillFrameLoop.simps [of req hold est s] frame_result_blank)
    next
      case play
      define f1c where "f1c = (if nextPoint f = 0
                then (if playCount f = 0 then (f\<lparr>firstPlayTime := now c, playCount := 1\<rparr>, later c)
                      else (f\<lparr>playCount := playCount f + 1\<rparr>, c))
                else (f, c))"
      obtain f1 c1 where f1: "f1c = (f1, c1)" by fastforce
      have pts: "fr_points f1 = fr_points f" "nextPoint f1 = nextPoint f"
        using f1 by (auto simp: f1c_def split: if_splits)
      define k where "k = min (length (fr_points f) - nextPoint f) ?m"
      let ?s = "s\<lparr>frameQueue := f1\<lparr>nextPoint := nextPoint f + k\<rparr> # q\<rparr>"
      let ?out = "out @ take k (drop (nextPoint f) (fr_points f))"
      have eq: "fillFrameLoop req hold est s c out = Some (outputFrameOf ?out (if out = [] then fr_time f1 else 0), ?s, c1)"
        using play ne by (auto simp: fillFrameLoop.simps [of req hold est s] q f1c_def [symmetric] f1 pts k_def Let_def)
      have "frame_ok (f1\<lparr>nextPoint := nextPoint f + k\<rparr>)" using inv(1) play by (simp add: frame_ok_def pts k_def)
      then have "fs_inv ?s" using inv by (simp add: fs_inv_def queue_ok_def)
      moreover have "drawn_from (content (frameQueue s)) ?out" using "1.prems"(3) by (auto simp: q)
      moreover have "length ?out < 2 * ?m" using "1.prems"(2) by (simp add: k_def)
      ultimately show ?thesis unfolding eq by (intro frame_result_now) (simp_all add: q pts)
    next
      case ended
      show ?thesis
      proof (cases "q \<noteq> [] \<and> (advanceWhenAvailable req \<or> frameIsDueAt (hd q) est)")
        case True
        then obtain g r where g: "q = g # r" by (cases q) auto
        have fg: "frame_fresh g" using inv(2) g by simp
        have n0: "nth_opt (fr_points g) 0 = Some (fr_points g ! 0)" using fg by (auto simp: frame_fresh_def nth_opt_def)
        have in1: "in_unit_square (last (fr_points f))" "in_unit_square (fr_points g ! 0)"
          using inv(1) fg by (auto simp: frame_ok_def frame_fresh_def intro!: nth_mem)
        obtain xs s3 where tr: "transitionTo (last (fr_points f)) (fr_points g ! 0) ?m out (s\<lparr>frameQueue := q\<rparr>) = Some (out @ xs, s3)"
          and xs: "\<forall>x \<in> set xs. dark x" "length (out @ xs) \<le> ?m" "\<forall>x \<in> set (pendingTransitionPoints s3). dark x"
            "frameQueue s3 = q" "pendingFrames s3 = pendingFrames s"
          using transitionTo_total [OF in1, of out ?m "s\<lparr>frameQueue := q\<rparr>"] inv(4) "1.prems"(2) by auto
        have inv3: "fs_inv s3" using xs inv by (simp add: fs_inv_def queue_ok_fresh)
        have c3: "content (frameQueue s3) \<subseteq> content (frameQueue s)" using xs(4) q by auto
        have dk: "\<forall>x \<in> set (out @ xs). dark x" using xs(1) "1.prems"(3) by auto
        have eq: "fillFrameLoop req hold est s c out =
          (if length (out @ xs) = ?m then Some (outputFrameOf (out @ xs) 0, s3, c)
           else fillFrameLoop req hold est s3 c (out @ xs))"
          using True ended ne n0 tr g by (subst fillFrameLoop.simps) (auto simp: q)
        show ?thesis
        proof (cases "length (out @ xs) = ?m")
          case full: True
          have "frame_result req s out (Some (outputFrameOf (out @ xs) 0, s3, c))"
            using inv3 xs c3 dk full m by (intro frame_result_now) auto
          moreover have "fillFrameLoop req hold est s c out = Some (outputFrameOf (out @ xs) 0, s3, c)"
            unfolding eq by (rule if_P [OF full])
          ultimately show ?thesis by simp
        next
          case False
          have "frame_result req s3 (out @ xs) (fillFrameLoop req hold est s3 c (out @ xs))"
          proof (rule "1.IH"(1))
            show "frameQueue s = f # q" by (rule q)
          qed (use True ended ne n0 tr False inv3 xs dk g in auto)
          then have "frame_result req s out (fillFrameLoop req hold est s3 c (out @ xs))"
            using xs(5) c3 by (rule frame_result_mono)
          moreover have "fillFrameLoop req hold est s c out = fillFrameLoop req hold est s3 c (out @ xs)"
            unfolding eq by (rule if_not_P [OF False])
          ultimately show ?thesis by simp
        qed
      next
        case False
        define checked where "checked \<longleftrightarrow> 0 < playCount f \<and> 0 < hold"
        define c1 where "c1 = (if checked then later c else c)"
        have eq: "fillFrameLoop req hold est s c out =
          (if checked \<and> hold * 1000000 \<le> now c - firstPlayTime f
           then Some (loadBlankFrame req, s\<lparr>frameQueue := q\<rparr>, c1)
           else if \<not> repeatCurrentFrameWhenIdle req then Some (outputFrameOf out 0, s, c1)
           else fillFrameLoop req hold est (s\<lparr>frameQueue := f\<lparr>nextPoint := 0\<rparr> # q\<rparr>) c1 out)"
          using False ended ne by (subst fillFrameLoop.simps) (auto simp: q Let_def checked_def c1_def)
        consider "checked \<and> hold * 1000000 \<le> now c - firstPlayTime f"
          | "\<not> (checked \<and> hold * 1000000 \<le> now c - firstPlayTime f)" "\<not> repeatCurrentFrameWhenIdle req"
          | (again) "\<not> (checked \<and> hold * 1000000 \<le> now c - firstPlayTime f)" "repeatCurrentFrameWhenIdle req" by blast
        then show ?thesis
        proof cases
          case 1
          then have "fillFrameLoop req hold est s c out = Some (loadBlankFrame req, s\<lparr>frameQueue := q\<rparr>, c1)"
            unfolding eq by simp
          then show ?thesis using invq m by (simp add: frame_result_blank q)
        next
          case 2
          then have "fillFrameLoop req hold est s c out = Some (outputFrameOf out 0, s, c1)" unfolding eq by auto
          then show ?thesis using "1.prems" by (simp only:) (rule frame_result_now; auto)
        next
          case again
          let ?s = "s\<lparr>frameQueue := f\<lparr>nextPoint := 0\<rparr> # q\<rparr>"
          have "fs_inv ?s" using inv by (simp add: fs_inv_def queue_ok_def frame_ok_def)
          then have "frame_result req ?s out (fillFrameLoop req hold est ?s c1 out)"
            using "1.IH"(2) [OF q ne _ ended(2) False refl refl, of] ended again "1.prems"
            by (auto simp: checked_def c1_def)
          then have "frame_result req s out (fillFrameLoop req hold est ?s c1 out)"
            by (rule frame_result_mono) (simp_all add: q)
          moreover have "fillFrameLoop req hold est s c out = fillFrameLoop req hold est ?s c1 out"
            unfolding eq using again by auto
          ultimately show ?thesis by simp
        qed
      qed
    qed
  qed
qed

end
