(* ===== verification/Scheduler_Properties.thy ===== *)
theory Scheduler_Properties
  imports Frame_Scheduler
begin

text \<open>
  What the frame scheduler promises beyond totality: the contract of a transport pull, the
  two ways a pull can pass its maximum, oversized frames in order, and back-pressure on
  submission as an instance of a budgeted queue.
\<close>

text \<open>
  C20. Filling a transport frame. From any state that satisfies the invariant, \<open>fillFrame\<close>
  returns whatever the clock, the flags and the hold time are, keeps the invariant, and puts
  only points of submitted frames and dark points in the output; a submission stays below
  twice the request's maximum.
\<close>

theorem fillFrame_sound:
  assumes "fs_inv s"
  shows "\<exists>fr s' c'. fillFrame req hold s c = Some (fr, s', c') \<and> fs_inv s' \<and> pendingFrames s' = [] \<and>
     content (frameQueue s') \<subseteq> content (frameQueue s @ pendingFrames s) \<and>
     drawn_from (content (frameQueue s @ pendingFrames s)) (fr_points fr) \<and>
     length (fr_points fr) \<le> 2 * fp_maximumPointsRequired req - 1"
proof -
  let ?m = "fp_maximumPointsRequired req"
  define s1 where "s1 = drainPendingFramesUnsafe s"
  have s1: "fs_inv s1" "frameQueue s1 = frameQueue s @ pendingFrames s" "pendingFrames s1 = []"
    using assms by (simp_all add: s1_def fs_inv_drain) (simp_all add: drainPendingFramesUnsafe_def)
  obtain out s2 where d: "drainPendingTransitionUnsafe [] ?m s1 = (out, s2)" by fastforce
  note D = drain_into_empty [OF s1(1) d]
  obtain est c1 where est: "(if fp_estimatedFirstPointRenderTime req = 0 then (now c, later c)
      else (fp_estimatedFirstPointRenderTime req, c)) = (est, c1)" by fastforce
  define s3 where "s3 = s2\<lparr>frameQueue := skipStaleFrames est (frameQueue s2)\<rparr>"
  have s3: "fs_inv s3" "pendingFrames s3 = []" "content (frameQueue s3) \<subseteq> content (frameQueue s2)"
    using D s1(3) fs_inv_skip [of s2 est] by (auto simp: s3_def content_skip)
  have unfold: "fillFrame req hold s c =
     (if ?m = 0 then Some (default_frame, s1, c1)
      else if pendingTransitionPoints s1 \<noteq> [] \<and> length out = ?m then Some (outputFrameOf out 0, s2, c1)
      else if frameQueue s2 = [] then Some (loadBlankFrame req, s2, c1)
      else fillFrameLoop req hold est s3 c1 out)"
    unfolding fillFrame_def Let_def s1_def [symmetric] est d s3_def by simp
  consider (none) "?m = 0" | (full) "?m \<noteq> 0" "pendingTransitionPoints s1 \<noteq> []" "length out = ?m"
    | (blank) "?m \<noteq> 0" "\<not> (pendingTransitionPoints s1 \<noteq> [] \<and> length out = ?m)" "frameQueue s2 = []"
    | (loop) "?m \<noteq> 0" "\<not> (pendingTransitionPoints s1 \<noteq> [] \<and> length out = ?m)" "frameQueue s2 \<noteq> []" by blast
  then show ?thesis
  proof cases
    case none
    then show ?thesis unfolding unfold using s1 by (simp add: default_frame_def)
  next
    case full
    then have e: "fillFrame req hold s c = Some (outputFrameOf out 0, s2, c1)" unfolding unfold by simp
    have "drawn_from C out" for C using D by auto
    then show ?thesis unfolding e using full D s1(2,3) by simp
  next
    case blank
    then have e: "fillFrame req hold s c = Some (loadBlankFrame req, s2, c1)" unfolding unfold by auto
    have "length (fr_points (loadBlankFrame req)) \<le> 2 * ?m - 1" using loadBlank_points(2) [of req] blank(1) by simp
    then show ?thesis unfolding e using D s1(2,3) loadBlank_points(1) by simp
  next
    case loop
    have "length out \<noteq> ?m"
    proof
      assume e: "length out = ?m"
      then have "pendingTransitionPoints s1 = []" using loop(2) by blast
      then have "out = []" using d by (simp add: drainPendingTransitionUnsafe_def)
      then show False using e loop(1) by simp
    qed
    moreover have "length out \<le> ?m" using D by blast
    ultimately have "length out < ?m" by simp
    then have "frame_result req s3 out (fillFrameLoop req hold est s3 c1 out)"
      using s3(1) D by (intro fillFrameLoop_spec) auto
    moreover have "fillFrame req hold s c = fillFrameLoop req hold est s3 c1 out" unfolding unfold using loop by auto
    moreover have "content (frameQueue s3) \<subseteq> content (frameQueue s @ pendingFrames s)" using s3(3) D s1(2) by simp
    ultimately obtain fr s' c' where r: "fillFrame req hold s c = Some (fr, s', c')" "fs_inv s'" "pendingFrames s' = []"
        "content (frameQueue s') \<subseteq> content (frameQueue s3)" "drawn_from (content (frameQueue s3)) (fr_points fr)"
        "length (fr_points fr) < 2 * ?m" "content (frameQueue s3) \<subseteq> content (frameQueue s @ pendingFrames s)"
      using s3(2) unfolding frame_result_def by auto
    then have "content (frameQueue s') \<subseteq> content (frameQueue s @ pendingFrames s)"
      "drawn_from (content (frameQueue s @ pendingFrames s)) (fr_points fr)"
      by (blast intro: drawn_from_mono)+
    then show ?thesis unfolding r(1) using r(2,3,6) by simp
  qed
qed

definition demo_frame :: "rat \<Rightarrow> nat \<Rightarrow> nat \<Rightarrow> nat \<Rightarrow> Frame" where
  "demo_frame x n k played = \<lparr>fr_points = replicate n (default_point\<lparr>pt_x := Fin x, pt_r := Fin 1\<rparr>), fr_time = 0,
     playCount = played, nextPoint = k, firstPlayTime = 0\<rparr>"

definition demo_state :: FSState where
  "demo_state = fs_init\<lparr>frameQueue := [demo_frame 0 3 3 1, demo_frame (1 / 4) 11 0 0]\<rparr>"

lemma demo_inv: "fs_inv demo_state"
  by (simp add: demo_state_def demo_frame_def fs_inv_def fs_init_def queue_ok_def frame_ok_def frame_fresh_def
      in_unit_square_def unit_value_def default_point_def)

definition demo_pull :: FramePullRequest where
  "demo_pull = \<lparr>fp_maximumPointsRequired = 11, fp_blankFramePointCount = 5, fp_estimatedFirstPointRenderTime = 1,
     fp_currentPointIndex = 0, advanceWhenAvailable = True, repeatCurrentFrameWhenIdle = True\<rparr>"

definition demo_request :: PointFillRequest where
  "demo_request = \<lparr>minimumPointsRequired = 4, maximumPointsRequired = 5, estimatedFirstPointRenderTime = 1,
     currentPointIndex = 0, allowShortRead = False\<rparr>"

theorem fillFrame_sound_witness:
  "\<exists>fr s' c'. fillFrame demo_pull 100 demo_state (\<lambda>n. int n) = Some (fr, s', c') \<and> fs_inv s' \<and>
     length (fr_points fr) \<le> 21"
  using fillFrame_sound [OF demo_inv, of demo_pull 100 "\<lambda>n. int n"] by (auto simp: demo_pull_def)

theorem fillPoints_sound_witness:
  "\<exists>out s' c'. fillPoints demo_request 30000 100 demo_state (\<lambda>n. int n) [] = Some (out, s', c') \<and> fs_inv s' \<and>
     4 \<le> length out"
  using fillPoints_sound [OF demo_inv, of demo_request 30000 100 "\<lambda>n. int n"] by (auto simp: demo_request_def)

text \<open>
  \<open>fillFrame\<close> can submit more than the requested maximum: the copy after a drained
  transition is bounded by the whole maximum and not by the room left. With a maximum of 11,
  a front frame just finished at the centre and an 11-point frame at x = 0.25 next, one call
  returns a 21-point frame (10 transition points and 11 content points).
\<close>

theorem fillFrame_exceeds_maximum:
  "\<exists>fr s' c'. fillFrame demo_pull 100 demo_state c = Some (fr, s', c') \<and> fp_maximumPointsRequired demo_pull = 11 \<and>
     length (fr_points fr) = 21"
proof -
  have d: "planarDistance (fsub F32 (Fin (1 / 4)) (Fin 0)) (fsub F32 (Fin 0) (Fin 0)) = Fin (1 / 4)" by code_simp
  have t: "flt blankTransitionDistanceThreshold (Fin (1 / 4))" by code_simp
  have n: "cast_size (fmul F32 (Fin (1 / 4)) blankPointsPerUnitDistance) = Some 5" by code_simp
  show ?thesis
    by (simp add: fillFrame_def fillFrameLoop.simps demo_state_def demo_pull_def demo_frame_def fs_init_def
        drainPendingFramesUnsafe_def drainPendingTransitionUnsafe_def Let_def transitionTo_def generateTransitionPoints_def
        default_point_def d t n minBlankPointsPerEnd_def del: fmul.simps)
qed

text \<open>
  \<open>fillPoints\<close> can produce more than the requested maximum: a left-over transition is
  drained first, and when the queue is then empty or its front not yet due the whole minimum
  of blanks is appended behind it. With 3 points left over, a minimum of 4 and a maximum of 5
  the result has 7 points.
\<close>

theorem fillPoints_exceeds_maximum:
  "\<exists>out s' c'. fillPoints demo_request rate hold
      (fs_init\<lparr>pendingTransitionPoints := replicate 3 (default_point\<lparr>pt_i := Fin 0\<rparr>),
               frameQueue := [(demo_frame 0 3 0 0)\<lparr>fr_time := 2\<rparr>]\<rparr>) c [] = Some (out, s', c') \<and>
     maximumPointsRequired demo_request = 5 \<and> length out = 7"
  by (simp add: fillPoints_def demo_request_def fs_init_def drainPendingFramesUnsafe_def
      drainPendingTransitionUnsafe_def demo_frame_def frameIsDueAt_def appendBlankPoints_def)

subsection \<open>Oversized frames are sent in order, whole\<close>

text \<open>\<open>n\<close> successive pulls; the outputs in order.\<close>

fun pullFrames :: "nat \<Rightarrow> FramePullRequest \<Rightarrow> int \<Rightarrow> FSState \<Rightarrow> clock \<Rightarrow> (LaserPoint list list \<times> FSState \<times> clock) option" where
  "pullFrames 0 req hold s c = Some ([], s, c)"
| "pullFrames (Suc n) req hold s c = do {
     (fr, s1, c1) \<leftarrow> fillFrame req hold s c;
     (frs, s2, c2) \<leftarrow> pullFrames n req hold s1 c1;
     Some (fr_points fr # frs, s2, c2) }"

definition playing_only :: "Frame \<Rightarrow> FSState" where
  "playing_only f = fs_init\<lparr>frameQueue := [f]\<rparr>"

lemma fillFrameLoop_chunk:
  assumes m: "0 < fp_maximumPointsRequired req" and n: "nextPoint f < length (fr_points f)"
    and due: "0 < playCount f \<or> 0 < nextPoint f \<or> advanceWhenAvailable req \<or> fr_time f = 0"
    and q: "frameQueue s = [f]" and k: "k = min (length (fr_points f) - nextPoint f) (fp_maximumPointsRequired req)"
  shows "\<exists>fr f' c'. fillFrameLoop req hold est s c [] = Some (fr, s\<lparr>frameQueue := [f']\<rparr>, c') \<and>
     fr_points fr = take k (drop (nextPoint f) (fr_points f)) \<and>
     fr_points f' = fr_points f \<and> nextPoint f' = nextPoint f + k \<and> fr_time f' = fr_time f"
proof -
  define fc where "fc = (if nextPoint f = 0
                then (if playCount f = 0 then (f\<lparr>firstPlayTime := now c, playCount := 1\<rparr>, later c)
                      else (f\<lparr>playCount := playCount f + 1\<rparr>, c))
                else (f, c))"
  obtain f1 c1 where f1: "fc = (f1, c1)" by fastforce
  have pts: "fr_points f1 = fr_points f" "nextPoint f1 = nextPoint f" "fr_time f1 = fr_time f"
    using f1 by (auto simp: fc_def split: if_splits)
  have ne: "fr_points f \<noteq> []" "\<not> length (fr_points f) \<le> nextPoint f" using n by auto
  have nd: "\<not> (playCount f = 0 \<and> nextPoint f = 0 \<and> \<not> advanceWhenAvailable req \<and> \<not> frameIsDueAt f est)"
    using due by (auto simp: frameIsDueAt_def)
  have "fillFrameLoop req hold est s c [] = Some (outputFrameOf (take k (drop (nextPoint f) (fr_points f))) (fr_time f1),
      s\<lparr>frameQueue := [f1\<lparr>nextPoint := nextPoint f + k\<rparr>]\<rparr>, c1)"
    unfolding fillFrameLoop.simps [of req hold est s] q list.case if_not_P [OF ne(1)] if_not_P [OF nd] if_not_P [OF ne(2)]
      fc_def [symmetric] f1 using n by (simp add: pts k Let_def)
  then show ?thesis by (auto simp: pts)
qed

lemma fillFrame_chunk:
  assumes "0 < fp_maximumPointsRequired req" "nextPoint f < length (fr_points f)"
    and "0 < playCount f \<or> 0 < nextPoint f \<or> advanceWhenAvailable req \<or> fr_time f = 0"
    and k: "k = min (length (fr_points f) - nextPoint f) (fp_maximumPointsRequired req)"
  shows "\<exists>fr f' c'. fillFrame req hold (playing_only f) c = Some (fr, playing_only f', c') \<and>
     fr_points fr = take k (drop (nextPoint f) (fr_points f)) \<and>
     fr_points f' = fr_points f \<and> nextPoint f' = nextPoint f + k \<and> fr_time f' = fr_time f"
proof -
  obtain est c1 where est: "(if fp_estimatedFirstPointRenderTime req = 0 then (now c, later c)
      else (fp_estimatedFirstPointRenderTime req, c)) = (est, c1)" by fastforce
  have "fillFrame req hold (playing_only f) c = fillFrameLoop req hold est (playing_only f) c1 []"
    unfolding fillFrame_def Let_def est using assms(1)
    by (simp add: playing_only_def fs_init_def drainPendingFramesUnsafe_def drainPendingTransitionUnsafe_def)
  moreover obtain fr f' c' where "fillFrameLoop req hold est (playing_only f) c1 [] =
      Some (fr, (playing_only f)\<lparr>frameQueue := [f']\<rparr>, c')"
    "fr_points fr = take k (drop (nextPoint f) (fr_points f))"
    "fr_points f' = fr_points f" "nextPoint f' = nextPoint f + k" "fr_time f' = fr_time f"
    using fillFrameLoop_chunk [OF assms(1-3) _ k, of "playing_only f" hold est c1] by (auto simp: playing_only_def)
  ultimately show ?thesis by (auto simp: playing_only_def)
qed



subsection \<open>Back-pressure\<close>

text \<open>What a submitter relies on: an offer is refused when the backlog is over the budget, a
  refusal changes nothing, an accepted item adds its cost.\<close>

locale budgeted_queue =
  fixes backlog :: "'s \<Rightarrow> nat"
    and offer :: "'f \<Rightarrow> nat \<Rightarrow> 's \<Rightarrow> bool \<times> 's"
    and cost :: "'f \<Rightarrow> nat"
  assumes over_budget: "budget < backlog s \<Longrightarrow> \<not> fst (offer f budget s)"
    and refused: "\<not> fst (offer f budget s) \<Longrightarrow> snd (offer f budget s) = s"
    and accepted: "fst (offer f budget s) \<Longrightarrow> backlog (snd (offer f budget s)) = backlog s + cost f"
begin

lemma offer_bounded: "cost f \<le> k \<Longrightarrow> backlog s \<le> budget + k \<Longrightarrow> backlog (snd (offer f budget s)) \<le> budget + k"
proof (cases "fst (offer f budget s)")
  case True
  assume "cost f \<le> k"
  moreover have "backlog s \<le> budget" using True over_budget not_less by blast
  ultimately show ?thesis using accepted [OF True] by simp
next
  case False
  assume "backlog s \<le> budget + k"
  with refused [OF False] show ?thesis by simp
qed

lemma offers_bounded:
  "\<forall>f \<in> set fs. cost f \<le> k \<Longrightarrow> backlog s \<le> budget + k \<Longrightarrow>
   backlog (fold (\<lambda>f s. snd (offer f budget s)) fs s) \<le> budget + k"
  by (induction fs arbitrary: s) (auto intro: offer_bounded)

end

text \<open>\<open>sendFrame\<close> asks \<open>isReadyForNewFrame\<close> and then enqueues; \<open>trySendFrame\<close> uses the
  combined operation.\<close>

definition enqueueIfReady :: "nat \<Rightarrow> Frame \<Rightarrow> nat \<Rightarrow> FSState \<Rightarrow> bool \<times> FSState" where
  "enqueueIfReady minimumQueuedPointsPerFrame frame budget s =
     (if fs_isReadyForNewFrame budget minimumQueuedPointsPerFrame s then enqueueFrame frame s else (False, s))"

lemma queuedPointsOf_append: "queuedPointsOf m (xs @ ys) = queuedPointsOf m xs + queuedPointsOf m ys"
  by (induction xs) (simp_all add: Let_def)

lemma backlog_enqueue:
  "queuedPointCountUnsafe m (s\<lparr>nominalFramePointCount := n, pendingFrames := pendingFrames s @ [f]\<rparr>) =
   queuedPointCountUnsafe m s + queuedPointsOf (max m 1) [f]"
  by (simp add: queuedPointCountUnsafe_def queuedPointsOf_append Let_def)

interpretation trySend: budgeted_queue "queuedPointCountUnsafe m"
    "\<lambda>f budget s. tryEnqueueFrameIfReady owns f budget m s" "\<lambda>f. queuedPointsOf (max m 1) [f]" for owns m
  by unfold_locales (auto simp: tryEnqueueFrameIfReady_def backlog_enqueue split: if_splits)

interpretation send: budgeted_queue "queuedPointCountUnsafe m" "enqueueIfReady m"
    "\<lambda>f. queuedPointsOf (max m 1) [f]" for m
  by unfold_locales
    (auto simp: enqueueIfReady_def enqueueFrame_def fs_isReadyForNewFrame_def backlog_enqueue split: if_splits)

text \<open>
  C31. Back-pressure. Whatever sequence of frames is submitted, by either submission path and
  whether or not the lock is taken, the points waiting in the scheduler never pass the budget
  by more than one frame's worth.
\<close>

theorem submissions_bounded:
  assumes "\<forall>f \<in> set fs. queuedPointsOf (max m 1) [f] \<le> k" and "queuedPointCountUnsafe m s \<le> budget + k"
  shows "queuedPointCountUnsafe m (fold (\<lambda>f s. snd (tryEnqueueFrameIfReady owns f budget m s)) fs s) \<le> budget + k \<and>
     queuedPointCountUnsafe m (fold (\<lambda>f s. snd (enqueueIfReady m f budget s)) fs s) \<le> budget + k"
  using assms by (auto intro: trySend.offers_bounded send.offers_bounded)

theorem submissions_bounded_witness:
  "queuedPointCountUnsafe 1 (fold (\<lambda>f s. snd (tryEnqueueFrameIfReady True f 20 1 s)) (replicate 9 (demo_frame 0 11 0 0)) fs_init) \<le> 31"
  using submissions_bounded [of "replicate 9 (demo_frame 0 11 0 0)" 1 11 fs_init 20 True]
  by (simp add: demo_frame_def fs_init_def queuedPointCountUnsafe_def Let_def)

end
