(* ===== verification/Controller_Events.thy ===== *)
theory Controller_Events
  imports Prelude "HOL-Library.AList" "HOL-Library.Char_ord" "HOL-Library.List_Lexorder" "HOL-Library.Multiset" "HOL-Library.Monad_Syntax"
begin

text \<open>
  Controller health: the error codes and their labels (include/libera/core/ControllerErrorTypes.hpp)
  and the event bookkeeping of LaserControllerStreaming (src/core/LaserControllerStreaming.cpp):
  counters per code, the last warning and error, the hold window that turns them into a
  status, and the throttled logging of repeated events. The unordered maps of the code are
  association lists with distinct keys; ticks are nanoseconds.
\<close>

subsection \<open>Codes and labels\<close>

definition net_connectFailed :: string where "net_connectFailed = ''network.connect_failed''"
definition net_connectionLost :: string where "net_connectionLost = ''network.connection_lost''"
definition net_sendFailed :: string where "net_sendFailed = ''network.send_failed''"
definition net_receiveFailed :: string where "net_receiveFailed = ''network.receive_failed''"
definition net_timeout :: string where "net_timeout = ''network.timeout''"
definition net_protocolError :: string where "net_protocolError = ''network.protocol_error''"
definition net_packetLoss :: string where "net_packetLoss = ''network.packet_loss''"
definition net_bufferUnderflow :: string where "net_bufferUnderflow = ''network.buffer_underflow''"
definition net_bufferOverrun :: string where "net_bufferOverrun = ''network.buffer_overrun''"
definition ed_playbackIdle :: string where "ed_playbackIdle = ''etherdream.playback_idle''"
definition ed_streamStarvation :: string where "ed_streamStarvation = ''etherdream.stream_starvation''"
definition ed_stopCondition :: string where "ed_stopCondition = ''etherdream.stop_condition''"
definition ed_rebootRequired :: string where "ed_rebootRequired = ''etherdream.reboot_required''"
definition idn_discoveryStale :: string where "idn_discoveryStale = ''idn.discovery_stale''"
definition idn_pingTimeout :: string where "idn_pingTimeout = ''idn.ping_timeout''"
definition idn_pingFailed :: string where "idn_pingFailed = ''idn.ping_failed''"
definition idn_pingProtocolError :: string where "idn_pingProtocolError = ''idn.ping_protocol_error''"
definition usb_connectFailed :: string where "usb_connectFailed = ''usb.connect_failed''"
definition usb_connectionLost :: string where "usb_connectionLost = ''usb.connection_lost''"
definition usb_transferFailed :: string where "usb_transferFailed = ''usb.transfer_failed''"
definition usb_timeout :: string where "usb_timeout = ''usb.timeout''"
definition usb_statusError :: string where "usb_statusError = ''usb.status_error''"
definition plugin_sendDisconnected :: string where "plugin_sendDisconnected = ''plugin.send.disconnected''"
definition plugin_sendTimeout :: string where "plugin_sendTimeout = ''plugin.send.timeout''"
definition plugin_sendBusy :: string where "plugin_sendBusy = ''plugin.send.busy''"
definition plugin_sendProtocol :: string where "plugin_sendProtocol = ''plugin.send.protocol''"
definition plugin_sendInvalidArg :: string where "plugin_sendInvalidArg = ''plugin.send.invalid_argument''"
definition plugin_sendInternal :: string where "plugin_sendInternal = ''plugin.send.internal''"
definition plugin_sendUnknown :: string where "plugin_sendUnknown = ''plugin.send.unknown''"
definition plugin_error :: string where "plugin_error = ''plugin.error''"

definition known_labels :: "(string \<times> string) list" where
  "known_labels =
    [(net_connectFailed, ''Network connect failed''),
     (net_connectionLost, ''Network connection lost''),
     (net_sendFailed, ''Network send failed''),
     (net_receiveFailed, ''Network receive failed''),
     (net_timeout, ''Network timeout''),
     (net_protocolError, ''Network protocol error''),
     (net_packetLoss, ''Network packet loss''),
     (net_bufferUnderflow, ''Network underrun''),
     (net_bufferOverrun, ''Network buffer overrun''),
     (ed_playbackIdle, ''Ether Dream underrun / playback idle''),
     (ed_streamStarvation, ''Computer performance underrun''),
     (ed_stopCondition, ''Ether Dream stop condition''),
     (ed_rebootRequired, ''Ether Dream playback stuck - reboot DAC''),
     (idn_discoveryStale, ''IDN controller no longer visible''),
     (idn_pingTimeout, ''IDN ping timeout''),
     (idn_pingFailed, ''IDN ping failed''),
     (idn_pingProtocolError, ''IDN ping protocol error''),
     (usb_connectFailed, ''USB connect failed''),
     (usb_connectionLost, ''USB connection lost''),
     (usb_transferFailed, ''USB transfer failed''),
     (usb_timeout, ''USB timeout''),
     (usb_statusError, ''USB status error''),
     (plugin_sendDisconnected, ''Plugin disconnected''),
     (plugin_sendTimeout, ''Plugin send timeout''),
     (plugin_sendBusy, ''Plugin busy''),
     (plugin_sendProtocol, ''Plugin protocol error''),
     (plugin_sendInvalidArg, ''Plugin invalid argument''),
     (plugin_sendInternal, ''Plugin internal error''),
     (plugin_sendUnknown, ''Plugin send failed''),
     (plugin_error, ''Plugin error'')]"

text \<open>The chain of comparisons is a first-match lookup in that order.\<close>

definition labelFor :: "string \<Rightarrow> string" where
  "labelFor code =
     (case map_of known_labels code of Some label \<Rightarrow> label
      | None \<Rightarrow> if 7 < length code \<and> take 7 code = ''plugin.'' then code
                else if CHR ''.'' \<in> set code then code
                else ''Unknown error'')"

subsection \<open>Event state\<close>

datatype ControllerStatus = Good | Issues | StatusError

datatype ControllerEventSeverity = SevNone | SevWarning | SevError

fun controllerEventSeverityLabel :: "ControllerEventSeverity \<Rightarrow> string" where
  "controllerEventSeverityLabel SevWarning = ''warning''"
| "controllerEventSeverityLabel SevError = ''error''"
| "controllerEventSeverityLabel SevNone = ''none''"

record EventState =
  controllerConnected :: bool
  lastWarningTick :: int
  lastErrorTick :: int
  recentEventHoldMillis :: int
  errorCounts :: "(string \<times> u64) list"
  lastLoggedEventTicks :: "(string \<times> int) list"
  lastWarningCode :: string
  lastErrorCode :: string

definition events_init :: EventState where
  "events_init = \<lparr>controllerConnected = False, lastWarningTick = 0, lastErrorTick = 0,
     recentEventHoldMillis = 4000, errorCounts = [], lastLoggedEventTicks = [],
     lastWarningCode = [], lastErrorCode = []\<rparr>"

definition repeatedEventLogIntervalMillis :: int where
  "repeatedEventLogIntervalMillis = 1000"

definition setConnectionState :: "bool \<Rightarrow> EventState \<Rightarrow> EventState" where
  "setConnectionState connected s = s\<lparr>controllerConnected := connected\<rparr>"

definition hasConnection :: "EventState \<Rightarrow> bool" where
  "hasConnection s = controllerConnected s"

definition setRecentEventHoldTime :: "int \<Rightarrow> EventState \<Rightarrow> EventState" where
  "setRecentEventHoldTime holdTime s = s\<lparr>recentEventHoldMillis := max 0 holdTime\<rparr>"

definition getRecentEventHoldTime :: "EventState \<Rightarrow> int" where
  "getRecentEventHoldTime s = max 0 (recentEventHoldMillis s)"

text \<open>The result says whether the event was logged; \<open>t\<close> is the clock reading.\<close>

definition recordRecentEvent ::
    "ControllerEventSeverity \<Rightarrow> string \<Rightarrow> time_point \<Rightarrow> EventState \<Rightarrow> bool \<times> EventState" where
  "recordRecentEvent severity code t s =
     (if code = [] \<or> severity = SevNone then (False, s)
      else let n = (case map_of (errorCounts s) code of Some k \<Rightarrow> k + 1 | None \<Rightarrow> 1);
               s1 = s\<lparr>errorCounts := AList.update code n (errorCounts s)\<rparr>;
               s2 = (if severity = SevError then s1\<lparr>lastErrorCode := code\<rparr> else s1\<lparr>lastWarningCode := code\<rparr>);
               inserted = (map_of (lastLoggedEventTicks s) code = None);
               tick = (case map_of (lastLoggedEventTicks s) code of Some k \<Rightarrow> k | None \<Rightarrow> 0);
               logIntervalElapsed = (tick = 0 \<or> repeatedEventLogIntervalMillis * 1000000 \<le> t - tick);
               shouldLog = (inserted \<or> n = 1 \<or> logIntervalElapsed);
               s3 = s2\<lparr>lastLoggedEventTicks := AList.update code (if shouldLog then t else tick) (lastLoggedEventTicks s)\<rparr>;
               s4 = (if severity = SevError then s3\<lparr>lastErrorTick := t\<rparr> else s3\<lparr>lastWarningTick := t\<rparr>)
           in (shouldLog, s4))"

definition recordIntermittentError :: "string \<Rightarrow> time_point \<Rightarrow> EventState \<Rightarrow> EventState" where
  "recordIntermittentError errorType t s = snd (recordRecentEvent SevWarning errorType t s)"

definition recordConnectionError :: "string \<Rightarrow> time_point \<Rightarrow> EventState \<Rightarrow> EventState" where
  "recordConnectionError errorType t s = setConnectionState False (snd (recordRecentEvent SevError errorType t s))"

definition recentEventSeverityNow :: "time_point \<Rightarrow> EventState \<Rightarrow> ControllerEventSeverity" where
  "recentEventSeverityNow t s =
     (let holdTime = getRecentEventHoldTime s
      in if holdTime \<le> 0 then SevNone
      else if lastWarningTick s = 0 \<and> lastErrorTick s = 0 then SevNone
      else let latestTick = max (lastWarningTick s) (lastErrorTick s);
               eventAge = t - latestTick
           in if eventAge < 0 \<or> holdTime * 1000000 < eventAge then SevNone
              else if latestTick = lastErrorTick s then SevError else SevWarning)"

definition getStatus :: "time_point \<Rightarrow> EventState \<Rightarrow> ControllerStatus" where
  "getStatus t s =
     (if \<not> controllerConnected s then StatusError
      else case recentEventSeverityNow t s of SevError \<Rightarrow> StatusError | SevWarning \<Rightarrow> Issues | SevNone \<Rightarrow> Good)"

record ControllerRecentEvent =
  ev_severity :: ControllerEventSeverity
  ev_code :: string
  ev_label :: string
  ev_age :: int
  ev_holdTime :: int

definition getRecentEvent :: "time_point \<Rightarrow> EventState \<Rightarrow> ControllerRecentEvent option" where
  "getRecentEvent t s =
     (let severity = recentEventSeverityNow t s
      in if severity = SevNone then None
      else let eventTick = (if severity = SevError then lastErrorTick s else lastWarningTick s);
               d = t - eventTick;
               age = (if d < 0 then - ((- d) div 1000000) else d div 1000000);
               code = (if severity = SevError then lastErrorCode s else lastWarningCode s)
           in Some \<lparr>ev_severity = severity, ev_code = code, ev_label = labelFor code,
                    ev_age = (if age < 0 then 0 else age), ev_holdTime = getRecentEventHoldTime s\<rparr>)"

definition clearErrors :: "EventState \<Rightarrow> EventState" where
  "clearErrors s = s\<lparr>lastWarningTick := 0, lastErrorTick := 0, errorCounts := [], lastLoggedEventTicks := [],
     lastWarningCode := [], lastErrorCode := []\<rparr>"

subsection \<open>The error report\<close>

datatype ControllerErrorInfo = ErrorInfo (err_code: string) (err_label: string) (err_count: u64)

text \<open>The report's order: by count, the largest first, then by code.\<close>

instantiation ControllerErrorInfo :: linorder
begin

definition less_ControllerErrorInfo :: "ControllerErrorInfo \<Rightarrow> ControllerErrorInfo \<Rightarrow> bool" where
  "less_ControllerErrorInfo a b =
     (if err_count a \<noteq> err_count b then err_count b < err_count a
      else if err_code a \<noteq> err_code b then err_code a < err_code b
      else err_label a < err_label b)"

definition less_eq_ControllerErrorInfo :: "ControllerErrorInfo \<Rightarrow> ControllerErrorInfo \<Rightarrow> bool" where
  "less_eq_ControllerErrorInfo a b = (a < b \<or> a = b)"

instance
proof
  fix a b c :: ControllerErrorInfo
  show "(a < b) = (a \<le> b \<and> \<not> b \<le> a)"
    by (cases a; cases b) (auto simp: less_eq_ControllerErrorInfo_def less_ControllerErrorInfo_def split: if_splits)
  show "a \<le> a" by (simp add: less_eq_ControllerErrorInfo_def)
  show "a \<le> b \<Longrightarrow> b \<le> c \<Longrightarrow> a \<le> c"
    by (cases a; cases b; cases c) (auto simp: less_eq_ControllerErrorInfo_def less_ControllerErrorInfo_def split: if_splits)
  show "a \<le> b \<Longrightarrow> b \<le> a \<Longrightarrow> a = b"
    by (cases a; cases b) (auto simp: less_eq_ControllerErrorInfo_def less_ControllerErrorInfo_def split: if_splits)
  show "a \<le> b \<or> b \<le> a"
    by (cases a; cases b) (auto simp: less_eq_ControllerErrorInfo_def less_ControllerErrorInfo_def split: if_splits)
qed

end

definition getErrors :: "EventState \<Rightarrow> ControllerErrorInfo list" where
  "getErrors s = sort (map (\<lambda>(code, n). ErrorInfo code (labelFor code) n) (errorCounts s))"

subsection \<open>Facts about one record\<close>

lemma recordRecentEvent_ignored: "code = [] \<or> severity = SevNone \<Longrightarrow> recordRecentEvent severity code t s = (False, s)"
  by (simp add: recordRecentEvent_def)

lemma recordRecentEvent_fields:
  assumes "code \<noteq> []" "severity \<noteq> SevNone"
  shows "recentEventHoldMillis (snd (recordRecentEvent severity code t s)) = recentEventHoldMillis s"
    and "controllerConnected (snd (recordRecentEvent severity code t s)) = controllerConnected s"
    and "lastErrorTick (snd (recordRecentEvent severity code t s)) = (if severity = SevError then t else lastErrorTick s)"
    and "lastErrorCode (snd (recordRecentEvent severity code t s)) = (if severity = SevError then code else lastErrorCode s)"
    and "lastWarningTick (snd (recordRecentEvent severity code t s)) = (if severity = SevError then lastWarningTick s else t)"
    and "lastWarningCode (snd (recordRecentEvent severity code t s)) = (if severity = SevError then lastWarningCode s else code)"
    and "errorCounts (snd (recordRecentEvent severity code t s)) =
      AList.update code (case map_of (errorCounts s) code of Some k \<Rightarrow> k + 1 | None \<Rightarrow> 1) (errorCounts s)"
  using assms by (simp_all add: recordRecentEvent_def Let_def)

lemma map_of_update: "map_of (AList.update k v al) k' = (if k' = k then Some v else map_of al k')"
  by (simp add: update_conv')

lemma recordRecentEvent_tick:
  assumes "code \<noteq> []" "severity \<noteq> SevNone" and "recordRecentEvent severity code t s = (logged, s')"
  shows "map_of (lastLoggedEventTicks s') c =
    (if c = code then Some (if logged then t else the (map_of (lastLoggedEventTicks s) code)) else map_of (lastLoggedEventTicks s) c)"
  using assms by (auto simp: recordRecentEvent_def Let_def map_of_update split: option.splits if_splits)

lemma recordRecentEvent_logged:
  assumes "code \<noteq> []" "severity \<noteq> SevNone"
  shows "fst (recordRecentEvent severity code t s) \<longleftrightarrow>
    (case map_of (lastLoggedEventTicks s) code of None \<Rightarrow> True
     | Some tick \<Rightarrow> (case map_of (errorCounts s) code of Some k \<Rightarrow> k + 1 | None \<Rightarrow> 1) = 1 \<or> tick = 0 \<or> 1000000000 \<le> t - tick)"
  using assms by (auto simp: recordRecentEvent_def Let_def repeatedEventLogIntervalMillis_def split: option.splits)

subsection \<open>Properties\<close>



text \<open>A run of recorded events; the result lists the events that were logged, in order.\<close>

fun recordEvents :: "(ControllerEventSeverity \<times> string \<times> time_point) list \<Rightarrow> EventState \<Rightarrow> (string \<times> time_point) list \<times> EventState" where
  "recordEvents [] s = ([], s)"
| "recordEvents ((severity, code, t) # evs) s =
     (let (logged, s1) = recordRecentEvent severity code t s; (ls, s2) = recordEvents evs s1
      in (if logged then (code, t) # ls else ls, s2))"

definition counted_codes :: "(ControllerEventSeverity \<times> string \<times> time_point) list \<Rightarrow> string list" where
  "counted_codes evs = map (fst \<circ> snd) (filter (\<lambda>(severity, code, t). code \<noteq> [] \<and> severity \<noteq> SevNone) evs)"

lemma recordEvents_counts:
  "distinct (map fst (errorCounts s)) \<Longrightarrow>
   distinct (map fst (errorCounts (snd (recordEvents evs s)))) \<and>
   (\<forall>c. map_of (errorCounts (snd (recordEvents evs s))) c =
     (if c \<in> set (counted_codes evs) \<or> map_of (errorCounts s) c \<noteq> None
      then Some ((case map_of (errorCounts s) c of Some k \<Rightarrow> k | None \<Rightarrow> 0) + of_nat (count_list (counted_codes evs) c)) else None))"
proof (induction evs arbitrary: s)
  case Nil
  then show ?case by (auto simp: counted_codes_def split: option.splits)
next
  case (Cons ev evs)
  obtain severity code t where ev: "ev = (severity, code, t)" by (cases ev)
  obtain logged s1 where r: "recordRecentEvent severity code t s = (logged, s1)" by fastforce
  show ?case
  proof (cases "code = [] \<or> severity = SevNone")
    case True
    then have "s1 = s" using r recordRecentEvent_ignored by auto
    then have "snd (recordEvents (ev # evs) s) = snd (recordEvents evs s)" by (simp add: ev r split: prod.splits)
    moreover have "counted_codes (ev # evs) = counted_codes evs" using True by (auto simp: counted_codes_def ev)
    ultimately show ?thesis using Cons.IH [OF Cons.prems] by simp
  next
    case False
    then have ec: "errorCounts s1 = AList.update code (case map_of (errorCounts s) code of Some k \<Rightarrow> k + 1 | None \<Rightarrow> 1) (errorCounts s)"
      using r recordRecentEvent_fields(7) [of code severity t s] by simp
    then have d1: "distinct (map fst (errorCounts s1))" using Cons.prems by (simp add: distinct_update)
    have cc: "counted_codes (ev # evs) = code # counted_codes evs" using False by (simp add: counted_codes_def ev)
    have sn: "snd (recordEvents (ev # evs) s) = snd (recordEvents evs s1)" by (simp add: ev r split: prod.splits)
    show ?thesis
      unfolding sn cc using Cons.IH [OF d1]
      by (auto simp: ec map_of_update split: option.splits)
  qed
qed

text \<open>
  C35. The error report is complete, exact and ordered. After any run of events recorded since
  the last clear, \<open>getErrors\<close> lists each counted code once, with its label and the number of
  times it was recorded (modulo the 64-bit counter), the most frequent first and ties by code.
\<close>

theorem error_report_exact:
  "sorted (getErrors (snd (recordEvents evs (clearErrors s)))) \<and>
   distinct (map err_code (getErrors (snd (recordEvents evs (clearErrors s))))) \<and>
   set (getErrors (snd (recordEvents evs (clearErrors s)))) =
     (\<lambda>c. ErrorInfo c (labelFor c) (of_nat (count_list (counted_codes evs) c))) ` set (counted_codes evs)"
proof -
  define cs where "cs = counted_codes evs"
  define report where "report = getErrors (snd (recordEvents evs (clearErrors s)))"
  let ?s = "snd (recordEvents evs (clearErrors s))"
  have "distinct (map fst (errorCounts (clearErrors s)))" by (simp add: clearErrors_def)
  from recordEvents_counts [OF this, of evs]
  have d: "distinct (map fst (errorCounts ?s))"
    and m: "\<And>c. map_of (errorCounts ?s) c = (if c \<in> set cs then Some (of_nat (count_list cs c)) else None)"
    by (simp_all add: clearErrors_def cs_def)
  have "set (errorCounts ?s) = (\<lambda>c. (c, of_nat (count_list cs c))) ` set cs" (is "_ = ?R")
  proof (rule set_eqI)
    fix e :: "string \<times> u64"
    obtain c k where e: "e = (c, k)" by (cases e)
    have "e \<in> set (errorCounts ?s) \<longleftrightarrow> map_of (errorCounts ?s) c = Some k" using d by (simp add: e)
    then show "e \<in> set (errorCounts ?s) \<longleftrightarrow> e \<in> ?R" by (auto simp: m e)
  qed
  then have "set report = (\<lambda>c. ErrorInfo c (labelFor c) (of_nat (count_list cs c))) ` set cs"
    by (simp add: report_def getErrors_def image_image)
  moreover have "distinct (map err_code report)"
  proof -
    have "map err_code (map (\<lambda>(code, n). ErrorInfo code (labelFor code) n) (errorCounts ?s)) = map fst (errorCounts ?s)" by auto
    then have "distinct (map err_code (map (\<lambda>(code, n). ErrorInfo code (labelFor code) n) (errorCounts ?s)))" using d by (simp only:)
    moreover have "mset (map err_code report) = mset (map err_code (map (\<lambda>(code, n). ErrorInfo code (labelFor code) n) (errorCounts ?s)))"
      by (simp only: report_def getErrors_def mset_map mset_sort)
    ultimately show ?thesis by (metis mset_eq_imp_distinct_iff)
  qed
  moreover have "sorted report" by (simp add: report_def getErrors_def)
  ultimately show ?thesis unfolding report_def cs_def by blast
qed

text \<open>Between two logs of one code a second passes.\<close>

definition spaced :: "string \<times> time_point \<Rightarrow> string \<times> time_point \<Rightarrow> bool" where
  "spaced a b \<longleftrightarrow> (fst a = fst b \<longrightarrow> 1000000000 \<le> snd b - snd a)"

definition log_inv :: "nat \<Rightarrow> EventState \<Rightarrow> bool" where
  "log_inv n s \<longleftrightarrow> (\<forall>c. map_of (errorCounts s) c = None \<longleftrightarrow> map_of (lastLoggedEventTicks s) c = None) \<and>
     (\<forall>c k. map_of (errorCounts s) c = Some k \<longrightarrow> 1 \<le> unat k \<and> unat k \<le> n) \<and>
     (\<forall>c t. map_of (lastLoggedEventTicks s) c = Some t \<longrightarrow> 0 < t)"

lemma unat_Suc_u64: "unat (k :: u64) \<le> n \<Longrightarrow> n + 1 < 2 ^ 64 \<Longrightarrow> unat (k + 1) = unat k + 1"
  by (subst unat_add_lem [THEN iffD1]) simp_all

lemma log_inv_record:
  assumes inv: "log_inv n s" and n: "n + 1 < 2 ^ 64" and t: "0 < t"
    and r: "recordRecentEvent severity code t s = (logged, s1)"
  shows "log_inv (n + 1) s1"
proof (cases "code = [] \<or> severity = SevNone")
  case True
  then have "s1 = s" using r recordRecentEvent_ignored by auto
  with inv show ?thesis unfolding log_inv_def by (meson le_add1 order_trans)
next
  case False
  then have a: "code \<noteq> []" "severity \<noteq> SevNone" by auto
  have ec: "map_of (errorCounts s1) c = (if c = code then Some (case map_of (errorCounts s) code of Some k \<Rightarrow> k + 1 | None \<Rightarrow> 1)
      else map_of (errorCounts s) c)" for c
    using r recordRecentEvent_fields(7) [OF a, of t s] by (simp add: map_of_update)
  note tk = recordRecentEvent_tick [OF a r]
  have lg: "\<not> logged \<Longrightarrow> map_of (lastLoggedEventTicks s) code \<noteq> None"
    using recordRecentEvent_logged [OF a, of t s] r by (auto split: option.splits)
  show ?thesis unfolding log_inv_def
  proof (intro conjI allI impI)
    fix c
    show "(map_of (errorCounts s1) c = None) = (map_of (lastLoggedEventTicks s1) c = None)"
      using inv by (simp add: ec tk log_inv_def)
  next
    fix c k
    assume "map_of (errorCounts s1) c = Some k"
    then have "1 \<le> unat k \<and> unat k \<le> n + 1"
      using inv n unat_Suc_u64 [of _ n] by (fastforce simp: ec log_inv_def split: if_splits option.splits)
    then show "1 \<le> unat k" "unat k \<le> n + 1" by auto
  next
    fix c t'
    assume "map_of (lastLoggedEventTicks s1) c = Some t'"
    then show "0 < t'" using inv t lg by (auto simp: tk log_inv_def split: if_splits)
  qed
qed

lemma logged_spaced:
  assumes inv: "log_inv n s" and n: "n + 1 < 2 ^ 64" and a: "code \<noteq> []" "severity \<noteq> SevNone"
    and r: "recordRecentEvent severity code t s = (True, s1)" and tick: "map_of (lastLoggedEventTicks s) code = Some tick"
  shows "1000000000 \<le> t - tick"
proof -
  obtain k where k: "map_of (errorCounts s) code = Some k" using inv tick by (fastforce simp: log_inv_def)
  then have u: "1 \<le> unat k" "unat k \<le> n" using inv by (auto simp: log_inv_def)
  have "unat (k + 1) = unat k + 1" using u(2) n by (rule unat_Suc_u64)
  then have "k + 1 \<noteq> 1" using u(1) by auto
  moreover have "tick \<noteq> 0" using inv tick by (fastforce simp: log_inv_def)
  ultimately show ?thesis using recordRecentEvent_logged [OF a, of t s] r tick k by simp
qed

lemma recordEvents_spaced:
  "log_inv n s \<Longrightarrow> n + length evs < 2 ^ 64 \<Longrightarrow> \<forall>(severity, code, t) \<in> set evs. 0 < t \<Longrightarrow>
   sorted_wrt spaced (fst (recordEvents evs s)) \<and>
   (\<forall>(c, t) \<in> set (fst (recordEvents evs s)). \<forall>tick. map_of (lastLoggedEventTicks s) c = Some tick \<longrightarrow> 1000000000 \<le> t - tick)"
proof (induction evs arbitrary: n s)
  case Nil
  then show ?case by simp
next
  case (Cons ev evs)
  obtain severity code t where ev: "ev = (severity, code, t)" by (cases ev)
  obtain logged s1 where r: "recordRecentEvent severity code t s = (logged, s1)" by fastforce
  have t: "0 < t" using Cons.prems(3) ev by auto
  have inv1: "log_inv (n + 1) s1" using Cons.prems(1,2) by (intro log_inv_record [OF _ _ t r]) auto
  have IH: "sorted_wrt spaced (fst (recordEvents evs s1))"
    "\<And>c t tick. (c, t) \<in> set (fst (recordEvents evs s1)) \<Longrightarrow> map_of (lastLoggedEventTicks s1) c = Some tick \<Longrightarrow> 1000000000 \<le> t - tick"
    using Cons.IH [OF inv1] Cons.prems(2,3) by auto
  have fs: "fst (recordEvents (ev # evs) s) = (if logged then [(code, t)] else []) @ fst (recordEvents evs s1)"
    by (simp add: ev r split: prod.splits)
  show ?case
  proof (cases "code = [] \<or> severity = SevNone")
    case True
    then have "s1 = s" "\<not> logged" using r recordRecentEvent_ignored by auto
    then show ?thesis unfolding fs using IH by auto
  next
    case False
    then have a: "code \<noteq> []" "severity \<noteq> SevNone" by auto
    note tk = recordRecentEvent_tick [OF a r]
    have sp: "1000000000 \<le> t - tick" if "logged" "map_of (lastLoggedEventTicks s) code = Some tick" for tick
      using logged_spaced [OF Cons.prems(1) _ a] that r Cons.prems(2) by auto
    have "1000000000 \<le> t' - tick" if m: "(c, t') \<in> set (fst (recordEvents evs s1))"
      and k: "map_of (lastLoggedEventTicks s) c = Some tick" for c t' tick
    proof (cases "c = code \<and> logged")
      case True
      then have "1000000000 \<le> t' - t" using IH(2) [OF m] tk [of c] by simp
      then show ?thesis using sp True k by fastforce
    next
      case False
      then show ?thesis using IH(2) [OF m] tk [of c] k by (auto split: if_splits)
    qed
    moreover have "spaced (code, t) (c, t')" if "(c, t') \<in> set (fst (recordEvents evs s1))" "logged" for c t'
      using IH(2) [OF that(1)] tk [of c] that(2) by (simp add: spaced_def)
    ultimately show ?thesis unfolding fs using IH(1) sp by auto
  qed
qed

text \<open>
  Repeated events are logged at most once a second. In any run of fewer than \<open>2 ^ 64\<close>
  events since the last clear (the clock reading positive), two log lines for the same code
  are at least 1000 ms apart, whatever other codes and severities come between.
\<close>

theorem logging_throttled:
  assumes "length evs < 2 ^ 64" and "\<forall>(severity, code, t) \<in> set evs. 0 < t"
  shows "sorted_wrt spaced (fst (recordEvents evs (clearErrors s)))"
  using recordEvents_spaced [of 0 "clearErrors s" evs] assms by (simp add: log_inv_def clearErrors_def)

theorem logging_throttled_witness:
  "sorted_wrt spaced (fst (recordEvents
     [(SevWarning, net_timeout, 5), (SevError, usb_timeout, 6), (SevWarning, net_timeout, 7)] (clearErrors events_init)))"
  by (rule logging_throttled) simp_all

end
