(* ===== verification/Point_Pipeline.thy ===== *)
theory Point_Pipeline
  imports Frame_Scheduler Buffer_Estimator
begin

text \<open>
  The post-generation pipeline of LaserControllerStreaming
  (src/core/LaserControllerStreaming.cpp): startup blanking, the arm gate with its shutdown
  hold, and the scanner-sync colour delay line; and the arming and scanner-sync setters that
  reset them. A batch is processed in two atomic sections, the blanking and, under the delay
  line's mutex, the colour shift; \<open>postProcessOutputPoints\<close> is their composition.
  \<open>None\<close> is an unspecified \<open>llround\<close>.
\<close>

subsection \<open>State\<close>

record PipelineState =
  armed :: bool
  pointRate :: u32
  scannerSyncTime :: fp
  scannerSyncEnabled :: bool
  scannerSyncPostProcessSuppressed :: bool
  scannerSyncColourDelayLine :: "LaserPoint list"
  startupBlankPointsRemaining :: int
  shutdownBlankPointsRemaining :: int
  lastContentX :: fp
  lastContentY :: fp

definition pipeline_init :: PipelineState where
  "pipeline_init = \<lparr>armed = False, pointRate = 30000, scannerSyncTime = Fin 2, scannerSyncEnabled = True,
     scannerSyncPostProcessSuppressed = False, scannerSyncColourDelayLine = [],
     startupBlankPointsRemaining = 0, shutdownBlankPointsRemaining = 0, lastContentX = Fin 0, lastContentY = Fin 0\<rparr>"

definition pointsToMillis :: "nat \<Rightarrow> u32 \<Rightarrow> fp" where
  "pointsToMillis pointCount rate =
     (if rate = 0 \<or> pointCount = 0 then Fin 0
      else let millis = fdiv F64 (fmul F64 (of_num F64 (int pointCount)) (Fin 1000)) (of_num F64 (uint rate))
           in fmax millis (Fin 0))"

definition millisToPoints :: "u32 \<Rightarrow> fp \<Rightarrow> int option" where
  "millisToPoints rate millis =
     (if rate = 0 \<or> fle millis (Fin 0) then Some 0
      else let seconds = fdiv F64 millis (Fin 1000);
               rawPoints = fmul F64 seconds (of_num F64 (uint rate))
           in do {
             rounded \<leftarrow> llround rawPoints;
             if rounded \<le> 0 then Some 0 else Some (min rounded int_max32) })"

definition sync_millis :: "fp \<Rightarrow> fp" where
  "sync_millis syncTenThousandths = fmul F64 (fmax syncTenThousandths (Fin 0)) (rnd F64 (1 / 10))"

subsection \<open>Blanking\<close>

definition unlight :: "LaserPoint \<Rightarrow> LaserPoint" where
  "unlight p = p\<lparr>pt_r := Fin 0, pt_g := Fin 0, pt_b := Fin 0\<rparr>"

fun startupBlankLoop :: "int \<Rightarrow> LaserPoint list \<Rightarrow> LaserPoint list \<times> int" where
  "startupBlankLoop remaining [] = ([], remaining)"
| "startupBlankLoop remaining (p # ps) =
     (if remaining \<le> 0 then (p # ps, remaining)
      else let (qs, r) = startupBlankLoop (remaining - 1) ps in (unlight p # qs, r))"

definition applyStartupBlankToOutputPoints :: "LaserPoint list \<Rightarrow> PipelineState \<Rightarrow> LaserPoint list \<times> PipelineState" where
  "applyStartupBlankToOutputPoints points s =
     (if 0 < startupBlankPointsRemaining s
      then let (qs, r) = startupBlankLoop (startupBlankPointsRemaining s) points
           in (qs, s\<lparr>startupBlankPointsRemaining := r\<rparr>)
      else (points, s))"

text \<open>The loop of the disarmed branch: dark, held at the last content position while the
  shutdown count lasts, then at the centre.\<close>

fun shutdownLoop :: "fp \<Rightarrow> fp \<Rightarrow> int \<Rightarrow> LaserPoint list \<Rightarrow> LaserPoint list \<times> int" where
  "shutdownLoop cx cy remaining [] = ([], remaining)"
| "shutdownLoop cx cy remaining (p # ps) =
     (if 0 < remaining
      then let (qs, r) = shutdownLoop cx cy (remaining - 1) ps in ((unlight p)\<lparr>pt_x := cx, pt_y := cy\<rparr> # qs, r)
      else let (qs, r) = shutdownLoop cx cy remaining ps in ((unlight p)\<lparr>pt_x := Fin 0, pt_y := Fin 0\<rparr> # qs, r))"

definition blankingSection :: "LaserPoint list \<Rightarrow> PipelineState \<Rightarrow> LaserPoint list \<times> PipelineState" where
  "blankingSection points0 s0 =
     (let (points, s) = applyStartupBlankToOutputPoints points0 s0
      in if \<not> armed s
         then let (qs, r) = shutdownLoop (lastContentX s) (lastContentY s) (shutdownBlankPointsRemaining s) points
              in (qs, s\<lparr>shutdownBlankPointsRemaining := max r 0\<rparr>)
         else if points \<noteq> []
         then (points, s\<lparr>lastContentX := pt_x (last points), lastContentY := pt_y (last points)\<rparr>)
         else (points, s))"

subsection \<open>The colour delay line\<close>

definition resizeLine :: "nat \<Rightarrow> LaserPoint list \<Rightarrow> LaserPoint list" where
  "resizeLine n line = take n line @ replicate (n - length line) default_point"

definition with_colour_of :: "LaserPoint \<Rightarrow> LaserPoint \<Rightarrow> LaserPoint" where
  "with_colour_of c p = p\<lparr>pt_r := pt_r c, pt_g := pt_g c, pt_b := pt_b c\<rparr>"

fun colourShiftLoop :: "LaserPoint list \<Rightarrow> LaserPoint list \<Rightarrow> LaserPoint list \<times> LaserPoint list" where
  "colourShiftLoop line [] = ([], line)"
| "colourShiftLoop line (p # ps) =
     (let fed = line @ [p]; colourPoint = hd fed; (qs, rest) = colourShiftLoop (tl fed) ps
      in (with_colour_of colourPoint p # qs, rest))"

definition scannerSyncSection :: "LaserPoint list \<Rightarrow> PipelineState \<Rightarrow> (LaserPoint list \<times> PipelineState) option" where
  "scannerSyncSection points s =
     (if scannerSyncPostProcessSuppressed s \<or> \<not> scannerSyncEnabled s
      then Some (points, s\<lparr>scannerSyncColourDelayLine := []\<rparr>)
      else do {
        n \<leftarrow> millisToPoints (pointRate s) (sync_millis (scannerSyncTime s));
        let shiftPointCount = nat n;
        let line = resizeLine shiftPointCount (scannerSyncColourDelayLine s);
        if 0 < shiftPointCount
        then (let (qs, line') = colourShiftLoop line points
              in Some (qs, s\<lparr>scannerSyncColourDelayLine := line'\<rparr>))
        else Some (points, s\<lparr>scannerSyncColourDelayLine := line\<rparr>) })"

definition postProcessOutputPoints :: "LaserPoint list \<Rightarrow> PipelineState \<Rightarrow> (LaserPoint list \<times> PipelineState) option" where
  "postProcessOutputPoints points s =
     (let (ps, s1) = blankingSection points s in scannerSyncSection ps s1)"

subsection \<open>Setters\<close>

definition resetStartupBlank :: "PipelineState \<Rightarrow> PipelineState option" where
  "resetStartupBlank s = do {
     blankPoints \<leftarrow> millisToPoints (pointRate s) (Fin 1);
     Some (s\<lparr>startupBlankPointsRemaining := blankPoints, scannerSyncColourDelayLine := []\<rparr>) }"

text \<open>The sum of the two counts is an \<open>int\<close> addition; on overflow it is undefined.\<close>

definition resetShutdownBlank :: "PipelineState \<Rightarrow> PipelineState option" where
  "resetShutdownBlank s = do {
     syncPoints \<leftarrow> millisToPoints (pointRate s)
       (fmul F64 (if scannerSyncEnabled s then fmax (scannerSyncTime s) (Fin 0) else Fin 0) (rnd F64 (1 / 10)));
     dwellPoints \<leftarrow> millisToPoints (pointRate s) (Fin 1);
     if syncPoints + dwellPoints \<le> int_max32
     then Some (s\<lparr>shutdownBlankPointsRemaining := syncPoints + dwellPoints, scannerSyncColourDelayLine := []\<rparr>)
     else None }"

definition setArmed :: "bool \<Rightarrow> PipelineState \<Rightarrow> PipelineState option" where
  "setArmed state s =
     (let wasArmed = armed s; s1 = s\<lparr>armed := state\<rparr>
      in if state \<and> \<not> wasArmed then resetStartupBlank s1
         else if \<not> state \<and> wasArmed then resetShutdownBlank s1
         else Some s1)"

definition setPointRate :: "u32 \<Rightarrow> PipelineState \<Rightarrow> PipelineState" where
  "setPointRate rate s = s\<lparr>pointRate := rate\<rparr>"

definition setScannerSync :: "fp \<Rightarrow> PipelineState \<Rightarrow> PipelineState" where
  "setScannerSync offsetTenThousandths s = s\<lparr>scannerSyncTime := fmax offsetTenThousandths (Fin 0)\<rparr>"

definition setScannerSyncEnabled :: "bool \<Rightarrow> PipelineState \<Rightarrow> PipelineState" where
  "setScannerSyncEnabled enabled s =
     (let wasEnabled = scannerSyncEnabled s; s1 = s\<lparr>scannerSyncEnabled := enabled\<rparr>
      in if wasEnabled \<noteq> enabled then s1\<lparr>scannerSyncColourDelayLine := []\<rparr> else s1)"

definition setScannerSyncPostProcessSuppressed :: "bool \<Rightarrow> PipelineState \<Rightarrow> PipelineState" where
  "setScannerSyncPostProcessSuppressed suppressed s =
     (let wasSuppressed = scannerSyncPostProcessSuppressed s; s1 = s\<lparr>scannerSyncPostProcessSuppressed := suppressed\<rparr>
      in if wasSuppressed \<noteq> suppressed then s1\<lparr>scannerSyncColourDelayLine := []\<rparr> else s1)"

subsection \<open>The pipeline as a transition system\<close>

datatype pipeline_action =
    SetArmed bool | SetPointRate u32 | SetScannerSync fp | SetScannerSyncEnabled bool
  | SetSuppressed bool | ApplyStartupBlank "LaserPoint list" | Process "LaserPoint list"

inductive pipeline_step :: "PipelineState \<Rightarrow> pipeline_action \<Rightarrow> LaserPoint list \<Rightarrow> PipelineState \<Rightarrow> bool" where
  arm: "setArmed b s = Some s' \<Longrightarrow> pipeline_step s (SetArmed b) [] s'"
| rate: "pipeline_step s (SetPointRate r) [] (setPointRate r s)"
| sync: "pipeline_step s (SetScannerSync v) [] (setScannerSync v s)"
| enable: "pipeline_step s (SetScannerSyncEnabled b) [] (setScannerSyncEnabled b s)"
| suppress: "pipeline_step s (SetSuppressed b) [] (setScannerSyncPostProcessSuppressed b s)"
| startup: "applyStartupBlankToOutputPoints ps s = (out, s') \<Longrightarrow> pipeline_step s (ApplyStartupBlank ps) out s'"
| process: "postProcessOutputPoints ps s = Some (out, s') \<Longrightarrow> pipeline_step s (Process ps) out s'"

inductive_cases pipeline_stepE: "pipeline_step s a out s'"

inductive_simps pipeline_step_process: "pipeline_step s (Process ps) out s'"

inductive pipeline_reachable :: "PipelineState \<Rightarrow> bool" where
  init: "pipeline_reachable pipeline_init"
| step: "pipeline_reachable s \<Longrightarrow> pipeline_step s a out s' \<Longrightarrow> pipeline_reachable s'"

subsection \<open>The sections, in closed form\<close>

lemma unlit_unlight [simp]: "unlit (unlight p)"
  by (simp add: unlit_def unlight_def)

lemma unlit_default [simp]: "unlit default_point"
  by (simp add: unlit_def default_point_def)

lemma unlit_with_colour [simp]: "unlit (with_colour_of c p) \<longleftrightarrow> unlit c"
  by (simp add: unlit_def with_colour_of_def)

lemma unlit_moved [simp]: "unlit (p\<lparr>pt_x := a, pt_y := b\<rparr>) \<longleftrightarrow> unlit p"
  by (simp add: unlit_def)

lemma unlight_pos [simp]: "pt_x (unlight p) = pt_x p" "pt_y (unlight p) = pt_y p"
  by (simp_all add: unlight_def)

lemma colour_pos [simp]: "pt_x (with_colour_of c p) = pt_x p" "pt_y (with_colour_of c p) = pt_y p"
  by (simp_all add: with_colour_of_def)

lemma startupBlankLoop_eq:
  "0 \<le> r \<Longrightarrow> startupBlankLoop r ps =
    (map unlight (take (nat r) ps) @ drop (nat r) ps, max 0 (r - int (length ps)))"
proof (induction r ps rule: startupBlankLoop.induct)
  case (2 r p ps)
  show ?case
  proof (cases "r \<le> 0")
    case False
    then have "nat r = Suc (nat (r - 1))" by simp
    then show ?thesis using 2 False by simp
  qed (use 2 in simp)
qed simp

lemma shutdownLoop_eq:
  "shutdownLoop cx cy r ps =
    (map (\<lambda>p. (unlight p)\<lparr>pt_x := cx, pt_y := cy\<rparr>) (take (nat r) ps) @
     map (\<lambda>p. (unlight p)\<lparr>pt_x := Fin 0, pt_y := Fin 0\<rparr>) (drop (nat r) ps),
     if 0 < r then max 0 (r - int (length ps)) else r)"
proof (induction cx cy r ps rule: shutdownLoop.induct)
  case (2 cx cy r p ps)
  show ?case
  proof (cases "0 < r")
    case True
    then have "nat r = Suc (nat (r - 1))" by simp
    then show ?thesis using 2 True by auto
  qed (use 2 in simp)
qed simp

lemma colourShiftLoop_eq:
  "colourShiftLoop line ps = (map2 with_colour_of (take (length ps) (line @ ps)) ps, drop (length ps) (line @ ps))"
proof (induction line ps rule: colourShiftLoop.induct)
  case (2 line p ps)
  then show ?case by (cases line) (simp_all add: Let_def)
qed simp

lemma resizeLine_same: "length line = n \<Longrightarrow> resizeLine n line = line"
  by (simp add: resizeLine_def)

lemma length_resizeLine [simp]: "length (resizeLine n line) = n"
  by (simp add: resizeLine_def)

lemma unlit_resizeLine: "\<forall>p \<in> set line. unlit p \<Longrightarrow> \<forall>p \<in> set (resizeLine n line). unlit p"
  by (auto simp: resizeLine_def dest: in_set_takeD)

text \<open>What \<open>scannerSyncSection\<close> does to a batch.\<close>

lemma scannerSyncSection_cases:
  assumes "scannerSyncSection ps s = Some (out, s')"
  shows "(out = ps \<and> s' = s\<lparr>scannerSyncColourDelayLine := []\<rparr>) \<or>
    (\<exists>n. out = map2 with_colour_of (take (length ps) (resizeLine n (scannerSyncColourDelayLine s) @ ps)) ps \<and>
         s' = s\<lparr>scannerSyncColourDelayLine := drop (length ps) (resizeLine n (scannerSyncColourDelayLine s) @ ps)\<rparr>)"
proof -
  show ?thesis
  proof (cases "scannerSyncPostProcessSuppressed s \<or> \<not> scannerSyncEnabled s")
    case True
    with assms show ?thesis by (simp add: scannerSyncSection_def)
  next
    case False
    with assms obtain n where n: "millisToPoints (pointRate s) (sync_millis (scannerSyncTime s)) = Some n"
      by (auto simp: scannerSyncSection_def bind_eq_Some_conv)
    show ?thesis
    proof (cases "0 < nat n")
      case True
      then have "out = map2 with_colour_of (take (length ps) (resizeLine (nat n) (scannerSyncColourDelayLine s) @ ps)) ps"
        "s' = s\<lparr>scannerSyncColourDelayLine := drop (length ps) (resizeLine (nat n) (scannerSyncColourDelayLine s) @ ps)\<rparr>"
        using assms False n by (simp_all add: scannerSyncSection_def Let_def colourShiftLoop_eq)
      then show ?thesis by blast
    next
      case nn: False
      then show ?thesis using assms False n by (simp add: scannerSyncSection_def Let_def resizeLine_def)
    qed
  qed
qed

lemma blankingSection_disarmed:
  assumes "blankingSection ps s = (out, s')" "\<not> armed s"
  shows "(\<forall>p \<in> set out. unlit p) \<and> length out = length ps \<and>
    scannerSyncColourDelayLine s' = scannerSyncColourDelayLine s \<and> armed s' = armed s \<and>
    (\<forall>i < length out. (pt_x (out ! i), pt_y (out ! i)) =
       (if int i < shutdownBlankPointsRemaining s then (lastContentX s, lastContentY s) else (Fin 0, Fin 0)))"
proof -
  obtain qs s1 where q: "applyStartupBlankToOutputPoints ps s = (qs, s1)" by fastforce
  then have f: "length qs = length ps" "scannerSyncColourDelayLine s1 = scannerSyncColourDelayLine s" "armed s1 = armed s"
    "shutdownBlankPointsRemaining s1 = shutdownBlankPointsRemaining s" "lastContentX s1 = lastContentX s" "lastContentY s1 = lastContentY s"
    by (auto simp: applyStartupBlankToOutputPoints_def startupBlankLoop_eq split: if_splits)
  let ?n = "nat (shutdownBlankPointsRemaining s)"
  have o: "out = map (\<lambda>p. (unlight p)\<lparr>pt_x := lastContentX s, pt_y := lastContentY s\<rparr>) (take ?n qs) @
      map (\<lambda>p. (unlight p)\<lparr>pt_x := Fin 0, pt_y := Fin 0\<rparr>) (drop ?n qs)"
    and s': "scannerSyncColourDelayLine s' = scannerSyncColourDelayLine s" "armed s' = armed s"
    using assms by (auto simp: blankingSection_def q f shutdownLoop_eq)
  have "(pt_x (out ! i), pt_y (out ! i)) =
       (if int i < shutdownBlankPointsRemaining s then (lastContentX s, lastContentY s) else (Fin 0, Fin 0))"
    if "i < length out" for i
    using that by (auto simp: o nth_append)
  moreover have "length out = length ps" using f(1) by (simp add: o)
  moreover have "\<forall>p \<in> set out. unlit p" by (auto simp: o)
  ultimately show ?thesis using s' by blast
qed

lemma set_zip_map2: "x \<in> set (map2 f xs ys) \<Longrightarrow> \<exists>a b. a \<in> set xs \<and> x = f a b"
  by (auto dest: set_zip_leftD)

lemma unlit_shift:
  assumes "scannerSyncSection ps s = Some (out, s')" "\<forall>p \<in> set ps. unlit p"
    "\<forall>p \<in> set (scannerSyncColourDelayLine s). unlit p"
  shows "(\<forall>p \<in> set out. unlit p) \<and> (\<forall>p \<in> set (scannerSyncColourDelayLine s'). unlit p)"
  using scannerSyncSection_cases [OF assms(1)] assms(2) unlit_resizeLine [OF assms(3)]
  by (fastforce dest: in_set_takeD in_set_dropD set_zip_leftD)

lemma scannerSyncSection_frame:
  "scannerSyncSection ps s = Some (out, s') \<Longrightarrow> armed s' = armed s \<and> length out = length ps \<and>
     map pt_x out = map pt_x ps \<and> map pt_y out = map pt_y ps \<and> pointRate s' = pointRate s \<and>
     startupBlankPointsRemaining s' = startupBlankPointsRemaining s"
  by (drule scannerSyncSection_cases) (auto simp: comp_def split_def map_snd_zip intro!: nth_equalityI)

subsection \<open>Invariant: a disarmed pipeline holds no light\<close>

definition pipeline_inv :: "PipelineState \<Rightarrow> bool" where
  "pipeline_inv s \<longleftrightarrow> (\<not> armed s \<longrightarrow> (\<forall>p \<in> set (scannerSyncColourDelayLine s). unlit p)) \<and>
     0 \<le> startupBlankPointsRemaining s \<and> 0 \<le> shutdownBlankPointsRemaining s"

lemma millisToPoints_nonneg: "millisToPoints rate ms = Some n \<Longrightarrow> 0 \<le> n \<and> n \<le> int_max32"
  by (auto simp: millisToPoints_def bind_eq_Some_conv Let_def int_max32_def split: if_splits)

lemma pipeline_inv_arm:
  assumes "setArmed b s = Some s'" and "pipeline_inv s"
  shows "pipeline_inv s'"
  using assms
  by (auto simp: setArmed_def resetStartupBlank_def resetShutdownBlank_def pipeline_inv_def bind_eq_Some_conv Let_def
      dest!: millisToPoints_nonneg split: if_splits)

lemma startup_frame:
  assumes "applyStartupBlankToOutputPoints ps s = (out, s')"
  shows "\<exists>r. s' = s\<lparr>startupBlankPointsRemaining := r\<rparr> \<and> (0 \<le> startupBlankPointsRemaining s \<longrightarrow> 0 \<le> r) \<and> length out = length ps"
  using assms
  by (cases "0 < startupBlankPointsRemaining s")
    (auto simp: applyStartupBlankToOutputPoints_def startupBlankLoop_eq intro: exI [of _ "startupBlankPointsRemaining s"])

lemma blanking_frame:
  assumes "blankingSection ps s = (out, s')"
  shows "scannerSyncColourDelayLine s' = scannerSyncColourDelayLine s \<and> armed s' = armed s \<and>
     (0 \<le> startupBlankPointsRemaining s \<longrightarrow> 0 \<le> startupBlankPointsRemaining s') \<and>
     (0 \<le> shutdownBlankPointsRemaining s \<longrightarrow> 0 \<le> shutdownBlankPointsRemaining s')"
proof -
  obtain qs s1 where q: "applyStartupBlankToOutputPoints ps s = (qs, s1)" by fastforce
  obtain r where "s1 = s\<lparr>startupBlankPointsRemaining := r\<rparr>" "0 \<le> startupBlankPointsRemaining s \<longrightarrow> 0 \<le> r"
    using startup_frame [OF q] by blast
  then show ?thesis using assms by (auto simp: blankingSection_def q split: if_splits prod.splits)
qed

lemma postProcess_disarmed:
  assumes "postProcessOutputPoints ps s = Some (out, s')" "\<not> armed s" "\<forall>p \<in> set (scannerSyncColourDelayLine s). unlit p"
  shows "(\<forall>p \<in> set out. unlit p) \<and> (\<forall>p \<in> set (scannerSyncColourDelayLine s'). unlit p)"
proof -
  obtain qs s1 where b: "blankingSection ps s = (qs, s1)" by fastforce
  then have "scannerSyncSection qs s1 = Some (out, s')" using assms(1) by (simp add: postProcessOutputPoints_def)
  moreover have "\<forall>p \<in> set qs. unlit p" "\<forall>p \<in> set (scannerSyncColourDelayLine s1). unlit p"
    using blankingSection_disarmed [OF b assms(2)] assms(3) by auto
  ultimately show ?thesis by (rule unlit_shift)
qed

lemma pipeline_inv_process:
  assumes "postProcessOutputPoints ps s = Some (out, s')" and "pipeline_inv s"
  shows "pipeline_inv s'"
proof -
  obtain qs s1 where b: "blankingSection ps s = (qs, s1)" by fastforce
  then have sh: "scannerSyncSection qs s1 = Some (out, s')" using assms(1) by (simp add: postProcessOutputPoints_def)
  have "armed s' = armed s" "0 \<le> startupBlankPointsRemaining s'" "0 \<le> shutdownBlankPointsRemaining s'"
    using scannerSyncSection_cases [OF sh] blanking_frame [OF b] assms(2) by (auto simp: pipeline_inv_def)
  then show ?thesis using postProcess_disarmed [OF assms(1)] assms(2) by (auto simp: pipeline_inv_def)
qed

lemma pipeline_inv_setters:
  assumes "pipeline_inv s"
  shows "pipeline_inv (setPointRate r s)" "pipeline_inv (setScannerSync v s)"
    "pipeline_inv (setScannerSyncEnabled b s)" "pipeline_inv (setScannerSyncPostProcessSuppressed b s)"
  using assms by (auto simp: setPointRate_def setScannerSync_def setScannerSyncEnabled_def
      setScannerSyncPostProcessSuppressed_def pipeline_inv_def Let_def)

lemma pipeline_inv_startup: "applyStartupBlankToOutputPoints ps s = (out, s') \<Longrightarrow> pipeline_inv s \<Longrightarrow> pipeline_inv s'"
  by (drule startup_frame) (auto simp: pipeline_inv_def)

lemmas pipeline_preserves = pipeline_inv_arm pipeline_inv_process pipeline_inv_setters pipeline_inv_startup

lemma pipeline_inv_step: "pipeline_step s a out s' \<Longrightarrow> pipeline_inv s \<Longrightarrow> pipeline_inv s'"
  by (erule pipeline_stepE) (auto intro: pipeline_preserves)

lemma pipeline_reachable_inv: "pipeline_reachable s \<Longrightarrow> pipeline_inv s"
proof (induction rule: pipeline_reachable.induct)
  case init
  show ?case by (simp add: pipeline_inv_def pipeline_init_def)
qed (rule pipeline_inv_step)

subsection \<open>Properties\<close>

text \<open>
  C2. A disarmed controller emits no light. In every state reached from start-up by any
  sequence of arming, disarming, rate and scanner-sync changes and processed batches, if the
  controller is disarmed then every point a batch produces has zero red, green and blue, the
  colours still in the delay line included; the first points hold the last content position
  for the shutdown count and the rest are at the centre.
\<close>

theorem disarmed_output_unlit:
  assumes "pipeline_reachable s" and "\<not> armed s" and "pipeline_step s (Process ps) out s'"
  shows "(\<forall>p \<in> set out. unlit p) \<and> length out = length ps \<and>
    (\<forall>i < length out. (pt_x (out ! i), pt_y (out ! i)) =
       (if int i < shutdownBlankPointsRemaining s then (lastContentX s, lastContentY s) else (Fin 0, Fin 0)))"
proof -
  have pp: "postProcessOutputPoints ps s = Some (out, s')" using assms(3) by (simp add: pipeline_step_process)
  obtain qs s1 where b: "blankingSection ps s = (qs, s1)" by fastforce
  then have sh: "scannerSyncSection qs s1 = Some (out, s')" using pp by (simp add: postProcessOutputPoints_def)
  note F = scannerSyncSection_frame [OF sh] and B = blankingSection_disarmed [OF b assms(2)]
  have "pt_x (out ! i) = pt_x (qs ! i) \<and> pt_y (out ! i) = pt_y (qs ! i)" if "i < length out" for i
    using F that by (metis length_map nth_map)
  moreover have "\<forall>p \<in> set out. unlit p"
    using postProcess_disarmed [OF pp assms(2)] pipeline_reachable_inv [OF assms(1)] assms(2) by (auto simp: pipeline_inv_def)
  ultimately show ?thesis using F B by auto
qed

theorem disarmed_output_unlit_witness:
  "postProcessOutputPoints [default_point\<lparr>pt_r := Fin 1\<rparr>] (setScannerSyncEnabled False pipeline_init) =
     Some ([unlight default_point], setScannerSyncEnabled False pipeline_init) \<and> unlit (unlight default_point)"
proof -
  let ?ps = "[default_point\<lparr>pt_r := Fin 1\<rparr>]"
  let ?s = "setScannerSyncEnabled False pipeline_init"
  have r: "pipeline_reachable ?s"
    by (rule pipeline_reachable.step [OF pipeline_reachable.init]) (rule pipeline_step.enable)
  have post: "postProcessOutputPoints ?ps ?s = Some ([unlight default_point], ?s)"
    by (simp add: setScannerSyncEnabled_def pipeline_init_def postProcessOutputPoints_def blankingSection_def
        applyStartupBlankToOutputPoints_def scannerSyncSection_def Let_def unlight_def default_point_def)
  then have st: "pipeline_step ?s (Process ?ps) [unlight default_point] ?s" by (rule pipeline_step.process)
  have "\<not> armed ?s" by (simp add: setScannerSyncEnabled_def pipeline_init_def)
  from disarmed_output_unlit [OF r this st] post show ?thesis by simp
qed

end
