(* ===== verification/Pipeline_Properties.thy ===== *)
theory Pipeline_Properties
  imports Point_Pipeline
begin

text \<open>
  The pipeline across batches and threads: cutting a batch is unobservable, the first
  millisecond after arming is dark, and a transition system of the two threads that touch the
  pipeline, with an interleaving of disarming and colour shifting that leaks light.
\<close>

subsection \<open>Splitting a batch\<close>

lemma map2_self_colour: "map2 with_colour_of ps ps = ps"
  by (induction ps) (simp_all add: with_colour_of_def)

lemma scannerSyncSection_eq:
  "scannerSyncSection ps s =
     (if scannerSyncPostProcessSuppressed s \<or> \<not> scannerSyncEnabled s
      then Some (ps, s\<lparr>scannerSyncColourDelayLine := []\<rparr>)
      else map_option (\<lambda>n. let fed = resizeLine (nat n) (scannerSyncColourDelayLine s) @ ps
             in (map2 with_colour_of (take (length ps) fed) ps, s\<lparr>scannerSyncColourDelayLine := drop (length ps) fed\<rparr>))
           (millisToPoints (pointRate s) (sync_millis (scannerSyncTime s))))"
proof (cases "millisToPoints (pointRate s) (sync_millis (scannerSyncTime s))")
  case (Some n)
  then show ?thesis
    by (cases "0 < nat n")
      (simp_all add: scannerSyncSection_def Let_def colourShiftLoop_eq resizeLine_def map2_self_colour)
qed (simp add: scannerSyncSection_def)

lemma scannerSyncSection_split:
  "scannerSyncSection (ps @ qs) s = do {
     (o1, s1) \<leftarrow> scannerSyncSection ps s;
     (o2, s2) \<leftarrow> scannerSyncSection qs s1;
     Some (o1 @ o2, s2) }"
proof (cases "scannerSyncPostProcessSuppressed s \<or> \<not> scannerSyncEnabled s")
  case True
  then show ?thesis by (simp add: scannerSyncSection_eq)
next
  case False
  show ?thesis
  proof (cases "millisToPoints (pointRate s) (sync_millis (scannerSyncTime s))")
    case None
    then show ?thesis using False by (simp add: scannerSyncSection_eq)
  next
    case (Some n)
    define fed where "fed = resizeLine (nat n) (scannerSyncColourDelayLine s) @ ps"
    have l: "length (drop (length ps) fed) = nat n" "length ps \<le> length fed" by (simp_all add: fed_def)
    then have r: "resizeLine (nat n) (drop (length ps) fed) = drop (length ps) fed" by (intro resizeLine_same)
    have t: "take (length ps + length qs) (fed @ qs) = take (length ps) fed @ take (length qs) (drop (length ps) fed @ qs)"
      using l(2) by (simp add: take_add add.commute)
    have d: "drop (length ps + length qs) (fed @ qs) = drop (length qs) (drop (length ps) fed @ qs)"
      using l(2) by (simp add: add.commute)
    have z: "map2 with_colour_of (take (length ps) fed @ xs) (ps @ qs) =
        map2 with_colour_of (take (length ps) fed) ps @ map2 with_colour_of xs qs" for xs
      using l(2) by simp
    have e1: "scannerSyncSection (ps @ qs) s = Some (map2 with_colour_of (take (length ps + length qs) (fed @ qs)) (ps @ qs),
        s\<lparr>scannerSyncColourDelayLine := drop (length ps + length qs) (fed @ qs)\<rparr>)"
      using False Some by (simp add: scannerSyncSection_eq Let_def fed_def del: take_append drop_append)
    have e2: "scannerSyncSection ps s = Some (map2 with_colour_of (take (length ps) fed) ps,
        s\<lparr>scannerSyncColourDelayLine := drop (length ps) fed\<rparr>)"
      using False Some by (simp add: scannerSyncSection_eq Let_def fed_def del: take_append drop_append)
    have e3: "scannerSyncSection qs (s\<lparr>scannerSyncColourDelayLine := drop (length ps) fed\<rparr>) =
        Some (map2 with_colour_of (take (length qs) (drop (length ps) fed @ qs)) qs,
          s\<lparr>scannerSyncColourDelayLine := drop (length qs) (drop (length ps) fed @ qs)\<rparr>)"
      using False Some by (simp add: scannerSyncSection_eq Let_def r del: take_append drop_append)
    show ?thesis unfolding e1 e2 bind.bind_lunit split_beta fst_conv snd_conv e3 t d z by simp
  qed
qed

definition countDown :: "int \<Rightarrow> nat \<Rightarrow> int" where
  "countDown r n = (if 0 < r then max 0 (r - int n) else r)"

lemma startup_eq:
  "applyStartupBlankToOutputPoints ps s =
     (map unlight (take (nat (startupBlankPointsRemaining s)) ps) @ drop (nat (startupBlankPointsRemaining s)) ps,
      s\<lparr>startupBlankPointsRemaining := countDown (startupBlankPointsRemaining s) (length ps)\<rparr>)"
  by (simp add: countDown_def applyStartupBlankToOutputPoints_def startupBlankLoop_eq)

definition darken_at :: "fp \<times> fp \<Rightarrow> LaserPoint \<Rightarrow> LaserPoint" where
  "darken_at xy p = (unlight p)\<lparr>pt_x := fst xy, pt_y := snd xy\<rparr>"

lemma darken_unlight [simp]: "darken_at xy (unlight p) = darken_at xy p"
  by (simp add: darken_at_def unlight_def)

lemma map_darken_startup:
  "map (darken_at xy) (map unlight (take k ps) @ drop k ps) = map (darken_at xy) ps"
proof -
  have "map (darken_at xy) (map unlight (take k ps) @ drop k ps) = map (darken_at xy) (take k ps @ drop k ps)"
    by (simp only: map_append map_map) (simp add: comp_def)
  then show ?thesis by (simp only: append_take_drop_id)
qed

lemma take_map_darken: "map (darken_at xy) (take n (map unlight (take k ps) @ drop k ps)) = map (darken_at xy) (take n ps)"
  "map (darken_at xy) (drop n (map unlight (take k ps) @ drop k ps)) = map (darken_at xy) (drop n ps)"
  using map_darken_startup [of xy k ps] by (metis take_map, metis drop_map)

lemma last_startup:
  "ps \<noteq> [] \<Longrightarrow> pt_x (last (map unlight (take k ps) @ drop k ps)) = pt_x (last ps) \<and>
     pt_y (last (map unlight (take k ps) @ drop k ps)) = pt_y (last ps)"
  by (cases "k < length ps") (simp_all add: last_map)

lemma blanking_armed:
  assumes "armed s" and "applyStartupBlankToOutputPoints ps s = (out, s1)"
  shows "blankingSection ps s =
     (out, if ps = [] then s1 else s1\<lparr>lastContentX := pt_x (last ps), lastContentY := pt_y (last ps)\<rparr>)"
proof -
  have o: "out = map unlight (take (nat (startupBlankPointsRemaining s)) ps) @ drop (nat (startupBlankPointsRemaining s)) ps"
    using assms(2) by (simp add: startup_eq)
  have a: "armed s1" using assms startup_frame by fastforce
  have "out = [] \<longleftrightarrow> ps = []" by (auto simp: o)
  moreover have "blankingSection ps s = (if out \<noteq> []
      then (out, s1\<lparr>lastContentX := pt_x (last out), lastContentY := pt_y (last out)\<rparr>) else (out, s1))"
    by (simp add: blankingSection_def assms(2) a)
  ultimately show ?thesis using last_startup [of ps "nat (startupBlankPointsRemaining s)"]
    by (cases "ps = []") (simp_all flip: o)
qed

lemma blanking_disarmed:
  assumes "\<not> armed s" and "applyStartupBlankToOutputPoints ps s = (out, s1)"
  shows "blankingSection ps s =
     (map (darken_at (lastContentX s, lastContentY s)) (take (nat (shutdownBlankPointsRemaining s)) ps) @
        map (darken_at (Fin 0, Fin 0)) (drop (nat (shutdownBlankPointsRemaining s)) ps),
      s1\<lparr>shutdownBlankPointsRemaining := max 0 (shutdownBlankPointsRemaining s - int (length ps))\<rparr>)"
proof -
  have o: "out = map unlight (take (nat (startupBlankPointsRemaining s)) ps) @ drop (nat (startupBlankPointsRemaining s)) ps"
    using assms(2) by (simp add: startup_eq)
  obtain r where r: "s1 = s\<lparr>startupBlankPointsRemaining := r\<rparr>" using startup_frame [OF assms(2)] by blast
  have "map (darken_at xy) (take n out) = map (darken_at xy) (take n ps)"
    "map (darken_at xy) (drop n out) = map (darken_at xy) (drop n ps)" for xy n
    by (simp_all only: o take_map_darken)
  moreover have "length out = length ps" by (simp add: o)
  ultimately show ?thesis using assms(1)
    by (auto simp: blankingSection_def assms(2) r shutdownLoop_eq darken_at_def [abs_def])
qed

lemma startup_split:
  assumes "applyStartupBlankToOutputPoints ps s = (o1, s1)" and "applyStartupBlankToOutputPoints qs s1 = (o2, s2)"
  shows "applyStartupBlankToOutputPoints (ps @ qs) s = (o1 @ o2, s2)"
proof -
  let ?r = "startupBlankPointsRemaining s"
  define r where "r = countDown ?r (length ps)"
  have n: "nat r = nat ?r - length ps" by (auto simp: r_def countDown_def)
  have o1: "o1 = map unlight (take (nat ?r) ps) @ drop (nat ?r) ps" and s1: "s1 = s\<lparr>startupBlankPointsRemaining := r\<rparr>"
    using assms(1) by (simp_all add: startup_eq r_def)
  have o2: "o2 = map unlight (take (nat ?r - length ps) qs) @ drop (nat ?r - length ps) qs"
    and s2: "s2 = s\<lparr>startupBlankPointsRemaining := countDown r (length qs)\<rparr>"
    using assms(2) by (simp_all add: startup_eq s1 n)
  have "drop (nat ?r) ps = [] \<or> nat ?r - length ps = 0" by auto
  then have "map unlight (take (nat ?r) (ps @ qs)) @ drop (nat ?r) (ps @ qs) = o1 @ o2" by (auto simp: o1 o2)
  moreover have "countDown r (length qs) = countDown ?r (length (ps @ qs))" by (auto simp: r_def countDown_def)
  ultimately show ?thesis by (simp only: startup_eq s2)
qed

lemma blanking_split:
  assumes b1: "blankingSection ps s = (o1, s1)" and b2: "blankingSection qs s1 = (o2, s2)"
  shows "blankingSection (ps @ qs) s = (o1 @ o2, s2)"
proof -
  obtain a1 t1 where t1: "applyStartupBlankToOutputPoints ps s = (a1, t1)" by fastforce
  obtain a2 t2 where t2: "applyStartupBlankToOutputPoints qs t1 = (a2, t2)" by fastforce
  have t: "applyStartupBlankToOutputPoints (ps @ qs) s = (a1 @ a2, t2)" using startup_split [OF t1 t2] .
  show ?thesis
  proof (cases "armed s")
    case True
    note B = blanking_armed [OF True]
    have o1: "o1 = a1" and s1: "s1 = (if ps = [] then t1 else t1\<lparr>lastContentX := pt_x (last ps), lastContentY := pt_y (last ps)\<rparr>)"
      using b1 B [OF t1] by auto
    have a1: "armed s1" using blanking_frame [OF b1] True by simp
    have "applyStartupBlankToOutputPoints qs s1 = (a2, if ps = [] then t2 else t2\<lparr>lastContentX := pt_x (last ps), lastContentY := pt_y (last ps)\<rparr>)"
      using t2 by (auto simp: s1 startup_eq)
    from blanking_armed [OF a1 this] b2 show ?thesis unfolding B [OF t] o1 by auto
  next
    case False
    let ?n = "nat (shutdownBlankPointsRemaining s)"
    note B = blanking_disarmed [OF False]
    have s1: "s1 = t1\<lparr>shutdownBlankPointsRemaining := max 0 (shutdownBlankPointsRemaining s - int (length ps))\<rparr>"
      using b1 B [OF t1] by simp
    have a1: "\<not> armed s1" using blanking_frame [OF b1] False by simp
    obtain r where "t1 = s\<lparr>startupBlankPointsRemaining := r\<rparr>" using startup_frame [OF t1] by blast
    then have c: "lastContentX s1 = lastContentX s" "lastContentY s1 = lastContentY s" by (simp_all add: s1)
    have n: "nat (shutdownBlankPointsRemaining s1) = ?n - length ps" by (auto simp: s1)
    have "applyStartupBlankToOutputPoints qs s1 = (a2, t2\<lparr>shutdownBlankPointsRemaining := max 0 (shutdownBlankPointsRemaining s - int (length ps))\<rparr>)"
      using t2 by (auto simp: s1 startup_eq)
    then have o2: "o2 = map (darken_at (lastContentX s, lastContentY s)) (take (?n - length ps) qs) @
        map (darken_at (Fin 0, Fin 0)) (drop (?n - length ps) qs)"
      and s2: "s2 = t2\<lparr>shutdownBlankPointsRemaining := max 0 (shutdownBlankPointsRemaining s1 - int (length qs))\<rparr>"
      using b2 blanking_disarmed [OF a1, of qs] by (simp_all add: n c)
    have "max 0 (shutdownBlankPointsRemaining s1 - int (length qs)) =
      max 0 (shutdownBlankPointsRemaining s - int (length (ps @ qs)))" by (simp add: s1)
    moreover have "drop ?n ps = [] \<or> ?n - length ps = 0" by auto
    ultimately show ?thesis using b1 unfolding B [OF t] B [OF t1] o2 s2 by auto
  qed
qed

lemma blanking_line:
  assumes "blankingSection qs s = (out, s')"
  shows "blankingSection qs (s\<lparr>scannerSyncColourDelayLine := L\<rparr>) = (out, s'\<lparr>scannerSyncColourDelayLine := L\<rparr>)"
proof -
  obtain a t where t: "applyStartupBlankToOutputPoints qs s = (a, t)" by fastforce
  have t': "applyStartupBlankToOutputPoints qs (s\<lparr>scannerSyncColourDelayLine := L\<rparr>) = (a, t\<lparr>scannerSyncColourDelayLine := L\<rparr>)"
    using t by (auto simp: startup_eq)
  show ?thesis
    using assms blanking_armed [OF _ t] blanking_disarmed [OF _ t] blanking_armed [OF _ t'] blanking_disarmed [OF _ t']
    by (cases "armed s") auto
qed

lemma blanking_params:
  assumes "blankingSection ps s = (out, s')"
  shows "scannerSyncPostProcessSuppressed s' = scannerSyncPostProcessSuppressed s \<and> scannerSyncEnabled s' = scannerSyncEnabled s
    \<and> pointRate s' = pointRate s \<and> scannerSyncTime s' = scannerSyncTime s \<and> scannerSyncColourDelayLine s' = scannerSyncColourDelayLine s"
proof -
  obtain a t where t: "applyStartupBlankToOutputPoints ps s = (a, t)" by fastforce
  obtain r where r: "t = s\<lparr>startupBlankPointsRemaining := r\<rparr>" using startup_frame [OF t] by blast
  have "\<exists>x y n. s' = t\<lparr>lastContentX := x, lastContentY := y, shutdownBlankPointsRemaining := n\<rparr>"
  proof (cases "armed s")
    case True
    then have "s' = (if ps = [] then t else t\<lparr>lastContentX := pt_x (last ps), lastContentY := pt_y (last ps)\<rparr>)"
      using assms blanking_armed [OF True t] by simp
    then have "s' = t\<lparr>lastContentX := if ps = [] then lastContentX t else pt_x (last ps),
        lastContentY := if ps = [] then lastContentY t else pt_y (last ps),
        shutdownBlankPointsRemaining := shutdownBlankPointsRemaining t\<rparr>" by simp
    then show ?thesis by blast
  next
    case False
    then have "s' = t\<lparr>lastContentX := lastContentX t, lastContentY := lastContentY t,
        shutdownBlankPointsRemaining := max 0 (shutdownBlankPointsRemaining s - int (length ps))\<rparr>"
      using assms blanking_disarmed [OF False t] by simp
    then show ?thesis by blast
  qed
  then show ?thesis by (auto simp: r)
qed

lemma scannerSyncSection_cong:
  assumes "scannerSyncPostProcessSuppressed s' = scannerSyncPostProcessSuppressed s \<and> scannerSyncEnabled s' = scannerSyncEnabled s
    \<and> pointRate s' = pointRate s \<and> scannerSyncTime s' = scannerSyncTime s \<and> scannerSyncColourDelayLine s' = scannerSyncColourDelayLine s"
  shows "scannerSyncSection ps s' =
    map_option (\<lambda>(out, t). (out, s'\<lparr>scannerSyncColourDelayLine := scannerSyncColourDelayLine t\<rparr>)) (scannerSyncSection ps s)"
  using assms by (auto simp: scannerSyncSection_eq Let_def option.map_comp comp_def)

lemma scannerSyncSection_update:
  "scannerSyncSection ps s = Some (out, s') \<Longrightarrow> s' = s\<lparr>scannerSyncColourDelayLine := scannerSyncColourDelayLine s'\<rparr>"
  by (drule scannerSyncSection_cases) auto

lemma postProcess_split:
  "postProcessOutputPoints (ps @ qs) s = do {
     (o1, s1) \<leftarrow> postProcessOutputPoints ps s;
     (o2, s2) \<leftarrow> postProcessOutputPoints qs s1;
     Some (o1 @ o2, s2) }"
proof -
  obtain b1 t1 where b1: "blankingSection ps s = (b1, t1)" by fastforce
  obtain b2 t2 where b2: "blankingSection qs t1 = (b2, t2)" by fastforce
  note cg = scannerSyncSection_cong [OF blanking_params [OF b2]]
  have lhs: "postProcessOutputPoints (ps @ qs) s = do {
      (o1, u1) \<leftarrow> scannerSyncSection b1 t2; (o2, u2) \<leftarrow> scannerSyncSection b2 u1; Some (o1 @ o2, u2) }"
    by (simp add: postProcessOutputPoints_def blanking_split [OF b1 b2] scannerSyncSection_split)
  show ?thesis
  proof (cases "scannerSyncSection b1 t1")
    case None
    then show ?thesis by (simp add: lhs cg) (simp add: postProcessOutputPoints_def b1)
  next
    case (Some r)
    obtain o1 u where r: "r = (o1, u)" by (cases r)
    let ?L = "scannerSyncColourDelayLine u"
    have u: "u = t1\<lparr>scannerSyncColourDelayLine := ?L\<rparr>" using Some r scannerSyncSection_update by blast
    have "blankingSection qs u = (b2, t2\<lparr>scannerSyncColourDelayLine := ?L\<rparr>)" by (subst u) (rule blanking_line [OF b2])
    then show ?thesis using Some r by (simp add: lhs cg) (simp add: postProcessOutputPoints_def b1)
  qed
qed

fun processBatches :: "LaserPoint list list \<Rightarrow> PipelineState \<Rightarrow> (LaserPoint list \<times> PipelineState) option" where
  "processBatches [] s = Some ([], s)"
| "processBatches (ps # pss) s = do {
     (o1, s1) \<leftarrow> postProcessOutputPoints ps s;
     (o2, s2) \<leftarrow> processBatches pss s1;
     Some (o1 @ o2, s2) }"

lemma processBatches_concat:
  "pss \<noteq> [] \<Longrightarrow> processBatches pss s = postProcessOutputPoints (concat pss) s"
proof (induction pss arbitrary: s rule: list_nonempty_induct)
  case (single ps)
  then show ?case by (cases "postProcessOutputPoints ps s") auto
next
  case (cons ps pss)
  then show ?case by (simp add: postProcess_split)
qed

text \<open>
  C33. Where the transport cuts its batches cannot be seen. Processing any number of
  batches one after the other gives exactly the points and the state of processing their
  concatenation:
  startup and shutdown counts, the tracked content position and the colour delay line carry
  over a cut, at any place and in any arming and scanner-sync state.
\<close>

theorem batch_split_invisible:
  "processBatches (ps # pss) s = postProcessOutputPoints (ps @ concat pss) s"
  using processBatches_concat [of "ps # pss" s] by (simp del: processBatches.simps)

subsection \<open>The first millisecond after arming\<close>

lemma armed_startup_unlit:
  assumes "postProcessOutputPoints ps s = Some (out, s')" "armed s" "scannerSyncColourDelayLine s = []"
    and i: "i < length out" "int i < startupBlankPointsRemaining s"
  shows "unlit (out ! i)"
proof -
  obtain qs s1 where b: "blankingSection ps s = (qs, s1)" by fastforce
  then have sh: "scannerSyncSection qs s1 = Some (out, s')" using assms(1) by (simp add: postProcessOutputPoints_def)
  obtain a t where t: "applyStartupBlankToOutputPoints ps s = (a, t)" by fastforce
  have qs: "qs = map unlight (take (nat (startupBlankPointsRemaining s)) ps) @ drop (nat (startupBlankPointsRemaining s)) ps"
    using b t blanking_armed [OF assms(2) t] by (simp add: startup_eq)
  have len: "length out = length qs" using scannerSyncSection_frame [OF sh] by blast
  have lq: "length qs = length ps" by (simp add: qs)
  have dark: "unlit (qs ! j)" if "j \<le> i" for j
  proof -
    have "j < length ps" "j < nat (startupBlankPointsRemaining s)" using that i len lq by auto
    then show ?thesis by (simp add: qs nth_append)
  qed
  have line: "scannerSyncColourDelayLine s1 = []" using blanking_frame [OF b] assms(3) by simp
  from scannerSyncSection_cases [OF sh] show ?thesis
  proof (elim disjE exE conjE)
    fix n assume o: "out = map2 with_colour_of (take (length qs) (resizeLine n (scannerSyncColourDelayLine s1) @ qs)) qs"
    have "unlit ((resizeLine n [] @ qs) ! i)"
      using dark [of "i - n"] i len by (auto simp: nth_append resizeLine_def)
    then show ?thesis using i len by (simp add: o line del: take_append)
  qed (use dark in simp)
qed

text \<open>
  C29. The laser stays dark for the first millisecond after arming. When a disarmed controller
  is armed, the first points it emits, as many as one millisecond holds at the current rate
  and however they are cut into batches, have zero red, green and blue, with scanner sync on
  or off.
\<close>

theorem arming_starts_dark:
  assumes "\<not> armed s" and "setArmed True s = Some s1" and "millisToPoints (pointRate s) (Fin 1) = Some n"
    and "processBatches pss s1 = Some (out, s2)" and "i < length out" and "int i < n"
  shows "unlit (out ! i)"
proof -
  have s1: "armed s1" "scannerSyncColourDelayLine s1 = []" "startupBlankPointsRemaining s1 = n"
    using assms(1-3) by (auto simp: setArmed_def resetStartupBlank_def)
  have "pss \<noteq> []" using assms(4,5) by auto
  then have "postProcessOutputPoints (concat pss) s1 = Some (out, s2)" using assms(4) by (simp add: processBatches_concat)
  with s1 assms(5,6) show ?thesis by (intro armed_startup_unlit) auto
qed

lemma millis_1000: "millisToPoints 1000 (Fin 1) = Some 1"
proof -
  have "rnd F64 (1 / 1000) = Fin (rndq F64 (1 / 1000))" by (rule rnd_F64_Fin) simp
  moreover have "rndq F64 (1 / 1000) = 1152921504606847 / 1152921504606846976" by code_simp
  moreover have "rnd F64 (1152921504606847 / 1152921504606846976 * 1000) =
      Fin (rndq F64 (1152921504606847 / 1152921504606846976 * 1000))" by (rule rnd_F64_Fin) simp
  moreover have "rndq F64 (1152921504606847 / 1152921504606846976 * 1000) = 1" by code_simp
  ultimately show ?thesis
    by (simp add: millisToPoints_def Let_def of_num_def rnd_F64_numeral llround_def fle_def int_max32_def)
qed

definition lit_point :: LaserPoint where
  "lit_point = default_point\<lparr>pt_r := Fin 1\<rparr>"

definition slow_pipeline :: PipelineState where
  "slow_pipeline = pipeline_init\<lparr>pointRate := 1000, scannerSyncEnabled := False\<rparr>"

theorem arming_starts_dark_witness:
  "processBatches [[lit_point], [lit_point]] (slow_pipeline\<lparr>armed := True, startupBlankPointsRemaining := 1\<rparr>) =
     Some ([unlight lit_point, lit_point], slow_pipeline\<lparr>armed := True\<rparr>) \<and> unlit ([unlight lit_point, lit_point] ! 0)"
proof -
  have a: "setArmed True slow_pipeline = Some (slow_pipeline\<lparr>armed := True, startupBlankPointsRemaining := 1\<rparr>)"
    by (simp add: setArmed_def slow_pipeline_def pipeline_init_def resetStartupBlank_def millis_1000)
  have b: "processBatches [[lit_point], [lit_point]] (slow_pipeline\<lparr>armed := True, startupBlankPointsRemaining := 1\<rparr>)
      = Some ([unlight lit_point, lit_point], slow_pipeline\<lparr>armed := True\<rparr>)"
    by (simp add: slow_pipeline_def pipeline_init_def postProcessOutputPoints_def blankingSection_def
        applyStartupBlankToOutputPoints_def scannerSyncSection_def Let_def lit_point_def unlight_def default_point_def)
  have "\<not> armed slow_pipeline" "millisToPoints (pointRate slow_pipeline) (Fin 1) = Some 1"
    by (simp_all add: slow_pipeline_def pipeline_init_def millis_1000)
  from arming_starts_dark [OF this(1) a this(2) b, of 0] b show ?thesis by simp
qed

subsection \<open>Two threads\<close>

text \<open>
  The worker thread runs \<open>blankingSection\<close> and then \<open>scannerSyncSection\<close>; the application
  thread's \<open>setArmed\<close> first exchanges the flag and then resets the blanking counts and the
  delay line. Only the delay line is guarded, so the sections interleave. \<open>worker\<close> holds the
  batch between the worker's sections, \<open>app\<close> the reset the application still has to do.
\<close>

record Threads =
  pipeline :: PipelineState
  worker :: "LaserPoint list option"
  app :: "bool option"

definition exchangeArmed :: "bool \<Rightarrow> Threads \<Rightarrow> Threads" where
  "exchangeArmed b t = t\<lparr>pipeline := (pipeline t)\<lparr>armed := b\<rparr>,
     app := (if armed (pipeline t) \<noteq> b then Some b else None)\<rparr>"

inductive thread_step :: "Threads \<Rightarrow> LaserPoint list \<Rightarrow> Threads \<Rightarrow> bool" where
  worker_blank: "worker t = None \<Longrightarrow> blankingSection ps (pipeline t) = (qs, s') \<Longrightarrow>
    thread_step t [] (t\<lparr>pipeline := s', worker := Some qs\<rparr>)"
| worker_shift: "worker t = Some qs \<Longrightarrow> scannerSyncSection qs (pipeline t) = Some (out, s') \<Longrightarrow>
    thread_step t out (t\<lparr>pipeline := s', worker := None\<rparr>)"
| app_exchange: "app t = None \<Longrightarrow> thread_step t [] (exchangeArmed b t)"
| app_reset_start: "app t = Some True \<Longrightarrow> resetStartupBlank (pipeline t) = Some s' \<Longrightarrow>
    thread_step t [] (t\<lparr>pipeline := s', app := None\<rparr>)"
| app_reset_stop: "app t = Some False \<Longrightarrow> resetShutdownBlank (pipeline t) = Some s' \<Longrightarrow>
    thread_step t [] (t\<lparr>pipeline := s', app := None\<rparr>)"

inductive thread_run :: "Threads \<Rightarrow> LaserPoint list list \<Rightarrow> Threads \<Rightarrow> bool" where
  halt: "thread_run t [] t"
| go: "thread_step t out t' \<Longrightarrow> thread_run t' outs t'' \<Longrightarrow> thread_run t (out # outs) t''"

text \<open>The race: at 1 kpps and a scanner-sync offset of 1 ms the delay line holds one point.\<close>

definition race_start :: Threads where
  "race_start = \<lparr>pipeline = pipeline_init\<lparr>pointRate := 1000, scannerSyncTime := Fin 10\<rparr>, worker = None, app = None\<rparr>"

lemma sync_millis_10: "sync_millis (Fin 10) = Fin 1"
proof -
  have "rnd F64 (1 / 10) = Fin (rndq F64 (1 / 10))" by (rule rnd_F64_Fin) simp
  moreover have "rndq F64 (1 / 10) = 3602879701896397 / 36028797018963968" by code_simp
  moreover have "rnd F64 (10 * (3602879701896397 / 36028797018963968)) =
      Fin (rndq F64 (10 * (3602879701896397 / 36028797018963968)))" by (rule rnd_F64_Fin) simp
  moreover have "rndq F64 (10 * (3602879701896397 / 36028797018963968)) = 1" by code_simp
  ultimately show ?thesis by (simp add: sync_millis_def fmax_def)
qed

lemma sync_mul_10: "fmul F64 (fmax (Fin 10) (Fin 0)) (rnd F64 (1 / 10)) = Fin 1"
  using sync_millis_10 by (simp add: sync_millis_def)

lemmas race_simps = race_start_def exchangeArmed_def pipeline_init_def blankingSection_def applyStartupBlankToOutputPoints_def
  scannerSyncSection_def resizeLine_def with_colour_of_def unlight_def lit_point_def default_point_def
  resetStartupBlank_def resetShutdownBlank_def millis_1000 sync_millis_10 sync_mul_10 Let_def

text \<open>
  C34. Light after disarming, by interleaving. The worker takes a batch while armed and blanks
  it; the application disarms and clears the delay line; only then does the worker shift the
  batch's colours, which refills the line with light. With both threads idle and the
  controller disarmed, the next batch comes out lit. So clearing the line under its mutex
  does not keep stale colours from leaking: the arm check and the shift are not one section.
\<close>

theorem disarm_race_leaks_light:
  "\<exists>outs t t' out. thread_run race_start outs t \<and> worker t = None \<and> app t = None \<and> \<not> armed (pipeline t) \<and>
     thread_run t [[], out] t' \<and> \<not> armed (pipeline t') \<and> (\<exists>p. p \<in> set out \<and> \<not> unlit p)"
proof -
  define p0 where "p0 = pipeline race_start"
  define p2 where "p2 = p0\<lparr>armed := True, startupBlankPointsRemaining := 1, scannerSyncColourDelayLine := []\<rparr>"
  define p3 where "p3 = p2\<lparr>startupBlankPointsRemaining := 0, lastContentX := Fin 0, lastContentY := Fin 0\<rparr>"
  define p5 where "p5 = p3\<lparr>armed := False, shutdownBlankPointsRemaining := 2, scannerSyncColourDelayLine := []\<rparr>"
  define p6 where "p6 = p5\<lparr>scannerSyncColourDelayLine := [lit_point]\<rparr>"
  define p7 where "p7 = p6\<lparr>shutdownBlankPointsRemaining := 1\<rparr>"
  define p8 where "p8 = p7\<lparr>scannerSyncColourDelayLine := [unlight lit_point]\<rparr>"
  note P = p0_def p2_def p3_def p5_def p6_def p7_def p8_def
  have 1: "thread_step race_start [] (exchangeArmed True race_start)"
    by (rule thread_step.app_exchange) (simp add: race_start_def)
  have r2: "resetStartupBlank (pipeline (exchangeArmed True race_start)) = Some p2" by (simp add: P race_simps)
  have 2: "thread_step (exchangeArmed True race_start) [] \<lparr>pipeline = p2, worker = None, app = None\<rparr>"
    using thread_step.app_reset_start [OF _ r2] by (simp add: race_simps)
  have b3: "blankingSection [lit_point, lit_point] p2 = ([unlight lit_point, lit_point], p3)" by (simp add: P race_simps)
  have 3: "thread_step \<lparr>pipeline = p2, worker = None, app = None\<rparr> []
      \<lparr>pipeline = p3, worker = Some [unlight lit_point, lit_point], app = None\<rparr>" (is "thread_step _ _ ?t3")
    using thread_step.worker_blank [of "\<lparr>pipeline = p2, worker = None, app = None\<rparr>", OF _ ] b3 by simp
  have 4: "thread_step ?t3 [] (exchangeArmed False ?t3)" by (rule thread_step.app_exchange) simp
  have r5: "resetShutdownBlank (pipeline (exchangeArmed False ?t3)) = Some p5" by (simp add: P race_simps int_max32_def)
  have 5: "thread_step (exchangeArmed False ?t3) [] \<lparr>pipeline = p5, worker = Some [unlight lit_point, lit_point], app = None\<rparr>"
    (is "thread_step _ _ ?t5")
    using thread_step.app_reset_stop [OF _ r5] by (simp add: exchangeArmed_def P race_start_def)
  have s6: "scannerSyncSection [unlight lit_point, lit_point] p5 = Some ([unlight lit_point, unlight lit_point], p6)"
    by (simp add: P race_simps)
  have 6: "thread_step ?t5 [unlight lit_point, unlight lit_point] \<lparr>pipeline = p6, worker = None, app = None\<rparr>"
    using thread_step.worker_shift [of ?t5, OF _ ] s6 by simp
  have b7: "blankingSection [lit_point] p6 = ([unlight lit_point], p7)" by (simp add: P race_simps)
  have 7: "thread_step \<lparr>pipeline = p6, worker = None, app = None\<rparr> [] \<lparr>pipeline = p7, worker = Some [unlight lit_point], app = None\<rparr>"
    using thread_step.worker_blank [of "\<lparr>pipeline = p6, worker = None, app = None\<rparr>", OF _ ] b7 by simp
  have s8: "scannerSyncSection [unlight lit_point] p7 = Some ([lit_point], p8)" by (simp add: P race_simps)
  have 8: "thread_step \<lparr>pipeline = p7, worker = Some [unlight lit_point], app = None\<rparr> [lit_point]
      \<lparr>pipeline = p8, worker = None, app = None\<rparr>"
    using thread_step.worker_shift [of "\<lparr>pipeline = p7, worker = Some [unlight lit_point], app = None\<rparr>", OF _ ] s8 by simp
  have "thread_run race_start [[], [], [], [], [], [unlight lit_point, unlight lit_point]] \<lparr>pipeline = p6, worker = None, app = None\<rparr>"
    by (rule thread_run.go, rule 1, rule thread_run.go, rule 2, rule thread_run.go, rule 3, rule thread_run.go, rule 4,
        rule thread_run.go, rule 5, rule thread_run.go, rule 6, rule thread_run.halt)
  moreover have "thread_run \<lparr>pipeline = p6, worker = None, app = None\<rparr> [[], [lit_point]] \<lparr>pipeline = p8, worker = None, app = None\<rparr>"
    by (rule thread_run.go, rule 7, rule thread_run.go, rule 8, rule thread_run.halt)
  moreover have "\<not> armed p6" "\<not> armed p8" "\<not> unlit lit_point" by (simp_all add: P unlit_def lit_point_def)
  ultimately show ?thesis by fastforce
qed

end
