(* ===== verification/Latency_Stats.thy ===== *)
theory Latency_Stats
  imports Buffer_Estimator "HOL-Library.Monad_Syntax"
begin

text \<open>
  Latency samples: the percentile reader and the cached statistics of
  src/core/LaserControllerStreaming.cpp, and the 256-entry sample ring that the Ether Dream
  controller keeps (\<open>StreamHealthSamples\<close> of src/EtherDream/EtherDreamController.cpp). Every
  sample is a finite double, so sorting by the double order is sorting by the value.
\<close>

subsection \<open>Percentiles\<close>

fun value_of :: "fp \<Rightarrow> rat" where
  "value_of (Fin q) = q"
| "value_of _ = 0"

definition sorted_samples :: "fp list \<Rightarrow> fp list" where
  "sorted_samples xs = sort_key value_of xs"

text \<open>The conversion of a \<open>steady_clock\<close> duration to \<open>duration<double, std::milli>\<close>.\<close>

definition durationMillis :: "int \<Rightarrow> fp" where
  "durationMillis d = fdiv F64 (of_num F64 d) (Fin 1000000)"

text \<open>Linear interpolation between the two neighbours of the fractional index; \<open>None\<close> is a read
  out of range.\<close>

definition interpolated :: "fp list \<Rightarrow> nat \<Rightarrow> fp \<Rightarrow> fp option" where
  "interpolated xs n fraction =
     (let clamped = fclamp fraction (Fin 0) (Fin 1);
          rawIndex = fmul F64 clamped (of_num F64 (int (n - 1)))
      in do {
        lower \<leftarrow> cast_size (ffloor rawIndex);
        upper \<leftarrow> cast_size (fceil rawIndex);
        a \<leftarrow> nth_opt xs lower;
        if lower = upper then Some a
        else do {
          b \<leftarrow> nth_opt xs upper;
          let weight = fsub F64 rawIndex (of_num F64 (int lower));
          Some (fadd F64 a (fmul F64 (fsub F64 b a) weight)) } })"

definition percentileFromSortedSamples :: "fp list \<Rightarrow> fp \<Rightarrow> fp option" where
  "percentileFromSortedSamples xs percentile =
     (if xs = [] then Some (Fin 0) else interpolated xs (length xs) percentile)"

subsection \<open>The sample window of a controller\<close>

record LatencyStats =
  p50Ms :: fp
  p95Ms :: fp
  p99Ms :: fp
  maxMs :: fp
  sampleCount :: nat

definition no_stats :: LatencyStats where
  "no_stats = \<lparr>p50Ms = Fin 0, p95Ms = Fin 0, p99Ms = Fin 0, maxMs = Fin 0, sampleCount = 0\<rparr>"

record LatencyState =
  latencySamplesMs :: "fp list"
  latencyMutationCount :: u64
  cachedLatencyMutationCount :: u64
  cachedLatencyStats :: LatencyStats

definition latency_init :: LatencyState where
  "latency_init = \<lparr>latencySamplesMs = [], latencyMutationCount = 0, cachedLatencyMutationCount = - 1,
     cachedLatencyStats = no_stats\<rparr>"

definition latencySampleWindow :: nat where "latencySampleWindow = 512"

definition recordLatencySample :: "int \<Rightarrow> LatencyState \<Rightarrow> LatencyState" where
  "recordLatencySample d s =
     (let sampleMs = durationMillis d
      in if flt sampleMs (Fin 0) \<or> \<not> isfinite sampleMs then s
         else let samples = latencySamplesMs s @ [sampleMs]
              in s\<lparr>latencySamplesMs := drop (length samples - latencySampleWindow) samples,
                   latencyMutationCount := latencyMutationCount s + 1\<rparr>)"

definition computeLatencyStats :: "fp list \<Rightarrow> LatencyStats option" where
  "computeLatencyStats samples = do {
     let xs = sorted_samples samples;
     p50 \<leftarrow> percentileFromSortedSamples xs (rnd F64 (50 / 100));
     p95 \<leftarrow> percentileFromSortedSamples xs (rnd F64 (95 / 100));
     p99 \<leftarrow> percentileFromSortedSamples xs (rnd F64 (99 / 100));
     greatest \<leftarrow> nth_opt xs (length xs - 1);
     Some \<lparr>p50Ms = p50, p95Ms = p95, p99Ms = p99, maxMs = greatest, sampleCount = length xs\<rparr> }"

definition getLatencyStats :: "LatencyState \<Rightarrow> (LatencyStats option \<times> LatencyState) option" where
  "getLatencyStats s =
     (if latencySamplesMs s = [] then Some (None, s)
      else if latencyMutationCount s = cachedLatencyMutationCount s then Some (Some (cachedLatencyStats s), s)
      else do {
        stats \<leftarrow> computeLatencyStats (latencySamplesMs s);
        Some (Some stats, s\<lparr>cachedLatencyStats := stats, cachedLatencyMutationCount := latencyMutationCount s\<rparr>) })"

subsection \<open>The sample ring of the Ether Dream controller\<close>

definition STREAM_HEALTH_SAMPLE_CAPACITY :: nat where "STREAM_HEALTH_SAMPLE_CAPACITY = 256"

record StreamHealthSamples =
  sh_values :: "fp list"
  sh_count :: nat
  sh_next :: nat

definition samples_init :: StreamHealthSamples where
  "samples_init = \<lparr>sh_values = replicate STREAM_HEALTH_SAMPLE_CAPACITY (Fin 0), sh_count = 0, sh_next = 0\<rparr>"

definition sh_reset :: "StreamHealthSamples \<Rightarrow> StreamHealthSamples" where
  "sh_reset s = s\<lparr>sh_count := 0, sh_next := 0\<rparr>"

definition sh_add :: "fp \<Rightarrow> StreamHealthSamples \<Rightarrow> StreamHealthSamples" where
  "sh_add v s = s\<lparr>sh_values := (sh_values s)[sh_next s := v],
                  sh_next := (sh_next s + 1) mod STREAM_HEALTH_SAMPLE_CAPACITY,
                  sh_count := min (sh_count s + 1) STREAM_HEALTH_SAMPLE_CAPACITY\<rparr>"

definition sh_percentile :: "fp \<Rightarrow> StreamHealthSamples \<Rightarrow> fp option" where
  "sh_percentile fraction s =
     (if sh_count s = 0 then Some (Fin 0)
      else interpolated (sorted_samples (take (sh_count s) (sh_values s)) @ drop (sh_count s) (sh_values s)) (sh_count s) fraction)"

definition sh_max :: "StreamHealthSamples \<Rightarrow> fp" where
  "sh_max s = (case take (sh_count s) (sh_values s) of [] \<Rightarrow> Fin 0 | v # vs \<Rightarrow> foldl fmax v vs)"

subsection \<open>No read is out of range\<close>

lemma interpolated_total:
  assumes "0 < n" "n \<le> length xs" "n \<le> 2 ^ 20" and c: "fclamp fraction (Fin 0) (Fin 1) = Fin c" "0 \<le> c" "c \<le> 1"
  shows "\<exists>v. interpolated xs n fraction = Some v"
proof -
  define k :: rat where "k = of_int (int (n - 1))"
  have k: "0 \<le> k" "k \<le> 2 ^ 20" using assms by (simp_all add: k_def)
  have nk: "of_num F64 (int (n - 1)) = Fin k"
    unfolding k_def using assms by (intro of_num_F64) simp
  have ck: "0 \<le> c * k" "c * k \<le> k" using c k mult_right_mono [of c 1 k] by simp_all
  have "rndq F64 k = k" unfolding k_def using assms by (intro rndq_F64_int) simp
  then have r: "rnd F64 (c * k) = Fin (rndq F64 (c * k))" "0 \<le> rndq F64 (c * k)" "rndq F64 (c * k) \<le> k"
    using rnd_in_range [of 0 "c * k" k F64] k ck by simp_all
  define q where "q = rndq F64 (c * k)"
  have q: "0 \<le> q" "q \<le> of_int (int (n - 1))" using r by (simp_all add: q_def k_def)
  then have f: "0 \<le> \<lfloor>q\<rfloor>" "\<lfloor>q\<rfloor> \<le> int (n - 1)" and cl: "0 \<le> \<lceil>q\<rceil>" "\<lceil>q\<rceil> \<le> int (n - 1)"
    using floor_mono [OF q(2)] by (simp_all add: ceiling_le_iff)
  have cs: "cast_size (Fin (of_int j)) = Some (nat j)" if "0 \<le> j" "j \<le> int (n - 1)" for j
    using that assms by (simp add: cast_size_def trunc_rat_def)
  have "nat \<lfloor>q\<rfloor> < length xs" "nat \<lceil>q\<rceil> < length xs" using f cl assms by linarith+
  moreover have "fmul F64 (Fin c) (of_num F64 (int (n - 1))) = Fin q" using r nk by (simp add: q_def)
  ultimately show ?thesis
    using cs [OF f] cs [OF cl] unfolding interpolated_def Let_def c by (simp del: One_nat_def)
qed

lemma percentile_total:
  assumes "length xs \<le> 512" and "0 \<le> p" "p \<le> 1"
  shows "\<exists>v. percentileFromSortedSamples xs (rnd F64 p) = Some v"
proof -
  have r: "rnd F64 p = Fin (rndq F64 p)" "0 \<le> rndq F64 p" "rndq F64 p \<le> 1"
    using rnd_in_range [of 0 p 1 F64] assms by simp_all
  then have "fclamp (rnd F64 p) (Fin 0) (Fin 1) = Fin (rndq F64 p)" by (simp add: fclamp_def)
  from interpolated_total [OF _ _ _ this, of "length xs" xs] r assms(1)
  show ?thesis by (auto simp: percentileFromSortedSamples_def)
qed

lemma computeLatencyStats_sound:
  assumes "xs \<noteq> []" and "length xs \<le> 512"
  shows "\<exists>st. computeLatencyStats xs = Some st \<and> sampleCount st = length xs \<and> maxMs st \<in> set xs \<and>
     (\<forall>v \<in> set xs. value_of v \<le> value_of (maxMs st))"
proof -
  let ?ys = "sorted_samples xs"
  have ys: "length ?ys = length xs" "set ?ys = set xs" "sorted (map value_of ?ys)" by (simp_all add: sorted_samples_def)
  have len: "length ?ys \<le> 512" using assms(2) ys(1) by simp
  have "\<exists>v. percentileFromSortedSamples ?ys (rnd F64 (50 / 100)) = Some v" by (rule percentile_total [OF len]) auto
  moreover have "\<exists>v. percentileFromSortedSamples ?ys (rnd F64 (95 / 100)) = Some v" by (rule percentile_total [OF len]) auto
  moreover have "\<exists>v. percentileFromSortedSamples ?ys (rnd F64 (99 / 100)) = Some v" by (rule percentile_total [OF len]) auto
  ultimately obtain a b c where abc: "percentileFromSortedSamples ?ys (rnd F64 (50 / 100)) = Some a"
    "percentileFromSortedSamples ?ys (rnd F64 (95 / 100)) = Some b" "percentileFromSortedSamples ?ys (rnd F64 (99 / 100)) = Some c"
    by blast
  have i: "length ?ys - 1 < length ?ys" using assms(1) ys(1) by simp
  have "value_of v \<le> value_of (?ys ! (length ?ys - 1))" if "v \<in> set xs" for v
  proof -
    have "v \<in> set ?ys" using that by (simp only: ys(2))
    then obtain j where j: "j < length ?ys" "?ys ! j = v" unfolding in_set_conv_nth by blast
    have "map value_of ?ys ! j \<le> map value_of ?ys ! (length ?ys - 1)"
      by (rule sorted_nth_mono [OF ys(3)]) (use j i in simp_all)
    then show ?thesis unfolding nth_map [OF j(1)] nth_map [OF i] j(2) .
  qed
  moreover have "?ys ! (length ?ys - 1) \<in> set xs" using i nth_mem [OF i] ys(2) by simp
  ultimately show ?thesis
    using i ys(1) unfolding computeLatencyStats_def Let_def abc by simp
qed

subsection \<open>The cache is invisible\<close>

datatype latency_op = Sample int | Query

fun latency_run :: "latency_op list \<Rightarrow> LatencyState \<Rightarrow> LatencyStats option list option" where
  "latency_run [] s = Some []"
| "latency_run (Sample d # ops) s = latency_run ops (recordLatencySample d s)"
| "latency_run (Query # ops) s = do {
     (r, s1) \<leftarrow> getLatencyStats s;
     rs \<leftarrow> latency_run ops s1;
     Some (r # rs) }"

definition window :: "fp list \<Rightarrow> fp list" where
  "window xs = drop (length xs - latencySampleWindow) xs"

definition accepted :: "int \<Rightarrow> fp list" where
  "accepted d = (if flt (durationMillis d) (Fin 0) \<or> \<not> isfinite (durationMillis d) then [] else [durationMillis d])"

text \<open>The answers of a window without a cache: every query sorts the last 512 accepted samples.\<close>

fun uncached_answers :: "fp list \<Rightarrow> latency_op list \<Rightarrow> LatencyStats option list" where
  "uncached_answers xs [] = []"
| "uncached_answers xs (Sample d # ops) = uncached_answers (xs @ accepted d) ops"
| "uncached_answers xs (Query # ops) =
     (if xs = [] then None else computeLatencyStats (window xs)) # uncached_answers xs ops"

definition latency_inv :: "fp list \<Rightarrow> LatencyState \<Rightarrow> bool" where
  "latency_inv xs s \<longleftrightarrow> latencySamplesMs s = window xs \<and> latencyMutationCount s = of_nat (length xs) \<and>
     (cachedLatencyMutationCount s = - 1 \<or>
      (\<exists>n \<le> length xs. 0 < n \<and> cachedLatencyMutationCount s = of_nat n \<and>
         computeLatencyStats (window (take n xs)) = Some (cachedLatencyStats s)))"

lemma window_facts: "length (window xs) \<le> 512" "window xs = [] \<longleftrightarrow> xs = []"
  by (simp_all add: window_def latencySampleWindow_def) (cases xs, simp_all)

lemma window_snoc: "window (window xs @ [v]) = window (xs @ [v])"
proof (cases "length xs \<le> 511")
  case False
  then have "length xs - 511 = Suc (length xs - 512)" by linarith
  with False show ?thesis by (simp add: window_def latencySampleWindow_def)
qed (simp add: window_def latencySampleWindow_def)

lemma latency_inv_record:
  assumes "latency_inv xs s"
  shows "latency_inv (xs @ accepted d) (recordLatencySample d s)"
proof (cases "accepted d = []")
  case True
  then show ?thesis using assms by (auto simp: recordLatencySample_def accepted_def Let_def split: if_splits)
next
  case False
  then have d: "accepted d = [durationMillis d]" "\<not> (flt (durationMillis d) (Fin 0) \<or> \<not> isfinite (durationMillis d))"
    by (auto simp: accepted_def split: if_splits)
  have "cachedLatencyMutationCount s = - 1 \<or>
      (\<exists>n \<le> length (xs @ [durationMillis d]). 0 < n \<and> cachedLatencyMutationCount s = of_nat n \<and>
         computeLatencyStats (window (take n (xs @ [durationMillis d]))) = Some (cachedLatencyStats s))"
    using assms unfolding latency_inv_def by (metis diff_is_0_eq le_add1 le_trans length_append take_0 take_append append_Nil2)
  then show ?thesis
    using assms d window_snoc [of xs "durationMillis d"]
    by (simp add: latency_inv_def recordLatencySample_def Let_def window_def [symmetric])
qed

lemma of_nat_eq_u64:
  assumes "n < 2 ^ 64" "m < 2 ^ 64"
  shows "(of_nat n :: u64) = of_nat m \<longleftrightarrow> n = m"
proof
  assume "(of_nat n :: u64) = of_nat m"
  then have "unat (of_nat n :: u64) = unat (of_nat m :: u64)" by (rule arg_cong)
  then show "n = m" using assms unfolding unat_of_nat by simp
qed simp

lemma latency_query:
  assumes "latency_inv xs s" and "length xs < 2 ^ 64 - 1"
  shows "\<exists>s1. getLatencyStats s = Some (if xs = [] then None else computeLatencyStats (window xs), s1) \<and> latency_inv xs s1"
proof (cases "xs = []")
  case True
  then show ?thesis using assms(1) by (simp add: getLatencyStats_def latency_inv_def window_def)
next
  case False
  have ne: "latencySamplesMs s \<noteq> []" using assms(1) False window_facts(2) by (simp add: latency_inv_def)
  have cnt: "latencyMutationCount s = of_nat (length xs)" "latencySamplesMs s = window xs"
    using assms(1) by (simp_all add: latency_inv_def)
  obtain st where st: "computeLatencyStats (window xs) = Some st"
    using computeLatencyStats_sound [of "window xs"] window_facts [of xs] False by auto
  show ?thesis
  proof (cases "latencyMutationCount s = cachedLatencyMutationCount s")
    case True
    have "(of_nat (length xs) :: u64) \<noteq> - 1"
    proof
      assume "(of_nat (length xs) :: u64) = - 1"
      then have "unat (of_nat (length xs) :: u64) = unat (- 1 :: u64)" by simp
      with assms(2) show False by (simp add: unat_of_nat unsigned_minus_1_eq_mask mask_eq_exp_minus_1)
    qed
    then obtain n where n: "n \<le> length xs" "(of_nat n :: u64) = of_nat (length xs)"
      "computeLatencyStats (window (take n xs)) = Some (cachedLatencyStats s)"
      using assms(1) True cnt by (auto simp: latency_inv_def)
    then have "n = length xs" using of_nat_eq_u64 [of n "length xs"] assms(2) by simp
    with n have "computeLatencyStats (window xs) = Some (cachedLatencyStats s)" by simp
    with False ne True assms(1) show ?thesis by (simp add: getLatencyStats_def)
  next
    case fresh: False
    have "latency_inv xs (s\<lparr>cachedLatencyStats := st, cachedLatencyMutationCount := latencyMutationCount s\<rparr>)"
      using assms(1) False st cnt by (auto simp: latency_inv_def)
    with False ne fresh st cnt show ?thesis by (simp add: getLatencyStats_def)
  qed
qed

text \<open>
  C40. The latency report. In any sequence of recorded samples and queries (fewer than
  \<open>2 ^ 64 - 1\<close>) the cached answers are those of sorting afresh the last 512 accepted samples,
  and there is an answer exactly when a sample was accepted; such an answer is always defined
  (no index out of range), counts the samples of the window, and its maximum is the greatest
  of them.
\<close>

theorem latency_cache_invisible:
  assumes "length ops < 2 ^ 64 - 1"
  shows "latency_run ops latency_init = Some (uncached_answers [] ops) \<and>
    (xs \<noteq> [] \<longrightarrow> (\<exists>st. computeLatencyStats (window xs) = Some st \<and> sampleCount st = min 512 (length xs) \<and>
       maxMs st \<in> set (window xs) \<and> (\<forall>v \<in> set (window xs). value_of v \<le> value_of (maxMs st))))"
proof
  have "latency_inv xs s \<Longrightarrow> length xs + length ops < 2 ^ 64 - 1 \<Longrightarrow> latency_run ops s = Some (uncached_answers xs ops)" for xs s
  proof (induction ops arbitrary: xs s)
    case (Cons op ops)
    show ?case
    proof (cases op)
      case (Sample d)
      have "length (accepted d) \<le> 1" by (simp add: accepted_def)
      with Cons.prems Cons.IH [OF latency_inv_record [OF Cons.prems(1), of d]] show ?thesis by (simp add: Sample)
    next
      case Query
      with latency_query [OF Cons.prems(1)] Cons show ?thesis by fastforce
    qed
  qed simp
  from this [of "[]" latency_init] assms show "latency_run ops latency_init = Some (uncached_answers [] ops)"
    by (simp add: latency_inv_def latency_init_def window_def)
  show "xs \<noteq> [] \<longrightarrow> (\<exists>st. computeLatencyStats (window xs) = Some st \<and> sampleCount st = min 512 (length xs) \<and>
       maxMs st \<in> set (window xs) \<and> (\<forall>v \<in> set (window xs). value_of v \<le> value_of (maxMs st)))"
  proof
    assume "xs \<noteq> []"
    moreover have "length (window xs) = min 512 (length xs)" by (simp add: window_def latencySampleWindow_def)
    ultimately show "\<exists>st. computeLatencyStats (window xs) = Some st \<and> sampleCount st = min 512 (length xs) \<and>
       maxMs st \<in> set (window xs) \<and> (\<forall>v \<in> set (window xs). value_of v \<le> value_of (maxMs st))"
      using computeLatencyStats_sound [of "window xs"] window_facts [of xs] by simp
  qed
qed

theorem latency_cache_invisible_witness:
  "latency_run [Query, Sample 2000000, Query, Query] latency_init =
     Some [None, computeLatencyStats [durationMillis 2000000], computeLatencyStats [durationMillis 2000000]]"
proof -
  have "accepted 2000000 = [durationMillis 2000000]"
    by (simp add: accepted_def durationMillis_def of_num_def rnd_F64_numeral)
  then show ?thesis
    using latency_cache_invisible [of "[Query, Sample 2000000, Query, Query]" "[]"]
    by (simp add: window_def latencySampleWindow_def)
qed

end
