(* ===== verification/Streaming.thy ===== *)
theory Streaming
  imports Pipeline_Properties Controller_Events Latency_Stats
begin

text \<open>
  The point-request half of LaserControllerStreaming (src/core/LaserControllerStreaming.cpp):
  \<open>requestPoints\<close> with its clamp, padding, sanitising and post-processing, the request
  metrics, and the host-side buffer estimate. The user's callback is a function of the request
  and the buffer it appends to. \<open>None\<close> is an unspecified \<open>llround\<close>.
\<close>

subsection \<open>State\<close>

record PointRequestMetrics =
  requestRan :: bool
  requestedMinimum :: nat
  requestedMaximum :: nat
  generatedPointCount :: nat
  finalPointCount :: nat
  blankPaddingPointCount :: nat
  clampedPointCount :: nat

type_synonym RequestPointsCallback = "PointFillRequest \<Rightarrow> LaserPoint list \<Rightarrow> LaserPoint list"

record BufferState =
  pointsInBuffer :: int
  totalBufferPoints :: int

record StreamState =
  pipe :: PipelineState
  requestPointsCallback :: "RequestPointsCallback option"
  pointsToSend :: "LaserPoint list"
  pointRequestMetrics :: PointRequestMetrics
  estimatedBufferCapacity :: int
  estimatedBufferSnapshotFullness :: int
  estimatedBufferSnapshotPointRate :: u32
  estimatedBufferSnapshotTick :: int
  estimatedBufferSnapshotValid :: bool
  controllerEvents :: EventState
  latencyRecord :: LatencyState

definition default_metrics :: PointRequestMetrics where
  "default_metrics = \<lparr>requestRan = False, requestedMinimum = 0, requestedMaximum = 0, generatedPointCount = 0,
     finalPointCount = 0, blankPaddingPointCount = 0, clampedPointCount = 0\<rparr>"

definition stream_init :: StreamState where
  "stream_init = \<lparr>pipe = pipeline_init, requestPointsCallback = None, pointsToSend = [],
     pointRequestMetrics = default_metrics, estimatedBufferCapacity = 0, estimatedBufferSnapshotFullness = 0,
     estimatedBufferSnapshotPointRate = 0, estimatedBufferSnapshotTick = 0, estimatedBufferSnapshotValid = False,
     controllerEvents = events_init, latencyRecord = latency_init\<rparr>"

definition getPointRate :: "StreamState \<Rightarrow> u32" where
  "getPointRate s = pointRate (pipe s)"

definition str_setRequestPointsCallback :: "RequestPointsCallback option \<Rightarrow> StreamState \<Rightarrow> StreamState" where
  "str_setRequestPointsCallback callback s = s\<lparr>requestPointsCallback := callback\<rparr>"

subsection \<open>Requesting points\<close>

definition recordPointRequestMetrics ::
    "PointFillRequest \<Rightarrow> bool \<Rightarrow> nat \<Rightarrow> nat \<Rightarrow> StreamState \<Rightarrow> StreamState" where
  "recordPointRequestMetrics request reqRan generated final s =
     s\<lparr>pointRequestMetrics :=
        \<lparr>requestRan = reqRan,
         requestedMinimum = minimumPointsRequired request,
         requestedMaximum = maximumPointsRequired request,
         generatedPointCount = generated,
         finalPointCount = final,
         blankPaddingPointCount =
           (if reqRan \<and> generated < minimumPointsRequired request then minimumPointsRequired request - generated else 0),
         clampedPointCount =
           (if reqRan \<and> maximumPointsRequired request < generated then generated - maximumPointsRequired request else 0)\<rparr>\<rparr>"

definition fitToRequest :: "PointFillRequest \<Rightarrow> LaserPoint list \<Rightarrow> LaserPoint list" where
  "fitToRequest request points =
     (if maximumPointsRequired request < length points then take (maximumPointsRequired request) points
      else if length points < minimumPointsRequired request
      then points @ replicate (minimumPointsRequired request - length points) default_point
      else points)"

definition str_requestPoints :: "PointFillRequest \<Rightarrow> StreamState \<Rightarrow> (bool \<times> StreamState) option" where
  "str_requestPoints request s =
     (case requestPointsCallback s of
        None \<Rightarrow> Some (False, recordPointRequestMetrics request False 0 0 s)
      | Some callback \<Rightarrow>
          let generated = callback request [];
              fitted = fitToRequest request generated
          in do {
            (points, p) \<leftarrow> postProcessOutputPoints (sanitizeLaserPoints fitted) (pipe s);
            Some (True, recordPointRequestMetrics request True (length generated) (length points)
                          (s\<lparr>pointsToSend := points, pipe := p\<rparr>)) })"

subsection \<open>Buffer estimate\<close>

definition clampBufferFullnessToCapacity :: "int \<Rightarrow> int \<Rightarrow> int" where
  "clampBufferFullnessToCapacity points capacity = (if capacity \<le> 0 then 0 else clamp_int points 0 capacity)"

definition buildBufferState :: "int \<Rightarrow> int \<Rightarrow> BufferState option" where
  "buildBufferState capacity points =
     (if capacity \<le> 0 then None
      else Some \<lparr>pointsInBuffer = clampBufferFullnessToCapacity points capacity, totalBufferPoints = capacity\<rparr>)"

text \<open>The value and the \<open>projected\<close> flag.\<close>

definition calculateBufferFullnessFromSnapshot ::
    "int \<Rightarrow> time_point \<Rightarrow> u32 \<Rightarrow> int \<Rightarrow> time_point \<Rightarrow> (int \<times> bool) option" where
  "calculateBufferFullnessFromSnapshot snapshotBufferFullness snapshotTime rate fallbackBufferFullness t = do {
     estimate \<leftarrow> estimateFromSnapshot snapshotBufferFullness snapshotTime rate t;
     Some (if \<not> projected estimate then max 0 fallbackBufferFullness else max 0 (est_bufferFullness estimate),
           projected estimate) }"

text \<open>The outer option is the unspecified cast, the inner one the code's \<open>std::optional\<close>.\<close>

definition str_getBufferState :: "time_point \<Rightarrow> StreamState \<Rightarrow> BufferState option option" where
  "str_getBufferState t s =
     (let capacity = estimatedBufferCapacity s
      in if capacity \<le> 0 then Some None
      else if \<not> estimatedBufferSnapshotValid s then Some (buildBufferState capacity 0)
      else let fullness = estimatedBufferSnapshotFullness s;
               rate = (if estimatedBufferSnapshotPointRate s = 0 then getPointRate s else estimatedBufferSnapshotPointRate s)
           in do {
             (estimate, _) \<leftarrow> calculateBufferFullnessFromSnapshot fullness (estimatedBufferSnapshotTick s) rate fullness t;
             Some (buildBufferState capacity estimate) })"

definition setEstimatedBufferCapacity :: "int \<Rightarrow> StreamState \<Rightarrow> StreamState" where
  "setEstimatedBufferCapacity capacity s = s\<lparr>estimatedBufferCapacity := max 0 capacity\<rparr>"

definition clearEstimatedBufferState :: "StreamState \<Rightarrow> StreamState" where
  "clearEstimatedBufferState s =
     s\<lparr>estimatedBufferSnapshotValid := False, estimatedBufferCapacity := 0, estimatedBufferSnapshotFullness := 0,
        estimatedBufferSnapshotPointRate := 0, estimatedBufferSnapshotTick := 0\<rparr>"

definition updateEstimatedBufferSnapshot :: "int \<Rightarrow> time_point \<Rightarrow> u32 \<Rightarrow> StreamState \<Rightarrow> StreamState" where
  "updateEstimatedBufferSnapshot snapshotBufferFullness snapshotTime pointRateValue s =
     s\<lparr>estimatedBufferSnapshotFullness := max 0 snapshotBufferFullness,
        estimatedBufferSnapshotPointRate := (if pointRateValue = 0 then getPointRate s else pointRateValue),
        estimatedBufferSnapshotTick := snapshotTime,
        estimatedBufferSnapshotValid := True\<rparr>"

definition updateEstimatedBufferSnapshotNow :: "int \<Rightarrow> u32 \<Rightarrow> time_point \<Rightarrow> StreamState \<Rightarrow> StreamState" where
  "updateEstimatedBufferSnapshotNow snapshotBufferFullness pointRateValue t s =
     updateEstimatedBufferSnapshot snapshotBufferFullness t pointRateValue s"

subsection \<open>Lemmas\<close>

lemma fitToRequest_bounds:
  "minimumPointsRequired r \<le> maximumPointsRequired r \<Longrightarrow>
   minimumPointsRequired r \<le> length (fitToRequest r ps) \<and> length (fitToRequest r ps) \<le> maximumPointsRequired r"
  by (auto simp: fitToRequest_def)

lemma blanking_length: "blankingSection ps s = (out, s') \<Longrightarrow> length out = length ps"
proof -
  assume b: "blankingSection ps s = (out, s')"
  obtain a t where t: "applyStartupBlankToOutputPoints ps s = (a, t)" by fastforce
  have "length a = length ps" using startup_frame [OF t] by blast
  then show ?thesis using b blanking_armed [OF _ t] blanking_disarmed [OF _ t] by (cases "armed s") auto
qed

lemma postProcess_length: "postProcessOutputPoints ps s = Some (out, s') \<Longrightarrow> length out = length ps"
  by (auto simp: postProcessOutputPoints_def split: prod.splits dest!: scannerSyncSection_frame blanking_length)

text \<open>The conversion of a duration to points is defined for every rate up to a million seconds.\<close>

lemma millisToPoints_total:
  assumes "0 \<le> q" "q \<le> 2 ^ 30"
  shows "\<exists>n. millisToPoints rate (Fin q) = Some n"
proof (cases "rate = 0 \<or> q \<le> 0")
  case True
  then show ?thesis by (auto simp: millisToPoints_def fle_def)
next
  case False
  define r where "r = uint rate"
  have r: "0 \<le> r" "r < 2 ^ 32" unfolding r_def using uint_lt2p [of rate] by simp_all
  have rr: "(of_int r :: rat) \<le> of_int (2 ^ 32)" using r by (simp only: of_int_le_iff)
  have nr: "of_num F64 (uint rate) = Fin (of_int r)" unfolding r_def [symmetric] by (rule of_num_F64) (use r in simp)
  define a where "a = rndq F64 (q / 1000)"
  have a: "rnd F64 (q / 1000) = Fin a" "0 \<le> a" "a \<le> pow2 21"
    using rnd_F64_range [of "q / 1000" 21] assms by (simp_all add: a_def pow2_def)
  have "a * of_int r \<le> pow2 21 * of_int (2 ^ 32)" using a r rr by (intro mult_mono) auto
  then have p: "a * of_int r \<le> pow2 53" by (simp add: pow2_def)
  define b where "b = rndq F64 (a * of_int r)"
  have b: "rnd F64 (a * of_int r) = Fin b" "0 \<le> b" "b \<le> pow2 53"
    using rnd_F64_range [of "a * of_int r" 53] a r p by (simp_all add: b_def)
  have "0 \<le> round_away b" "round_away b \<le> 2 ^ 53"
    using round_away_range [of 0 b "2 ^ 53"] b by (simp_all add: pow2_def)
  then have "llround (Fin b) = Some (round_away b)" by (simp add: llround_def)
  then show ?thesis using False a b by (simp add: millisToPoints_def Let_def nr fle_def del: llround_def)
qed

subsection \<open>Properties\<close>

lemma fitToRequest_cases:
  "length (fitToRequest r ps) + (if maximumPointsRequired r < length ps then length ps - maximumPointsRequired r else 0) =
   length ps + (if \<not> maximumPointsRequired r < length ps \<and> length ps < minimumPointsRequired r
                then minimumPointsRequired r - length ps else 0)"
  by (auto simp: fitToRequest_def)

lemma postProcess_total:
  assumes "scannerSyncTime p = Fin v" and "0 \<le> v" and "v \<le> 2 ^ 30"
  shows "\<exists>r. postProcessOutputPoints xs p = Some r"
proof -
  define q where "q = rndq F64 (v * rndq F64 (1 / 10))"
  have t: "rnd F64 (1 / 10) = Fin (rndq F64 (1 / 10))" "0 \<le> rndq F64 (1 / 10)" "rndq F64 (1 / 10) \<le> 1"
    using rnd_F64_range [of "1 / 10" 0] by simp_all
  have "v * rndq F64 (1 / 10) \<le> 2 ^ 30 * 1" using assms t by (intro mult_mono) auto
  then have "rnd F64 (v * rndq F64 (1 / 10)) = Fin q \<and> 0 \<le> q \<and> q \<le> pow2 30"
    unfolding q_def by (intro rnd_F64_range) (use assms t in \<open>simp_all add: pow2_def\<close>)
  then have q: "sync_millis (Fin v) = Fin q" "0 \<le> q" "q \<le> 2 ^ 30"
    using assms(2) by (simp_all add: sync_millis_def fmax_def t pow2_def)
  obtain b u where b: "blankingSection xs p = (b, u)" by fastforce
  obtain n where n: "millisToPoints (pointRate u) (Fin q) = Some n" using millisToPoints_total q by blast
  have "scannerSyncTime u = Fin v" using blanking_params [OF b] assms(1) by simp
  then show ?thesis using n by (simp add: postProcessOutputPoints_def b scannerSyncSection_eq q)
qed

lemma str_requestPoints_total:
  assumes "scannerSyncTime (pipe s) = Fin v" and "0 \<le> v" and "v \<le> 2 ^ 30"
  shows "\<exists>r. str_requestPoints request s = Some r"
proof (cases "requestPointsCallback s")
  case (Some callback)
  obtain r where "postProcessOutputPoints (sanitizeLaserPoints (fitToRequest request (callback request []))) (pipe s) = Some r"
    using postProcess_total [OF assms] by blast
  then show ?thesis using Some by (cases r) (auto simp: str_requestPoints_def Let_def)
qed (auto simp: str_requestPoints_def)

text \<open>
  C22. The point-request contract. Whatever a callback appends, a successful request whose
  bounds are ordered leaves between the minimum and the maximum number of points to send; the
  recorded metrics are exact (final = generated + padding - clamped, at most one of the two
  nonzero); and without a callback nothing is sent and the metrics say the request did not
  run.
\<close>

theorem request_points_contract:
  assumes "minimumPointsRequired request \<le> maximumPointsRequired request"
    and "str_requestPoints request s = Some (ok, s')"
  shows "(ok \<longleftrightarrow> requestPointsCallback s \<noteq> None) \<and> requestRan (pointRequestMetrics s') = ok \<and>
    (ok \<longrightarrow> minimumPointsRequired request \<le> length (pointsToSend s') \<and>
      length (pointsToSend s') \<le> maximumPointsRequired request \<and>
      finalPointCount (pointRequestMetrics s') = length (pointsToSend s') \<and>
      finalPointCount (pointRequestMetrics s') + clampedPointCount (pointRequestMetrics s') =
        generatedPointCount (pointRequestMetrics s') + blankPaddingPointCount (pointRequestMetrics s') \<and>
      (clampedPointCount (pointRequestMetrics s') = 0 \<or> blankPaddingPointCount (pointRequestMetrics s') = 0)) \<and>
    (\<not> ok \<longrightarrow> pointsToSend s' = pointsToSend s \<and> pipe s' = pipe s)"
proof (cases "requestPointsCallback s")
  case None
  then show ?thesis using assms(2) by (auto simp: str_requestPoints_def recordPointRequestMetrics_def)
next
  case (Some callback)
  define g where "g = callback request []"
  obtain points p where p: "postProcessOutputPoints (sanitizeLaserPoints (fitToRequest request g)) (pipe s) = Some (points, p)"
    and r: "ok" "s' = recordPointRequestMetrics request True (length g) (length points) (s\<lparr>pointsToSend := points, pipe := p\<rparr>)"
    using assms(2) Some by (auto simp: str_requestPoints_def Let_def g_def bind_eq_Some_conv)
  have l: "length points = length (fitToRequest request g)" using postProcess_length [OF p] by simp
  show ?thesis
    using fitToRequest_bounds [OF assms(1), of g] fitToRequest_cases [of request g] assms(1) Some
    by (auto simp: r l recordPointRequestMetrics_def)
qed

definition stream_request :: PointFillRequest where
  "stream_request = \<lparr>minimumPointsRequired = 4, maximumPointsRequired = 5, estimatedFirstPointRenderTime = 1,
     currentPointIndex = 0, allowShortRead = False\<rparr>"

definition demo_stream :: StreamState where
  "demo_stream = stream_init\<lparr>pipe := slow_pipeline, requestPointsCallback := Some (\<lambda>request out. out @ [lit_point])\<rparr>"

theorem request_points_contract_witness:
  "\<exists>s'. str_requestPoints stream_request demo_stream = Some (True, s') \<and> length (pointsToSend s') \<ge> 4 \<and>
     finalPointCount (pointRequestMetrics s') = length (pointsToSend s')"
proof -
  obtain ok s' where r: "str_requestPoints stream_request demo_stream = Some (ok, s')"
    using str_requestPoints_total [of demo_stream 2 stream_request]
    by (auto simp: demo_stream_def stream_init_def slow_pipeline_def pipeline_init_def)
  have m: "minimumPointsRequired stream_request \<le> maximumPointsRequired stream_request" by (simp add: stream_request_def)
  have ok: "ok" using request_points_contract [OF m r] by (simp add: demo_stream_def)
  with request_points_contract [OF m r] r show ?thesis by (auto simp: stream_request_def)
qed

text \<open>
  A request is always defined for a sensible scanner-sync offset. With a finite,
  non-negative offset of up to \<open>2 ^ 30\<close> tenths of a millisecond, at every point rate,
  \<open>requestPoints\<close> and \<open>postProcessOutputPoints\<close> never reach an unspecified \<open>llround\<close>.
\<close>

theorem request_points_defined:
  assumes "scannerSyncTime (pipe s) = Fin v" and "0 \<le> v" and "v \<le> 2 ^ 30"
  shows "(\<exists>r. str_requestPoints request s = Some r) \<and> (\<exists>r. postProcessOutputPoints ps (pipe s) = Some r)"
  using postProcess_total [OF assms] str_requestPoints_total [OF assms] by blast

theorem request_points_defined_witness:
  "\<exists>r. str_requestPoints stream_request stream_init = Some r"
  using request_points_defined [of stream_init 2 stream_request] by (simp add: stream_init_def pipeline_init_def)

text \<open>
  The published buffer state stays inside the buffer. Whenever \<open>getBufferState\<close>
  returns a state, its total is the configured positive capacity and its fullness is between
  0 and the total; it returns nothing exactly when no capacity is configured, and before the
  first snapshot the buffer is empty.
\<close>

theorem buffer_state_bounded:
  assumes "str_getBufferState t s = Some res"
  shows "(res = None \<longleftrightarrow> estimatedBufferCapacity s \<le> 0) \<and>
    (\<forall>b. res = Some b \<longrightarrow> totalBufferPoints b = estimatedBufferCapacity s \<and> 0 \<le> pointsInBuffer b \<and>
       pointsInBuffer b \<le> totalBufferPoints b \<and> (\<not> estimatedBufferSnapshotValid s \<longrightarrow> pointsInBuffer b = 0))"
  using assms
  by (auto simp: str_getBufferState_def buildBufferState_def clampBufferFullnessToCapacity_def clamp_int_def Let_def
      bind_eq_Some_conv split: if_splits)

theorem buffer_state_bounded_witness:
  "str_getBufferState 7 (updateEstimatedBufferSnapshot 500 7 0 (setEstimatedBufferCapacity 1800 stream_init)) =
     Some (Some \<lparr>pointsInBuffer = 500, totalBufferPoints = 1800\<rparr>) \<and> (0 :: int) \<le> 500 \<and> (500 :: int) \<le> 1800"
proof -
  have e: "estimateFromSnapshot 500 7 30000 7 = Some \<lparr>est_bufferFullness = 500, projected = False\<rparr>"
    by (rule estimate_not_projected) simp
  let ?s = "updateEstimatedBufferSnapshot 500 7 0 (setEstimatedBufferCapacity 1800 stream_init)"
  have f: "estimatedBufferCapacity ?s = 1800" "estimatedBufferSnapshotValid ?s" "estimatedBufferSnapshotFullness ?s = 500"
    "estimatedBufferSnapshotPointRate ?s = 30000" "estimatedBufferSnapshotTick ?s = 7"
    by (simp_all add: updateEstimatedBufferSnapshot_def setEstimatedBufferCapacity_def stream_init_def
        pipeline_init_def getPointRate_def)
  have b: "str_getBufferState 7 ?s = Some (Some \<lparr>pointsInBuffer = 500, totalBufferPoints = 1800\<rparr>)"
    by (simp add: str_getBufferState_def f calculateBufferFullnessFromSnapshot_def e buildBufferState_def
        clampBufferFullnessToCapacity_def clamp_int_def Let_def)
  from buffer_state_bounded [OF b] b show ?thesis by simp
qed

end
