(* ===== verification/Point_Framer.thy ===== *)
theory Point_Framer
  imports Streaming
begin

text \<open>
  The point-to-frame adapter (src/core/PointStreamFramer.cpp): points pulled from the callback
  accumulate, a natural boundary is searched (a blanked point near the anchor, or a dark run
  that returns to the first lit point and moves on), and frames are cut there or, without
  one, at the nominal size; one prepared frame is kept in reserve. \<open>None\<close> is an undefined
  cast from float to \<open>std::size_t\<close>.
\<close>

subsection \<open>State\<close>

record FramerState =
  accumulator :: "LaserPoint list"
  preparedFrames :: "LaserPoint list list"
  preparedPointCount :: nat
  anchorX :: fp
  anchorY :: fp
  anchorSet :: bool
  nominalFrameSize :: nat
  maxFrameSize :: nat
  virtualBufferTarget :: nat
  transportBufferedPoints :: nat
  consecutiveForceEmits :: nat
  totalPointsConsumed :: u64

definition framer_init :: FramerState where
  "framer_init = \<lparr>accumulator = [], preparedFrames = [], preparedPointCount = 0, anchorX = Fin 0, anchorY = Fin 0,
     anchorSet = False, nominalFrameSize = 300, maxFrameSize = 4095, virtualBufferTarget = 0,
     transportBufferedPoints = 0, consecutiveForceEmits = 0, totalPointsConsumed = 0\<rparr>"

definition liberationMinBlankRunPoints :: nat where "liberationMinBlankRunPoints = 4"
definition liberationHomeThreshold :: fp where "liberationHomeThreshold = rnd F32 (3 / 100)"
definition liberationTransitionDistanceThreshold :: fp where
  "liberationTransitionDistanceThreshold = rnd F32 (15 / 100)"
definition liberationBoundaryScoreThreshold :: fp where "liberationBoundaryScoreThreshold = rnd F32 (55 / 100)"
definition liberationBlankRunScoreTarget :: fp where "liberationBlankRunScoreTarget = Fin 64"
definition liberationHomeDwellScoreTarget :: fp where "liberationHomeDwellScoreTarget = Fin 8"
definition distanceThreshold :: fp where "distanceThreshold = rnd F32 (3 / 10)"
definition blankThreshold :: fp where "blankThreshold = rnd F32 (1 / 100)"
definition searchWindowMinFactor :: fp where "searchWindowMinFactor = Fin (1 / 2)"
definition forceEmitFallbackCount :: nat where "forceEmitFallbackCount = 3"
definition preparedFrameReserveCount :: nat where "preparedFrameReserveCount = 1"
definition flt_max :: fp where "flt_max = Fin (16777215 * 2 ^ 104)"

definition distanceBetween :: "LaserPoint \<Rightarrow> LaserPoint \<Rightarrow> fp" where
  "distanceBetween a b = planarDistance (fsub F32 (pt_x a) (pt_x b)) (fsub F32 (pt_y a) (pt_y b))"

definition isBlanked :: "LaserPoint \<Rightarrow> bool" where
  "isBlanked p = flt (fadd F32 (fadd F32 (pt_r p) (pt_g p)) (pt_b p)) blankThreshold"

definition unit_clamp :: "fp \<Rightarrow> fp" where
  "unit_clamp v = fclamp v (Fin 0) (Fin 1)"

definition forgivingSizeScore :: "nat \<Rightarrow> nat \<Rightarrow> fp" where
  "forgivingSizeScore candidateIndex nominal =
     (if nominal = 0 then Fin 0
      else let sizeRatio = fdiv F32 (of_num F32 (int candidateIndex)) (of_num F32 (int nominal))
           in fsub F32 (Fin 1) (unit_clamp (fmul F32 (fabs (fsub F32 sizeRatio (Fin 1))) (rnd F32 (35 / 100)))))"

subsection \<open>Boundary search\<close>

text \<open>The loop-closure scan: the best blanked point near the anchor in the search window.\<close>

definition loopCandidate :: "FramerState \<Rightarrow> nat \<Rightarrow> nat \<times> fp \<Rightarrow> nat \<times> fp" where
  "loopCandidate s i best =
     (let acc = accumulator s; p = acc ! i
      in if \<not> isBlanked p then best
      else let dist = planarDistance (fsub F32 (pt_x p) (anchorX s)) (fsub F32 (pt_y p) (anchorY s));
               positionScore = fsub F32 (Fin 1) (unit_clamp (fdiv F32 dist distanceThreshold))
           in if fle positionScore (Fin 0) then best
           else let sizeRatio = fdiv F32 (of_num F32 (int i)) (of_num F32 (int (nominalFrameSize s)));
                    sizeScore = fsub F32 (Fin 1) (fabs (fsub F32 sizeRatio (Fin 1)));
                    gapEndBonus = (if i + 1 < length acc \<and> \<not> isBlanked (acc ! (i + 1)) then Fin 1 else Fin 0);
                    score = fadd F32 (fadd F32 (fmul F32 positionScore (rnd F32 (6 / 10)))
                                               (fmul F32 sizeScore (rnd F32 (3 / 10))))
                                     (fmul F32 gapEndBonus (rnd F32 (1 / 10)))
                in if flt (snd best) score then (i + 1, score) else best)"

definition bestLoop :: "FramerState \<Rightarrow> nat \<Rightarrow> nat \<Rightarrow> nat \<times> fp" where
  "bestLoop s windowStart windowEnd = fold (loopCandidate s) [windowStart..<windowEnd] (0, Fin (-1))"

definition closestToHome :: "LaserPoint list \<Rightarrow> LaserPoint \<Rightarrow> nat \<Rightarrow> nat \<Rightarrow> nat \<times> fp" where
  "closestToHome acc home runStart runEnd =
     fold (\<lambda>i (idx, d). let e = distanceBetween (acc ! i) home in if fle e d then (i, e) else (idx, d))
       [runStart..<runEnd] (runStart, flt_max)"

fun firstNearHome :: "LaserPoint list \<Rightarrow> LaserPoint \<Rightarrow> nat \<Rightarrow> nat \<Rightarrow> nat" where
  "firstNearHome acc home runStart 0 = 0"
| "firstNearHome acc home runStart (Suc i) =
     (if runStart < Suc i \<and> fle (distanceBetween (acc ! i) home) liberationHomeThreshold
      then firstNearHome acc home runStart i else Suc i)"

function lastNearHome :: "LaserPoint list \<Rightarrow> LaserPoint \<Rightarrow> nat \<Rightarrow> nat \<Rightarrow> nat" where
  "lastNearHome acc home runEnd i =
     (if i + 1 < runEnd \<and> fle (distanceBetween (acc ! (i + 1)) home) liberationHomeThreshold
      then lastNearHome acc home runEnd (i + 1) else i)"
  by pat_completeness auto
termination
  by (relation "measure (\<lambda>(acc, home, runEnd, i). runEnd - i)") auto

declare lastNearHome.simps [simp del]

text \<open>What one dark run contributes: a split before the outgoing travel, when its score wins.\<close>

definition transitionCandidate ::
    "FramerState \<Rightarrow> LaserPoint \<Rightarrow> nat \<Rightarrow> nat \<Rightarrow> nat \<Rightarrow> nat \<Rightarrow> nat \<times> fp \<Rightarrow> nat \<times> fp" where
  "transitionCandidate s frameHome windowStart windowEnd runStart runEnd best =
     (let acc = accumulator s;
          runLength = runEnd - runStart;
          overlapsSearchWindow = (windowStart < runEnd \<and> runStart < windowEnd);
          hasFollowingLit = (runEnd < length acc \<and> \<not> isBlanked (acc ! runEnd))
      in if overlapsSearchWindow \<and> hasFollowingLit \<and> liberationMinBlankRunPoints \<le> runLength
      then let (closestHomeIndex, closestHomeDistance) = closestToHome acc frameHome runStart runEnd
           in if fle closestHomeDistance liberationHomeThreshold
           then let firstNear = firstNearHome acc frameHome runStart closestHomeIndex;
                    lastNear = lastNearHome acc frameHome runEnd closestHomeIndex;
                    splitIndex = lastNear;
                    nearHomePointCount = lastNear - firstNear + 1;
                    returnedToHome = (runStart < firstNear);
                    runTailDistance = distanceBetween (acc ! (runEnd - 1)) frameHome;
                    nextLitDistance = distanceBetween (acc ! runEnd) frameHome;
                    departureDistance = fmax runTailDistance nextLitDistance
                in if windowStart \<le> splitIndex \<and> splitIndex < windowEnd \<and> 0 < splitIndex \<and> lastNear + 1 < runEnd \<and>
                      fle liberationTransitionDistanceThreshold departureDistance
                then let homeScore = fsub F32 (Fin 1) (unit_clamp (fdiv F32 closestHomeDistance liberationHomeThreshold));
                         travelScore = unit_clamp (fdiv F32 departureDistance liberationTransitionDistanceThreshold);
                         sizeScore = forgivingSizeScore splitIndex (nominalFrameSize s);
                         runLengthScore = unit_clamp (fdiv F32 (of_num F32 (int runLength)) liberationBlankRunScoreTarget);
                         homeDwellScore = unit_clamp (fdiv F32 (of_num F32 (int nearHomePointCount)) liberationHomeDwellScoreTarget);
                         returnScore = (if returnedToHome then Fin 1 else Fin 0);
                         score = fadd F32 (fadd F32 (fadd F32 (fadd F32 (fadd F32
                                   (fmul F32 homeScore (Fin (1 / 4)))
                                   (fmul F32 travelScore (rnd F32 (2 / 10))))
                                   (fmul F32 sizeScore (rnd F32 (2 / 10))))
                                   (fmul F32 runLengthScore (rnd F32 (1 / 10))))
                                   (fmul F32 homeDwellScore (rnd F32 (15 / 100))))
                                   (fmul F32 returnScore (rnd F32 (1 / 10)))
                     in if fle liberationBoundaryScoreThreshold score \<and> flt (snd best) score
                        then (splitIndex, score) else best
                else best
           else best
      else best)"

function scanRuns :: "FramerState \<Rightarrow> LaserPoint \<Rightarrow> nat \<Rightarrow> nat \<Rightarrow> nat \<Rightarrow> nat \<times> fp \<Rightarrow> nat \<times> fp" where
  "scanRuns s frameHome windowStart windowEnd runStart best =
     (if windowEnd \<le> runStart then best
      else if \<not> isBlanked (accumulator s ! runStart)
      then scanRuns s frameHome windowStart windowEnd (runStart + 1) best
      else let runEnd = runStart + 1 + length (takeWhile isBlanked (drop (runStart + 1) (accumulator s)))
           in scanRuns s frameHome windowStart windowEnd runEnd
                (transitionCandidate s frameHome windowStart windowEnd runStart runEnd best))"
  by pat_completeness auto
termination
  by (relation "measure (\<lambda>(s, frameHome, windowStart, windowEnd, runStart, best). windowEnd - runStart)") auto

declare scanRuns.simps [simp del]

definition bestTransition :: "FramerState \<Rightarrow> nat \<Rightarrow> nat \<Rightarrow> nat \<times> fp" where
  "bestTransition s windowStart windowEnd =
     (case find (\<lambda>i. \<not> isBlanked (accumulator s ! i)) [0..<windowEnd] of
        None \<Rightarrow> (0, Fin (-1))
      | Some firstLitIndex \<Rightarrow>
          scanRuns s (accumulator s ! firstLitIndex) windowStart windowEnd 0 (0, Fin (-1)))"

definition findNaturalBoundary :: "FramerState \<Rightarrow> nat option" where
  "findNaturalBoundary s =
     (if length (accumulator s) < 2 then Some 0
      else let minFactor = (if forceEmitFallbackCount \<le> consecutiveForceEmits s then rnd F32 (9 / 10) else searchWindowMinFactor)
      in do {
        windowStart \<leftarrow> cast_size (fmul F32 (of_num F32 (int (nominalFrameSize s))) minFactor);
        let windowEnd = min (maxFrameSize s) (length (accumulator s));
        if windowEnd \<le> windowStart then Some 0
        else
          let (bestLoopCandidate, bestLoopScore) = bestLoop s windowStart windowEnd;
              (bestTransitionCandidate, bestTransitionScore) = bestTransition s windowStart windowEnd;
              hasLoopBoundary = (0 < bestLoopCandidate \<and> fle (rnd F32 (3 / 10)) bestLoopScore);
              hasTransitionBoundary =
                (0 < bestTransitionCandidate \<and> fle liberationBoundaryScoreThreshold bestTransitionScore)
          in if hasLoopBoundary \<and> hasTransitionBoundary
             then (if bestLoopCandidate < bestTransitionCandidate then Some bestLoopCandidate
                   else if bestTransitionCandidate < bestLoopCandidate \<and>
                           fle (fsub F32 bestLoopScore (rnd F32 (15 / 100))) bestTransitionScore
                   then Some bestTransitionCandidate
                   else Some bestLoopCandidate)
             else if hasTransitionBoundary then Some bestTransitionCandidate
             else if hasLoopBoundary then Some bestLoopCandidate
             else Some 0 })"

subsection \<open>Operations\<close>

definition setNominalFrameSize :: "nat \<Rightarrow> FramerState \<Rightarrow> FramerState" where
  "setNominalFrameSize n s = s\<lparr>nominalFrameSize := max n 1\<rparr>"

definition setMaxFrameSize :: "nat \<Rightarrow> FramerState \<Rightarrow> FramerState" where
  "setMaxFrameSize n s = s\<lparr>maxFrameSize := max n 1\<rparr>"

definition setVirtualBufferTarget :: "nat \<Rightarrow> FramerState \<Rightarrow> FramerState" where
  "setVirtualBufferTarget n s = s\<lparr>virtualBufferTarget := n\<rparr>"

definition setTransportBufferedPoints :: "nat \<Rightarrow> FramerState \<Rightarrow> FramerState" where
  "setTransportBufferedPoints n s = s\<lparr>transportBufferedPoints := n\<rparr>"

definition bufferedPointCount :: "FramerState \<Rightarrow> nat" where
  "bufferedPointCount s = length (accumulator s) + preparedPointCount s"

definition framer_reset :: "FramerState \<Rightarrow> FramerState" where
  "framer_reset s = s\<lparr>accumulator := [], preparedFrames := [], preparedPointCount := 0, anchorX := Fin 0, anchorY := Fin 0,
     anchorSet := False, virtualBufferTarget := 0, transportBufferedPoints := 0, consecutiveForceEmits := 0,
     totalPointsConsumed := 0\<rparr>"

definition pullPoints :: "RequestPointsCallback \<Rightarrow> PointFillRequest \<Rightarrow> nat \<Rightarrow> FramerState \<Rightarrow> FramerState" where
  "pullPoints callback templateRequest n s =
     (if n = 0 then s
      else let req = templateRequest\<lparr>minimumPointsRequired := n, maximumPointsRequired := n, allowShortRead := True,
                       currentPointIndex := currentPointIndex templateRequest + totalPointsConsumed s\<rparr>;
               batch = sanitizeLaserPoints (callback req [])
           in s\<lparr>accumulator := accumulator s @ batch,
                totalPointsConsumed := totalPointsConsumed s + of_nat (length batch)\<rparr>)"

text \<open>Cut the first \<open>n\<close> points and move the anchor to what follows.\<close>

definition cutFrame :: "nat \<Rightarrow> FramerState \<Rightarrow> LaserPoint list \<times> FramerState" where
  "cutFrame n s =
     (let rest = drop n (accumulator s);
          s1 = s\<lparr>accumulator := rest\<rparr>
      in (take n (accumulator s),
          if rest \<noteq> [] then s1\<lparr>anchorX := pt_x (hd rest), anchorY := pt_y (hd rest)\<rparr> else s1\<lparr>anchorSet := False\<rparr>))"

definition extractOneFrame :: "FramerState \<Rightarrow> (bool \<times> LaserPoint list \<times> FramerState) option" where
  "extractOneFrame s0 =
     (if accumulator s0 = [] then Some (False, [], s0)
      else let p = hd (accumulator s0);
               s = (if \<not> anchorSet s0 then s0\<lparr>anchorX := pt_x p, anchorY := pt_y p, anchorSet := True\<rparr> else s0)
      in do {
        splitIndex \<leftarrow> findNaturalBoundary s;
        if 0 < splitIndex
        then let (framePoints, s1) = cutFrame splitIndex s
             in Some (framePoints \<noteq> [], framePoints, s1\<lparr>consecutiveForceEmits := 0\<rparr>)
        else let (framePoints, s1) = cutFrame (min (nominalFrameSize s) (length (accumulator s))) s
             in Some (framePoints \<noteq> [], framePoints, s1\<lparr>consecutiveForceEmits := consecutiveForceEmits s1 + 1\<rparr>) })"

definition lookaheadTarget :: "FramerState \<Rightarrow> nat option" where
  "lookaheadTarget s =
     (if forceEmitFallbackCount \<le> consecutiveForceEmits s
      then map_option (\<lambda>k. min k (maxFrameSize s))
             (cast_size (fmul F32 (of_num F32 (int (nominalFrameSize s))) (rnd F32 (11 / 10))))
      else Some (min (nominalFrameSize s * 4) (maxFrameSize s)))"

definition pullCountFor :: "nat \<Rightarrow> FramerState \<Rightarrow> nat" where
  "pullCountFor lookahead s =
     (let accumulatorDeficit = (if length (accumulator s) < lookahead then lookahead - length (accumulator s) else 0);
          totalBuffered = transportBufferedPoints s + preparedPointCount s + length (accumulator s);
          desiredBufferedPoints = max (virtualBufferTarget s) lookahead;
          backlogDeficit = (if totalBuffered < desiredBufferedPoints then desiredBufferedPoints - totalBuffered else 0)
      in max accumulatorDeficit backlogDeficit)"

text \<open>One pass of the loop of \<open>ensurePreparedFrames\<close>; the flag says whether a frame was prepared.\<close>

definition prepareOne :: "RequestPointsCallback \<Rightarrow> PointFillRequest \<Rightarrow> FramerState \<Rightarrow> (bool \<times> FramerState) option" where
  "prepareOne callback templateRequest s = do {
     lookahead \<leftarrow> lookaheadTarget s;
     let pullCount = pullCountFor lookahead s;
     let s1 = (if 0 < pullCount then pullPoints callback templateRequest pullCount s else s);
     if accumulator s1 = [] then Some (False, s1)
     else do {
       (ok, framePoints, s2) \<leftarrow> extractOneFrame s1;
       if \<not> ok then Some (False, s2)
       else Some (True, s2\<lparr>preparedPointCount := preparedPointCount s2 + length framePoints,
                            preparedFrames := preparedFrames s2 @ [framePoints]\<rparr>) } }"

fun prepareFrames :: "nat \<Rightarrow> RequestPointsCallback \<Rightarrow> PointFillRequest \<Rightarrow> FramerState \<Rightarrow> FramerState option" where
  "prepareFrames 0 callback templateRequest s = Some s"
| "prepareFrames (Suc n) callback templateRequest s = do {
     (ok, s1) \<leftarrow> prepareOne callback templateRequest s;
     if ok then prepareFrames n callback templateRequest s1 else Some s1 }"

text \<open>Every pass either stops the loop or adds one prepared frame, so the passes are counted by
  the frames still missing.\<close>

definition ensurePreparedFrames ::
    "RequestPointsCallback option \<Rightarrow> PointFillRequest \<Rightarrow> nat \<Rightarrow> FramerState \<Rightarrow> FramerState option" where
  "ensurePreparedFrames callback templateRequest desiredReadyFrames s =
     (case callback of None \<Rightarrow> Some s
      | Some cb \<Rightarrow> prepareFrames (desiredReadyFrames - length (preparedFrames s)) cb templateRequest s)"

definition extractFrame ::
    "RequestPointsCallback option \<Rightarrow> PointFillRequest \<Rightarrow> FramerState \<Rightarrow> (bool \<times> Frame option \<times> FramerState) option" where
  "extractFrame callback templateRequest s =
     (case callback of None \<Rightarrow> Some (False, None, s)
      | Some cb \<Rightarrow> do {
          s1 \<leftarrow> ensurePreparedFrames callback templateRequest (1 + preparedFrameReserveCount) s;
          (case preparedFrames s1 of [] \<Rightarrow> Some (False, None, s1)
           | points # rest \<Rightarrow>
               Some (points \<noteq> [], Some (outputFrameOf points 0),
                     s1\<lparr>preparedPointCount := size_sub (preparedPointCount s1) (length points), preparedFrames := rest\<rparr>)) })"

subsection \<open>The boundary is inside the window\<close>

lemma fold_invariant_list: "P a \<Longrightarrow> (\<And>x a. x \<in> set xs \<Longrightarrow> P a \<Longrightarrow> P (f x a)) \<Longrightarrow> P (fold f xs a)"
  by (induction xs arbitrary: a) auto

lemma bestLoop_bound: "fst (bestLoop s a e) \<le> e"
  unfolding bestLoop_def by (rule fold_invariant_list) (auto simp: loopCandidate_def Let_def)

lemma transitionCandidate_bound:
  "fst best \<le> e \<Longrightarrow> fst (transitionCandidate s home a e rs re best) \<le> e"
  by (simp add: transitionCandidate_def Let_def split: prod.splits)

lemma scanRuns_bound: "fst best \<le> e \<Longrightarrow> fst (scanRuns s home a e i best) \<le> e"
proof (induction s home a e i best rule: scanRuns.induct)
  case (1 s home a e i best)
  then show ?case
    by (subst scanRuns.simps) (auto simp: Let_def intro: transitionCandidate_bound)
qed

lemma bestTransition_bound: "fst (bestTransition s a e) \<le> e"
  by (simp add: bestTransition_def scanRuns_bound split: option.splits)

lemma findNaturalBoundary_bound:
  "findNaturalBoundary s = Some k \<Longrightarrow> k \<le> maxFrameSize s \<and> k \<le> length (accumulator s)"
proof -
  assume f: "findNaturalBoundary s = Some k"
  let ?e = "min (maxFrameSize s) (length (accumulator s))"
  have "k = 0 \<or> (\<exists>a. k = fst (bestLoop s a ?e) \<or> k = fst (bestTransition s a ?e))"
    using f by (auto simp: findNaturalBoundary_def Let_def bind_eq_Some_conv split: if_splits prod.splits) (metis fst_conv)+
  then have "k \<le> ?e" using bestLoop_bound [of s _ ?e] bestTransition_bound [of s _ ?e] by auto
  then show ?thesis by simp
qed

lemma of_num_F32_nat: "n < 2 ^ 24 \<Longrightarrow> of_num F32 (int n) = Fin (of_nat n)"
  using of_num_small [of "int n"] by simp

lemma cast_scaled:
  assumes "n \<le> 2 ^ 23" "0 \<le> c" "c \<le> 3 / 2"
  shows "\<exists>k. cast_size (fmul F32 (of_num F32 (int n)) (Fin c)) = Some k"
proof -
  have "(of_nat n :: rat) \<le> of_nat (2 ^ 23)" using assms(1) by (simp only: of_nat_le_iff)
  then have n: "(of_nat n :: rat) \<le> 2 ^ 23" by simp
  have "of_nat n * c \<le> 2 ^ 23 * (3 / 2)" using n assms by (intro mult_mono) auto
  then have "0 \<le> of_nat n * c \<and> of_nat n * c \<le> of_int (2 ^ 24 - 1)" using assms by simp
  then have r: "rnd F32 (of_nat n * c) = Fin (rndq F32 (of_nat n * c))" "0 \<le> rndq F32 (of_nat n * c)"
    "rndq F32 (of_nat n * c) \<le> of_int (2 ^ 24 - 1)"
    using rnd_to_int_range [of "of_nat n * c" "2 ^ 24 - 1"] by auto
  then have "0 \<le> \<lfloor>rndq F32 (of_nat n * c)\<rfloor>" "\<lfloor>rndq F32 (of_nat n * c)\<rfloor> \<le> 2 ^ 24 - 1"
    by (simp_all add: floor_le_iff)
  then show ?thesis using r assms(1) by (simp add: of_num_F32_nat cast_size_def trunc_rat_def)
qed

lemma factor_values: "\<exists>c. rnd F32 (9 / 10) = Fin c \<and> 0 \<le> c \<and> c \<le> 3 / 2" "\<exists>c. rnd F32 (11 / 10) = Fin c \<and> 0 \<le> c \<and> c \<le> 3 / 2"
proof -
  have v: "rnd F32 (9 / 10) = Fin (7549747 / 8388608)" "rnd F32 (11 / 10) = Fin (9227469 / 8388608)" by code_simp+
  show "\<exists>c. rnd F32 (9 / 10) = Fin c \<and> 0 \<le> c \<and> c \<le> 3 / 2"
    by (rule exI [of _ "7549747 / 8388608"]) (simp add: v)
  show "\<exists>c. rnd F32 (11 / 10) = Fin c \<and> 0 \<le> c \<and> c \<le> 3 / 2"
    by (rule exI [of _ "9227469 / 8388608"]) (simp add: v)
qed

lemma findNaturalBoundary_total: "nominalFrameSize s \<le> 2 ^ 23 \<Longrightarrow> \<exists>k. findNaturalBoundary s = Some k"
proof -
  assume n: "nominalFrameSize s \<le> 2 ^ 23"
  obtain c where c: "(if forceEmitFallbackCount \<le> consecutiveForceEmits s then rnd F32 (9 / 10) else searchWindowMinFactor) = Fin c"
    "0 \<le> c" "c \<le> 3 / 2"
  proof (cases "forceEmitFallbackCount \<le> consecutiveForceEmits s")
    case True
    then show ?thesis using factor_values(1) that by auto
  next
    case False
    then show ?thesis by (intro that [of "1 / 2"]) (simp_all add: searchWindowMinFactor_def)
  qed
  obtain k where "cast_size (fmul F32 (of_num F32 (int (nominalFrameSize s))) (Fin c)) = Some k"
    using cast_scaled [OF n c(2,3)] by blast
  then show ?thesis
    by (simp add: findNaturalBoundary_def Let_def c(1) del: fmul.simps split: prod.splits)
qed

lemma lookaheadTarget_total: "nominalFrameSize s \<le> 2 ^ 23 \<Longrightarrow> \<exists>k. lookaheadTarget s = Some k"
proof -
  assume n: "nominalFrameSize s \<le> 2 ^ 23"
  obtain c where c: "rnd F32 (11 / 10) = Fin c" "0 \<le> c" "c \<le> 3 / 2" using factor_values(2) by blast
  show ?thesis using cast_scaled [OF n c(2,3)] by (auto simp: lookaheadTarget_def c(1) simp del: fmul.simps)
qed

subsection \<open>No point is lost, repeated or reordered\<close>

definition stream_of :: "FramerState \<Rightarrow> LaserPoint list" where
  "stream_of s = concat (preparedFrames s) @ accumulator s"

definition framer_inv :: "nat \<Rightarrow> FramerState \<Rightarrow> bool" where
  "framer_inv K s \<longleftrightarrow> preparedPointCount s = length (concat (preparedFrames s)) \<and>
     (\<forall>f \<in> set (preparedFrames s). f \<noteq> [] \<and> length f \<le> K) \<and>
     1 \<le> nominalFrameSize s \<and> nominalFrameSize s \<le> K \<and> maxFrameSize s \<le> K \<and> nominalFrameSize s \<le> 2 ^ 23"

text \<open>The batches a callback delivers, each asked for with the index that continues the stream.\<close>

fun pulls_ok :: "RequestPointsCallback \<Rightarrow> PointFillRequest \<Rightarrow> u64 \<Rightarrow> LaserPoint list list \<Rightarrow> bool" where
  "pulls_ok callback tmpl consumed [] = True"
| "pulls_ok callback tmpl consumed (b # bs) =
     ((\<exists>n > 0. b = sanitizeLaserPoints (callback (tmpl\<lparr>minimumPointsRequired := n, maximumPointsRequired := n,
          allowShortRead := True, currentPointIndex := currentPointIndex tmpl + consumed\<rparr>) [])) \<and>
      pulls_ok callback tmpl (consumed + of_nat (length b)) bs)"

lemma pulls_ok_append:
  "pulls_ok callback tmpl c (bs @ bs') \<longleftrightarrow> pulls_ok callback tmpl c bs \<and> pulls_ok callback tmpl (c + of_nat (length (concat bs))) bs'"
  by (induction bs arbitrary: c) (auto simp: algebra_simps)

lemma cutFrame_spec:
  assumes "cutFrame n s = (ps, s')"
  shows "ps @ accumulator s' = accumulator s \<and> ps = take n (accumulator s) \<and> preparedFrames s' = preparedFrames s \<and>
     preparedPointCount s' = preparedPointCount s \<and> nominalFrameSize s' = nominalFrameSize s \<and>
     maxFrameSize s' = maxFrameSize s \<and> totalPointsConsumed s' = totalPointsConsumed s"
  using assms by (auto simp: cutFrame_def Let_def split: if_splits)

lemma extractOneFrame_spec:
  assumes "1 \<le> nominalFrameSize s" "nominalFrameSize s \<le> 2 ^ 23" "accumulator s \<noteq> []"
  shows "\<exists>ps s'. extractOneFrame s = Some (True, ps, s') \<and> ps \<noteq> [] \<and> length ps \<le> max (nominalFrameSize s) (maxFrameSize s) \<and>
     ps @ accumulator s' = accumulator s \<and> preparedFrames s' = preparedFrames s \<and>
     preparedPointCount s' = preparedPointCount s \<and> nominalFrameSize s' = nominalFrameSize s \<and>
     maxFrameSize s' = maxFrameSize s \<and> totalPointsConsumed s' = totalPointsConsumed s"
proof -
  define s1 where "s1 = (if \<not> anchorSet s then s\<lparr>anchorX := pt_x (hd (accumulator s)), anchorY := pt_y (hd (accumulator s)),
      anchorSet := True\<rparr> else s)"
  have s1: "accumulator s1 = accumulator s" "preparedFrames s1 = preparedFrames s" "preparedPointCount s1 = preparedPointCount s"
    "nominalFrameSize s1 = nominalFrameSize s" "maxFrameSize s1 = maxFrameSize s" "totalPointsConsumed s1 = totalPointsConsumed s"
    by (simp_all add: s1_def)
  obtain k where k: "findNaturalBoundary s1 = Some k" using findNaturalBoundary_total [of s1] assms(2) s1 by auto
  have kb: "k \<le> maxFrameSize s" using findNaturalBoundary_bound [OF k] s1 by simp
  define n where "n = (if 0 < k then k else min (nominalFrameSize s) (length (accumulator s)))"
  have n: "0 < n" "n \<le> max (nominalFrameSize s) (maxFrameSize s)" using assms kb by (auto simp: n_def)
  obtain ps s2 where c: "cutFrame n s1 = (ps, s2)" by fastforce
  note C = cutFrame_spec [OF c]
  have ps: "ps \<noteq> []" "length ps \<le> n" using C assms(3) n(1) by (auto simp: s1)
  have "extractOneFrame s = Some (True, ps, s2\<lparr>consecutiveForceEmits := if 0 < k then 0 else consecutiveForceEmits s2 + 1\<rparr>)"
    using assms(3) c ps(1) k by (auto simp: extractOneFrame_def Let_def s1_def [symmetric] n_def s1)
  then show ?thesis using C ps n(2) s1 by auto
qed

lemma pullPoints_spec:
  assumes "0 < n"
  shows "\<exists>b. accumulator (pullPoints callback tmpl n s) = accumulator s @ b \<and> pulls_ok callback tmpl (totalPointsConsumed s) [b] \<and>
     totalPointsConsumed (pullPoints callback tmpl n s) = totalPointsConsumed s + of_nat (length b) \<and>
     preparedFrames (pullPoints callback tmpl n s) = preparedFrames s \<and>
     preparedPointCount (pullPoints callback tmpl n s) = preparedPointCount s \<and>
     nominalFrameSize (pullPoints callback tmpl n s) = nominalFrameSize s \<and> maxFrameSize (pullPoints callback tmpl n s) = maxFrameSize s"
  using assms by (auto simp: pullPoints_def Let_def)

definition pass_result :: "nat \<Rightarrow> RequestPointsCallback \<Rightarrow> PointFillRequest \<Rightarrow> FramerState \<Rightarrow> FramerState \<Rightarrow> bool" where
  "pass_result K callback tmpl s s' \<longleftrightarrow> framer_inv K s' \<and> (\<exists>bs. pulls_ok callback tmpl (totalPointsConsumed s) bs \<and>
     stream_of s' = stream_of s @ concat bs \<and> totalPointsConsumed s' = totalPointsConsumed s + of_nat (length (concat bs)))"

lemma pass_result_trans:
  assumes "pass_result K cb t s s1" "pass_result K cb t s1 s2"
  shows "pass_result K cb t s s2"
proof -
  obtain bs where b: "pulls_ok cb t (totalPointsConsumed s) bs" "stream_of s1 = stream_of s @ concat bs"
    "totalPointsConsumed s1 = totalPointsConsumed s + of_nat (length (concat bs))" using assms(1) by (auto simp: pass_result_def)
  obtain bs' where b': "pulls_ok cb t (totalPointsConsumed s1) bs'" "stream_of s2 = stream_of s1 @ concat bs'"
    "totalPointsConsumed s2 = totalPointsConsumed s1 + of_nat (length (concat bs'))" using assms(2) by (auto simp: pass_result_def)
  have "pulls_ok cb t (totalPointsConsumed s) (bs @ bs')" using b b' by (simp add: pulls_ok_append)
  moreover have "stream_of s2 = stream_of s @ concat (bs @ bs')" using b b' by simp
  moreover have "totalPointsConsumed s2 = totalPointsConsumed s + of_nat (length (concat (bs @ bs')))" using b b' by simp
  ultimately show ?thesis using assms(2) unfolding pass_result_def by blast
qed

lemma prepareOne_spec:
  assumes "framer_inv K s"
  shows "\<exists>ok s'. prepareOne callback tmpl s = Some (ok, s') \<and> pass_result K callback tmpl s s'"
proof -
  have nm: "1 \<le> nominalFrameSize s" "nominalFrameSize s \<le> 2 ^ 23" using assms by (auto simp: framer_inv_def)
  obtain la where la: "lookaheadTarget s = Some la" using lookaheadTarget_total nm by blast
  define n where "n = pullCountFor la s"
  define s1 where "s1 = (if 0 < n then pullPoints callback tmpl n s else s)"
  obtain bs where bs: "accumulator s1 = accumulator s @ concat bs" "pulls_ok callback tmpl (totalPointsConsumed s) bs"
     "totalPointsConsumed s1 = totalPointsConsumed s + of_nat (length (concat bs))" "preparedFrames s1 = preparedFrames s"
     "preparedPointCount s1 = preparedPointCount s" "nominalFrameSize s1 = nominalFrameSize s" "maxFrameSize s1 = maxFrameSize s"
  proof (cases "0 < n")
    case True
    obtain b where "accumulator s1 = accumulator s @ b" "pulls_ok callback tmpl (totalPointsConsumed s) [b]"
     "totalPointsConsumed s1 = totalPointsConsumed s + of_nat (length b)" "preparedFrames s1 = preparedFrames s"
     "preparedPointCount s1 = preparedPointCount s" "nominalFrameSize s1 = nominalFrameSize s" "maxFrameSize s1 = maxFrameSize s"
      using pullPoints_spec [OF True, of callback tmpl s] True by (auto simp: s1_def)
    then show ?thesis by (intro that [of "[b]"]) simp_all
  next
    case False
    then show ?thesis by (intro that [of "[]"]) (simp_all add: s1_def)
  qed
  have inv1: "framer_inv K s1" using assms bs by (simp add: framer_inv_def)
  have p1: "pass_result K callback tmpl s s1" unfolding pass_result_def
    using inv1 bs by (auto simp: stream_of_def)
  have eq: "prepareOne callback tmpl s = (if accumulator s1 = [] then Some (False, s1)
     else do {
       (ok, framePoints, s2) \<leftarrow> extractOneFrame s1;
       if \<not> ok then Some (False, s2)
       else Some (True, s2\<lparr>preparedPointCount := preparedPointCount s2 + length framePoints,
                            preparedFrames := preparedFrames s2 @ [framePoints]\<rparr>) })"
    unfolding prepareOne_def la bind.bind_lunit Let_def n_def [symmetric] s1_def [symmetric] ..
  show ?thesis
  proof (cases "accumulator s1 = []")
    case True
    then have "prepareOne callback tmpl s = Some (False, s1)" by (simp add: eq)
    then show ?thesis using p1 by blast
  next
    case False
    obtain ps s2 where e: "extractOneFrame s1 = Some (True, ps, s2)" "ps \<noteq> []"
      "length ps \<le> max (nominalFrameSize s1) (maxFrameSize s1)"
      "ps @ accumulator s2 = accumulator s1" "preparedFrames s2 = preparedFrames s1" "preparedPointCount s2 = preparedPointCount s1"
      "nominalFrameSize s2 = nominalFrameSize s1" "maxFrameSize s2 = maxFrameSize s1" "totalPointsConsumed s2 = totalPointsConsumed s1"
      using extractOneFrame_spec [OF _ _ False] nm bs by auto
    let ?s3 = "s2\<lparr>preparedPointCount := preparedPointCount s2 + length ps, preparedFrames := preparedFrames s2 @ [ps]\<rparr>"
    have "prepareOne callback tmpl s = Some (True, ?s3)"
      using False e(1) by (simp add: eq)
    moreover have "framer_inv K ?s3" using inv1 e by (auto simp: framer_inv_def)
    moreover have "stream_of ?s3 = stream_of s1" using e by (simp add: stream_of_def)
    ultimately show ?thesis using p1 e(9) by (auto simp: pass_result_def)
  qed
qed

lemma prepareFrames_spec:
  "framer_inv K s \<Longrightarrow> \<exists>s'. prepareFrames n callback tmpl s = Some s' \<and> pass_result K callback tmpl s s'"
proof (induction n arbitrary: s)
  case 0
  then show ?case by (auto simp: pass_result_def intro: exI [of _ "[]"])
next
  case (Suc n)
  obtain ok s1 where p: "prepareOne callback tmpl s = Some (ok, s1)" "pass_result K callback tmpl s s1"
    using prepareOne_spec [OF Suc.prems] by blast
  then have "framer_inv K s1" by (simp add: pass_result_def)
  from Suc.IH [OF this] p show ?case by (cases ok) (auto intro: pass_result_trans)
qed

text \<open>
  C21. The point-to-frame adapter neither loses, repeats nor reorders points. From any state
  with a consistent reserve, \<open>extractFrame\<close> returns (no float cast in the boundary search is
  undefined); the emitted frame followed by everything still held equals everything held
  before followed by the batches pulled in between; the batches were asked for with
  consecutive point indices; a frame is not empty and no longer than the larger of the
  nominal and maximum sizes in force since it was prepared; and the reserve stays consistent.
\<close>

theorem framer_preserves_stream:
  assumes "framer_inv K s"
  shows "\<exists>ok fr s' bs. extractFrame (Some callback) tmpl s = Some (ok, fr, s') \<and> framer_inv K s' \<and>
     pulls_ok callback tmpl (totalPointsConsumed s) bs \<and> ok = (fr \<noteq> None) \<and>
     (case fr of None \<Rightarrow> stream_of s' = stream_of s @ concat bs
      | Some f \<Rightarrow> fr_points f @ stream_of s' = stream_of s @ concat bs \<and> fr_points f \<noteq> [] \<and> length (fr_points f) \<le> K)"
proof -
  obtain s1 where s1: "prepareFrames (2 - length (preparedFrames s)) callback tmpl s = Some s1" "pass_result K callback tmpl s s1"
    using prepareFrames_spec [OF assms] by blast
  obtain bs where bs: "framer_inv K s1" "pulls_ok callback tmpl (totalPointsConsumed s) bs" "stream_of s1 = stream_of s @ concat bs"
    using s1(2) by (auto simp: pass_result_def)
  have en: "ensurePreparedFrames (Some callback) tmpl (1 + preparedFrameReserveCount) s = Some s1"
    using s1(1) by (simp add: ensurePreparedFrames_def preparedFrameReserveCount_def numeral_2_eq_2)
  show ?thesis
  proof (cases "preparedFrames s1")
    case Nil
    then show ?thesis using en bs by (auto simp: extractFrame_def)
  next
    case (Cons points rest)
    let ?s2 = "s1\<lparr>preparedPointCount := size_sub (preparedPointCount s1) (length points), preparedFrames := rest\<rparr>"
    have p: "points \<noteq> []" "length points \<le> K" "preparedPointCount s1 = length points + length (concat rest)"
      using bs(1) Cons by (auto simp: framer_inv_def)
    have "extractFrame (Some callback) tmpl s = Some (True, Some (outputFrameOf points 0), ?s2)"
      using en Cons p(1) by (simp add: extractFrame_def)
    moreover have "framer_inv K ?s2" using bs(1) Cons p(3) by (auto simp: framer_inv_def)
    moreover have "points @ stream_of ?s2 = stream_of s @ concat bs" using bs(3) Cons by (simp add: stream_of_def)
    ultimately show ?thesis using bs(2) p(1,2) by (intro exI conjI) auto
  qed
qed

text \<open>A callback that draws points from a generator by absolute index.\<close>

definition indexed_callback :: "(nat \<Rightarrow> LaserPoint) \<Rightarrow> RequestPointsCallback" where
  "indexed_callback g request out =
     out @ map (\<lambda>i. g (unat (currentPointIndex request) + i)) [0..<minimumPointsRequired request]"

definition tiny_framer :: FramerState where
  "tiny_framer = setMaxFrameSize 1 (setNominalFrameSize 1 framer_init)"

definition at_index :: "u64 \<Rightarrow> PointFillRequest" where
  "at_index k = \<lparr>minimumPointsRequired = 0, maximumPointsRequired = 0, estimatedFirstPointRenderTime = 0,
     currentPointIndex = k, allowShortRead = False\<rparr>"

theorem framer_preserves_stream_witness:
  "\<exists>ok fr s'. extractFrame (Some (indexed_callback (\<lambda>_. default_point))) (at_index 0) tiny_framer = Some (ok, fr, s') \<and>
     framer_inv 1 s' \<and> ok = (fr \<noteq> None)"
proof -
  have "framer_inv 1 tiny_framer"
    by (simp add: framer_inv_def tiny_framer_def setMaxFrameSize_def setNominalFrameSize_def framer_init_def)
  from framer_preserves_stream [OF this, of "indexed_callback (\<lambda>_. default_point)" "at_index 0"] show ?thesis by blast
qed

definition marked :: "nat \<Rightarrow> LaserPoint" where
  "marked i = default_point\<lparr>pt_u1 := Fin (of_nat i)\<rparr>"

lemma prepareFrames_2: "prepareFrames 2 callback tmpl s = prepareFrames (Suc (Suc 0)) callback tmpl s"
  by (simp only: numeral_2_eq_2)

text \<open>
  The framer asks the callback for the wrong point index. Each request carries the
  transport's current index plus the framer's own count of consumed points, but the transport
  index already counts the frames handed out, so they are counted twice. With one-point
  frames, a transport that advances its index by each emitted frame gets the generator's
  points 0 and 1, and then point 3: point 2 is skipped.
\<close>

theorem framer_index_skips:
  "\<exists>s1 s2. extractFrame (Some (indexed_callback marked)) (at_index 0) tiny_framer =
      Some (True, Some (outputFrameOf [marked 0] 0), s1) \<and>
    extractFrame (Some (indexed_callback marked)) (at_index 1) s1 = Some (True, Some (outputFrameOf [marked 1] 0), s2) \<and>
    stream_of s2 = [marked 3]"
proof -
  have g: "sanitizeLaserPoint (marked i) = marked i" for i
    by (rule sanitizeLaserPoint_id) (simp add: finite_point_def marked_def default_point_def)
  show ?thesis
    by (simp add: extractFrame_def ensurePreparedFrames_def preparedFrameReserveCount_def tiny_framer_def setMaxFrameSize_def
        setNominalFrameSize_def framer_init_def prepareFrames_2 prepareOne_def lookaheadTarget_def forceEmitFallbackCount_def
        pullCountFor_def pullPoints_def indexed_callback_def at_index_def sanitizeLaserPoints_def g extractOneFrame_def
        findNaturalBoundary_def cutFrame_def stream_of_def Let_def)
qed

end
