(* ===== verification/Controller.thy ===== *)
theory Controller
  imports Point_Framer Scheduler_Properties
begin

text \<open>
  The controller front end (src/core/LaserController.cpp, include/libera/core/LaserController.hpp):
  one content source at a time (a point callback or a frame queue), frame submission with
  latency stamping and back-pressure, the dispatch of point and frame requests, and the
  estimate of what a frame transport still has buffered. The locks serialise every operation,
  so each is one function of the state; \<open>std::try_to_lock\<close> outcomes are arguments, clock
  readings come from a clock stream. \<open>None\<close> is undefined or unspecified behaviour.
\<close>

subsection \<open>State\<close>

datatype ContentSource = SourceNone | PointCallback | FrameQueueSource

record FrameTransportEstimate =
  snapshotPoints :: nat
  snapshotTime :: time_point
  snapshotRate :: u32
  snapshotValid :: bool

definition no_estimate :: FrameTransportEstimate where
  "no_estimate = \<lparr>snapshotPoints = 0, snapshotTime = 0, snapshotRate = 0, snapshotValid = False\<rparr>"

record Controller =
  stream :: StreamState
  frameScheduler :: FSState
  pointStreamFramer :: "FramerState option"
  activeSource :: ContentSource
  frameTransportEstimate :: FrameTransportEstimate
  frameTransportSubmittedFrames :: u64
  frameTransportSubmittedPoints :: u64
  lastPointCallbackVirtualBufferTarget :: nat
  minimumQueuedFramePointCount :: nat
  queuedFramePointBudgetOverride :: nat
  hasQueuedFramePointBudgetOverride :: bool

definition controller_init :: Controller where
  "controller_init = \<lparr>stream = stream_init, frameScheduler = fs_init, pointStreamFramer = None,
     activeSource = SourceNone, frameTransportEstimate = no_estimate, frameTransportSubmittedFrames = 0,
     frameTransportSubmittedPoints = 0, lastPointCallbackVirtualBufferTarget = 0, minimumQueuedFramePointCount = 1,
     queuedFramePointBudgetOverride = 0, hasQueuedFramePointBudgetOverride = False\<rparr>"

text \<open>The two settings every controller shares.\<close>

record Globals =
  targetLatencyMs :: int
  maxFrameHoldTimeMs :: int

definition globals_init :: Globals where
  "globals_init = \<lparr>targetLatencyMs = 100, maxFrameHoldTimeMs = 100\<rparr>"

definition setTargetLatency :: "int \<Rightarrow> Globals \<Rightarrow> Globals" where
  "setTargetLatency latency g = g\<lparr>targetLatencyMs := max 0 latency\<rparr>"

definition setMaxFrameHoldTime :: "int \<Rightarrow> Globals \<Rightarrow> Globals" where
  "setMaxFrameHoldTime hold g = g\<lparr>maxFrameHoldTimeMs := max 0 hold\<rparr>"

record FrameFillRequest =
  ff_maximumPointsRequired :: nat
  ff_preferredPointCount :: nat
  ff_blankFramePointCount :: nat
  ff_estimatedFirstPointRenderTime :: time_point
  ff_currentPointIndex :: u64
  ff_advanceWhenAvailable :: bool
  ff_repeatCurrentFrameWhenIdle :: bool

subsection \<open>Budgets\<close>

definition clampPointCountToInt :: "nat \<Rightarrow> int" where
  "clampPointCountToInt n = min (int n) int_max32"

definition latencyPoints :: "Globals \<Rightarrow> Controller \<Rightarrow> nat option" where
  "latencyPoints g c = map_option (\<lambda>n. nat (max 0 n))
     (millisToPoints (getPointRate (stream c)) (of_num F64 (targetLatencyMs g)))"

definition minimumQueuedFramePointCountForReadiness :: "Controller \<Rightarrow> nat" where
  "minimumQueuedFramePointCountForReadiness c = max (minimumQueuedFramePointCount c) 1"

definition setMinimumQueuedFramePointCountForReadiness :: "nat \<Rightarrow> Controller \<Rightarrow> Controller" where
  "setMinimumQueuedFramePointCountForReadiness n c = c\<lparr>minimumQueuedFramePointCount := max n 1\<rparr>"

definition setQueuedFramePointBudgetOverride :: "nat option \<Rightarrow> Controller \<Rightarrow> Controller" where
  "setQueuedFramePointBudgetOverride pointBudget c =
     (case pointBudget of
        Some n \<Rightarrow> c\<lparr>queuedFramePointBudgetOverride := n, hasQueuedFramePointBudgetOverride := True\<rparr>
      | None \<Rightarrow> c\<lparr>hasQueuedFramePointBudgetOverride := False, queuedFramePointBudgetOverride := 0\<rparr>)"

definition queuedPointBudget :: "Globals \<Rightarrow> Controller \<Rightarrow> nat option" where
  "queuedPointBudget g c =
     (if hasQueuedFramePointBudgetOverride c then Some (queuedFramePointBudgetOverride c)
      else do {
        latency \<leftarrow> latencyPoints g c;
        let nominalFramePoints = max (max (nominalFramePointCount (frameScheduler c))
                                          (minimumQueuedFramePointCountForReadiness c)) 1;
        let framesFloor = (if 0 < latency then nominalFramePoints * 3 else 0);
        Some (max (latency + nominalFramePoints) framesFloor) })"

definition pointCallbackVirtualBufferTarget :: "Globals \<Rightarrow> nat \<Rightarrow> Controller \<Rightarrow> nat option" where
  "pointCallbackVirtualBufferTarget g nominalFramePoints c =
     map_option (\<lambda>n. n + max nominalFramePoints 1) (latencyPoints g c)"

definition currentFrameTransportBufferedPoints :: "time_point \<Rightarrow> Controller \<Rightarrow> nat option" where
  "currentFrameTransportBufferedPoints t c =
     map_option (\<lambda>b. case b of None \<Rightarrow> 0 | Some b \<Rightarrow> nat (max (pointsInBuffer b) 0)) (str_getBufferState t (stream c))"

subsection \<open>Content source\<close>

definition resetPointCallbackAdapterState :: "Controller \<Rightarrow> Controller" where
  "resetPointCallbackAdapterState c =
     c\<lparr>pointStreamFramer := map_option framer_reset (pointStreamFramer c), lastPointCallbackVirtualBufferTarget := 0\<rparr>"

definition setStreamCallback :: "RequestPointsCallback option \<Rightarrow> Controller \<Rightarrow> Controller" where
  "setStreamCallback callback c = c\<lparr>stream := str_setRequestPointsCallback callback (stream c)\<rparr>"

definition clearPointCallback :: "Controller \<Rightarrow> Controller" where
  "clearPointCallback c =
     (let c1 = setStreamCallback None c
      in if activeSource c1 = PointCallback
         then (resetPointCallbackAdapterState c1)\<lparr>activeSource := SourceNone\<rparr>
         else c1)"

definition setPointCallback :: "RequestPointsCallback option \<Rightarrow> Controller \<Rightarrow> Controller" where
  "setPointCallback callback c =
     (case callback of None \<Rightarrow> clearPointCallback c
      | Some cb \<Rightarrow>
          (setStreamCallback (Some cb)
            (resetPointCallbackAdapterState (c\<lparr>frameScheduler := fs_reset (frameScheduler c)\<rparr>)))
          \<lparr>activeSource := PointCallback\<rparr>)"

definition clearPointCallbackPrefetch :: "Controller \<Rightarrow> Controller" where
  "clearPointCallbackPrefetch c =
     (if activeSource c \<noteq> PointCallback then c else resetPointCallbackAdapterState c)"

text \<open>The switch that \<open>sendFrame\<close>, \<open>trySendFrame\<close> and \<open>useFrameQueue\<close> share.\<close>

definition switchToFrameQueue :: "Controller \<Rightarrow> Controller" where
  "switchToFrameQueue c =
     (if activeSource c \<noteq> FrameQueueSource
      then (setStreamCallback None (resetPointCallbackAdapterState c))\<lparr>activeSource := FrameQueueSource\<rparr>
      else c)"

definition useFrameQueue :: "Controller \<Rightarrow> Controller" where
  "useFrameQueue c = (if activeSource c = FrameQueueSource then c else switchToFrameQueue c)"

definition clearFrameQueue :: "Controller \<Rightarrow> Controller" where
  "clearFrameQueue c =
     (let c1 = c\<lparr>frameScheduler := fs_reset (frameScheduler c)\<rparr>
      in if activeSource c1 = FrameQueueSource then c1\<lparr>activeSource := SourceNone\<rparr> else c1)"

definition clearContentSource :: "Controller \<Rightarrow> Controller" where
  "clearContentSource c =
     (let c1 = setStreamCallback None c;
          c2 = c1\<lparr>frameScheduler := fs_reset (frameScheduler c1)\<rparr>
      in (resetPointCallbackAdapterState c2)\<lparr>activeSource := SourceNone\<rparr>)"

definition isFrameModeEnabled :: "Controller \<Rightarrow> bool" where
  "isFrameModeEnabled c = (activeSource c = FrameQueueSource)"

subsection \<open>Submitting frames\<close>

definition stampFrame :: "Globals \<Rightarrow> time_point \<Rightarrow> Frame \<Rightarrow> Frame" where
  "stampFrame g t frame =
     (let f = frame\<lparr>fr_points := sanitizeLaserPoints (fr_points frame)\<rparr>
      in if fr_time f = 0 then f\<lparr>fr_time := t + targetLatencyMs g * 1000000\<rparr> else f)"

definition sendFrame :: "Globals \<Rightarrow> Frame \<Rightarrow> time_point \<Rightarrow> Controller \<Rightarrow> (bool \<times> Controller) option" where
  "sendFrame g frame t c =
     (if fr_points frame = [] then Some (False, c)
      else let f = stampFrame g t frame; c1 = switchToFrameQueue c
      in do {
        budget \<leftarrow> queuedPointBudget g c1;
        let (ok, fs) = enqueueIfReady (minimumQueuedFramePointCountForReadiness c1) f budget (frameScheduler c1);
        Some (ok, c1\<lparr>frameScheduler := fs\<rparr>) })"

definition trySendFrame :: "bool \<Rightarrow> bool \<Rightarrow> Globals \<Rightarrow> Frame \<Rightarrow> time_point \<Rightarrow> Controller \<Rightarrow> (bool \<times> Controller) option" where
  "trySendFrame ownsSource ownsScheduler g frame t c =
     (if fr_points frame = [] then Some (False, c)
      else let f = stampFrame g t frame
      in if \<not> ownsSource then Some (False, c)
      else let c1 = switchToFrameQueue c
      in do {
        budget \<leftarrow> queuedPointBudget g c1;
        let (ok, fs) = tryEnqueueFrameIfReady ownsScheduler f budget (minimumQueuedFramePointCountForReadiness c1) (frameScheduler c1);
        Some (ok, c1\<lparr>frameScheduler := fs\<rparr>) })"

definition isReadyForNewFrame :: "Globals \<Rightarrow> Controller \<Rightarrow> bool option" where
  "isReadyForNewFrame g c =
     map_option (\<lambda>budget. fs_isReadyForNewFrame budget (minimumQueuedFramePointCountForReadiness c) (frameScheduler c))
       (queuedPointBudget g c)"

definition tryIsReadyForNewFrame :: "bool \<Rightarrow> bool \<Rightarrow> Globals \<Rightarrow> Controller \<Rightarrow> bool option" where
  "tryIsReadyForNewFrame ownsSource ownsScheduler g c =
     (if \<not> ownsSource then Some False
      else map_option (\<lambda>budget. fs_tryIsReadyForNewFrame ownsScheduler budget
             (minimumQueuedFramePointCountForReadiness c) (frameScheduler c)) (queuedPointBudget g c))"

definition queuedFrameCount :: "Controller \<Rightarrow> nat" where
  "queuedFrameCount c = fs_queuedFrameCount (frameScheduler c)"

subsection \<open>Serving requests\<close>

definition setPipe :: "PipelineState \<Rightarrow> Controller \<Rightarrow> Controller" where
  "setPipe p c = c\<lparr>stream := (stream c)\<lparr>pipe := p\<rparr>\<rparr>"

definition requestPoints ::
    "Globals \<Rightarrow> PointFillRequest \<Rightarrow> clock \<Rightarrow> Controller \<Rightarrow> (bool \<times> Controller \<times> clock) option" where
  "requestPoints g request clk c =
     (case activeSource c of
        PointCallback \<Rightarrow> map_option (\<lambda>(ok, s). (ok, c\<lparr>stream := s\<rparr>, clk)) (str_requestPoints request (stream c))
      | SourceNone \<Rightarrow> Some (False, c\<lparr>stream := recordPointRequestMetrics request False 0 0 (stream c)\<rparr>, clk)
      | FrameQueueSource \<Rightarrow> do {
          (generated, fs, clk') \<leftarrow> fillPoints request (getPointRate (stream c)) (maxFrameHoldTimeMs g) (frameScheduler c) clk [];
          (points, p) \<leftarrow> postProcessOutputPoints (fitToRequest request generated) (pipe (stream c));
          Some (True, c\<lparr>frameScheduler := fs,
                  stream := recordPointRequestMetrics request True (length generated) (length points)
                              ((stream c)\<lparr>pointsToSend := points, pipe := p\<rparr>)\<rparr>, clk') })"

definition preferredFramePoints :: "FrameFillRequest \<Rightarrow> nat" where
  "preferredFramePoints request =
     (let p0 = ff_preferredPointCount request;
          p1 = (if p0 = 0 then ff_blankFramePointCount request else p0);
          p2 = (if p1 = 0 then ff_maximumPointsRequired request else p1)
      in if 0 < ff_maximumPointsRequired request then min p2 (ff_maximumPointsRequired request) else p2)"

definition pullRequestOf :: "FrameFillRequest \<Rightarrow> FramePullRequest" where
  "pullRequestOf request =
     \<lparr>fp_maximumPointsRequired = ff_maximumPointsRequired request,
      fp_blankFramePointCount = ff_blankFramePointCount request,
      fp_estimatedFirstPointRenderTime = ff_estimatedFirstPointRenderTime request,
      fp_currentPointIndex = ff_currentPointIndex request,
      advanceWhenAvailable = ff_advanceWhenAvailable request,
      repeatCurrentFrameWhenIdle = ff_repeatCurrentFrameWhenIdle request\<rparr>"

definition templateRequestOf :: "FrameFillRequest \<Rightarrow> PointFillRequest" where
  "templateRequestOf request =
     \<lparr>minimumPointsRequired = 0, maximumPointsRequired = 0,
      estimatedFirstPointRenderTime = ff_estimatedFirstPointRenderTime request,
      currentPointIndex = ff_currentPointIndex request, allowShortRead = False\<rparr>"

text \<open>The point-callback branch: the framer is created on first use and configured per request.\<close>

definition requestCallbackFrame ::
    "Globals \<Rightarrow> FrameFillRequest \<Rightarrow> clock \<Rightarrow> Controller \<Rightarrow> (bool \<times> Frame \<times> Controller \<times> clock) option" where
  "requestCallbackFrame g request clk c =
     (let preferredPointCount = preferredFramePoints request
      in if preferredPointCount = 0 then Some (False, default_frame, c, clk)
      else case requestPointsCallback (stream c) of
        None \<Rightarrow> Some (False, default_frame, c, clk)
      | Some callback \<Rightarrow> do {
          transportBuffered \<leftarrow> currentFrameTransportBufferedPoints (now clk) c;
          target \<leftarrow> pointCallbackVirtualBufferTarget g preferredPointCount c;
          let f0 = (case pointStreamFramer c of None \<Rightarrow> framer_init | Some f \<Rightarrow> f);
          let f1 = setTransportBufferedPoints transportBuffered (setVirtualBufferTarget target
                (setMaxFrameSize (if 0 < ff_maximumPointsRequired request then ff_maximumPointsRequired request else preferredPointCount)
                  (setNominalFrameSize preferredPointCount f0)));
          (ok, out, f2) \<leftarrow> extractFrame (Some callback) (templateRequestOf request) f1;
          let c1 = c\<lparr>lastPointCallbackVirtualBufferTarget := target, pointStreamFramer := Some f2\<rparr>;
          (if \<not> ok then Some (False, default_frame, c1, later clk)
           else do {
             (points, p) \<leftarrow> postProcessOutputPoints (fr_points (the out)) (pipe (stream c1));
             Some (True, (the out)\<lparr>fr_points := points\<rparr>, setPipe p c1, later clk) }) })"

definition requestFrame ::
    "Globals \<Rightarrow> FrameFillRequest \<Rightarrow> clock \<Rightarrow> Controller \<Rightarrow> (bool \<times> Frame \<times> Controller \<times> clock) option" where
  "requestFrame g request clk c =
     (case activeSource c of
        PointCallback \<Rightarrow> requestCallbackFrame g request clk c
      | SourceNone \<Rightarrow> Some (False, default_frame, c, clk)
      | FrameQueueSource \<Rightarrow> do {
          (fr, fs, clk') \<leftarrow> fillFrame (pullRequestOf request) (maxFrameHoldTimeMs g) (frameScheduler c) clk;
          (points, p) \<leftarrow> postProcessOutputPoints (fr_points fr) (pipe (stream c));
          Some (True, fr\<lparr>fr_points := points\<rparr>, setPipe p (c\<lparr>frameScheduler := fs\<rparr>), clk') })"

subsection \<open>What the transport still holds\<close>

definition ctl_getBufferState :: "time_point \<Rightarrow> Controller \<Rightarrow> BufferState option option" where
  "ctl_getBufferState t c = do {
     transportState \<leftarrow> str_getBufferState t (stream c);
     (if activeSource c \<noteq> PointCallback then Some transportState
      else let framerBufferedPoints = (case pointStreamFramer c of None \<Rightarrow> 0 | Some f \<Rightarrow> bufferedPointCount f)
           in if framerBufferedPoints = 0 then Some transportState
           else let transportBuffered = (case transportState of None \<Rightarrow> 0 | Some b \<Rightarrow> nat (max (pointsInBuffer b) 0));
                    virtualBufferedPoints = transportBuffered + framerBufferedPoints;
                    virtualTargetPoints = max (lastPointCallbackVirtualBufferTarget c) virtualBufferedPoints
                in Some (buildBufferState (clampPointCountToInt virtualTargetPoints) (clampPointCountToInt virtualBufferedPoints))) }"

record PointCallbackBufferBreakdown =
  bd_transportBufferedPoints :: nat
  bd_prefetchedPoints :: nat
  bd_totalBufferedPoints :: nat

definition getPointCallbackBufferBreakdown :: "time_point \<Rightarrow> Controller \<Rightarrow> PointCallbackBufferBreakdown option option" where
  "getPointCallbackBufferBreakdown t c = do {
     transportState \<leftarrow> str_getBufferState t (stream c);
     let transportBuffered = (case transportState of None \<Rightarrow> 0 | Some b \<Rightarrow> nat (max (pointsInBuffer b) 0));
     let prefetched = (if activeSource c = PointCallback
                       then (case pointStreamFramer c of None \<Rightarrow> 0 | Some f \<Rightarrow> bufferedPointCount f) else 0);
     Some (if transportState = None \<and> prefetched = 0 then None
           else Some \<lparr>bd_transportBufferedPoints = transportBuffered, bd_prefetchedPoints = prefetched,
                      bd_totalBufferedPoints = transportBuffered + prefetched\<rparr>) }"

definition noteFrameTransportSubmissionBounded ::
    "Globals \<Rightarrow> nat \<Rightarrow> time_point \<Rightarrow> u32 \<Rightarrow> nat \<Rightarrow> time_point \<Rightarrow> Controller \<Rightarrow> Controller option" where
  "noteFrameTransportSubmissionBounded g pointCount firstRenderTime pointRateValue maxCarryOverPoints t c =
     (if pointCount = 0 then Some c
      else
        let c1 = c\<lparr>frameTransportSubmittedFrames := frameTransportSubmittedFrames c + 1,
                    frameTransportSubmittedPoints := frameTransportSubmittedPoints c + of_nat pointCount\<rparr>;
            rate = (if pointRateValue = 0 then getPointRate (stream c) else pointRateValue);
            requestedStartTime = (if firstRenderTime = 0 then t else firstRenderTime);
            st = max requestedStartTime t;
            est = frameTransportEstimate c1
        in do {
          carry \<leftarrow> (if snapshotValid est
                   then do {
                     carryEstimate \<leftarrow> estimateFromSnapshot (clampPointCountToInt (snapshotPoints est)) (snapshotTime est) (snapshotRate est) st;
                     let remainingPoints = (if projected carryEstimate then max 0 (est_bufferFullness carryEstimate)
                                            else clampPointCountToInt (snapshotPoints est));
                     Some (if 0 < remainingPoints then min (nat remainingPoints) maxCarryOverPoints else 0) }
                   else Some 0);
          let totalBufferedPoints = pointCount + carry;
          let c2 = c1\<lparr>frameTransportEstimate :=
                \<lparr>snapshotPoints = totalBufferedPoints, snapshotTime = st, snapshotRate = rate, snapshotValid = True\<rparr>\<rparr>;
          target \<leftarrow> pointCallbackVirtualBufferTarget g pointCount c2;
          let bufferedTarget = max (max (lastPointCallbackVirtualBufferTarget c2) target) totalBufferedPoints;
          let s1 = setEstimatedBufferCapacity (clampPointCountToInt bufferedTarget) (stream c2);
          Some (c2\<lparr>stream := updateEstimatedBufferSnapshot (clampPointCountToInt totalBufferedPoints) st rate s1\<rparr>) })"

definition noteFrameTransportSubmission ::
    "Globals \<Rightarrow> nat \<Rightarrow> time_point \<Rightarrow> u32 \<Rightarrow> time_point \<Rightarrow> Controller \<Rightarrow> Controller option" where
  "noteFrameTransportSubmission g pointCount start rate t c =
     noteFrameTransportSubmissionBounded g pointCount start rate (2 ^ 64 - 1) t c"

definition clearFrameTransportSubmissionEstimate :: "Controller \<Rightarrow> Controller" where
  "clearFrameTransportSubmissionEstimate c =
     c\<lparr>frameTransportEstimate := no_estimate, stream := clearEstimatedBufferState (stream c)\<rparr>"

text \<open>The product is an \<open>int64_t\<close>; past its range it is undefined.\<close>

definition projectedNextWriteRenderTime :: "time_point \<Rightarrow> int \<Rightarrow> Controller \<Rightarrow> time_point option" where
  "projectedNextWriteRenderTime t writeLead c =
     (let floorTime = t + writeLead; est = frameTransportEstimate c
      in if \<not> snapshotValid est \<or> snapshotRate est = 0 then Some floorTime
      else if 2 ^ 63 \<le> int (snapshotPoints est) * 1000000 then None
      else let playoutMicros = int (snapshotPoints est) * 1000000 div uint (snapshotRate est)
           in Some (max (snapshotTime est + playoutMicros * 1000) floorTime))"

end
