(* ===== verification/Controller_Sources.thy ===== *)
theory Controller_Sources
  imports Controller
begin

subsection \<open>The controller as a transition system\<close>

datatype controller_action =
    DoSetPointCallback "RequestPointsCallback option" | DoClearPointCallback | DoClearPrefetch
  | DoSendFrame Frame | DoTrySendFrame Frame | DoUseFrameQueue | DoClearFrameQueue | DoClearContentSource
  | DoRequestPoints PointFillRequest | DoRequestFrame FrameFillRequest
  | DoNoteSubmission nat | DoClearEstimate | DoSetMinimum nat | DoSetBudget "nat option" | DoPipeline pipeline_action

inductive controller_step :: "Controller \<Rightarrow> controller_action \<Rightarrow> Controller \<Rightarrow> bool" where
  "controller_step c (DoSetPointCallback cb) (setPointCallback cb c)"
| "controller_step c DoClearPointCallback (clearPointCallback c)"
| "controller_step c DoClearPrefetch (clearPointCallbackPrefetch c)"
| "sendFrame g f t c = Some (ok, c') \<Longrightarrow> controller_step c (DoSendFrame f) c'"
| "trySendFrame o1 o2 g f t c = Some (ok, c') \<Longrightarrow> controller_step c (DoTrySendFrame f) c'"
| "controller_step c DoUseFrameQueue (useFrameQueue c)"
| "controller_step c DoClearFrameQueue (clearFrameQueue c)"
| "controller_step c DoClearContentSource (clearContentSource c)"
| "requestPoints g req clk c = Some (ok, c', clk') \<Longrightarrow> controller_step c (DoRequestPoints req) c'"
| "requestFrame g freq clk c = Some (ok, fr, c', clk') \<Longrightarrow> controller_step c (DoRequestFrame freq) c'"
| "noteFrameTransportSubmissionBounded g n start rate limit t c = Some c' \<Longrightarrow> controller_step c (DoNoteSubmission n) c'"
| "controller_step c DoClearEstimate (clearFrameTransportSubmissionEstimate c)"
| "controller_step c (DoSetMinimum n) (setMinimumQueuedFramePointCountForReadiness n c)"
| "controller_step c (DoSetBudget b) (setQueuedFramePointBudgetOverride b c)"
| "pipeline_step (pipe (stream c)) a out p \<Longrightarrow> controller_step c (DoPipeline a) (setPipe p c)"

inductive_cases controller_stepE: "controller_step c a c'"

inductive controller_run :: "Controller \<Rightarrow> controller_action list \<Rightarrow> Controller \<Rightarrow> bool" where
  run_Nil: "controller_run c [] c"
| run_snoc: "controller_run c as c1 \<Longrightarrow> controller_step c1 a c2 \<Longrightarrow> controller_run c (as @ [a]) c2"

subsection \<open>One content source at a time\<close>

definition scheduler_empty :: "FSState \<Rightarrow> bool" where
  "scheduler_empty s \<longleftrightarrow> pendingFrames s = [] \<and> frameQueue s = [] \<and> pendingTransitionPoints s = []"

definition framer_empty :: "FramerState option \<Rightarrow> bool" where
  "framer_empty f = (case f of None \<Rightarrow> True | Some s \<Rightarrow> stream_of s = [])"

definition source_inv :: "Controller \<Rightarrow> bool" where
  "source_inv c \<longleftrightarrow> (activeSource c = PointCallback \<longleftrightarrow> requestPointsCallback (stream c) \<noteq> None) \<and>
     (activeSource c \<noteq> FrameQueueSource \<longrightarrow> scheduler_empty (frameScheduler c)) \<and>
     (activeSource c \<noteq> PointCallback \<longrightarrow> framer_empty (pointStreamFramer c))"

lemma scheduler_empty_reset [simp]: "scheduler_empty (fs_reset s)"
  by (simp add: scheduler_empty_def fs_reset_def)

lemma framer_empty_reset [simp]: "framer_empty (map_option framer_reset f)"
  by (simp add: framer_empty_def framer_reset_def stream_of_def split: option.splits)

lemmas source_ops = resetPointCallbackAdapterState_def setStreamCallback_def str_setRequestPointsCallback_def
  clearPointCallback_def setPointCallback_def clearPointCallbackPrefetch_def switchToFrameQueue_def useFrameQueue_def
  clearFrameQueue_def clearContentSource_def Let_def

lemma source_inv_switch: "source_inv c \<Longrightarrow> source_inv (switchToFrameQueue c) \<and> activeSource (switchToFrameQueue c) = FrameQueueSource"
  by (auto simp: source_inv_def source_ops)

lemma source_inv_sources:
  assumes "source_inv c"
  shows "source_inv (setPointCallback cb c)" "source_inv (clearPointCallback c)" "source_inv (clearPointCallbackPrefetch c)"
    "source_inv (useFrameQueue c)" "source_inv (clearFrameQueue c)" "source_inv (clearContentSource c)"
  using assms by (auto simp: source_inv_def source_ops split: option.splits)

lemma source_inv_frame:
  "source_inv c \<Longrightarrow> activeSource c = FrameQueueSource \<Longrightarrow> activeSource c' = FrameQueueSource \<Longrightarrow>
   requestPointsCallback (stream c') = requestPointsCallback (stream c) \<Longrightarrow> pointStreamFramer c' = pointStreamFramer c \<Longrightarrow>
   source_inv c'"
  by (simp add: source_inv_def)

lemma source_inv_same:
  "source_inv c \<Longrightarrow> activeSource c' = activeSource c \<Longrightarrow> frameScheduler c' = frameScheduler c \<Longrightarrow>
   requestPointsCallback (stream c') = requestPointsCallback (stream c) \<Longrightarrow> pointStreamFramer c' = pointStreamFramer c \<Longrightarrow>
   source_inv c'"
  by (simp add: source_inv_def)

lemma source_inv_send:
  "sendFrame g f t c = Some (ok, c') \<Longrightarrow> source_inv c \<Longrightarrow> source_inv c'"
  "trySendFrame o1 o2 g f t c = Some (ok, c') \<Longrightarrow> source_inv c \<Longrightarrow> source_inv c'"
  using source_inv_switch [of c]
  by (auto simp: sendFrame_def trySendFrame_def Let_def bind_eq_Some_conv case_prod_beta split: if_splits
      intro: source_inv_frame)

lemma str_requestPoints_callback:
  "str_requestPoints req s = Some (ok, s') \<Longrightarrow> requestPointsCallback s' = requestPointsCallback s"
  by (auto simp: str_requestPoints_def recordPointRequestMetrics_def Let_def bind_eq_Some_conv split: option.splits)

lemma source_inv_requestPoints:
  "requestPoints g req clk c = Some (ok, c', clk') \<Longrightarrow> source_inv c \<Longrightarrow> source_inv c'"
proof (cases "activeSource c")
  case SourceNone
  then show "requestPoints g req clk c = Some (ok, c', clk') \<Longrightarrow> source_inv c \<Longrightarrow> source_inv c'"
    by (auto simp: requestPoints_def recordPointRequestMetrics_def source_inv_def)
next
  case PointCallback
  then show "requestPoints g req clk c = Some (ok, c', clk') \<Longrightarrow> source_inv c \<Longrightarrow> source_inv c'"
    by (auto simp: requestPoints_def source_inv_def dest: str_requestPoints_callback)
next
  case FrameQueueSource
  then show "requestPoints g req clk c = Some (ok, c', clk') \<Longrightarrow> source_inv c \<Longrightarrow> source_inv c'"
    by (auto simp: requestPoints_def recordPointRequestMetrics_def bind_eq_Some_conv source_inv_def)
qed

lemma requestCallbackFrame_same:
  assumes "requestCallbackFrame g req clk c = Some (ok, fr, c', clk')"
  shows "activeSource c' = activeSource c \<and> frameScheduler c' = frameScheduler c \<and>
     requestPointsCallback (stream c') = requestPointsCallback (stream c)"
proof (cases "preferredFramePoints req = 0 \<or> requestPointsCallback (stream c) = None")
  case True
  then show ?thesis using assms by (auto simp: requestCallbackFrame_def Let_def split: if_splits)
next
  case False
  then obtain callback where cb: "requestPointsCallback (stream c) = Some callback" by blast
  let ?f0 = "case pointStreamFramer c of None \<Rightarrow> framer_init | Some f \<Rightarrow> f"
  obtain tb where tb: "currentFrameTransportBufferedPoints (now clk) c = Some tb"
    using assms cb False by (cases "currentFrameTransportBufferedPoints (now clk) c") (simp_all add: requestCallbackFrame_def)
  obtain tg where tg: "pointCallbackVirtualBufferTarget g (preferredFramePoints req) c = Some tg"
    using assms cb False tb
    by (cases "pointCallbackVirtualBufferTarget g (preferredFramePoints req) c") (simp_all add: requestCallbackFrame_def)
  define f1 where "f1 = setTransportBufferedPoints tb (setVirtualBufferTarget tg
     (setMaxFrameSize (if 0 < ff_maximumPointsRequired req then ff_maximumPointsRequired req else preferredFramePoints req)
       (setNominalFrameSize (preferredFramePoints req) ?f0)))"
  obtain ok1 out f2 where ex: "extractFrame (Some callback) (templateRequestOf req) f1 = Some (ok1, out, f2)"
    using assms cb False tb tg
    by (cases "extractFrame (Some callback) (templateRequestOf req) f1") (auto simp: requestCallbackFrame_def f1_def)
  show ?thesis
  proof (cases ok1)
    case True
    then show ?thesis using assms cb False tb tg ex
      by (cases "postProcessOutputPoints (fr_points (the out)) (pipe (stream c))")
        (auto simp: requestCallbackFrame_def f1_def setPipe_def)
  next
    case no: False
    then show ?thesis using assms cb False tb tg ex by (auto simp: requestCallbackFrame_def f1_def)
  qed
qed

lemma source_inv_requestFrame:
  assumes "requestFrame g req clk c = Some (ok, fr, c', clk')" and "source_inv c"
  shows "source_inv c'"
proof (cases "activeSource c")
  case SourceNone
  then show ?thesis using assms by (simp add: requestFrame_def)
next
  case PointCallback
  then show ?thesis using assms requestCallbackFrame_same [of g req clk c ok fr c' clk']
    by (simp add: requestFrame_def source_inv_def)
next
  case FrameQueueSource
  then show ?thesis using assms
    by (auto simp: requestFrame_def bind_eq_Some_conv source_inv_def setPipe_def)
qed

lemma note_same:
  assumes "noteFrameTransportSubmissionBounded g n start rate limit t c = Some c'"
  shows "activeSource c' = activeSource c \<and> frameScheduler c' = frameScheduler c \<and>
     requestPointsCallback (stream c') = requestPointsCallback (stream c) \<and> pointStreamFramer c' = pointStreamFramer c"
proof (cases "n = 0")
  case True
  then show ?thesis using assms by (simp add: noteFrameTransportSubmissionBounded_def)
next
  case False
  from assms [unfolded noteFrameTransportSubmissionBounded_def Let_def if_not_P [OF False] bind_eq_Some_conv]
  obtain cp est carry tg bt where "c' = c\<lparr>frameTransportSubmittedFrames := frameTransportSubmittedFrames c + 1,
      frameTransportSubmittedPoints := frameTransportSubmittedPoints c + of_nat n,
      frameTransportEstimate := est, stream := updateEstimatedBufferSnapshot carry tg cp (setEstimatedBufferCapacity bt (stream c))\<rparr>"
    by (elim exE conjE) (simp, blast)
  then show ?thesis by (simp add: updateEstimatedBufferSnapshot_def setEstimatedBufferCapacity_def)
qed

lemma source_inv_quiet:
  assumes "source_inv c"
  shows "source_inv (clearFrameTransportSubmissionEstimate c)" "source_inv (setMinimumQueuedFramePointCountForReadiness n c)"
    "source_inv (setQueuedFramePointBudgetOverride b c)" "source_inv (setPipe p c)"
  using assms
  by (auto simp: source_inv_def clearFrameTransportSubmissionEstimate_def clearEstimatedBufferState_def
      setMinimumQueuedFramePointCountForReadiness_def setQueuedFramePointBudgetOverride_def setPipe_def split: option.splits)

lemma source_inv_note: "noteFrameTransportSubmissionBounded g n start rate limit t c = Some c' \<Longrightarrow> source_inv c \<Longrightarrow> source_inv c'"
  using note_same [of g n start rate limit t c c'] source_inv_same [of c c'] by blast

lemmas source_preserves = source_inv_sources source_inv_send source_inv_requestPoints source_inv_requestFrame
  source_inv_quiet source_inv_note

lemma source_inv_step: "controller_step c a c' \<Longrightarrow> source_inv c \<Longrightarrow> source_inv c'"
  by (induction rule: controller_step.induct) (assumption | erule source_preserves | rule source_preserves)+

lemma source_inv_run: "controller_run controller_init as c \<Longrightarrow> source_inv c"
proof (induction controller_init as c rule: controller_run.induct)
  case run_Nil
  show ?case by (simp add: source_inv_def controller_init_def stream_init_def scheduler_empty_def fs_init_def framer_empty_def)
qed (rule source_inv_step)



end
