(* ===== verification/Ether_Dream_State.thy ===== *)
theory Ether_Dream_State
  imports Controller Ether_Dream_Wire
begin

text \<open>
  The state of an Ether Dream controller (include/libera/etherdream/EtherDreamController.hpp)
  and the decisions its worker takes from the last status of the DAC
  (src/EtherDream/EtherDreamController.cpp): the playback action, the room in the DAC's FIFO,
  the point request, the underrun heuristics and the stream-health window.

  The network is outside the program: \<open>Network\<close> answers, one after the other, each connect,
  write, read and \<open>remote_endpoint\<close> check, and nothing is assumed of the answers. The theorems
  therefore hold for every behaviour of the DAC and of the network. Clock readings are
  successive elements of \<open>ed_clock\<close>, readings of the \<open>running\<close> flag (which another thread clears) of \<open>ed_running\<close>;
  clock readings that only feed log lines are left out. \<open>wire\<close> and \<open>slept\<close> record what the
  worker did: the events on the socket and the milliseconds it slept.
\<close>

subsection \<open>Data\<close>

datatype PlaybackAction = ActNone | ActStop | ActClear | ActPrepare | ActBegin

datatype CommandFailureKind = FailShutdown | RecoverInPlace | NetworkFailure | ProtocolFailure

datatype ErrorCode = TimedOut | ProtocolErrorCode | OperationCanceled | NotConnected | InvalidArgument | OtherError int

record Ack =
  ack_status :: EtherDreamStatus
  ack_command :: u8

type_synonym CommandResult = "(CommandFailureKind \<times> ErrorCode) + Ack"

record EtherDreamControllerInfo =
  info_ip :: string
  info_port :: u16
  info_bufferSize :: int
  info_hardwareVersion :: string
  info_maxPointRate :: u32
  info_hardwareRevision :: u16
  info_softwareRevision :: u16
  info_firmwareVersion :: string

record ProtocolTxSnapshot =
  tx_valid :: bool
  tx_timestamp :: time_point
  tx_sequence :: u64
  tx_opcode :: u8
  tx_bytes :: nat
  tx_pointCount :: u16
  tx_firstControl :: u16
  tx_rateChangeBit :: bool
  tx_beginFlags :: u16
  tx_commandRate :: u32
  tx_pendingRateChangeCount :: nat
  tx_localRate :: u32
  tx_lastSentRate :: u32
  tx_status :: EtherDreamStatus
  tx_hex :: string

definition no_snapshot :: ProtocolTxSnapshot where
  "no_snapshot = \<lparr>tx_valid = False, tx_timestamp = 0, tx_sequence = 0, tx_opcode = 0, tx_bytes = 0, tx_pointCount = 0,
     tx_firstControl = 0, tx_rateChangeBit = False, tx_beginFlags = 0, tx_commandRate = 0, tx_pendingRateChangeCount = 0,
     tx_localRate = 0, tx_lastSentRate = 0, tx_status = initial_status, tx_hex = []\<rparr>"

definition PROTOCOL_TX_HISTORY_SIZE :: nat where "PROTOCOL_TX_HISTORY_SIZE = 8"

record PendingStreamHealthRequest =
  pr_valid :: bool
  pr_requestRan :: bool
  pr_playbackWasPlaying :: bool
  pr_computerPerformanceUnderrun :: bool
  pr_recoveryBlankApplied :: bool
  pr_estimatedBufferBeforeRequest :: int
  pr_targetBufferPointCount :: int
  pr_freeSpace :: int
  pr_request :: PointFillRequest
  pr_metrics :: PointRequestMetrics
  pr_requestDuration :: int
  pr_requestCompletedAt :: time_point

definition no_request :: PointFillRequest where
  "no_request = \<lparr>minimumPointsRequired = 0, maximumPointsRequired = 0, estimatedFirstPointRenderTime = 0,
     currentPointIndex = 0, allowShortRead = False\<rparr>"

definition no_pending :: PendingStreamHealthRequest where
  "no_pending = \<lparr>pr_valid = False, pr_requestRan = False, pr_playbackWasPlaying = False,
     pr_computerPerformanceUnderrun = False, pr_recoveryBlankApplied = False, pr_estimatedBufferBeforeRequest = 0,
     pr_targetBufferPointCount = 0, pr_freeSpace = 0, pr_request = no_request, pr_metrics = default_metrics,
     pr_requestDuration = 0, pr_requestCompletedAt = 0\<rparr>"

record StreamHealthWindow =
  hw_startedAt :: time_point
  hw_packetCount :: u64
  hw_lowBufferEvents :: u64
  hw_starvationEvents :: u64
  hw_requestMisses :: u64
  hw_paddedEvents :: u64
  hw_paddedPoints :: u64
  hw_clampedEvents :: u64
  hw_clampedPoints :: u64
  hw_minEstimatedBuffer :: int
  hw_minAckBuffer :: int
  hw_lastTargetBufferPoints :: int
  hw_requestSamplesMs :: StreamHealthSamples
  hw_sendSamplesMs :: StreamHealthSamples
  hw_dataGapSamplesMs :: StreamHealthSamples

definition no_window :: StreamHealthWindow where
  "no_window = \<lparr>hw_startedAt = 0, hw_packetCount = 0, hw_lowBufferEvents = 0, hw_starvationEvents = 0, hw_requestMisses = 0,
     hw_paddedEvents = 0, hw_paddedPoints = 0, hw_clampedEvents = 0, hw_clampedPoints = 0, hw_minEstimatedBuffer = int_max32,
     hw_minAckBuffer = int_max32, hw_lastTargetBufferPoints = 0, hw_requestSamplesMs = samples_init,
     hw_sendSamplesMs = samples_init, hw_dataGapSamplesMs = samples_init\<rparr>"

record Network =
  net_address :: "string \<Rightarrow> ErrorCode option"
  net_connects :: "nat \<Rightarrow> ErrorCode option"
  net_alive :: "nat \<Rightarrow> bool"
  net_writes :: "nat \<Rightarrow> ErrorCode option"
  net_reads :: "nat \<Rightarrow> ErrorCode + bytes"

text \<open>What happened on the socket, newest first: a probe is the firmware query, an exchange is a
  command with its response, the status known when it was sent, and the buffer estimate and the
  capacity the worker had at that moment.\<close>

datatype Outcome = Accepted | Rejected | Broken

record Exchange =
  ex_bytes :: bytes
  ex_status :: EtherDreamStatus
  ex_estimate :: int
  ex_capacity :: int
  ex_outcome :: Outcome

datatype WireEvent = Opened | Closed | FirmwareProbe | Exchanged Exchange

record EDState =
  ed_base :: Controller
  ed_running :: "nat \<Rightarrow> bool"
  ed_verbose :: bool
  ed_clock :: clock
  ed_net :: Network
  tcpOpen :: bool
  wire :: "WireEvent list"
  slept :: "int list"
  commandBuffer :: EtherDreamCommand
  lastKnownStatus :: EtherDreamStatus
  lastReceiveTime :: time_point
  controllerInfo :: "EtherDreamControllerInfo option"
  playbackAction :: PlaybackAction
  connectionActive :: bool
  clearOnFreshConnection :: bool
  implausiblePointRateRecoveryPending :: bool
  rebootRequiredLatched :: bool
  lastError :: "ErrorCode option"
  pendingRateChangeCount :: nat
  lastSentPointRate :: u32
  connectionGeneration :: u64
  nextCommandSequence :: u64
  firmwareProbeDisabledForSession :: bool
  protocolTxHistory :: "ProtocolTxSnapshot list"
  nextProtocolTxHistoryIndex :: nat
  pendingStreamHealthRequest :: PendingStreamHealthRequest
  streamHealthWindow :: StreamHealthWindow
  lastStreamHealthDataAckTime :: time_point
  lastStreamHealthWarningTime :: time_point
  lastEstimatedBufferFullness :: int
  lastKnownBufferCapacity :: int
  firmwareVersionString :: string

definition ed_init :: "EtherDreamControllerInfo option \<Rightarrow> bool \<Rightarrow> Network \<Rightarrow> (nat \<Rightarrow> bool) \<Rightarrow> clock \<Rightarrow> EDState" where
  "ed_init info verbose net runs clk = \<lparr>ed_base = controller_init, ed_running = runs, ed_verbose = verbose, ed_clock = clk,
     ed_net = net, tcpOpen = False, wire = [], slept = [],
     commandBuffer = \<lparr>cmd_buffer = \<lparr>buffer = []\<rparr>, opcode = 0\<rparr>, lastKnownStatus = initial_status, lastReceiveTime = 0,
     controllerInfo = info, playbackAction = ActNone, connectionActive = False, clearOnFreshConnection = False,
     implausiblePointRateRecoveryPending = False, rebootRequiredLatched = False, lastError = None,
     pendingRateChangeCount = 0, lastSentPointRate = 0, connectionGeneration = 0, nextCommandSequence = 0,
     firmwareProbeDisabledForSession = False, protocolTxHistory = replicate PROTOCOL_TX_HISTORY_SIZE no_snapshot,
     nextProtocolTxHistoryIndex = 0, pendingStreamHealthRequest = no_pending, streamHealthWindow = no_window,
     lastStreamHealthDataAckTime = 0, lastStreamHealthWarningTime = 0, lastEstimatedBufferFullness = 0,
     lastKnownBufferCapacity = 0,
     firmwareVersionString = (case info of Some i \<Rightarrow> info_firmwareVersion i | None \<Rightarrow> [])\<rparr>"

subsection \<open>Base-class state, clock and events\<close>

definition ed_now :: "EDState \<Rightarrow> time_point \<times> EDState" where
  "ed_now s = (now (ed_clock s), s\<lparr>ed_clock := later (ed_clock s)\<rparr>)"

definition isRunning :: "EDState \<Rightarrow> bool \<times> EDState" where
  "isRunning s = (ed_running s 0, s\<lparr>ed_running := \<lambda>n. ed_running s (Suc n)\<rparr>)"

definition sleepFor :: "int \<Rightarrow> EDState \<Rightarrow> EDState" where
  "sleepFor ms s = s\<lparr>slept := ms # slept s\<rparr>"

definition ed_stream :: "EDState \<Rightarrow> StreamState" where
  "ed_stream s = stream (ed_base s)"

definition mapStream :: "(StreamState \<Rightarrow> StreamState) \<Rightarrow> EDState \<Rightarrow> EDState" where
  "mapStream f s = s\<lparr>ed_base := (ed_base s)\<lparr>stream := f (stream (ed_base s))\<rparr>\<rparr>"

definition ed_rate :: "EDState \<Rightarrow> u32" where
  "ed_rate s = getPointRate (ed_stream s)"

definition intermittentError :: "string \<Rightarrow> EDState \<Rightarrow> EDState" where
  "intermittentError code s =
     (let (t, s1) = ed_now s
      in mapStream (\<lambda>st. st\<lparr>controllerEvents := recordIntermittentError code t (controllerEvents st)\<rparr>) s1)"

definition connectionError :: "string \<Rightarrow> EDState \<Rightarrow> EDState" where
  "connectionError code s =
     (let (t, s1) = ed_now s
      in mapStream (\<lambda>st. st\<lparr>controllerEvents := recordConnectionError code t (controllerEvents st)\<rparr>) s1)"

definition connectionState :: "bool \<Rightarrow> EDState \<Rightarrow> EDState" where
  "connectionState up = mapStream (\<lambda>st. st\<lparr>controllerEvents := setConnectionState up (controllerEvents st)\<rparr>)"

definition latencySample :: "int \<Rightarrow> EDState \<Rightarrow> EDState" where
  "latencySample d = mapStream (\<lambda>st. st\<lparr>latencyRecord := recordLatencySample d (latencyRecord st)\<rparr>)"

definition startupBlank :: "EDState \<Rightarrow> EDState option" where
  "startupBlank s = do {
     p \<leftarrow> resetStartupBlank (pipe (ed_stream s));
     Some (mapStream (\<lambda>st. st\<lparr>pipe := p\<rparr>) s) }"

definition resetPoints :: "EDState \<Rightarrow> EDState" where
  "resetPoints = mapStream (\<lambda>st. st\<lparr>pointsToSend := []\<rparr>)"

definition ed_points :: "EDState \<Rightarrow> LaserPoint list" where
  "ed_points s = pointsToSend (ed_stream s)"

subsection \<open>Small decisions\<close>

definition isKnownLightEngineState :: "LightEngineState \<Rightarrow> bool" where
  "isKnownLightEngineState st = (st = LE_Ready \<or> st = LE_Warmup \<or> st = LE_Cooldown \<or> st = LE_Estop)"

definition isKnownPlaybackState :: "PlaybackState \<Rightarrow> bool" where
  "isKnownPlaybackState st = (st = PB_Idle \<or> st = PB_Prepared \<or> st = PB_Playing \<or> st = PB_Paused)"

definition readLe16OrZero :: "bytes \<Rightarrow> nat \<Rightarrow> u16" where
  "readLe16OrZero data off =
     (if length data < off + 2 then 0 else case readLe16 (drop off data) of Some v \<Rightarrow> v | None \<Rightarrow> 0)"

definition readLe32OrZero :: "bytes \<Rightarrow> nat \<Rightarrow> u32" where
  "readLe32OrZero data off =
     (if length data < off + 4 then 0 else case readLe32 (drop off data) of Some v \<Rightarrow> v | None \<Rightarrow> 0)"

definition loggedCommandBytes :: "u8 \<Rightarrow> nat \<Rightarrow> nat" where
  "loggedCommandBytes code commandSize = (if code = ch CHR ''d'' then min commandSize 21 else commandSize)"

definition isPlaybackStateThatCanHoldBufferedData :: "PlaybackState \<Rightarrow> bool" where
  "isPlaybackStateThatCanHoldBufferedData st = (st = PB_Prepared \<or> st = PB_Playing)"

definition statusLooksFullForDataReject :: "EtherDreamStatus \<Rightarrow> int \<Rightarrow> bool" where
  "statusLooksFullForDataReject st bufferSize =
     (if bufferSize \<le> 0 then 0 < uint (bufferFullness st)
      else max 0 (bufferSize - 1) \<le> uint (bufferFullness st))"

definition responseMatchesCommand :: "EtherDreamResponse \<Rightarrow> u8 \<Rightarrow> bool" where
  "responseMatchesCommand r cmd = (command r = cmd)"

definition ETHERDREAM_MIN_BUFFER_POINTS :: int where "ETHERDREAM_MIN_BUFFER_POINTS = 256"
definition ETHERDREAM_SAFETY_HEADROOM_POINTS :: int where "ETHERDREAM_SAFETY_HEADROOM_POINTS = 512"
definition ETHERDREAM_WRITE_HEADROOM_POINTS :: int where "ETHERDREAM_WRITE_HEADROOM_POINTS = 1"
definition ETHERDREAM_MAX_PACKET_POINTS :: nat where "ETHERDREAM_MAX_PACKET_POINTS = 3640"
definition ETHERDREAM_NORMAL_REFILL_MIN_DEFICIT_POINTS :: nat where "ETHERDREAM_NORMAL_REFILL_MIN_DEFICIT_POINTS = 150"
definition ETHERDREAM_MAX_REASONABLE_POINT_RATE :: u32 where "ETHERDREAM_MAX_REASONABLE_POINT_RATE = 1000000"
definition ETHERDREAM_MIN_SLEEP :: int where "ETHERDREAM_MIN_SLEEP = 1"
definition ETHERDREAM_MAX_SLEEP :: int where "ETHERDREAM_MAX_SLEEP = 50"

subsection \<open>Buffer levels\<close>

definition getBufferSize :: "EDState \<Rightarrow> int" where
  "getBufferSize s = (case controllerInfo s of Some i \<Rightarrow> if 0 < info_bufferSize i then info_bufferSize i else 0 | None \<Rightarrow> 0)"

definition ed_targetBufferPoints :: "Globals \<Rightarrow> EDState \<Rightarrow> int option" where
  "ed_targetBufferPoints g s =
     targetBufferPoints (ed_rate s) (getBufferSize s) (targetLatencyMs g) ETHERDREAM_MIN_BUFFER_POINTS ETHERDREAM_SAFETY_HEADROOM_POINTS"

definition beginBufferThresholdPoints :: "Globals \<Rightarrow> EDState \<Rightarrow> int option" where
  "beginBufferThresholdPoints g s = ed_targetBufferPoints g s"

definition usableBufferFreeSpace :: "int \<Rightarrow> EDState \<Rightarrow> int" where
  "usableBufferFreeSpace fullness s =
     (let bufferSize = getBufferSize s
      in if bufferSize \<le> 0 then 0
      else let clampedFullness = clampBufferFullnessToCapacity fullness bufferSize;
               rawFreeSpace = max 0 (bufferSize - clampedFullness);
               writeHeadroom = min rawFreeSpace ETHERDREAM_WRITE_HEADROOM_POINTS
           in rawFreeSpace - writeHeadroom)"

definition estimateBufferFullness :: "EDState \<Rightarrow> (int \<times> EDState) option" where
  "estimateBufferFullness s =
     (let fullness = uint (bufferFullness (lastKnownStatus s));
          projectionRate = (if playbackState (lastKnownStatus s) = PB_Playing then ed_rate s else 0);
          (t, s1) = ed_now s
      in do {
        (estimated, projected) \<leftarrow> calculateBufferFullnessFromSnapshot fullness (lastReceiveTime s) projectionRate fullness t;
        if \<not> projected then Some (fullness, s1\<lparr>lastEstimatedBufferFullness := fullness\<rparr>)
        else let bufferSize = getBufferSize s; clamped = clampBufferFullnessToCapacity estimated bufferSize
             in Some (clamped, s1\<lparr>lastEstimatedBufferFullness := clamped, lastKnownBufferCapacity := bufferSize\<rparr>) })"

definition targetBufferDeficitPoints :: "Globals \<Rightarrow> EDState \<Rightarrow> (nat \<times> EDState) option" where
  "targetBufferDeficitPoints g s = do {
     (fullness, s1) \<leftarrow> estimateBufferFullness s;
     targetPoints \<leftarrow> ed_targetBufferPoints g s1;
     Some (if targetPoints \<le> fullness then 0 else nat (targetPoints - fullness), s1) }"

definition maxSafePointRate :: "EDState \<Rightarrow> u32" where
  "maxSafePointRate s =
     (case controllerInfo s of
        Some i \<Rightarrow> if 0 < info_maxPointRate i then min ETHERDREAM_MAX_REASONABLE_POINT_RATE (info_maxPointRate i)
                  else ETHERDREAM_MAX_REASONABLE_POINT_RATE
      | None \<Rightarrow> ETHERDREAM_MAX_REASONABLE_POINT_RATE)"

definition usesDmaBufferUnderrunThreshold :: "EDState \<Rightarrow> bool" where
  "usesDmaBufferUnderrunThreshold s = (case controllerInfo s of Some i \<Rightarrow> 30 \<le> info_hardwareRevision i | None \<Rightarrow> False)"

definition playingUnderrunBufferThreshold :: "EDState \<Rightarrow> int" where
  "playingUnderrunBufferThreshold s = (if usesDmaBufferUnderrunThreshold s then ETHERDREAM_MIN_BUFFER_POINTS else 1)"

definition bufferIsBelowPlayingUnderrunThreshold :: "int \<Rightarrow> EDState \<Rightarrow> bool" where
  "bufferIsBelowPlayingUnderrunThreshold fullness s = (fullness < playingUnderrunBufferThreshold s)"

definition statusReportsPlayingBufferUnderrun :: "EtherDreamStatus \<Rightarrow> EDState \<Rightarrow> bool" where
  "statusReportsPlayingBufferUnderrun st s =
     (lightEngineState st = LE_Ready \<and> playbackState st = PB_Playing \<and>
      bufferIsBelowPlayingUnderrunThreshold (uint (bufferFullness st)) s)"

definition statusPointRateIsImplausible :: "EtherDreamStatus \<Rightarrow> EDState \<Rightarrow> bool" where
  "statusPointRateIsImplausible st s =
     (if playbackState st \<noteq> PB_Prepared \<and> playbackState st \<noteq> PB_Playing then False
      else maxSafePointRate s < EtherDreamStatus.pointRate st)"

definition ed_setPointRate :: "u32 \<Rightarrow> EDState \<Rightarrow> EDState" where
  "ed_setPointRate pointRateValue s =
     (let safeRate = maxSafePointRate s;
          clampedRate = (if 0 < safeRate then min pointRateValue safeRate else pointRateValue)
      in mapStream (\<lambda>st. st\<lparr>pipe := setPointRate clampedRate (pipe st)\<rparr>) s)"

definition ed_getBufferState :: "EDState \<Rightarrow> BufferState option" where
  "ed_getBufferState s = buildBufferState (lastKnownBufferCapacity s) (lastEstimatedBufferFullness s)"

subsection \<open>Playback action\<close>

definition actionForStatus :: "Globals \<Rightarrow> EtherDreamStatus \<Rightarrow> EDState \<Rightarrow> PlaybackAction option" where
  "actionForStatus g st s =
     (if \<not> isKnownLightEngineState (lightEngineState st) then Some ActNone
      else if lightEngineState st = LE_Estop then Some ActClear
      else if lightEngineState st \<noteq> LE_Ready then Some ActNone
      else if \<not> isKnownPlaybackState (playbackState st) \<or> playbackState st = PB_Paused then Some ActStop
      else if playbackState st = PB_Idle then Some ActPrepare
      else do {
        beginThreshold \<leftarrow> beginBufferThresholdPoints g s;
        Some (if playbackState st = PB_Prepared \<and> 0 < beginThreshold \<and> beginThreshold \<le> uint (bufferFullness st)
              then ActBegin else ActNone) })"

definition statusAllowsPointRateRecovery :: "EtherDreamStatus \<Rightarrow> bool" where
  "statusAllowsPointRateRecovery st =
     (isKnownLightEngineState (lightEngineState st) \<and> lightEngineState st = LE_Ready \<and>
      isKnownPlaybackState (playbackState st) \<and> playbackState st \<noteq> PB_Paused)"

definition scheduleClearRecovery :: "EDState \<Rightarrow> EDState" where
  "scheduleClearRecovery s = resetPoints (s\<lparr>playbackAction := ActClear\<rparr>)"

text \<open>The three parts of \<open>updatePlaybackRequirements\<close>: the status is stored and a new underflow
  noted, the action is derived, and a point rate the DAC cannot have is answered by one clear
  and then by the reboot latch.\<close>

definition receiveStatus :: "EtherDreamStatus \<Rightarrow> EDState \<Rightarrow> EDState option" where
  "receiveStatus st s0 =
     (let wasUnderflow = hasPlaybackUnderflow (lastKnownStatus s0);
          (t, s1) = ed_now (s0\<lparr>lastKnownStatus := st\<rparr>);
          s2 = s1\<lparr>lastReceiveTime := t, lastEstimatedBufferFullness := uint (bufferFullness st),
                  lastKnownBufferCapacity := getBufferSize s1\<rparr>
      in if hasPlaybackUnderflow st \<and> \<not> wasUnderflow
         then startupBlank (intermittentError net_bufferUnderflow s2) else Some s2)"

definition pointRateRecovery :: "EtherDreamStatus \<Rightarrow> EDState \<Rightarrow> EDState" where
  "pointRateRecovery st s =
     (if statusAllowsPointRateRecovery st \<and> statusPointRateIsImplausible st s
      then (if \<not> implausiblePointRateRecoveryPending s \<and> \<not> rebootRequiredLatched s
            then scheduleClearRecovery (s\<lparr>implausiblePointRateRecoveryPending := True\<rparr>)
            else let s1 = (if \<not> rebootRequiredLatched s
                           then intermittentError ed_rebootRequired (s\<lparr>rebootRequiredLatched := True\<rparr>) else s)
                 in resetPoints (s1\<lparr>playbackAction := ActStop\<rparr>))
      else if \<not> statusAllowsPointRateRecovery st then s
      else s\<lparr>implausiblePointRateRecoveryPending := False, rebootRequiredLatched := False\<rparr>)"

definition updatePlaybackRequirements :: "Globals \<Rightarrow> EtherDreamStatus \<Rightarrow> EDState \<Rightarrow> EDState option" where
  "updatePlaybackRequirements g st s0 = do {
     s1 \<leftarrow> receiveStatus st s0;
     action \<leftarrow> actionForStatus g st s1;
     Some (pointRateRecovery st (s1\<lparr>playbackAction := action\<rparr>)) }"

definition applyFreshConnectionStatus :: "EtherDreamStatus \<Rightarrow> EDState \<Rightarrow> EDState" where
  "applyFreshConnectionStatus st s =
     (if clearOnFreshConnection s \<and> (lightEngineState st = LE_Ready \<or> lightEngineState st = LE_Estop)
      then scheduleClearRecovery (s\<lparr>clearOnFreshConnection := False\<rparr>)
      else if lightEngineState st = LE_Estop then s\<lparr>playbackAction := ActClear\<rparr>
      else if lightEngineState st \<noteq> LE_Ready then s\<lparr>playbackAction := ActNone\<rparr>
      else if playbackState st = PB_Idle then s\<lparr>playbackAction := ActPrepare\<rparr>
      else resetPoints (s\<lparr>playbackAction := ActStop\<rparr>))"

definition canSendData :: "EDState \<Rightarrow> bool" where
  "canSendData s =
     (if playbackAction s \<noteq> ActNone then False
      else if lightEngineState (lastKnownStatus s) \<noteq> LE_Ready then False
      else playbackState (lastKnownStatus s) = PB_Prepared \<or> playbackState (lastKnownStatus s) = PB_Playing)"

definition syncPointRate :: "EDState \<Rightarrow> EDState" where
  "syncPointRate s =
     (if ed_rate s = lastSentPointRate s then s
      else if lastSentPointRate s = 0 then s
      else if playbackState (lastKnownStatus s) \<noteq> PB_Playing then s
      else resetPoints (s\<lparr>playbackAction := ActStop, pendingRateChangeCount := 0\<rparr>))"

end
