(* ===== verification/Ether_Dream_Session.thy ===== *)
theory Ether_Dream_Session
  imports Ether_Dream_State
begin

text \<open>
  The command/acknowledge exchange of the Ether Dream controller
  (src/EtherDream/EtherDreamController.cpp): the socket, the transmit history, the reader of
  the 22-byte response with its five outcomes, \<open>sendCommand\<close>, the stream-health accounting and
  the commands of the playback life cycle. \<open>None\<close> is an unspecified floating-point conversion.
\<close>

subsection \<open>The socket\<close>

definition tcp_is_connected :: "EDState \<Rightarrow> bool \<times> EDState" where
  "tcp_is_connected s =
     (if \<not> tcpOpen s then (False, s)
      else (net_alive (ed_net s) 0, s\<lparr>ed_net := (ed_net s)\<lparr>net_alive := \<lambda>n. net_alive (ed_net s) (Suc n)\<rparr>\<rparr>))"

definition tcp_close :: "EDState \<Rightarrow> EDState" where
  "tcp_close s = (if tcpOpen s then s\<lparr>tcpOpen := False, wire := Closed # wire s\<rparr> else s)"

definition tcp_connect :: "EDState \<Rightarrow> ErrorCode option \<times> EDState" where
  "tcp_connect s0 =
     (let s = tcp_close s0;
          ec = net_connects (ed_net s) 0;
          s1 = s\<lparr>ed_net := (ed_net s)\<lparr>net_connects := \<lambda>n. net_connects (ed_net s) (Suc n)\<rparr>\<rparr>
      in if ec = None then (None, s1\<lparr>tcpOpen := True, wire := Opened # wire s1\<rparr>) else (ec, s1))"

definition tcp_write_all :: "EDState \<Rightarrow> ErrorCode option \<times> EDState" where
  "tcp_write_all s =
     (net_writes (ed_net s) 0, s\<lparr>ed_net := (ed_net s)\<lparr>net_writes := \<lambda>n. net_writes (ed_net s) (Suc n)\<rparr>\<rparr>)"

text \<open>\<open>read_exact\<close> fills a buffer of \<open>n\<close> zero bytes.\<close>

definition tcp_read_exact :: "nat \<Rightarrow> EDState \<Rightarrow> (ErrorCode + bytes) \<times> EDState" where
  "tcp_read_exact n s =
     (map_sum id (\<lambda>bs. take n (bs @ replicate n 0)) (net_reads (ed_net s) 0),
      s\<lparr>ed_net := (ed_net s)\<lparr>net_reads := \<lambda>n. net_reads (ed_net s) (Suc n)\<rparr>\<rparr>)"

subsection \<open>The transmit history\<close>

definition recordProtocolTx :: "u64 \<Rightarrow> u8 \<Rightarrow> EDState \<Rightarrow> EDState" where
  "recordProtocolTx sequence code s =
     (let data = buffer (cmd_buffer (commandBuffer s));
          sz = bb_size (cmd_buffer (commandBuffer s));
          i = nextProtocolTxHistoryIndex s;
          (t, s1) = ed_now s;
          snap = no_snapshot\<lparr>tx_valid := True, tx_timestamp := t, tx_sequence := sequence, tx_opcode := code, tx_bytes := sz,
            tx_pendingRateChangeCount := pendingRateChangeCount s, tx_localRate := ed_rate s,
            tx_lastSentRate := lastSentPointRate s, tx_status := lastKnownStatus s,
            tx_hex := toHexLine (Some (take (loggedCommandBytes code sz) data))\<rparr>;
          snap1 = (if code = ch CHR ''d''
                   then snap\<lparr>tx_pointCount := readLe16OrZero data 1, tx_firstControl := readLe16OrZero data 3,
                             tx_rateChangeBit := (readLe16OrZero data 3 AND 0x8000 \<noteq> 0)\<rparr>
                   else if code = ch CHR ''b''
                   then snap\<lparr>tx_beginFlags := readLe16OrZero data 1, tx_commandRate := readLe32OrZero data 3\<rparr>
                   else if code = ch CHR ''q'' then snap\<lparr>tx_commandRate := readLe32OrZero data 1\<rparr>
                   else snap)
      in s1\<lparr>nextProtocolTxHistoryIndex := (i + 1) mod length (protocolTxHistory s),
            protocolTxHistory := (protocolTxHistory s)[i := snap1]\<rparr>)"

definition findProtocolTxSnapshot :: "u64 \<Rightarrow> EDState \<Rightarrow> ProtocolTxSnapshot option" where
  "findProtocolTxSnapshot sequence s = find (\<lambda>t. tx_valid t \<and> tx_sequence t = sequence) (protocolTxHistory s)"

definition dataPacketWouldOverflowBuffer :: "EtherDreamStatus \<Rightarrow> u64 \<Rightarrow> EDState \<Rightarrow> bool" where
  "dataPacketWouldOverflowBuffer st sequence s =
     (if getBufferSize s \<le> 0 then False
      else case findProtocolTxSnapshot sequence s of
        None \<Rightarrow> False
      | Some t \<Rightarrow> if tx_opcode t \<noteq> ch CHR ''d'' \<or> tx_pointCount t = 0 then False
                  else usableBufferFreeSpace (uint (bufferFullness st)) s < uint (tx_pointCount t))"

subsection \<open>Reading and classifying a response\<close>

definition recordBufferOverrun :: "EDState \<Rightarrow> EDState option" where
  "recordBufferOverrun s = startupBlank (intermittentError net_bufferOverrun s)"

definition empty_response :: EtherDreamResponse where
  "empty_response = \<lparr>response = 0, command = 0, status = initial_status\<rparr>"

definition readResponseFrame :: "EDState \<Rightarrow> ((ErrorCode + EtherDreamResponse) \<times> EDState) option" where
  "readResponseFrame s =
     (case tcp_read_exact 22 s of
        (Inl ec, s1) \<Rightarrow>
          Some (Inl ec, connectionError net_receiveFailed (if ec = TimedOut then intermittentError net_timeout s1 else s1))
      | (Inr raw, s1) \<Rightarrow> do {
          (ok, r) \<leftarrow> decode (Some raw) empty_response;
          Some (if ok then (Inr r, s1) else (Inl ProtocolErrorCode, intermittentError net_protocolError s1)) })"

definition commandFailureKindForResponseReadError :: "ErrorCode \<Rightarrow> CommandFailureKind" where
  "commandFailureKindForResponseReadError ec = (if ec = ProtocolErrorCode then ProtocolFailure else NetworkFailure)"

definition recoverInPlace :: CommandResult where
  "recoverInPlace = Inl (RecoverInPlace, OperationCanceled)"

definition handleStopConditionResponse :: "Globals \<Rightarrow> EtherDreamResponse \<Rightarrow> EDState \<Rightarrow> (CommandResult \<times> EDState) option" where
  "handleStopConditionResponse g r s = do {
     s1 \<leftarrow> updatePlaybackRequirements g (status r) s;
     Some (recoverInPlace, intermittentError ed_stopCondition s1) }"

definition handleInvalidCommandResponse ::
    "Globals \<Rightarrow> u8 \<Rightarrow> u64 \<Rightarrow> EtherDreamResponse \<Rightarrow> EDState \<Rightarrow> (CommandResult \<times> EDState) option" where
  "handleInvalidCommandResponse g cmd sequence r s = do {
     s1 \<leftarrow> updatePlaybackRequirements g (status r) s;
     let st = status r;
     let dataRejectedBecausePlaybackIdle =
       (cmd = ch CHR ''d'' \<and> lightEngineState st = LE_Ready \<and> playbackState st = PB_Idle);
     let dataRejectedBecauseBufferFull =
       (cmd = ch CHR ''d'' \<and> lightEngineState st = LE_Ready \<and> isPlaybackStateThatCanHoldBufferedData (playbackState st) \<and>
        (statusLooksFullForDataReject st (getBufferSize s1) \<or> dataPacketWouldOverflowBuffer st sequence s1));
     (if dataRejectedBecausePlaybackIdle then do {
        s2 \<leftarrow> startupBlank (intermittentError net_bufferUnderflow s1);
        Some (recoverInPlace, scheduleClearRecovery s2) }
      else if dataRejectedBecauseBufferFull then do {
        s2 \<leftarrow> recordBufferOverrun s1;
        Some (recoverInPlace, scheduleClearRecovery s2) }
      else let s2 = intermittentError net_protocolError s1
           in Some (recoverInPlace, if cmd = ch CHR ''d'' then scheduleClearRecovery s2 else s2)) }"

definition handleBufferFullResponse ::
    "Globals \<Rightarrow> u8 \<Rightarrow> EtherDreamResponse \<Rightarrow> EDState \<Rightarrow> (CommandResult \<times> EDState) option" where
  "handleBufferFullResponse g cmd r s = do {
     s1 \<leftarrow> updatePlaybackRequirements g (status r) s;
     s2 \<leftarrow> recordBufferOverrun s1;
     Some (recoverInPlace, if cmd = ch CHR ''d'' then scheduleClearRecovery s2 else s2) }"

definition handleUnexpectedResponse :: "EDState \<Rightarrow> CommandResult \<times> EDState" where
  "handleUnexpectedResponse s = (Inl (ProtocolFailure, ProtocolErrorCode), intermittentError net_protocolError s)"

definition handleResponseFrame ::
    "Globals \<Rightarrow> u8 \<Rightarrow> u64 \<Rightarrow> EtherDreamResponse \<Rightarrow> EDState \<Rightarrow> (CommandResult \<times> EDState) option" where
  "handleResponseFrame g cmd sequence r s =
     (if response r = ch CHR ''!'' \<and> responseMatchesCommand r cmd then handleStopConditionResponse g r s
      else if response r = ch CHR ''I'' \<and> responseMatchesCommand r cmd then handleInvalidCommandResponse g cmd sequence r s
      else if response r = ch CHR ''F'' \<and> responseMatchesCommand r cmd then handleBufferFullResponse g cmd r s
      else do {
        s1 \<leftarrow> updatePlaybackRequirements g (status r) s;
        Some (if response r \<noteq> ch CHR ''a'' \<or> \<not> responseMatchesCommand r cmd then handleUnexpectedResponse s1
              else (Inr \<lparr>ack_status = status r, ack_command = command r\<rparr>, s1)) })"

definition waitForResponse :: "Globals \<Rightarrow> u8 \<Rightarrow> bool \<Rightarrow> u64 \<Rightarrow> EDState \<Rightarrow> (CommandResult \<times> EDState) option" where
  "waitForResponse g cmd allowWhileStopping sequence s0 =
     (let (on, s) = isRunning s0
      in if \<not> on \<and> \<not> allowWhileStopping then Some (Inl (FailShutdown, OperationCanceled), s)
      else let (up, s1) = tcp_is_connected s
      in if \<not> up then Some (Inl (NetworkFailure, NotConnected), s1)
      else do {
        (frame, s2) \<leftarrow> readResponseFrame s1;
        (case frame of
           Inl ec \<Rightarrow> Some (Inl (commandFailureKindForResponseReadError ec, ec), s2)
         | Inr r \<Rightarrow> handleResponseFrame g cmd sequence r s2) })"

subsection \<open>Sending a command\<close>

definition outcome_of :: "CommandResult \<Rightarrow> Outcome" where
  "outcome_of r = (case r of Inr _ \<Rightarrow> Accepted | Inl (k, _) \<Rightarrow> if k = RecoverInPlace then Rejected else Broken)"

definition exchange_of :: "EDState \<Rightarrow> CommandResult \<Rightarrow> Exchange" where
  "exchange_of s r = \<lparr>ex_bytes = buffer (cmd_buffer (commandBuffer s)), ex_status = lastKnownStatus s,
     ex_estimate = pr_estimatedBufferBeforeRequest (pendingStreamHealthRequest s), ex_capacity = getBufferSize s,
     ex_outcome = outcome_of r\<rparr>"

definition logExchange :: "Exchange \<Rightarrow> EDState \<Rightarrow> EDState" where
  "logExchange e s = s\<lparr>wire := Exchanged e # wire s\<rparr>"

definition resetCommand :: "EDState \<Rightarrow> EDState" where
  "resetCommand s = s\<lparr>commandBuffer := cmd_reset (commandBuffer s)\<rparr>"

definition sendCommand :: "Globals \<Rightarrow> bool \<Rightarrow> EDState \<Rightarrow> (CommandResult \<times> EDState) option" where
  "sendCommand g allowWhileStopping s0 =
     (let (on, s) = isRunning s0
      in if \<not> on \<and> \<not> allowWhileStopping then Some (Inl (FailShutdown, OperationCanceled), s)
      else if \<not> cmd_isReady (commandBuffer s) then Some (Inl (ProtocolFailure, InvalidArgument), s)
      else let code = opcode (commandBuffer s);
               sequence = nextCommandSequence s + 1;
               s1 = s\<lparr>nextCommandSequence := sequence\<rparr>;
               (sendStartTime, s2) = ed_now s1;
               s3 = recordProtocolTx sequence code s2
      in case tcp_write_all s3 of
           (Some ec, s4) \<Rightarrow>
             let result = Inl (NetworkFailure, ec)
             in Some (result, connectionError net_sendFailed (resetCommand (logExchange (exchange_of s result) s4)))
         | (None, s4) \<Rightarrow> do {
             (ack, s5) \<leftarrow> waitForResponse g code True sequence s4;
             let s6 = (if \<not> isl ack \<and> code = ch CHR ''d''
                       then let (t, s') = ed_now s5 in latencySample (t - sendStartTime) s' else s5);
             Some (ack, resetCommand (logExchange (exchange_of s ack) s6)) })"

definition sendPointRate :: "Globals \<Rightarrow> u32 \<Rightarrow> EDState \<Rightarrow> (CommandResult \<times> EDState) option" where
  "sendPointRate g rate s = do {
     (ack, s1) \<leftarrow> sendCommand g False (s\<lparr>commandBuffer := setPointRateCommand rate (commandBuffer s)\<rparr>);
     Some (case ack of
             Inl (k, ec) \<Rightarrow> (ack, if ec = TimedOut then intermittentError net_timeout s1 else s1)
           | Inr _ \<Rightarrow> (ack, s1\<lparr>pendingRateChangeCount := pendingRateChangeCount s1 + 1\<rparr>)) }"

definition handleNetworkFailure :: "ErrorCode \<Rightarrow> EDState \<Rightarrow> EDState" where
  "handleNetworkFailure ec s =
     tcp_close (connectionError net_connectionLost
       (s\<lparr>connectionActive := False, clearOnFreshConnection := True, lastError := Some ec\<rparr>))"

definition shouldCloseConnectionAfterCommandFailure :: "CommandResult \<Rightarrow> bool" where
  "shouldCloseConnectionAfterCommandFailure r =
     (case r of Inr _ \<Rightarrow> False | Inl (k, _) \<Rightarrow> k \<noteq> FailShutdown \<and> k \<noteq> RecoverInPlace)"

definition error_of :: "CommandResult \<Rightarrow> ErrorCode" where
  "error_of r = (case r of Inl (_, ec) \<Rightarrow> ec | Inr _ \<Rightarrow> OtherError 0)"

definition closeAfterFailure :: "CommandResult \<Rightarrow> EDState \<Rightarrow> EDState" where
  "closeAfterFailure r s = (if shouldCloseConnectionAfterCommandFailure r then handleNetworkFailure (error_of r) s else s)"

subsection \<open>Stream health\<close>

definition mapWindow :: "(StreamHealthWindow \<Rightarrow> StreamHealthWindow) \<Rightarrow> EDState \<Rightarrow> EDState" where
  "mapWindow f s = s\<lparr>streamHealthWindow := f (streamHealthWindow s)\<rparr>"

definition mapPending :: "(PendingStreamHealthRequest \<Rightarrow> PendingStreamHealthRequest) \<Rightarrow> EDState \<Rightarrow> EDState" where
  "mapPending f s = s\<lparr>pendingStreamHealthRequest := f (pendingStreamHealthRequest s)\<rparr>"

definition captureStreamHealthRequest :: "PointFillRequest \<Rightarrow> bool \<Rightarrow> int \<Rightarrow> EDState \<Rightarrow> EDState" where
  "captureStreamHealthRequest req reqRan requestDuration s =
     (let (t, s1) = ed_now s
      in mapPending (\<lambda>p. p\<lparr>pr_valid := True, pr_requestRan := reqRan, pr_request := req,
           pr_metrics := pointRequestMetrics (ed_stream s1), pr_requestDuration := requestDuration,
           pr_requestCompletedAt := t\<rparr>) s1)"

definition pendingStreamHealthRequestLikelyStarvedDac :: "EDState \<Rightarrow> bool" where
  "pendingStreamHealthRequestLikelyStarvedDac s =
     (let p = pendingStreamHealthRequest s
      in if \<not> pr_valid p \<or> \<not> pr_playbackWasPlaying p \<or> pr_targetBufferPointCount p \<le> 0 then False
      else if bufferIsBelowPlayingUnderrunThreshold (pr_estimatedBufferBeforeRequest p) s then True
      else let pointsUntilUnderrun = pr_estimatedBufferBeforeRequest p - playingUnderrunBufferThreshold s + 1
           in if pointsUntilUnderrun \<le> 0 then True
           else let msUntilUnderrun = pointsToMillis (nat pointsUntilUnderrun) (ed_rate s)
                in flt (Fin 0) msUntilUnderrun \<and> fle msUntilUnderrun (durationMillis (pr_requestDuration p)))"

definition recordComputerPerformanceUnderrun :: "EDState \<Rightarrow> EDState" where
  "recordComputerPerformanceUnderrun s =
     (if pr_computerPerformanceUnderrun (pendingStreamHealthRequest s) then s
      else intermittentError ed_streamStarvation (mapPending (\<lambda>p. p\<lparr>pr_computerPerformanceUnderrun := True\<rparr>) s))"

definition applyUnderrunRecoveryBlankToCurrentPacket :: "EDState \<Rightarrow> EDState option" where
  "applyUnderrunRecoveryBlankToCurrentPacket s =
     (if pr_recoveryBlankApplied (pendingStreamHealthRequest s) then Some s
      else do {
        s1 \<leftarrow> startupBlank s;
        let (points, p) = applyStartupBlankToOutputPoints (ed_points s1) (pipe (ed_stream s1));
        Some (mapPending (\<lambda>q. q\<lparr>pr_recoveryBlankApplied := True\<rparr>)
                (mapStream (\<lambda>st. st\<lparr>pointsToSend := points, pipe := p\<rparr>) s1)) })"

definition maybeLogStreamHealthSummary :: "time_point \<Rightarrow> EDState \<Rightarrow> EDState" where
  "maybeLogStreamHealthSummary t s =
     (if hw_startedAt (streamHealthWindow s) = 0 then mapWindow (\<lambda>w. w\<lparr>hw_startedAt := t\<rparr>) s
      else if t - hw_startedAt (streamHealthWindow s) < 1000000000 then s
      else s\<lparr>streamHealthWindow := no_window\<lparr>hw_startedAt := t\<rparr>\<rparr>)"

text \<open>The rate limit of the verbose starvation warning.\<close>

definition noteStarvationWarning :: "time_point \<Rightarrow> EDState \<Rightarrow> EDState" where
  "noteStarvationWarning t s =
     (if ed_verbose s \<and> (lastStreamHealthWarningTime s = 0 \<or> 500000000 \<le> t - lastStreamHealthWarningTime s)
      then s\<lparr>lastStreamHealthWarningTime := t\<rparr> else s)"

definition startWindow :: "time_point \<Rightarrow> StreamHealthWindow \<Rightarrow> StreamHealthWindow" where
  "startWindow t w = (if hw_startedAt w = 0 then w\<lparr>hw_startedAt := t\<rparr> else w)"

text \<open>The maximum with 256 hides how a negative quotient would round.\<close>

definition lowBufferThreshold :: "PendingStreamHealthRequest \<Rightarrow> int" where
  "lowBufferThreshold p = max ETHERDREAM_MIN_BUFFER_POINTS (pr_targetBufferPointCount p div 2)"

definition recordStreamHealthRequestMiss :: "EDState \<Rightarrow> EDState option" where
  "recordStreamHealthRequestMiss s =
     (if \<not> pr_valid (pendingStreamHealthRequest s) then Some s
      else let (t, s1) = ed_now s;
               p = pendingStreamHealthRequest s1;
               s2 = mapWindow (\<lambda>w. let w1 = startWindow t w in
                      w1\<lparr>hw_requestMisses := hw_requestMisses w1 + 1,
                         hw_requestSamplesMs := sh_add (durationMillis (pr_requestDuration p)) (hw_requestSamplesMs w1),
                         hw_lastTargetBufferPoints := pr_targetBufferPointCount p,
                         hw_minEstimatedBuffer := min (hw_minEstimatedBuffer w1) (pr_estimatedBufferBeforeRequest p)\<rparr>) s1
      in do {
        s3 \<leftarrow> (if pendingStreamHealthRequestLikelyStarvedDac s2
               then startupBlank (recordComputerPerformanceUnderrun
                      (mapWindow (\<lambda>w. w\<lparr>hw_starvationEvents := hw_starvationEvents w + 1\<rparr>) s2))
               else Some s2);
        let s4 = (if pr_estimatedBufferBeforeRequest p \<le> lowBufferThreshold p
                  then noteStarvationWarning t (mapWindow (\<lambda>w. w\<lparr>hw_lowBufferEvents := hw_lowBufferEvents w + 1\<rparr>) s3)
                  else s3);
        Some (maybeLogStreamHealthSummary t (mapPending (\<lambda>q. q\<lparr>pr_valid := False\<rparr>) s4)) })"

definition countPacket :: "time_point \<Rightarrow> int \<Rightarrow> EtherDreamStatus \<Rightarrow> EDState \<Rightarrow> EDState" where
  "countPacket t sendDuration ackStatus s =
     (let p = pendingStreamHealthRequest s; m = pr_metrics p;
          gap = lastStreamHealthDataAckTime s;
          f = (\<lambda>w. let w1 = startWindow t w;
                        w2 = (if gap \<noteq> 0
                              then w1\<lparr>hw_dataGapSamplesMs := sh_add (durationMillis (t - gap)) (hw_dataGapSamplesMs w1)\<rparr>
                              else w1);
                        w3 = w2\<lparr>hw_packetCount := hw_packetCount w2 + 1,
                                hw_requestSamplesMs := sh_add (durationMillis (pr_requestDuration p)) (hw_requestSamplesMs w2),
                                hw_sendSamplesMs := sh_add (durationMillis sendDuration) (hw_sendSamplesMs w2),
                                hw_lastTargetBufferPoints := pr_targetBufferPointCount p,
                                hw_minEstimatedBuffer := min (hw_minEstimatedBuffer w2) (pr_estimatedBufferBeforeRequest p),
                                hw_minAckBuffer := min (hw_minAckBuffer w2) (uint (bufferFullness ackStatus))\<rparr>;
                        w4 = (if 0 < blankPaddingPointCount m
                              then w3\<lparr>hw_paddedEvents := hw_paddedEvents w3 + 1,
                                      hw_paddedPoints := hw_paddedPoints w3 + of_nat (blankPaddingPointCount m)\<rparr> else w3)
                    in if 0 < clampedPointCount m
                       then w4\<lparr>hw_clampedEvents := hw_clampedEvents w4 + 1,
                               hw_clampedPoints := hw_clampedPoints w4 + of_nat (clampedPointCount m)\<rparr> else w4)
      in (mapWindow f s)\<lparr>lastStreamHealthDataAckTime := t\<rparr>)"

definition recordStreamHealthPacket :: "EtherDreamStatus \<Rightarrow> int \<Rightarrow> EDState \<Rightarrow> EDState option" where
  "recordStreamHealthPacket ackStatus sendDuration s =
     (if \<not> pr_valid (pendingStreamHealthRequest s) then Some s
      else let (t, s1) = ed_now s;
               s2 = countPacket t sendDuration ackStatus s1;
               p = pendingStreamHealthRequest s2;
               computerPerformanceUnderrun =
                 (pr_computerPerformanceUnderrun p \<or> pendingStreamHealthRequestLikelyStarvedDac s2);
               dacStoppedAfterPlaying =
                 (pr_playbackWasPlaying p \<and> lightEngineState ackStatus = LE_Ready \<and> playbackState ackStatus = PB_Idle);
               dacBufferUnderrunWhilePlaying =
                 (pr_playbackWasPlaying p \<and> statusReportsPlayingBufferUnderrun ackStatus s2);
               starved = mapWindow (\<lambda>w. w\<lparr>hw_starvationEvents := hw_starvationEvents w + 1\<rparr>)
      in do {
        s3 \<leftarrow> (if computerPerformanceUnderrun
               then let u = starved s2;
                        u1 = (if \<not> pr_computerPerformanceUnderrun p then recordComputerPerformanceUnderrun u else u)
                    in if \<not> pr_recoveryBlankApplied p then startupBlank u1 else Some u1
               else if dacStoppedAfterPlaying \<or> dacBufferUnderrunWhilePlaying
               then startupBlank (intermittentError net_bufferUnderflow (starved s2))
               else Some s2);
        let lowBuffer = (pr_estimatedBufferBeforeRequest p \<le> lowBufferThreshold p \<or>
                         uint (bufferFullness ackStatus) \<le> lowBufferThreshold p);
        let s4 = (if lowBuffer
                  then noteStarvationWarning t (mapWindow (\<lambda>w. w\<lparr>hw_lowBufferEvents := hw_lowBufferEvents w + 1\<rparr>) s3)
                  else s3);
        Some (maybeLogStreamHealthSummary t (mapPending (\<lambda>q. q\<lparr>pr_valid := False\<rparr>) s4)) })"

definition resetStreamHealth :: "EDState \<Rightarrow> EDState" where
  "resetStreamHealth s =
     (let (t, s1) = ed_now s
      in s1\<lparr>pendingStreamHealthRequest := no_pending, streamHealthWindow := no_window\<lparr>hw_startedAt := t\<rparr>,
            lastStreamHealthDataAckTime := 0, lastStreamHealthWarningTime := 0\<rparr>)"

subsection \<open>The life-cycle commands\<close>

definition setCommand :: "EtherDreamCommand \<Rightarrow> EDState \<Rightarrow> EDState" where
  "setCommand c s = s\<lparr>commandBuffer := c\<rparr>"

definition sendStop :: "Globals \<Rightarrow> bool \<Rightarrow> EDState \<Rightarrow> EDState option" where
  "sendStop g allowWhileStopping s = do {
     (ack, s1) \<leftarrow> sendCommand g allowWhileStopping (setCommand (setSingleByteCommand (ch CHR ''s'') (commandBuffer s)) s);
     Some (case ack of
       Inr a \<Rightarrow>
         let s2 = resetPoints (s1\<lparr>lastSentPointRate := 0, pendingRateChangeCount := 0\<rparr>)
         in if lightEngineState (ack_status a) = LE_Ready \<and> playbackState (ack_status a) \<noteq> PB_Idle
            then s2\<lparr>playbackAction := ActStop\<rparr> else s2
     | Inl _ \<Rightarrow> closeAfterFailure ack s1) }"

definition sendClear :: "Globals \<Rightarrow> EDState \<Rightarrow> EDState option" where
  "sendClear g s = do {
     (ack, s1) \<leftarrow> sendCommand g False (setCommand (setSingleByteCommand (ch CHR ''c'') (commandBuffer s)) s);
     Some (closeAfterFailure ack s1) }"

definition sendPrepare :: "Globals \<Rightarrow> EDState \<Rightarrow> EDState option" where
  "sendPrepare g s = do {
     (ack, s1) \<leftarrow> sendCommand g False (setCommand (setSingleByteCommand (ch CHR ''p'') (commandBuffer s)) s);
     Some (case ack of
       Inr a \<Rightarrow> if lightEngineState (ack_status a) = LE_Ready \<and> playbackState (ack_status a) \<noteq> PB_Idle
                  \<and> playbackState (ack_status a) \<noteq> PB_Prepared
                then s1\<lparr>playbackAction := ActStop\<rparr> else s1
     | Inl _ \<Rightarrow> closeAfterFailure ack s1) }"

definition sendBegin :: "Globals \<Rightarrow> EDState \<Rightarrow> EDState option" where
  "sendBegin g s = do {
     let targetRate = ed_rate s;
     (ack, s1) \<leftarrow> sendCommand g False (setCommand (setBeginCommand targetRate (commandBuffer s)) s);
     Some (case ack of
       Inr a \<Rightarrow> if playbackState (ack_status a) = PB_Playing
                then s1\<lparr>lastSentPointRate := targetRate, pendingRateChangeCount := 0\<rparr> else s1
     | Inl (k, ec) \<Rightarrow> closeAfterFailure ack (if ec = TimedOut then intermittentError net_timeout s1 else s1)) }"

definition sendPing :: "Globals \<Rightarrow> EDState \<Rightarrow> (CommandResult \<times> EDState) option" where
  "sendPing g s = sendCommand g False (setCommand (setSingleByteCommand (ch CHR ''?'') (commandBuffer s)) s)"

definition pollStatus :: "Globals \<Rightarrow> EDState \<Rightarrow> EDState option" where
  "pollStatus g s = do {
     (ack, s1) \<leftarrow> sendPing g s;
     s2 \<leftarrow> (case ack of
             Inr a \<Rightarrow> if statusReportsPlayingBufferUnderrun (ack_status a) s1
                      then startupBlank (intermittentError net_bufferUnderflow s1) else Some s1
           | Inl _ \<Rightarrow> Some s1);
     Some (closeAfterFailure ack s2) }"

definition sendOrderlyStopBeforeClose :: "Globals \<Rightarrow> EDState \<Rightarrow> EDState option" where
  "sendOrderlyStopBeforeClose g s =
     (if \<not> connectionActive s then Some s
      else let (up, s1) = tcp_is_connected s
      in if \<not> up then Some s1
      else if lightEngineState (lastKnownStatus s1) \<noteq> LE_Ready then Some s1
      else if playbackState (lastKnownStatus s1) = PB_Idle then Some s1
      else sendStop g True s1)"

text \<open>The packet of \<open>sendPoints\<close>: the points that fit the 16-bit count, the first one with the
  rate-change bit when a change is pending.\<close>

definition buildDataPacket :: "bool \<Rightarrow> LaserPoint list \<Rightarrow> EtherDreamCommand \<Rightarrow> EtherDreamCommand option" where
  "buildDataPacket injectRateChange points c =
     (let pointCount = (of_nat (length points) :: u16);
          sent = take (unat pointCount) points
      in addPoints sent (map (\<lambda>i. injectRateChange \<and> i = 0) [0 ..< length sent]) (setDataCommand pointCount c))"

definition sendPoints :: "Globals \<Rightarrow> EDState \<Rightarrow> EDState option" where
  "sendPoints g s =
     (if \<not> canSendData s
      then Some (resetPoints
             (if playbackAction s \<noteq> ActClear \<and> playbackAction s \<noteq> ActStop \<and>
                 lightEngineState (lastKnownStatus s) = LE_Ready \<and> playbackState (lastKnownStatus s) = PB_Idle
              then s\<lparr>playbackAction := ActPrepare\<rparr> else s))
      else if ed_points s = [] then Some s
      else do {
        s1 \<leftarrow> (if pendingStreamHealthRequestLikelyStarvedDac s
                then applyUnderrunRecoveryBlankToCurrentPacket (recordComputerPerformanceUnderrun s) else Some s);
        let injectRateChange = (0 < pendingRateChangeCount s1);
        c \<leftarrow> buildDataPacket injectRateChange (ed_points s1) (commandBuffer s1);
        let s2 = setCommand c s1;
        (if bb_size (cmd_buffer c) = 0 then Some (resetPoints (handleNetworkFailure InvalidArgument s2))
         else do {
           let (sendStart, s3) = ed_now s2;
           (dataAck, s4) \<leftarrow> sendCommand g False s3;
           let (sendEnd, s5) = ed_now s4;
           (case dataAck of
              Inl _ \<Rightarrow> Some (resetPoints (closeAfterFailure dataAck s5))
            | Inr a \<Rightarrow> do {
                s6 \<leftarrow> recordStreamHealthPacket (ack_status a) (sendEnd - sendStart) s5;
                Some (resetPoints (if injectRateChange
                        then s6\<lparr>pendingRateChangeCount := pendingRateChangeCount s6 - 1\<rparr> else s6)) }) }) })"

end
