(* ===== verification/Ether_Dream_Worker.thy ===== *)
theory Ether_Dream_Worker
  imports Ether_Dream_Session
begin

text \<open>
  The worker thread of the Ether Dream controller (src/EtherDream/EtherDreamController.cpp):
  connecting, the handshake with its firmware probe, the point request, one pass of the inner
  loop of \<open>run\<close>, the reconnect loop around it, and the transition system that interleaves the
  worker with the application.
\<close>

subsection \<open>Connecting\<close>

definition resetProtocolStateForConnection :: "EDState \<Rightarrow> EDState" where
  "resetProtocolStateForConnection s =
     (let s1 = resetStreamHealth (s\<lparr>playbackAction := ActPrepare, connectionActive := False, lastKnownStatus := initial_status,
                 lastReceiveTime := 0, pendingRateChangeCount := 0, lastSentPointRate := 0,
                 implausiblePointRateRecoveryPending := False, rebootRequiredLatched := False, nextCommandSequence := 0,
                 protocolTxHistory := replicate PROTOCOL_TX_HISTORY_SIZE no_snapshot, nextProtocolTxHistoryIndex := 0\<rparr>)
      in resetPoints (s1\<lparr>lastEstimatedBufferFullness := 0, lastKnownBufferCapacity := getBufferSize s1\<rparr>))"

text \<open>The boolean is the success of the \<open>expected<void>\<close>.\<close>

definition ed_connect :: "EDState \<Rightarrow> bool \<times> EDState" where
  "ed_connect s =
     (case controllerInfo s of
        None \<Rightarrow> (False, connectionError net_connectFailed (s\<lparr>lastError := Some InvalidArgument\<rparr>))
      | Some i \<Rightarrow>
          (case net_address (ed_net s) (info_ip i) of
             Some ec \<Rightarrow> (False, connectionError net_connectFailed (s\<lparr>lastError := Some ec\<rparr>))
           | None \<Rightarrow>
               (case tcp_connect s of
                  (Some ec, s1) \<Rightarrow> (False, connectionError net_connectFailed (s1\<lparr>lastError := Some ec\<rparr>))
                | (None, s1) \<Rightarrow>
                    let s2 = resetProtocolStateForConnection (s1\<lparr>connectionGeneration := connectionGeneration s1 + 1\<rparr>)
                    in (True, connectionState True (s2\<lparr>lastError := None\<rparr>)))))"

definition ed_connectTo :: "EtherDreamControllerInfo \<Rightarrow> EDState \<Rightarrow> bool \<times> EDState" where
  "ed_connectTo info s = ed_connect (s\<lparr>controllerInfo := Some info, firmwareVersionString := info_firmwareVersion info\<rparr>)"

definition ed_close :: "EDState \<Rightarrow> EDState" where
  "ed_close s = tcp_close (connectionState False (s\<lparr>connectionActive := False\<rparr>))"

definition ensureConnected :: "EDState \<Rightarrow> bool \<times> EDState" where
  "ensureConnected s0 =
     (case tcp_is_connected s0 of
        (True, s) \<Rightarrow> (True, connectionState True s)
      | (False, s) \<Rightarrow>
          (case ed_connect (tcp_close s) of
             (True, s1) \<Rightarrow> (True, connectionState True (s1\<lparr>lastError := None\<rparr>))
           | (False, s1) \<Rightarrow> (False, connectionState False s1)))"

definition hasActiveConnection :: "EDState \<Rightarrow> bool \<times> EDState" where
  "hasActiveConnection s =
     (let (up, s1) = tcp_is_connected s in (up \<and> lastError s1 = None \<and> connectionActive s1, s1))"

definition trimFirmwareString :: "string \<Rightarrow> string" where
  "trimFirmwareString text =
     (let isTrimSpace = (\<lambda>c. of_char c \<in> {9, 10, 11, 12, 13, 32 :: nat})
      in rev (dropWhile isTrimSpace (rev (dropWhile isTrimSpace text))))"

definition shouldProbeFirmwareVersion :: "EDState \<Rightarrow> bool" where
  "shouldProbeFirmwareVersion s =
     (case controllerInfo s of
        None \<Rightarrow> False
      | Some i \<Rightarrow> if firmwareProbeDisabledForSession s then False
                  else if info_hardwareRevision i = 0 \<or> info_softwareRevision i < 2 then False
                  else firmwareVersionString s = [])"

definition printable :: "u8 \<Rightarrow> char" where
  "printable b = (if 32 \<le> b \<and> b \<le> 126 then char_of (unat b) else CHR '' '')"

definition readFirmwareVersionString :: "EDState \<Rightarrow> (ErrorCode + string) \<times> EDState" where
  "readFirmwareVersionString s0 =
     (let (ec, s) = tcp_write_all (s0\<lparr>wire := FirmwareProbe # wire s0\<rparr>)
      in case ec of
           Some e \<Rightarrow> (Inl e, s)
         | None \<Rightarrow> let (r, s1) = tcp_read_exact 32 s
                    in (map_sum id (\<lambda>raw. trimFirmwareString (map printable raw)) r, s1))"

definition probeFirmwareVersionOnExistingConnection :: "EDState \<Rightarrow> EDState" where
  "probeFirmwareVersionOnExistingConnection s =
     (if \<not> shouldProbeFirmwareVersion s then s
      else case readFirmwareVersionString s of
        (Inl _, s1) \<Rightarrow> s1\<lparr>firmwareProbeDisabledForSession := True\<rparr>
      | (Inr v, s1) \<Rightarrow>
          if v = [] then s1
          else s1\<lparr>firmwareVersionString := v,
                  controllerInfo := map_option (\<lambda>i. i\<lparr>info_firmwareVersion := v\<rparr>) (controllerInfo s1)\<rparr>)"

definition performHandshake :: "Globals \<Rightarrow> EDState \<Rightarrow> (bool \<times> EDState) option" where
  "performHandshake g s = do {
     (initialAck, s1) \<leftarrow> waitForResponse g (ch CHR ''?'') False 0 s;
     (case initialAck of
        Inr a \<Rightarrow> Some (True, probeFirmwareVersionOnExistingConnection (applyFreshConnectionStatus (ack_status a) s1))
      | Inl _ \<Rightarrow> do {
          (pingAck, s2) \<leftarrow> sendPing g s1;
          Some (case pingAck of
            Inr a \<Rightarrow> (True, probeFirmwareVersionOnExistingConnection (applyFreshConnectionStatus (ack_status a) s2))
          | Inl _ \<Rightarrow> (False, handleNetworkFailure (error_of pingAck) s2)) }) }"

subsection \<open>The point request\<close>

text \<open>\<open>duration_cast\<close> from fractional to whole milliseconds truncates.\<close>

definition getFillRequest :: "Globals \<Rightarrow> EDState \<Rightarrow> (PointFillRequest \<times> EDState) option" where
  "getFillRequest g s = do {
     (fullness, s1) \<leftarrow> estimateBufferFullness s;
     targetPoints \<leftarrow> ed_targetBufferPoints g s1;
     let freeSpace = usableBufferFreeSpace fullness s1;
     let packetSpace = min (nat freeSpace) ETHERDREAM_MAX_PACKET_POINTS;
     (deficit, s2) \<leftarrow> targetBufferDeficitPoints g s1;
     bufferLead \<leftarrow> ftrunc (pointsToMillis (nat fullness) (ed_rate s2));
     let (t, s3) = ed_now s2;
     let req = \<lparr>minimumPointsRequired = min deficit packetSpace, maximumPointsRequired = packetSpace,
                estimatedFirstPointRenderTime = t + bufferLead * 1000000, currentPointIndex = 0, allowShortRead = False\<rparr>;
     Some (req, resetPoints (mapPending (\<lambda>p. p\<lparr>pr_estimatedBufferBeforeRequest := fullness,
                  pr_targetBufferPointCount := targetPoints, pr_freeSpace := freeSpace,
                  pr_playbackWasPlaying := (playbackState (lastKnownStatus s3) = PB_Playing),
                  pr_computerPerformanceUnderrun := False, pr_recoveryBlankApplied := False\<rparr>) s3)) }"

definition shouldRequestPoints :: "Globals \<Rightarrow> PointFillRequest \<Rightarrow> EDState \<Rightarrow> bool option" where
  "shouldRequestPoints g req s = do {
     threshold \<leftarrow> beginBufferThresholdPoints g s;
     let st = lastKnownStatus s;
     Some (if lightEngineState st = LE_Ready \<and> playbackState st = PB_Prepared \<and> uint (bufferFullness st) < threshold
           then 0 < minimumPointsRequired req
           else if lightEngineState st = LE_Ready \<and> playbackState st = PB_Playing \<and>
             bufferIsBelowPlayingUnderrunThreshold (pr_estimatedBufferBeforeRequest (pendingStreamHealthRequest s)) s
           then 0 < maximumPointsRequired req
           else ETHERDREAM_NORMAL_REFILL_MIN_DEFICIT_POINTS \<le> minimumPointsRequired req) }"

definition sleepUntilNextPoints :: "Globals \<Rightarrow> EDState \<Rightarrow> EDState option" where
  "sleepUntilNextPoints g s = do {
     minPointsInBuffer \<leftarrow> ed_targetBufferPoints g s;
     (fullness, s1) \<leftarrow> estimateBufferFullness s;
     let pointsAboveMinimum = max 0 (fullness - minPointsInBuffer);
     r \<leftarrow> llround (pointsToMillis (nat pointsAboveMinimum) (ed_rate s1));
     let millisToWait = clampSleepMillis (cast_int r) ETHERDREAM_MIN_SLEEP ETHERDREAM_MAX_SLEEP;
     Some (sleepFor millisToWait s1) }"

definition ed_requestPoints :: "Globals \<Rightarrow> PointFillRequest \<Rightarrow> EDState \<Rightarrow> (bool \<times> EDState) option" where
  "ed_requestPoints g req s = do {
     (ok, c, clk) \<leftarrow> requestPoints g req (ed_clock s) (ed_base s);
     Some (ok, s\<lparr>ed_base := c, ed_clock := clk\<rparr>) }"

subsection \<open>The worker\<close>

text \<open>The last part of the inner loop's body: wait, ask for points, send them.\<close>

definition streamPoints :: "Globals \<Rightarrow> EDState \<Rightarrow> EDState option" where
  "streamPoints g s = do {
     s1 \<leftarrow> sleepUntilNextPoints g s;
     (req, s2) \<leftarrow> getFillRequest g s1;
     want \<leftarrow> shouldRequestPoints g req s2;
     (if \<not> want then Some s2
      else do {
        let (requestStart, s3) = ed_now s2;
        (reqRan, s4) \<leftarrow> ed_requestPoints g req s3;
        let (requestEnd, s5) = ed_now s4;
        let s6 = captureStreamHealthRequest req reqRan (requestEnd - requestStart) s5;
        (if reqRan then sendPoints g s6
         else map_option resetPoints (recordStreamHealthRequestMiss s6)) }) }"

definition workerPass :: "Globals \<Rightarrow> EDState \<Rightarrow> EDState option" where
  "workerPass g s =
     (case playbackAction s of
        ActStop \<Rightarrow> sendStop g False s
      | ActClear \<Rightarrow> sendClear g s
      | ActPrepare \<Rightarrow> sendPrepare g s
      | ActBegin \<Rightarrow> sendBegin g s
      | ActNone \<Rightarrow>
          let s1 = syncPointRate s
          in if playbackAction s1 \<noteq> ActNone then Some s1
             else if \<not> canSendData s1 then map_option (sleepFor ETHERDREAM_MIN_SLEEP) (pollStatus g s1)
             else streamPoints g s1)"

definition RECONNECT_INITIAL_DELAY :: int where "RECONNECT_INITIAL_DELAY = 100"
definition RECONNECT_BACKOFF_DELAY :: int where "RECONNECT_BACKOFF_DELAY = 250"
definition RECONNECT_MAX_DELAY :: int where "RECONNECT_MAX_DELAY = 1000"
definition RECONNECT_STABLE_RESET_TIME :: int where "RECONNECT_STABLE_RESET_TIME = 1000000000"

datatype WorkerPhase = NotStarted | Connecting | InSession time_point | Finished

record Worker =
  w_ed :: EDState
  w_delay :: int
  w_phase :: WorkerPhase

definition sleepBeforeRetry :: "bool \<Rightarrow> int \<Rightarrow> EDState \<Rightarrow> int \<times> EDState" where
  "sleepBeforeRetry increaseDelay d s =
     (let s1 = (if 0 < d then sleepFor d s else s)
      in (if increaseDelay
          then if d = 0 then RECONNECT_BACKOFF_DELAY else min (d * 2) RECONNECT_MAX_DELAY
          else d, s1))"

definition retrying :: "bool \<Rightarrow> int \<Rightarrow> EDState \<Rightarrow> Worker" where
  "retrying increaseDelay d s =
     (let (d', s1) = sleepBeforeRetry increaseDelay d s in \<lparr>w_ed = s1, w_delay = d', w_phase = Connecting\<rparr>)"

text \<open>The outer loop up to the inner one.\<close>

definition connectStep :: "Globals \<Rightarrow> int \<Rightarrow> EDState \<Rightarrow> Worker option" where
  "connectStep g d s0 =
     (let (on, s) = isRunning s0
      in if \<not> on then Some \<lparr>w_ed = s, w_delay = d, w_phase = Finished\<rparr>
      else if controllerInfo s = None
      then Some \<lparr>w_ed = sleepFor RECONNECT_BACKOFF_DELAY (connectionState False s), w_delay = d, w_phase = Connecting\<rparr>
      else let (ok, s1) = ensureConnected s
      in if \<not> ok then Some (retrying True d s1)
      else do {
        (greeted, s2) \<leftarrow> performHandshake g (connectionState True (s1\<lparr>connectionActive := True\<rparr>));
        (if \<not> greeted then Some (retrying True d (ed_close s2))
         else do {
           let (connectionStartedAt, s3) = ed_now s2;
           s4 \<leftarrow> startupBlank s3;
           Some \<lparr>w_ed = s4, w_delay = d, w_phase = InSession connectionStartedAt\<rparr> }) })"

text \<open>One test and pass of the inner loop, or what follows it.\<close>

definition sessionStep :: "Globals \<Rightarrow> int \<Rightarrow> time_point \<Rightarrow> EDState \<Rightarrow> Worker option" where
  "sessionStep g d connectionStartedAt s0 =
     (let (on, s) = isRunning s0
      in if on \<and> connectionActive s
      then map_option (\<lambda>s1. \<lparr>w_ed = s1, w_delay = d, w_phase = InSession connectionStartedAt\<rparr>) (workerPass g s)
      else do {
        s1 \<leftarrow> sendOrderlyStopBeforeClose g s;
        let (stillOn, s2) = isRunning (ed_close s1);
        (if \<not> stillOn then Some \<lparr>w_ed = s2, w_delay = d, w_phase = Connecting\<rparr>
         else let (t, s3) = ed_now s2;
                  connectionWasStable = (RECONNECT_STABLE_RESET_TIME \<le> t - connectionStartedAt)
              in Some (retrying (\<not> connectionWasStable) (if connectionWasStable then RECONNECT_INITIAL_DELAY else d) s3)) })"

definition workerStep :: "Globals \<Rightarrow> Worker \<Rightarrow> Worker option" where
  "workerStep g w =
     (case w_phase w of
        Connecting \<Rightarrow> connectStep g (w_delay w) (w_ed w)
      | InSession t \<Rightarrow> sessionStep g (w_delay w) t (w_ed w)
      | NotStarted \<Rightarrow> None
      | Finished \<Rightarrow> None)"

text \<open>The manager connects a new controller once and starts its thread
  (\<open>prepareNewController\<close>); from then on the worker and the application interleave. The
  application may replace every part of the base-class state, the point rate, the callback and
  the queued frames included, and may close the connection.\<close>

definition prepareNewController :: "EtherDreamControllerInfo \<Rightarrow> EDState \<Rightarrow> EDState" where
  "prepareNewController info s = snd (ed_connectTo info s)"

inductive ed_step :: "Worker \<Rightarrow> Worker \<Rightarrow> bool" where
  start: "w_phase w = NotStarted \<Longrightarrow>
    ed_step w \<lparr>w_ed = prepareNewController info (w_ed w), w_delay = RECONNECT_INITIAL_DELAY, w_phase = Connecting\<rparr>"
| work: "workerStep g w = Some w' \<Longrightarrow> ed_step w w'"
| application: "ed_step w (w\<lparr>w_ed := (w_ed w)\<lparr>ed_base := c\<rparr>\<rparr>)"
| shut: "ed_step w (w\<lparr>w_ed := ed_close (w_ed w)\<rparr>)"

inductive_cases ed_stepE: "ed_step w w'"

inductive ed_reachable :: "Worker \<Rightarrow> bool" where
  created: "ed_reachable \<lparr>w_ed = ed_init info verbose net runs clk, w_delay = 0, w_phase = NotStarted\<rparr>"
| step: "ed_reachable w \<Longrightarrow> ed_step w w' \<Longrightarrow> ed_reachable w'"

end
