(* ===== verification/Ether_Dream_Frame.thy ===== *)
theory Ether_Dream_Frame
  imports Ether_Dream_Worker
begin

text \<open>
  Frame lemmas of the Ether Dream controller: which operations leave the connection, the last
  status and the playback action alone, and what an exchange does to them. \<open>ctrl\<close> is the part of
  the state the session properties speak of.
\<close>

named_theorems ed_frame

definition socket :: "EDState \<Rightarrow> bool \<times> WireEvent list \<times> int list \<times> bool \<times> bool \<times> EtherDreamControllerInfo option" where
  "socket s = (tcpOpen s, wire s, slept s, connectionActive s, clearOnFreshConnection s, controllerInfo s)"

definition ctrl :: "EDState \<Rightarrow> (bool \<times> WireEvent list \<times> int list \<times> bool \<times> bool \<times> EtherDreamControllerInfo option)
    \<times> EtherDreamStatus \<times> PlaybackAction" where
  "ctrl s = (socket s, lastKnownStatus s, playbackAction s)"

lemmas ctrl_defs = ctrl_def socket_def

lemma isRunning_ctrl [ed_frame]: "isRunning s = (b, s') \<Longrightarrow> ctrl s' = ctrl s"
  by (auto simp: isRunning_def ctrl_defs)

lemma ed_now_ctrl [ed_frame]: "ed_now s = (t, s') \<Longrightarrow> ctrl s' = ctrl s"
  by (auto simp: ed_now_def ctrl_defs)

lemma mapStream_ctrl [ed_frame, simp]: "ctrl (mapStream f s) = ctrl s"
  by (simp add: mapStream_def ctrl_defs)

lemma mapPending_ctrl [ed_frame, simp]: "ctrl (mapPending f s) = ctrl s"
  by (simp add: mapPending_def ctrl_defs)

lemma mapWindow_ctrl [ed_frame, simp]: "ctrl (mapWindow f s) = ctrl s"
  by (simp add: mapWindow_def ctrl_defs)

lemma intermittentError_ctrl [ed_frame, simp]: "ctrl (intermittentError code s) = ctrl s"
  by (simp add: intermittentError_def ed_now_def mapStream_def ctrl_defs)

lemma connectionError_ctrl [ed_frame, simp]: "ctrl (connectionError code s) = ctrl s"
  by (simp add: connectionError_def ed_now_def mapStream_def ctrl_defs)

lemma connectionState_ctrl [ed_frame, simp]: "ctrl (connectionState up s) = ctrl s"
  by (simp add: connectionState_def)

lemma latencySample_ctrl [ed_frame, simp]: "ctrl (latencySample d s) = ctrl s"
  by (simp add: latencySample_def)

lemma resetPoints_ctrl [ed_frame, simp]: "ctrl (resetPoints s) = ctrl s"
  by (simp add: resetPoints_def)

lemma startupBlank_ctrl [ed_frame]: "startupBlank s = Some s' \<Longrightarrow> ctrl s' = ctrl s"
  by (auto simp: startupBlank_def bind_eq_Some_conv)

lemma setCommand_ctrl [ed_frame, simp]: "ctrl (setCommand c s) = ctrl s"
  by (simp add: setCommand_def ctrl_defs)

lemma resetCommand_ctrl [ed_frame, simp]: "ctrl (resetCommand s) = ctrl s"
  by (simp add: resetCommand_def ctrl_defs)

lemma recordProtocolTx_ctrl [ed_frame, simp]: "ctrl (recordProtocolTx n c s) = ctrl s"
  by (simp add: recordProtocolTx_def ed_now_def ctrl_defs Let_def)

lemma tcp_is_connected_ctrl [ed_frame]: "tcp_is_connected s = (b, s') \<Longrightarrow> ctrl s' = ctrl s \<and> (b \<longrightarrow> tcpOpen s')"
  by (auto simp: tcp_is_connected_def ctrl_defs split: if_splits)

lemma tcp_write_ctrl [ed_frame]: "tcp_write_all s = (r, s') \<Longrightarrow> ctrl s' = ctrl s"
  by (auto simp: tcp_write_all_def ctrl_defs)

lemma tcp_read_ctrl [ed_frame]: "tcp_read_exact n s = (r, s') \<Longrightarrow> ctrl s' = ctrl s"
  by (auto simp: tcp_read_exact_def ctrl_defs)

lemma recordBufferOverrun_ctrl [ed_frame]: "recordBufferOverrun s = Some s' \<Longrightarrow> ctrl s' = ctrl s"
  by (auto simp: recordBufferOverrun_def dest: startupBlank_ctrl)

lemma readResponseFrame_ctrl [ed_frame]: "readResponseFrame s = Some (r, s') \<Longrightarrow> ctrl s' = ctrl s"
  by (auto simp: readResponseFrame_def bind_eq_Some_conv split: prod.splits sum.splits if_splits dest!: tcp_read_ctrl)

lemma noteStarvationWarning_ctrl [ed_frame, simp]: "ctrl (noteStarvationWarning t s) = ctrl s"
  by (simp add: noteStarvationWarning_def ctrl_defs)

lemma maybeLogStreamHealthSummary_ctrl [ed_frame, simp]: "ctrl (maybeLogStreamHealthSummary t s) = ctrl s"
  by (simp add: maybeLogStreamHealthSummary_def ctrl_defs mapWindow_def)

lemma recordComputerPerformanceUnderrun_ctrl [ed_frame, simp]: "ctrl (recordComputerPerformanceUnderrun s) = ctrl s"
  by (simp add: recordComputerPerformanceUnderrun_def)

lemma lastAck_ctrl: "ctrl (s\<lparr>lastStreamHealthDataAckTime := t\<rparr>) = ctrl s"
  by (simp add: ctrl_defs)

lemma countPacket_ctrl [ed_frame, simp]: "ctrl (countPacket t d st s) = ctrl s"
  unfolding countPacket_def Let_def by (simp only: lastAck_ctrl mapWindow_ctrl)

lemma recordStreamHealthPacket_ctrl [ed_frame]: "recordStreamHealthPacket st d s = Some s' \<Longrightarrow> ctrl s' = ctrl s"
  by (auto simp: recordStreamHealthPacket_def Let_def bind_eq_Some_conv split: prod.splits if_splits
      dest!: startupBlank_ctrl ed_now_ctrl)

lemma recordStreamHealthRequestMiss_ctrl [ed_frame]: "recordStreamHealthRequestMiss s = Some s' \<Longrightarrow> ctrl s' = ctrl s"
  by (auto simp: recordStreamHealthRequestMiss_def Let_def bind_eq_Some_conv split: prod.splits if_splits
      dest!: startupBlank_ctrl ed_now_ctrl)

lemma estimateBufferFullness_ctrl [ed_frame]: "estimateBufferFullness s = Some (n, s') \<Longrightarrow> ctrl s' = ctrl s"
  by (auto simp: estimateBufferFullness_def bind_eq_Some_conv ed_now_def ctrl_defs Let_def split: if_splits)

lemma captureStreamHealthRequest_ctrl [ed_frame, simp]: "ctrl (captureStreamHealthRequest r b d s) = ctrl s"
  by (simp add: captureStreamHealthRequest_def ed_now_def mapPending_def ctrl_defs)

subsection \<open>Statuses and actions\<close>

text \<open>The playback action agrees with the last status.\<close>

definition action_ok :: "EDState \<Rightarrow> bool" where
  "action_ok s \<longleftrightarrow>
     (playbackAction s = ActBegin \<longrightarrow> lightEngineState (lastKnownStatus s) = LE_Ready \<and> playbackState (lastKnownStatus s) = PB_Prepared) \<and>
     (playbackAction s = ActPrepare \<longrightarrow> lightEngineState (lastKnownStatus s) = LE_Ready \<and> playbackState (lastKnownStatus s) = PB_Idle)"

lemma action_ok_harmless [simp]:
  "playbackAction s = ActStop \<Longrightarrow> action_ok s" "playbackAction s = ActClear \<Longrightarrow> action_ok s"
  "playbackAction s = ActNone \<Longrightarrow> action_ok s"
  by (simp_all add: action_ok_def)

lemma ctrl_socket: "ctrl s' = ctrl s \<Longrightarrow> socket s' = socket s"
  by (simp add: ctrl_def)

lemma ctrl_status: "ctrl s' = ctrl s \<Longrightarrow> lastKnownStatus s' = lastKnownStatus s \<and> playbackAction s' = playbackAction s"
  by (simp add: ctrl_def)

lemma ctrl_action_ok: "ctrl s' = ctrl s \<Longrightarrow> action_ok s' = action_ok s"
  by (simp add: action_ok_def ctrl_def)

lemma scheduleClearRecovery_socket [simp]:
  "socket (scheduleClearRecovery s) = socket s" "playbackAction (scheduleClearRecovery s) = ActClear"
  "lastKnownStatus (scheduleClearRecovery s) = lastKnownStatus s"
  by (simp_all add: scheduleClearRecovery_def resetPoints_def mapStream_def socket_def)

lemma actionForStatus_sound:
  "actionForStatus g st s = Some a \<Longrightarrow>
   (a = ActBegin \<longrightarrow> lightEngineState st = LE_Ready \<and> playbackState st = PB_Prepared) \<and>
   (a = ActPrepare \<longrightarrow> lightEngineState st = LE_Ready \<and> playbackState st = PB_Idle)"
  by (auto simp: actionForStatus_def bind_eq_Some_conv split: if_splits)

lemma receiveStatus_spec:
  assumes "receiveStatus st s = Some s'"
  shows "socket s' = socket s \<and> lastKnownStatus s' = st"
proof -
  obtain t s1 where n: "ed_now (s\<lparr>lastKnownStatus := st\<rparr>) = (t, s1)" by fastforce
  define s2 where "s2 = s1\<lparr>lastReceiveTime := t, lastEstimatedBufferFullness := uint (bufferFullness st),
    lastKnownBufferCapacity := getBufferSize s1\<rparr>"
  have 2: "ctrl s2 = ctrl (s\<lparr>lastKnownStatus := st\<rparr>)"
    using ed_now_ctrl [OF n] by (simp add: s2_def ctrl_defs)
  have "(if hasPlaybackUnderflow st \<and> \<not> hasPlaybackUnderflow (lastKnownStatus s)
         then startupBlank (intermittentError net_bufferUnderflow s2) else Some s2) = Some s'"
    using assms by (simp add: receiveStatus_def n s2_def [symmetric])
  then have "ctrl s' = ctrl s2" using startupBlank_ctrl by (fastforce split: if_splits)
  then show ?thesis using 2 by (simp add: ctrl_defs)
qed

lemma pointRateRecovery_spec:
  "socket (pointRateRecovery st s) = socket s \<and> lastKnownStatus (pointRateRecovery st s) = lastKnownStatus s \<and>
   (playbackAction (pointRateRecovery st s) \<in> {playbackAction s, ActClear, ActStop})"
proof -
  have ie: "socket (intermittentError c u) = socket u" "lastKnownStatus (intermittentError c u) = lastKnownStatus u" for c u
    using intermittentError_ctrl [of c u] by (simp_all add: ctrl_def)
  have rp: "playbackAction (resetPoints u) = playbackAction u" "socket (resetPoints u) = socket u"
    "lastKnownStatus (resetPoints u) = lastKnownStatus u" for u
    using resetPoints_ctrl [of u] by (simp_all add: ctrl_def)
  have upd: "socket (u\<lparr>playbackAction := b\<rparr>) = socket u" "socket (u\<lparr>rebootRequiredLatched := r\<rparr>) = socket u"
    "socket (u\<lparr>implausiblePointRateRecoveryPending := r\<rparr>) = socket u" for u b r
    by (simp_all add: socket_def)
  show ?thesis by (simp add: pointRateRecovery_def Let_def ie rp upd)
qed

lemma updatePlaybackRequirements_spec:
  assumes "updatePlaybackRequirements g st s = Some s'"
  shows "socket s' = socket s \<and> lastKnownStatus s' = st \<and> action_ok s'"
proof -
  obtain s1 a where r: "receiveStatus st s = Some s1" and a: "actionForStatus g st s1 = Some a"
    and e: "s' = pointRateRecovery st (s1\<lparr>playbackAction := a\<rparr>)"
    using assms by (auto simp: updatePlaybackRequirements_def bind_eq_Some_conv)
  have "socket (s1\<lparr>playbackAction := a\<rparr>) = socket s1" by (simp add: socket_def)
  then show ?thesis
    using receiveStatus_spec [OF r] actionForStatus_sound [OF a] pointRateRecovery_spec [of st "s1\<lparr>playbackAction := a\<rparr>"]
    unfolding e action_ok_def by auto
qed

subsection \<open>One exchange\<close>

lemma handler_spec:
  assumes "handleResponseFrame g cmd n r s = Some (res, s')"
  shows "socket s' = socket s \<and> action_ok s' \<and> (\<forall>ec. res \<noteq> Inl (FailShutdown, ec))"
proof -
  obtain s1 where u: "updatePlaybackRequirements g (status r) s = Some s1"
    using assms by (auto simp: handleResponseFrame_def handleStopConditionResponse_def handleInvalidCommandResponse_def
        handleBufferFullResponse_def bind_eq_Some_conv split: if_splits)
  note s1 = updatePlaybackRequirements_spec [OF u]
  have ie: "socket (intermittentError c x) = socket x \<and> action_ok (intermittentError c x) = action_ok x" for c x
    using ctrl_socket [OF intermittentError_ctrl] ctrl_action_ok [OF intermittentError_ctrl] by blast
  have sb: "startupBlank x = Some y \<Longrightarrow> socket y = socket x \<and> action_ok y = action_ok x" for x y
    using ctrl_socket [OF startupBlank_ctrl] ctrl_action_ok [OF startupBlank_ctrl] by blast
  have ov: "recordBufferOverrun x = Some y \<Longrightarrow> socket y = socket x \<and> action_ok y = action_ok x" for x y
    using ctrl_socket [OF recordBufferOverrun_ctrl] ctrl_action_ok [OF recordBufferOverrun_ctrl] by blast
  show ?thesis
    using assms u s1
    by (auto simp: handleResponseFrame_def handleStopConditionResponse_def handleInvalidCommandResponse_def
        handleBufferFullResponse_def handleUnexpectedResponse_def recoverInPlace_def bind_eq_Some_conv Let_def ie
        split: if_splits dest!: sb ov)
qed

lemma waitForResponse_spec:
  assumes "waitForResponse g cmd allow n s = Some (res, s')" and "action_ok s"
  shows "socket s' = socket s \<and> action_ok s' \<and> (allow \<longrightarrow> (\<forall>ec. res \<noteq> Inl (FailShutdown, ec)))"
proof -
  obtain on s1 where 1: "isRunning s = (on, s1)" by fastforce
  obtain up s2 where 2: "tcp_is_connected s1 = (up, s2)" by fastforce
  have c: "ctrl s1 = ctrl s" "ctrl s2 = ctrl s"
    using isRunning_ctrl [OF 1] tcp_is_connected_ctrl [OF 2] by simp_all
  consider "s' = s1 \<or> s' = s2" "allow \<longrightarrow> (\<forall>ec. res \<noteq> Inl (FailShutdown, ec))"
    | fr s3 where "readResponseFrame s2 = Some (fr, s3)"
        "(case fr of Inl ec \<Rightarrow> Some (Inl (commandFailureKindForResponseReadError ec, ec), s3)
          | Inr r \<Rightarrow> handleResponseFrame g cmd n r s3) = Some (res, s')"
    using assms(1) by (auto simp: waitForResponse_def 1 2 bind_eq_Some_conv split: if_splits prod.splits)
  then show ?thesis
  proof cases
    case 1
    then show ?thesis using c assms(2) ctrl_socket ctrl_action_ok by metis
  next
    case 2
    have c3: "ctrl s3 = ctrl s" using readResponseFrame_ctrl [OF 2(1)] c by simp
    show ?thesis
    proof (cases fr)
      case (Inl ec)
      then have "s' = s3" "res = Inl (commandFailureKindForResponseReadError ec, ec)" using 2(2) by auto
      then show ?thesis using ctrl_socket [OF c3] ctrl_action_ok [OF c3] assms(2)
        by (auto simp: commandFailureKindForResponseReadError_def)
    next
      case (Inr r)
      then show ?thesis using handler_spec [of g cmd n r s3 res s'] 2(2) ctrl_socket [OF c3] by simp
    qed
  qed
qed

lemma logExchange_fields:
  "socket (logExchange e s) = (let (a, b, c) = socket s in (a, Exchanged e # b, c))"
  "action_ok (logExchange e s) = action_ok s"
  by (simp_all add: logExchange_def socket_def action_ok_def)

text \<open>A command either is not sent, and nothing changes, or is logged with the status it was
  sent under.\<close>

lemma sendCommand_spec:
  assumes "sendCommand g allow s = Some (res, s')" and "action_ok s" and "cmd_isReady (commandBuffer s)"
  shows "(ctrl s' = ctrl s \<and> (\<exists>ec. res = Inl (FailShutdown, ec))) \<or>
     (socket s' = (let (a, b, c) = socket s in (a, Exchanged (exchange_of s res) # b, c)) \<and> action_ok s' \<and>
      (\<forall>ec. res \<noteq> Inl (FailShutdown, ec)))"
proof -
  obtain on s1 where 1: "isRunning s = (on, s1)" by fastforce
  have c1: "ctrl s1 = ctrl s" using isRunning_ctrl [OF 1] .
  have same: "commandBuffer s1 = commandBuffer s" "exchange_of s1 r = exchange_of s r" for r
    using 1 by (auto simp: isRunning_def exchange_of_def getBufferSize_def)
  show ?thesis
  proof (cases "\<not> on \<and> \<not> allow")
    case True
    then show ?thesis using assms(1) c1 by (auto simp: sendCommand_def 1)
  next
    case False
    define q where "q = nextCommandSequence s1 + 1"
    obtain t0 s2 where n: "ed_now (s1\<lparr>nextCommandSequence := q\<rparr>) = (t0, s2)" by fastforce
    define s3 where "s3 = recordProtocolTx q (opcode (commandBuffer s)) s2"
    have "ctrl s2 = ctrl s" using ed_now_ctrl [OF n] c1 by (simp add: ctrl_defs)
    then have c3: "ctrl s3 = ctrl s" by (simp add: s3_def)
    obtain wr s4 where w: "tcp_write_all s3 = (wr, s4)" by fastforce
    then have c4: "ctrl s4 = ctrl s" using tcp_write_ctrl c3 by metis
    have rc: "socket (resetCommand x) = socket x" "action_ok (resetCommand x) = action_ok x" for x
      using ctrl_socket [OF resetCommand_ctrl] ctrl_action_ok [OF resetCommand_ctrl] by blast+
    have ce: "socket (connectionError k x) = socket x" "action_ok (connectionError k x) = action_ok x" for k x
      using ctrl_socket [OF connectionError_ctrl] ctrl_action_ok [OF connectionError_ctrl] by blast+
    show ?thesis
    proof (cases wr)
      case (Some ec)
      then have "res = Inl (NetworkFailure, ec)"
        "s' = connectionError net_sendFailed (resetCommand (logExchange (exchange_of s res) s4))"
        using assms(1,3) False by (auto simp: sendCommand_def 1 n same Let_def q_def [symmetric] s3_def [symmetric] w)
      then show ?thesis using ctrl_socket [OF c4] ctrl_action_ok [OF c4] assms(2)
        by (simp add: rc ce logExchange_fields same)
    next
      case None
      define code where "code = opcode (commandBuffer s)"
      from None assms(1,3) False obtain s5 where
        5: "waitForResponse g code True q s4 = Some (res, s5)" and
        e: "s' = resetCommand (logExchange (exchange_of s res)
              (if \<not> isl res \<and> code = ch CHR ''d'' then let (t, u) = ed_now s5 in latencySample (t - t0) u else s5))"
        by (auto simp: sendCommand_def 1 n same Let_def q_def [symmetric] s3_def [symmetric] w code_def bind_eq_Some_conv)
      have f: "socket s5 = socket s" "action_ok s5" "\<forall>ec. res \<noteq> Inl (FailShutdown, ec)"
        using waitForResponse_spec [OF 5] ctrl_socket [OF c4] ctrl_action_ok [OF c4] assms(2) by simp_all
      obtain t u where tu: "ed_now s5 = (t, u)" by fastforce
      have "ctrl (latencySample d u) = ctrl s5" for d using ed_now_ctrl [OF tu] by simp
      then have g: "socket (latencySample d u) = socket s" "action_ok (latencySample d u)" for d
        using f ctrl_socket ctrl_action_ok by metis+
      show ?thesis unfolding e using f g by (simp add: rc logExchange_fields same tu)
    qed
  qed
qed

end
