(* ===== verification/Ether_Dream_Properties.thy ===== *)
theory Ether_Dream_Properties
  imports Ether_Dream_Frame
begin

text \<open>
  What holds in every reachable state of the Ether Dream worker, whatever the DAC, the network,
  the clock and the application do: every command sent is one the DAC's last status allows, the
  socket events follow the open/exchange/close discipline, and every sleep is bounded. The
  operations of a session share one contract (locale \<open>session_operation\<close>): at most one
  exchange, and a broken one closes the connection.
\<close>

subsection \<open>Specifications\<close>

text \<open>A command the protocol allows under the status it was sent with. For a data packet of
  \<open>n\<close> points this is the packet length, the announced count, the packet limit, and that the
  estimated fullness plus \<open>n\<close> stays below the capacity.\<close>

definition command_ok :: "Exchange \<Rightarrow> bool" where
  "command_ok e = (let st = ex_status e; ready = (lightEngineState st = LE_Ready) in case ex_bytes e of
     [] \<Rightarrow> False
   | c # body \<Rightarrow>
       if c = ch CHR ''b'' then ready \<and> playbackState st = PB_Prepared \<and> length body = 6
       else if c = ch CHR ''p'' then ready \<and> playbackState st = PB_Idle \<and> body = []
       else if c = ch CHR ''d'' then
         let n = (length body - 2) div 18
         in ready \<and> (playbackState st = PB_Prepared \<or> playbackState st = PB_Playing) \<and>
            length body = 2 + 18 * n \<and> take 2 body = le16 (of_nat n) \<and> 1 \<le> n \<and> n \<le> ETHERDREAM_MAX_PACKET_POINTS \<and>
            0 \<le> ex_estimate e \<and> ex_estimate e + int n < ex_capacity e
       else (c = ch CHR ''s'' \<or> c = ch CHR ''c'' \<or> c = ch CHR ''?'') \<and> body = [])"

text \<open>The connection as seen from its events: after a broken exchange only closing is allowed.\<close>

datatype Link = Down | Up | Desynced

fun advance :: "Link \<Rightarrow> WireEvent \<Rightarrow> Link option" where
  "advance Down Opened = Some Up"
| "advance Up (Exchanged e) = Some (if ex_outcome e = Broken then Desynced else Up)"
| "advance Up FirmwareProbe = Some Up"
| "advance Up Closed = Some Down"
| "advance Desynced Closed = Some Down"
| "advance _ _ = None"

fun link :: "WireEvent list \<Rightarrow> Link option" where
  "link [] = Some Down"
| "link (ev # older) = (case link older of Some l \<Rightarrow> advance l ev | None \<Rightarrow> None)"

definition ed_inv :: "EDState \<Rightarrow> bool" where
  "ed_inv s \<longleftrightarrow> action_ok s \<and> (connectionActive s \<longrightarrow> tcpOpen s) \<and>
     link (wire s) = Some (if tcpOpen s then Up else Down) \<and>
     (\<forall>e. Exchanged e \<in> set (wire s) \<longrightarrow> command_ok e) \<and>
     (\<forall>ms \<in> set (slept s). 1 \<le> ms \<and> ms \<le> 1000)"

lemma ed_inv_ctrl: "ctrl s' = ctrl s \<Longrightarrow> ed_inv s' = ed_inv s"
  by (simp add: ed_inv_def action_ok_def ctrl_defs)

text \<open>Short sleeps and at most one exchange, described by \<open>P\<close>; a broken one closes the connection
  and asks for a clear on the next one.\<close>

definition exchanged :: "(Exchange \<Rightarrow> bool) \<Rightarrow> EDState \<Rightarrow> EDState \<Rightarrow> bool" where
  "exchanged P s s' \<longleftrightarrow> (\<exists>ms. slept s' = ms @ slept s \<and> (\<forall>m \<in> set ms. 1 \<le> m \<and> m \<le> ETHERDREAM_MAX_SLEEP)) \<and>
     controllerInfo s' = controllerInfo s \<and>
     ((wire s' = wire s \<and> tcpOpen s' = tcpOpen s \<and> connectionActive s' = connectionActive s \<and>
       clearOnFreshConnection s' = clearOnFreshConnection s) \<or>
      (\<exists>e. P e \<and> ex_outcome e \<noteq> Broken \<and> wire s' = Exchanged e # wire s \<and> tcpOpen s' = tcpOpen s \<and>
       connectionActive s' = connectionActive s \<and> clearOnFreshConnection s' = clearOnFreshConnection s) \<or>
      (\<exists>e. P e \<and> ex_outcome e = Broken \<and> wire s' = Closed # Exchanged e # wire s \<and> \<not> tcpOpen s' \<and>
       \<not> connectionActive s' \<and> clearOnFreshConnection s'))"

lemma exchanged_ctrl: "ctrl s2 = ctrl s1 \<Longrightarrow> exchanged P s s2 = exchanged P s s1"
  by (simp add: exchanged_def ctrl_defs)

lemma exchanged_socket: "socket s2 = socket s1 \<Longrightarrow> exchanged P s s2 = exchanged P s s1"
  by (simp add: exchanged_def socket_def)

lemma exchanged_from_ctrl: "ctrl s1 = ctrl s \<Longrightarrow> exchanged P s1 s2 = exchanged P s s2"
  by (simp add: exchanged_def ctrl_defs)

lemma exchanged_after_sleep:
  assumes "exchanged P (sleepFor m s) s'" and "1 \<le> m" and "m \<le> ETHERDREAM_MAX_SLEEP"
  shows "exchanged P s s'"
proof -
  obtain ms where "slept s' = ms @ m # slept s" "\<forall>m \<in> set ms. 1 \<le> m \<and> m \<le> ETHERDREAM_MAX_SLEEP"
    using assms(1) by (auto simp: exchanged_def sleepFor_def)
  then have "slept s' = (ms @ [m]) @ slept s \<and> (\<forall>m \<in> set (ms @ [m]). 1 \<le> m \<and> m \<le> ETHERDREAM_MAX_SLEEP)"
    using assms(2,3) by simp
  then have "\<exists>ms. slept s' = ms @ slept s \<and> (\<forall>m \<in> set ms. 1 \<le> m \<and> m \<le> ETHERDREAM_MAX_SLEEP)" by blast
  then show ?thesis using assms(1) by (simp add: exchanged_def sleepFor_def)
qed

lemma sleepFor_fields:
  "slept (sleepFor m s) = m # slept s" "wire (sleepFor m s) = wire s" "tcpOpen (sleepFor m s) = tcpOpen s"
  "connectionActive (sleepFor m s) = connectionActive s" "controllerInfo (sleepFor m s) = controllerInfo s"
  "clearOnFreshConnection (sleepFor m s) = clearOnFreshConnection s"
  by (simp_all add: sleepFor_def)

lemma exchanged_then_sleep:
  assumes "exchanged P s s'" and "1 \<le> m" and "m \<le> ETHERDREAM_MAX_SLEEP"
  shows "exchanged P s (sleepFor m s')"
proof -
  obtain ms where "slept s' = ms @ slept s" "\<forall>m \<in> set ms. 1 \<le> m \<and> m \<le> ETHERDREAM_MAX_SLEEP"
    using assms(1) by (auto simp: exchanged_def)
  then have "m # slept s' = (m # ms) @ slept s \<and> (\<forall>m \<in> set (m # ms). 1 \<le> m \<and> m \<le> ETHERDREAM_MAX_SLEEP)"
    using assms(2,3) by simp
  then have "\<exists>ms. slept (sleepFor m s') = ms @ slept s \<and> (\<forall>m \<in> set ms. 1 \<le> m \<and> m \<le> ETHERDREAM_MAX_SLEEP)"
    unfolding sleepFor_fields by blast
  then show ?thesis using assms(1) unfolding exchanged_def sleepFor_fields by blast
qed

lemma exchanged_refl [simp]: "exchanged P s s"
  by (simp add: exchanged_def)

subsection \<open>The contract of a session operation\<close>

locale session_operation =
  fixes op :: "EDState \<Rightarrow> EDState option"
    and enabled :: "EDState \<Rightarrow> bool"
    and sends :: "Exchange \<Rightarrow> bool"
  assumes exchanges: "op s = Some s' \<Longrightarrow> enabled s \<Longrightarrow> action_ok s \<Longrightarrow> tcpOpen s \<Longrightarrow> exchanged sends s s' \<and> action_ok s'"
    and legal: "sends e \<Longrightarrow> command_ok e"
begin

lemma keeps_inv:
  assumes "op s = Some s'" and "ed_inv s" and "enabled s" and "connectionActive s"
  shows "ed_inv s'"
proof -
  have o: "tcpOpen s" "action_ok s" using assms by (auto simp: ed_inv_def)
  then have "exchanged sends s s'" "action_ok s'" using exchanges assms by auto
  moreover have "\<forall>ms \<in> set (slept s'). 1 \<le> ms \<and> ms \<le> 1000"
  proof -
    obtain ms where "slept s' = ms @ slept s" "\<forall>m \<in> set ms. 1 \<le> m \<and> m \<le> 50"
      using \<open>exchanged sends s s'\<close> by (auto simp: exchanged_def ETHERDREAM_MAX_SLEEP_def)
    then show ?thesis using assms(2) by (force simp: ed_inv_def)
  qed
  ultimately show ?thesis
    using assms(2,4) o legal by (auto simp: exchanged_def ed_inv_def)
qed

text \<open>While the connection stays active, no broken exchange was added.\<close>

lemma active_means_intact:
  assumes "op s = Some s'" and "ed_inv s" and "enabled s" and "connectionActive s" and "connectionActive s'"
  shows "\<exists>evs. wire s' = evs @ wire s \<and> length evs \<le> 1 \<and> (\<forall>e. Exchanged e \<in> set evs \<longrightarrow> ex_outcome e \<noteq> Broken)"
proof -
  have "exchanged sends s s'" using exchanges [of s s'] assms by (simp add: ed_inv_def)
  then consider "wire s' = [] @ wire s"
    | e where "wire s' = [Exchanged e] @ wire s" "ex_outcome e \<noteq> Broken"
    using assms(5) by (auto simp: exchanged_def)
  then show ?thesis by cases force+
qed

end

subsection \<open>Commands\<close>

lemma tcp_close_fields:
  "tcpOpen (tcp_close s) = False" "wire (tcp_close s) = (if tcpOpen s then Closed # wire s else wire s)"
  "slept (tcp_close s) = slept s" "connectionActive (tcp_close s) = connectionActive s"
  "clearOnFreshConnection (tcp_close s) = clearOnFreshConnection s" "controllerInfo (tcp_close s) = controllerInfo s"
  "lastKnownStatus (tcp_close s) = lastKnownStatus s" "playbackAction (tcp_close s) = playbackAction s"
  by (simp_all add: tcp_close_def)

lemma handleNetworkFailure_fields:
  "tcpOpen (handleNetworkFailure ec s) = False"
  "wire (handleNetworkFailure ec s) = (if tcpOpen s then Closed # wire s else wire s)"
  "slept (handleNetworkFailure ec s) = slept s" "connectionActive (handleNetworkFailure ec s) = False"
  "clearOnFreshConnection (handleNetworkFailure ec s) = True" "controllerInfo (handleNetworkFailure ec s) = controllerInfo s"
  "lastKnownStatus (handleNetworkFailure ec s) = lastKnownStatus s" "playbackAction (handleNetworkFailure ec s) = playbackAction s"
  using connectionError_ctrl [of net_connectionLost "s\<lparr>connectionActive := False, clearOnFreshConnection := True, lastError := Some ec\<rparr>"]
  by (simp_all add: handleNetworkFailure_def tcp_close_fields ctrl_defs)

lemma closeAfterFailure_cases:
  "\<forall>ec. r \<noteq> Inl (FailShutdown, ec) \<Longrightarrow>
   closeAfterFailure r s = (if outcome_of r = Broken then handleNetworkFailure (error_of r) s else s)"
  by (auto simp: closeAfterFailure_def shouldCloseConnectionAfterCommandFailure_def outcome_of_def split: sum.splits prod.splits)

text \<open>What every sender does after \<open>sendCommand\<close>: on success something that leaves the socket
  alone, on failure the close rule.\<close>

lemma exchange_then:
  assumes send: "sendCommand g allow s = Some (r, s1)" and ready: "cmd_isReady (commandBuffer s)"
    and ok: "action_ok s" "tcpOpen s" and P: "P (exchange_of s r)"
    and fin_ok: "\<And>a. r = Inr a \<Longrightarrow> socket s' = socket s1 \<and> action_ok s'"
    and fin_err: "isl r \<Longrightarrow> ctrl s' = ctrl (closeAfterFailure r s1)"
  shows "exchanged P s s' \<and> action_ok s'"
proof -
  note spec = sendCommand_spec [OF send ok(1) ready]
  show ?thesis
  proof (cases "\<exists>ec. r = Inl (FailShutdown, ec)")
    case True
    then have "ctrl s1 = ctrl s" using spec by auto
    moreover have "ctrl s' = ctrl s1" using True fin_err
      by (auto simp: closeAfterFailure_def shouldCloseConnectionAfterCommandFailure_def)
    ultimately have "ctrl s' = ctrl s" by simp
    then show ?thesis using ok ctrl_action_ok exchanged_ctrl exchanged_refl by metis
  next
    case False
    then have s1: "socket s1 = (let (a, b, c) = socket s in (a, Exchanged (exchange_of s r) # b, c))" "action_ok s1"
      using spec by auto
    define e where "e = exchange_of s r"
    have out: "ex_outcome e = outcome_of r" by (simp add: e_def exchange_of_def)
    have f: "wire s1 = Exchanged e # wire s" "tcpOpen s1 = tcpOpen s" "slept s1 = slept s"
      "connectionActive s1 = connectionActive s" "clearOnFreshConnection s1 = clearOnFreshConnection s"
      "controllerInfo s1 = controllerInfo s"
      using s1(1) by (simp_all add: socket_def e_def)
    show ?thesis
    proof (cases r)
      case (Inr a)
      then have "outcome_of r = Accepted" by (simp add: outcome_of_def)
      then have "exchanged P s s1" using f out P by (auto simp: exchanged_def e_def [symmetric])
      then show ?thesis using fin_ok [OF Inr] exchanged_socket by blast
    next
      case (Inl x)
      then have c: "ctrl s' = ctrl (closeAfterFailure r s1)" using fin_err by simp
      have "closeAfterFailure r s1 = (if outcome_of r = Broken then handleNetworkFailure (error_of r) s1 else s1)"
        using False by (intro closeAfterFailure_cases) auto
      then have "exchanged P s (closeAfterFailure r s1)" "action_ok (closeAfterFailure r s1)"
        using f out P s1(2) ok(2) by (auto simp: exchanged_def handleNetworkFailure_fields e_def [symmetric] action_ok_def)
      then show ?thesis using c exchanged_ctrl ctrl_action_ok by blast
    qed
  qed
qed

lemma single_byte_command:
  "buffer (cmd_buffer (setSingleByteCommand c cmd)) = [c]" "opcode (setSingleByteCommand c cmd) = c"
  "c \<noteq> 0 \<Longrightarrow> cmd_isReady (setSingleByteCommand c cmd)"
  by (simp_all add: setSingleByteCommand_def cmd_reset_def bb_clear_def appendChar_def cmd_isReady_def bb_size_def Let_def)

lemma setCommand_fields:
  "commandBuffer (setCommand c s) = c" "lastKnownStatus (setCommand c s) = lastKnownStatus s"
  "ex_bytes (exchange_of (setCommand c s) r) = buffer (cmd_buffer c)"
  "ex_status (exchange_of (setCommand c s) r) = lastKnownStatus s"
  "ex_estimate (exchange_of (setCommand c s) r) = pr_estimatedBufferBeforeRequest (pendingStreamHealthRequest s)"
  "ex_capacity (exchange_of (setCommand c s) r) = getBufferSize s"
  by (simp_all add: setCommand_def exchange_of_def getBufferSize_def)

lemma opcodes_differ:
  "ch CHR ''s'' \<noteq> 0" "ch CHR ''c'' \<noteq> 0" "ch CHR ''p'' \<noteq> 0" "ch CHR ''b'' \<noteq> 0" "ch CHR ''d'' \<noteq> 0" "ch CHR ''?'' \<noteq> 0"
  "distinct [ch CHR ''s'', ch CHR ''c'', ch CHR ''p'', ch CHR ''b'', ch CHR ''d'', ch CHR ''?'']"
  by (simp_all add: ch_def)

lemma data_opcode: "ch CHR ''d'' \<noteq> ch CHR ''b''" "ch CHR ''d'' \<noteq> ch CHR ''p''"
  by (simp_all add: ch_def)

text \<open>The same, from a state whose command buffer is set first.\<close>

lemma send_then:
  assumes "sendCommand g allow (setCommand c s) = Some (r, s1)" and "cmd_isReady c" and "action_ok s" and "tcpOpen s"
    and "P (exchange_of (setCommand c s) r)"
    and "\<And>a. r = Inr a \<Longrightarrow> socket s' = socket s1 \<and> action_ok s'"
    and "isl r \<Longrightarrow> ctrl s' = ctrl (closeAfterFailure r s1)"
  shows "exchanged P s s' \<and> action_ok s'"
proof -
  have c: "ctrl (setCommand c s) = ctrl s" by simp
  have "action_ok (setCommand c s)" using assms(3) ctrl_action_ok [OF c] by blast
  moreover have "tcpOpen (setCommand c s)" using assms(4) c by (simp only: ctrl_defs prod.inject)
  moreover have "cmd_isReady (commandBuffer (setCommand c s))" using assms(2) by (simp add: setCommand_fields)
  ultimately have "exchanged P (setCommand c s) s' \<and> action_ok s'"
    using exchange_then [where P = P and s = "setCommand c s", OF assms(1) _ _ _ assms(5)] assms(6,7) by blast
  then show ?thesis using exchanged_from_ctrl [OF c] by blast
qed

lemma sent_action_ok:
  assumes "sendCommand g allow (setCommand c s) = Some (Inr a, s1)" and "cmd_isReady c" and "action_ok s"
  shows "action_ok s1"
  using sendCommand_spec [OF assms(1)] assms(2,3) ctrl_action_ok [OF setCommand_ctrl] by (simp add: setCommand_fields)

lemma resetPoints_fields:
  "socket (resetPoints s) = socket s" "action_ok (resetPoints s) = action_ok s"
  using ctrl_socket [OF resetPoints_ctrl] ctrl_action_ok [OF resetPoints_ctrl] by blast+

lemma sendStop_exchanges:
  assumes "sendStop g allow s = Some s'" and "action_ok s" and "tcpOpen s"
  shows "exchanged (\<lambda>e. ex_bytes e = [ch CHR ''s'']) s s' \<and> action_ok s'"
proof -
  define c where "c = setSingleByteCommand (ch CHR ''s'') (commandBuffer s)"
  have ready: "cmd_isReady c" using opcodes_differ by (simp add: c_def single_byte_command)
  obtain r s1 where 1: "sendCommand g allow (setCommand c s) = Some (r, s1)"
    and e: "s' = (case r of
       Inr a \<Rightarrow>
         let s2 = resetPoints (s1\<lparr>lastSentPointRate := 0, pendingRateChangeCount := 0\<rparr>)
         in if lightEngineState (ack_status a) = LE_Ready \<and> playbackState (ack_status a) \<noteq> PB_Idle
            then s2\<lparr>playbackAction := ActStop\<rparr> else s2
     | Inl _ \<Rightarrow> closeAfterFailure r s1)"
    using assms(1) by (auto simp: sendStop_def c_def bind_eq_Some_conv)
  show ?thesis
  proof (rule send_then [OF 1 ready assms(2,3)])
    show "ex_bytes (exchange_of (setCommand c s) r) = [ch CHR ''s'']" by (simp add: setCommand_fields c_def single_byte_command)
    show "ctrl s' = ctrl (closeAfterFailure r s1)" if "isl r" using that by (cases r) (simp_all add: e)
    fix a assume r: "r = Inr a"
    have "action_ok s1" using sent_action_ok 1 ready assms(2) unfolding r by blast
    then have "action_ok (s1\<lparr>lastSentPointRate := 0, pendingRateChangeCount := 0\<rparr>)"
      "socket (s1\<lparr>lastSentPointRate := 0, pendingRateChangeCount := 0\<rparr>) = socket s1"
      "\<And>x. socket (x\<lparr>playbackAction := ActStop\<rparr>) = socket x"
      by (simp_all add: action_ok_def socket_def)
    then show "socket s' = socket s1 \<and> action_ok s'" by (simp add: e r Let_def resetPoints_fields)
  qed
qed

lemma sendClear_exchanges:
  assumes "sendClear g s = Some s'" and "action_ok s" and "tcpOpen s"
  shows "exchanged (\<lambda>e. ex_bytes e = [ch CHR ''c'']) s s' \<and> action_ok s'"
proof -
  define c where "c = setSingleByteCommand (ch CHR ''c'') (commandBuffer s)"
  have ready: "cmd_isReady c" using opcodes_differ by (simp add: c_def single_byte_command)
  obtain r s1 where 1: "sendCommand g False (setCommand c s) = Some (r, s1)" and e: "s' = closeAfterFailure r s1"
    using assms(1) by (auto simp: sendClear_def c_def bind_eq_Some_conv)
  show ?thesis
  proof (rule send_then [OF 1 ready assms(2,3)])
    show "ex_bytes (exchange_of (setCommand c s) r) = [ch CHR ''c'']" by (simp add: setCommand_fields c_def single_byte_command)
    fix a assume r: "r = Inr a"
    then show "socket s' = socket s1 \<and> action_ok s'" using sent_action_ok 1 ready assms(2)
      by (simp add: e closeAfterFailure_def shouldCloseConnectionAfterCommandFailure_def)
  qed (simp add: e)
qed

lemma sendPrepare_exchanges:
  assumes "sendPrepare g s = Some s'" and "action_ok s" and "tcpOpen s"
  shows "exchanged (\<lambda>e. ex_bytes e = [ch CHR ''p''] \<and> ex_status e = lastKnownStatus s) s s' \<and> action_ok s'"
proof -
  define c where "c = setSingleByteCommand (ch CHR ''p'') (commandBuffer s)"
  have ready: "cmd_isReady c" using opcodes_differ by (simp add: c_def single_byte_command)
  obtain r s1 where 1: "sendCommand g False (setCommand c s) = Some (r, s1)"
    and e: "s' = (case r of
       Inr a \<Rightarrow> if lightEngineState (ack_status a) = LE_Ready \<and> playbackState (ack_status a) \<noteq> PB_Idle
                  \<and> playbackState (ack_status a) \<noteq> PB_Prepared
                then s1\<lparr>playbackAction := ActStop\<rparr> else s1
     | Inl _ \<Rightarrow> closeAfterFailure r s1)"
    using assms(1) by (auto simp: sendPrepare_def c_def bind_eq_Some_conv)
  show ?thesis
  proof (rule send_then [OF 1 ready assms(2,3)])
    show "ex_bytes (exchange_of (setCommand c s) r) = [ch CHR ''p''] \<and> ex_status (exchange_of (setCommand c s) r) = lastKnownStatus s"
      by (simp add: setCommand_fields c_def single_byte_command)
    show "ctrl s' = ctrl (closeAfterFailure r s1)" if "isl r" using that by (cases r) (simp_all add: e)
    fix a assume r: "r = Inr a"
    have "action_ok s1" using sent_action_ok 1 ready assms(2) unfolding r by blast
    moreover have "socket (s1\<lparr>playbackAction := ActStop\<rparr>) = socket s1" by (simp add: socket_def)
    ultimately show "socket s' = socket s1 \<and> action_ok s'" by (simp add: e r)
  qed
qed

lemma begin_command:
  "buffer (cmd_buffer (setBeginCommand rate cmd)) = ch CHR ''b'' # le16 0 @ le32 rate" "cmd_isReady (setBeginCommand rate cmd)"
  using opcodes_differ
  by (simp_all add: setBeginCommand_def cmd_reset_def bb_clear_def appendChar_def appendUInt16_def appendUInt32_def
      cmd_isReady_def bb_size_def Let_def)

lemma sendBegin_exchanges:
  assumes "sendBegin g s = Some s'" and "action_ok s" and "tcpOpen s"
  shows "exchanged (\<lambda>e. ex_bytes e = ch CHR ''b'' # le16 0 @ le32 (ed_rate s) \<and> ex_status e = lastKnownStatus s) s s' \<and> action_ok s'"
proof -
  define c where "c = setBeginCommand (ed_rate s) (commandBuffer s)"
  have ready: "cmd_isReady c" by (simp add: c_def begin_command)
  obtain r s1 where 1: "sendCommand g False (setCommand c s) = Some (r, s1)"
    and e: "s' = (case r of
       Inr a \<Rightarrow> if playbackState (ack_status a) = PB_Playing
                then s1\<lparr>lastSentPointRate := ed_rate s, pendingRateChangeCount := 0\<rparr> else s1
     | Inl (k, ec) \<Rightarrow> closeAfterFailure r (if ec = TimedOut then intermittentError net_timeout s1 else s1))"
    using assms(1) by (auto simp: sendBegin_def c_def Let_def bind_eq_Some_conv)
  have swap: "ctrl (closeAfterFailure q x) = ctrl (closeAfterFailure q y)" if "ctrl x = ctrl y" for q x y
    using that by (auto simp: closeAfterFailure_def handleNetworkFailure_fields ctrl_defs)
  show ?thesis
  proof (rule send_then [OF 1 ready assms(2,3)])
    show "ex_bytes (exchange_of (setCommand c s) r) = ch CHR ''b'' # le16 0 @ le32 (ed_rate s) \<and>
        ex_status (exchange_of (setCommand c s) r) = lastKnownStatus s"
      by (simp add: setCommand_fields c_def begin_command)
    show "ctrl s' = ctrl (closeAfterFailure r s1)" if "isl r"
      using that swap [OF intermittentError_ctrl] by (cases r) (auto simp: e)
    fix a assume r: "r = Inr a"
    have "action_ok s1" using sent_action_ok 1 ready assms(2) unfolding r by blast
    then have "action_ok (s1\<lparr>lastSentPointRate := q, pendingRateChangeCount := 0\<rparr>)"
      "socket (s1\<lparr>lastSentPointRate := q, pendingRateChangeCount := 0\<rparr>) = socket s1" for q
      by (simp_all add: action_ok_def socket_def)
    then show "socket s' = socket s1 \<and> action_ok s'" using \<open>action_ok s1\<close> by (simp add: e r)
  qed
qed

lemma pollStatus_exchanges:
  assumes "pollStatus g s = Some s'" and "action_ok s" and "tcpOpen s"
  shows "exchanged (\<lambda>e. ex_bytes e = [ch CHR ''?'']) s s' \<and> action_ok s'"
proof -
  define c where "c = setSingleByteCommand (ch CHR ''?'') (commandBuffer s)"
  have ready: "cmd_isReady c" using opcodes_differ by (simp add: c_def single_byte_command)
  obtain r s1 s2 where 1: "sendCommand g False (setCommand c s) = Some (r, s1)"
    and 2: "(case r of Inr a \<Rightarrow> if statusReportsPlayingBufferUnderrun (ack_status a) s1
                      then startupBlank (intermittentError net_bufferUnderflow s1) else Some s1
           | Inl _ \<Rightarrow> Some s1) = Some s2"
    and e: "s' = closeAfterFailure r s2"
    using assms(1) by (auto simp: pollStatus_def sendPing_def c_def bind_eq_Some_conv)
  show ?thesis
  proof (rule send_then [OF 1 ready assms(2,3)])
    show "ex_bytes (exchange_of (setCommand c s) r) = [ch CHR ''?'']" by (simp add: setCommand_fields c_def single_byte_command)
    show "ctrl s' = ctrl (closeAfterFailure r s1)" if "isl r" using that 2 by (cases r) (simp_all add: e)
    fix a assume r: "r = Inr a"
    have "ctrl s2 = ctrl s1" using 2 startupBlank_ctrl unfolding r by (fastforce split: if_splits)
    moreover have "s' = s2" by (simp add: e r closeAfterFailure_def shouldCloseConnectionAfterCommandFailure_def)
    moreover have "action_ok s1" using sent_action_ok 1 ready assms(2) unfolding r by blast
    ultimately show "socket s' = socket s1 \<and> action_ok s'" using ctrl_socket ctrl_action_ok by blast
  qed
qed

subsection \<open>Data packets\<close>

text \<open>The points at hand fit the packet and the room that the request was sized for.\<close>

definition packet_ok :: "EDState \<Rightarrow> bool" where
  "packet_ok s \<longleftrightarrow> (ed_points s \<noteq> [] \<longrightarrow>
     length (ed_points s) \<le> ETHERDREAM_MAX_PACKET_POINTS \<and>
     0 \<le> pr_estimatedBufferBeforeRequest (pendingStreamHealthRequest s) \<and>
     pr_estimatedBufferBeforeRequest (pendingStreamHealthRequest s) + int (length (ed_points s)) < getBufferSize s)"

lemma getBufferSize_ctrl: "ctrl s' = ctrl s \<Longrightarrow> getBufferSize s' = getBufferSize s"
  by (simp add: getBufferSize_def ctrl_defs)

lemma buildDataPacket_bytes:
  assumes "buildDataPacket inject ps cmd = Some c" and "length ps \<le> ETHERDREAM_MAX_PACKET_POINTS"
  shows "\<exists>blocks. buffer (cmd_buffer c) = ch CHR ''d'' # le16 (of_nat (length ps)) @ blocks \<and>
    length blocks = 18 * length ps \<and> cmd_isReady c"
proof -
  have n: "unat (of_nat (length ps) :: u16) = length ps"
    using assms(2) by (simp add: ETHERDREAM_MAX_PACKET_POINTS_def unat_of_nat take_bit_nat_eq_self_iff)
  have b: "buffer (cmd_buffer (setDataCommand k cmd)) = ch CHR ''d'' # le16 k"
    "opcode (setDataCommand k cmd) = ch CHR ''d''" for k
    by (simp_all add: setDataCommand_def cmd_reset_def bb_clear_def appendChar_def appendUInt16_def Let_def)
  have "addPoints ps (map (\<lambda>i. inject \<and> i = 0) [0 ..< length ps]) (setDataCommand (of_nat (length ps)) cmd) = Some c"
    using assms(1) n by (simp add: buildDataPacket_def Let_def)
  then obtain blocks where "buffer (cmd_buffer c) = buffer (cmd_buffer (setDataCommand (of_nat (length ps)) cmd)) @ blocks"
    "length blocks = 18 * length ps" "opcode c = ch CHR ''d''"
    using addPoints_appends [of ps "map (\<lambda>i. inject \<and> i = 0) [0 ..< length ps]" "setDataCommand (of_nat (length ps)) cmd"]
    by (auto simp: b)
  then show ?thesis using opcodes_differ by (auto simp: b cmd_isReady_def bb_size_def)
qed

lemma data_command_ok:
  assumes "ex_bytes e = ch CHR ''d'' # le16 (of_nat n) @ blocks" and "length blocks = 18 * n"
    and "lightEngineState (ex_status e) = LE_Ready"
    and "playbackState (ex_status e) = PB_Prepared \<or> playbackState (ex_status e) = PB_Playing"
    and "0 < n" and "n \<le> ETHERDREAM_MAX_PACKET_POINTS" and "0 \<le> ex_estimate e" and "ex_estimate e + int n < ex_capacity e"
  shows "command_ok e"
proof -
  have l: "length (le16 v) = 2" "take 2 (le16 v @ blocks) = le16 v" for v by (simp_all add: length_wire)
  have "(length (le16 v @ blocks) - 2) div 18 = n" for v using assms(2) by (simp add: l)
  then show ?thesis
    unfolding command_ok_def assms(1) Let_def list.case if_not_P [OF data_opcode(1)] if_not_P [OF data_opcode(2)] simp_thms if_True
    using assms(2-8) l by simp
qed

lemma recovery_blank:
  assumes "applyUnderrunRecoveryBlankToCurrentPacket (recordComputerPerformanceUnderrun s) = Some s'"
  shows "ctrl s' = ctrl s \<and> length (ed_points s') = length (ed_points s) \<and>
    pr_estimatedBufferBeforeRequest (pendingStreamHealthRequest s') = pr_estimatedBufferBeforeRequest (pendingStreamHealthRequest s)"
proof -
  define u where "u = recordComputerPerformanceUnderrun s"
  have u: "ctrl u = ctrl s" "ed_points u = ed_points s"
    "pr_estimatedBufferBeforeRequest (pendingStreamHealthRequest u) = pr_estimatedBufferBeforeRequest (pendingStreamHealthRequest s)"
    unfolding u_def
    by simp (simp_all add: recordComputerPerformanceUnderrun_def intermittentError_def ed_now_def mapStream_def
      mapPending_def ed_points_def ed_stream_def)
  have st: "startupBlank u = Some v \<Longrightarrow> ed_points v = ed_points u \<and> pendingStreamHealthRequest v = pendingStreamHealthRequest u" for v
    by (auto simp: startupBlank_def bind_eq_Some_conv mapStream_def ed_points_def ed_stream_def)
  show ?thesis
  proof (cases "pr_recoveryBlankApplied (pendingStreamHealthRequest u)")
    case True
    then show ?thesis using assms u by (simp add: u_def [symmetric] applyUnderrunRecoveryBlankToCurrentPacket_def)
  next
    case False
    then obtain v where v: "startupBlank u = Some v"
      using assms by (auto simp: u_def [symmetric] applyUnderrunRecoveryBlankToCurrentPacket_def bind_eq_Some_conv)
    obtain ps p where a: "applyStartupBlankToOutputPoints (ed_points v) (pipe (ed_stream v)) = (ps, p)" by fastforce
    have e: "s' = mapPending (\<lambda>q. q\<lparr>pr_recoveryBlankApplied := True\<rparr>) (mapStream (\<lambda>st. st\<lparr>pointsToSend := ps, pipe := p\<rparr>) v)"
      using assms False v a by (simp add: u_def [symmetric] applyUnderrunRecoveryBlankToCurrentPacket_def)
    have "length ps = length (ed_points v)" using startup_frame [OF a] by blast
    then show ?thesis using startupBlank_ctrl [OF v] st [OF v] u unfolding e
      by (simp add: ed_points_def ed_stream_def mapStream_def mapPending_def ctrl_defs)
  qed
qed

lemma sendPoints_exchanges:
  assumes "sendPoints g s = Some s'" and "action_ok s" and "tcpOpen s" and "packet_ok s"
  shows "exchanged (\<lambda>e. command_ok e) s s' \<and> action_ok s'"
proof (cases "canSendData s \<and> ed_points s \<noteq> []")
  case False
  define u where "u = (if playbackAction s \<noteq> ActClear \<and> playbackAction s \<noteq> ActStop \<and>
                 lightEngineState (lastKnownStatus s) = LE_Ready \<and> playbackState (lastKnownStatus s) = PB_Idle
              then s\<lparr>playbackAction := ActPrepare\<rparr> else s)"
  have u: "socket u = socket s" "action_ok u" using assms(2) by (simp_all add: u_def socket_def action_ok_def)
  have "s' = resetPoints u \<or> s' = s"
    using False assms(1) by (simp add: sendPoints_def u_def [symmetric] split: if_splits)
  then have "socket s' = socket s \<and> action_ok s'" using u assms(2) by (auto simp: resetPoints_fields)
  then show ?thesis using exchanged_socket exchanged_refl by metis
next
  case True
  define hungry where "hungry = pendingStreamHealthRequestLikelyStarvedDac s"
  from True assms(1) obtain s1 c where
    1: "(if hungry then applyUnderrunRecoveryBlankToCurrentPacket (recordComputerPerformanceUnderrun s) else Some s) = Some s1"
    and c: "buildDataPacket (0 < pendingRateChangeCount s1) (ed_points s1) (commandBuffer s1) = Some c"
    and rest: "(let s2 = setCommand c s1 in
        (if bb_size (cmd_buffer c) = 0 then Some (resetPoints (handleNetworkFailure InvalidArgument s2))
         else do {
           let (sendStart, s3) = ed_now s2;
           (dataAck, s4) \<leftarrow> sendCommand g False s3;
           let (sendEnd, s5) = ed_now s4;
           (case dataAck of
              Inl _ \<Rightarrow> Some (resetPoints (closeAfterFailure dataAck s5))
            | Inr a \<Rightarrow> do {
                s6 \<leftarrow> recordStreamHealthPacket (ack_status a) (sendEnd - sendStart) s5;
                Some (resetPoints (if 0 < pendingRateChangeCount s1
                        then s6\<lparr>pendingRateChangeCount := pendingRateChangeCount s6 - 1\<rparr> else s6)) }) })) = Some s'"
    by (auto simp: sendPoints_def hungry_def [symmetric] Let_def bind_eq_Some_conv)
  have f: "ctrl s1 = ctrl s" "length (ed_points s1) = length (ed_points s)"
    "pr_estimatedBufferBeforeRequest (pendingStreamHealthRequest s1) = pr_estimatedBufferBeforeRequest (pendingStreamHealthRequest s)"
    using 1 recovery_blank by (auto split: if_splits)
  define n where "n = length (ed_points s)"
  have n: "n \<le> ETHERDREAM_MAX_PACKET_POINTS" "0 < n"
    "0 \<le> pr_estimatedBufferBeforeRequest (pendingStreamHealthRequest s)"
    "pr_estimatedBufferBeforeRequest (pendingStreamHealthRequest s) + int n < getBufferSize s"
    using True assms(4) by (auto simp: packet_ok_def n_def)
  obtain blocks where bytes: "buffer (cmd_buffer c) = ch CHR ''d'' # le16 (of_nat n) @ blocks"
    "length blocks = 18 * n" "cmd_isReady c"
    using buildDataPacket_bytes [OF c] f(2) n(1) by (auto simp: n_def)
  obtain t0 s3 where t: "ed_now (setCommand c s1) = (t0, s3)" by fastforce
  have c3: "ctrl s3 = ctrl s" using ed_now_ctrl [OF t] f by simp
  have b3: "commandBuffer s3 = c" "pr_estimatedBufferBeforeRequest (pendingStreamHealthRequest s3) =
      pr_estimatedBufferBeforeRequest (pendingStreamHealthRequest s)"
    using t f(3) by (auto simp: ed_now_def setCommand_def)
  from rest bytes(1) t obtain r s4 where 4: "sendCommand g False s3 = Some (r, s4)"
    by (auto simp: bb_size_def bind_eq_Some_conv)
  obtain t1 s5 where 5: "ed_now s4 = (t1, s5)" by fastforce
  have 6: "(case r of
              Inl _ \<Rightarrow> Some (resetPoints (closeAfterFailure r s5))
            | Inr a \<Rightarrow> do {
                s6 \<leftarrow> recordStreamHealthPacket (ack_status a) (t1 - t0) s5;
                Some (resetPoints (if 0 < pendingRateChangeCount s1
                        then s6\<lparr>pendingRateChangeCount := pendingRateChangeCount s6 - 1\<rparr> else s6)) }) = Some s'"
    using rest bytes(1) by (simp add: t 4 5 bb_size_def)
  have st: "lightEngineState (lastKnownStatus s) = LE_Ready"
    "playbackState (lastKnownStatus s) = PB_Prepared \<or> playbackState (lastKnownStatus s) = PB_Playing"
    using True by (auto simp: canSendData_def split: if_splits)
  have "lastKnownStatus s3 = lastKnownStatus s" using c3 by (simp add: ctrl_def)
  then have x: "ex_bytes (exchange_of s3 q) = ch CHR ''d'' # le16 (of_nat n) @ blocks"
    "ex_status (exchange_of s3 q) = lastKnownStatus s" "ex_capacity (exchange_of s3 q) = getBufferSize s"
    "ex_estimate (exchange_of s3 q) = pr_estimatedBufferBeforeRequest (pendingStreamHealthRequest s)" for q
    using bytes(1) b3 getBufferSize_ctrl [OF c3] by (simp_all add: exchange_of_def)
  have legal: "command_ok (exchange_of s3 q)" for q
    by (rule data_command_ok [OF x(1) bytes(2)]) (simp_all only: x st n)
  have a3: "action_ok s3" "tcpOpen s3" using c3 assms(2,3) by (simp_all add: ctrl_action_ok [OF c3]) (simp add: ctrl_defs)
  have "exchanged command_ok s3 s' \<and> action_ok s'"
  proof (rule exchange_then [where P = command_ok, OF 4 _ a3 legal])
    show "cmd_isReady (commandBuffer s3)" using bytes b3 by simp
    have "ctrl (closeAfterFailure r s5) = ctrl (closeAfterFailure r s4)"
      using ed_now_ctrl [OF 5] by (auto simp: closeAfterFailure_def handleNetworkFailure_fields ctrl_defs)
    then show "ctrl s' = ctrl (closeAfterFailure r s4)" if "isl r" using that 6 by (cases r) auto
    fix a assume r: "r = Inr a"
    have a4: "action_ok s4" using sendCommand_spec [OF 4 a3(1)] bytes(3) b3(1) unfolding r by auto
    obtain s6 where 7: "recordStreamHealthPacket (ack_status a) (t1 - t0) s5 = Some s6"
      and e: "s' = resetPoints (if 0 < pendingRateChangeCount s1
                        then s6\<lparr>pendingRateChangeCount := pendingRateChangeCount s6 - 1\<rparr> else s6)"
      using 6 by (auto simp: r bind_eq_Some_conv)
    have "ctrl s6 = ctrl s4" using recordStreamHealthPacket_ctrl [OF 7] ed_now_ctrl [OF 5] by simp
    moreover have "ctrl s' = ctrl s6" unfolding e by (simp add: ctrl_defs resetPoints_def mapStream_def)
    ultimately have "ctrl s' = ctrl s4" by simp
    then show "socket s' = socket s4 \<and> action_ok s'" using a4 ctrl_socket ctrl_action_ok by blast
  qed
  then show ?thesis using exchanged_from_ctrl [OF c3] by blast
qed

subsection \<open>The stream pass\<close>

lemma sleepUntilNextPoints_spec:
  assumes "sleepUntilNextPoints g s = Some s'"
  shows "\<exists>m u. ctrl u = ctrl s \<and> s' = sleepFor m u \<and> 1 \<le> m \<and> m \<le> ETHERDREAM_MAX_SLEEP"
proof -
  obtain n f s1 r where e: "estimateBufferFullness s = Some (f, s1)"
    and s': "s' = sleepFor (clampSleepMillis r ETHERDREAM_MIN_SLEEP ETHERDREAM_MAX_SLEEP) s1"
    using assms by (auto simp: sleepUntilNextPoints_def Let_def bind_eq_Some_conv)
  have "1 \<le> clampSleepMillis r 1 50" "clampSleepMillis r 1 50 \<le> 50"
    by (simp_all add: clampSleepMillis_def clamp_int_def)
  then show ?thesis using s' estimateBufferFullness_ctrl [OF e]
    by (auto simp: ETHERDREAM_MIN_SLEEP_def ETHERDREAM_MAX_SLEEP_def)
qed

lemma estimateBufferFullness_nonneg:
  assumes "estimateBufferFullness s = Some (n, s')"
  shows "0 \<le> n"
proof -
  have "0 \<le> clampBufferFullnessToCapacity k c" for k c
    by (simp add: clampBufferFullnessToCapacity_def clamp_int_def)
  then show ?thesis using assms
    by (auto simp: estimateBufferFullness_def bind_eq_Some_conv ed_now_def Let_def split: if_splits)
qed

lemma usable_below_capacity:
  assumes "0 \<le> f" and "0 < usableBufferFreeSpace f s" and "int n \<le> usableBufferFreeSpace f s"
  shows "f + int n < getBufferSize s"
  using assms
  by (auto simp: usableBufferFreeSpace_def Let_def clampBufferFullnessToCapacity_def clamp_int_def
      ETHERDREAM_WRITE_HEADROOM_POINTS_def split: if_splits)

lemma getFillRequest_spec:
  assumes "getFillRequest g s = Some (req, s')"
  shows "ctrl s' = ctrl s \<and> ed_points s' = [] \<and>
    0 \<le> pr_estimatedBufferBeforeRequest (pendingStreamHealthRequest s') \<and>
    maximumPointsRequired req = min (nat (usableBufferFreeSpace (pr_estimatedBufferBeforeRequest (pendingStreamHealthRequest s')) s'))
      ETHERDREAM_MAX_PACKET_POINTS \<and>
    minimumPointsRequired req \<le> maximumPointsRequired req"
proof -
  obtain f s1 where 1: "estimateBufferFullness s = Some (f, s1)"
    using assms by (auto simp: getFillRequest_def bind_eq_Some_conv)
  obtain d s2 where 2: "targetBufferDeficitPoints g s1 = Some (d, s2)"
    using assms 1 by (auto simp: getFillRequest_def Let_def bind_eq_Some_conv)
  obtain t s3 where 3: "ed_now s2 = (t, s3)" by fastforce
  obtain lead tp where e: "req = \<lparr>minimumPointsRequired = min d (min (nat (usableBufferFreeSpace f s1)) ETHERDREAM_MAX_PACKET_POINTS),
        maximumPointsRequired = min (nat (usableBufferFreeSpace f s1)) ETHERDREAM_MAX_PACKET_POINTS,
        estimatedFirstPointRenderTime = t + lead * 1000000, currentPointIndex = 0, allowShortRead = False\<rparr>"
    "s' = resetPoints (mapPending (\<lambda>p. p\<lparr>pr_estimatedBufferBeforeRequest := f, pr_targetBufferPointCount := tp,
        pr_freeSpace := usableBufferFreeSpace f s1, pr_playbackWasPlaying := (playbackState (lastKnownStatus s3) = PB_Playing),
        pr_computerPerformanceUnderrun := False, pr_recoveryBlankApplied := False\<rparr>) s3)"
    using assms 1 2 3 by (auto simp: getFillRequest_def Let_def bind_eq_Some_conv)
  have "\<exists>f'. estimateBufferFullness s1 = Some (f', s2)" using 2 by (auto simp: targetBufferDeficitPoints_def bind_eq_Some_conv)
  then have c: "ctrl s1 = ctrl s" "ctrl s2 = ctrl s" "ctrl s3 = ctrl s"
    using estimateBufferFullness_ctrl [OF 1] estimateBufferFullness_ctrl ed_now_ctrl [OF 3] by auto
  have c': "ctrl s' = ctrl s" using c unfolding e by simp
  have p: "pr_estimatedBufferBeforeRequest (pendingStreamHealthRequest s') = f" "ed_points s' = []"
    unfolding e by (simp_all add: resetPoints_def mapStream_def mapPending_def ed_points_def ed_stream_def)
  have "usableBufferFreeSpace f s1 = usableBufferFreeSpace f s'"
    using getBufferSize_ctrl c(1) c' by (metis usableBufferFreeSpace_def)
  then show ?thesis using estimateBufferFullness_nonneg [OF 1] c' p by (simp add: e(1) min_le_iff_disj)
qed

lemma requestPoints_bounded:
  assumes "requestPoints g req clk c = Some (True, c', clk')"
    and "minimumPointsRequired req \<le> maximumPointsRequired req"
  shows "length (pointsToSend (stream c')) \<le> maximumPointsRequired req"
  using assms fitToRequest_bounds [OF assms(2)]
  by (auto simp: requestPoints_def str_requestPoints_def recordPointRequestMetrics_def Let_def bind_eq_Some_conv
      sanitizeLaserPoints_def dest!: postProcess_length split: ContentSource.splits option.splits)

lemma ed_requestPoints_spec:
  assumes "ed_requestPoints g req s = Some (ok, s')" and "minimumPointsRequired req \<le> maximumPointsRequired req"
  shows "ctrl s' = ctrl s \<and> pendingStreamHealthRequest s' = pendingStreamHealthRequest s \<and>
    (ok \<longrightarrow> length (ed_points s') \<le> maximumPointsRequired req)"
  using assms requestPoints_bounded [OF _ assms(2)]
  by (auto simp: ed_requestPoints_def bind_eq_Some_conv ctrl_defs ed_points_def ed_stream_def)

lemma streamPoints_exchanges:
  assumes "streamPoints g s = Some s'" and "action_ok s" and "tcpOpen s"
  shows "exchanged command_ok s s' \<and> action_ok s'"
proof -
  obtain s1 where 1: "sleepUntilNextPoints g s = Some s1" using assms(1) by (auto simp: streamPoints_def bind_eq_Some_conv)
  obtain m u where u: "ctrl u = ctrl s" "s1 = sleepFor m u" "1 \<le> m" "m \<le> ETHERDREAM_MAX_SLEEP"
    using sleepUntilNextPoints_spec [OF 1] by blast
  obtain req s2 where 2: "getFillRequest g s1 = Some (req, s2)" using assms(1) 1 by (auto simp: streamPoints_def bind_eq_Some_conv)
  note fill = getFillRequest_spec [OF 2]
  have s1: "action_ok s1" "tcpOpen s1"
    using assms(2,3) ctrl_action_ok [OF u(1)] u(1,2) by (simp_all add: sleepFor_def action_ok_def ctrl_defs)
  have finish: "exchanged command_ok s s'" if "exchanged command_ok s1 s'"
    using exchanged_after_sleep [of command_ok m u s'] that u exchanged_from_ctrl by blast
  obtain want where w: "shouldRequestPoints g req s2 = Some want" using assms(1) 1 2 by (auto simp: streamPoints_def bind_eq_Some_conv)
  show ?thesis
  proof (cases want)
    case False
    then have "s' = s2" using assms(1) 1 2 w by (simp add: streamPoints_def)
    then show ?thesis using fill s1 finish exchanged_ctrl exchanged_refl ctrl_action_ok by metis
  next
    case True
    obtain t0 s3 where 3: "ed_now s2 = (t0, s3)" by fastforce
    obtain ok s4 where 4: "ed_requestPoints g req s3 = Some (ok, s4)"
      using assms(1) 1 2 w True 3 by (auto simp: streamPoints_def Let_def bind_eq_Some_conv)
    obtain t1 s5 where 5: "ed_now s4 = (t1, s5)" by fastforce
    define s6 where "s6 = captureStreamHealthRequest req ok (t1 - t0) s5"
    have r: "(if ok then sendPoints g s6 else map_option resetPoints (recordStreamHealthRequestMiss s6)) = Some s'"
      using assms(1) 1 2 w True 3 4 5 by (cases ok) (simp_all add: streamPoints_def s6_def Let_def)
    have "minimumPointsRequired req \<le> maximumPointsRequired req" using fill by blast
    note req = ed_requestPoints_spec [OF 4 this]
    have c6: "ctrl s6 = ctrl s1" using fill ed_now_ctrl [OF 3] ed_now_ctrl [OF 5] req by (simp add: s6_def)
    have a6: "action_ok s6" "tcpOpen s6" using s1 c6 by (simp_all add: ctrl_action_ok [OF c6]) (simp add: ctrl_defs)
    have "exchanged command_ok s6 s' \<and> action_ok s'"
    proof (cases ok)
      case False
      then obtain v where v: "recordStreamHealthRequestMiss s6 = Some v" "s' = resetPoints v" using r by auto
      have "ctrl s' = ctrl s6" using recordStreamHealthRequestMiss_ctrl [OF v(1)] v(2) by simp
      then show ?thesis using a6 exchanged_ctrl exchanged_refl ctrl_action_ok by metis
    next
      case True
      define est where "est = pr_estimatedBufferBeforeRequest (pendingStreamHealthRequest s2)"
      have keep: "pr_estimatedBufferBeforeRequest (pendingStreamHealthRequest s6) = est" "ed_points s6 = ed_points s4"
        using 3 5 req fill
        by (auto simp: s6_def captureStreamHealthRequest_def ed_now_def mapPending_def est_def ed_points_def ed_stream_def)
      define n where "n = length (ed_points s4)"
      have "n \<le> maximumPointsRequired req" using req fill True by (simp add: n_def)
      then have n: "n \<le> nat (usableBufferFreeSpace est s2)" "n \<le> ETHERDREAM_MAX_PACKET_POINTS"
        using fill by (simp_all add: est_def)
      have "packet_ok s6"
      proof (cases "n = 0")
        case True
        then show ?thesis by (simp add: packet_ok_def keep n_def)
      next
        case False
        then have "0 < usableBufferFreeSpace est s2" "int n \<le> usableBufferFreeSpace est s2" using n(1) by linarith+
        then have "est + int n < getBufferSize s2" using usable_below_capacity fill by (simp add: est_def)
        moreover have "ctrl s6 = ctrl s2" using c6 fill by simp
        ultimately show ?thesis using n(2) fill keep getBufferSize_ctrl [of s6 s2] by (simp add: packet_ok_def n_def est_def)
      qed
      then show ?thesis using sendPoints_exchanges [of g s6 s'] r True a6 by simp
    qed
    then show ?thesis using exchanged_from_ctrl [OF c6] finish by blast
  qed
qed

subsection \<open>The contract holds\<close>

lemma legal_bytes:
  "ex_bytes e = [ch CHR ''s''] \<Longrightarrow> command_ok e" "ex_bytes e = [ch CHR ''c''] \<Longrightarrow> command_ok e"
  "ex_bytes e = [ch CHR ''?''] \<Longrightarrow> command_ok e"
  "ex_bytes e = [ch CHR ''p''] \<Longrightarrow> lightEngineState (ex_status e) = LE_Ready \<Longrightarrow> playbackState (ex_status e) = PB_Idle \<Longrightarrow> command_ok e"
  "ex_bytes e = ch CHR ''b'' # le16 v @ le32 w \<Longrightarrow> lightEngineState (ex_status e) = LE_Ready \<Longrightarrow>
    playbackState (ex_status e) = PB_Prepared \<Longrightarrow> command_ok e"
  by (simp_all add: command_ok_def ch_def Let_def length_wire)

interpretation stop: session_operation "sendStop g allow" "\<lambda>_. True" "\<lambda>e. ex_bytes e = [ch CHR ''s'']" for g allow
  by unfold_locales (auto dest: sendStop_exchanges legal_bytes)

interpretation clear: session_operation "sendClear g" "\<lambda>_. True" "\<lambda>e. ex_bytes e = [ch CHR ''c'']" for g
  by unfold_locales (auto dest: sendClear_exchanges legal_bytes)

interpretation poll: session_operation "pollStatus g" "\<lambda>_. True" "\<lambda>e. ex_bytes e = [ch CHR ''?'']" for g
  by unfold_locales (auto dest: pollStatus_exchanges legal_bytes)

interpretation stream: session_operation "streamPoints g" "\<lambda>_. True" command_ok for g
  by unfold_locales (auto dest: streamPoints_exchanges)

lemma exchanged_mono: "exchanged P s s' \<Longrightarrow> (\<And>e. P e \<Longrightarrow> Q e) \<Longrightarrow> exchanged Q s s'"
  by (auto simp: exchanged_def)

text \<open>Prepare and begin are sent only when the action asks for them.\<close>

interpretation prepare: session_operation "sendPrepare g" "\<lambda>s. playbackAction s = ActPrepare"
  "\<lambda>e. command_ok e \<and> ex_bytes e = [ch CHR ''p'']" for g
proof
  fix s s' assume a: "sendPrepare g s = Some s'" "playbackAction s = ActPrepare" "action_ok s" "tcpOpen s"
  then have "lightEngineState (lastKnownStatus s) = LE_Ready" "playbackState (lastKnownStatus s) = PB_Idle"
    by (auto simp: action_ok_def)
  then show "exchanged (\<lambda>e. command_ok e \<and> ex_bytes e = [ch CHR ''p'']) s s' \<and> action_ok s'"
    using sendPrepare_exchanges [OF a(1,3,4)] by (auto elim!: exchanged_mono dest: legal_bytes)
qed simp

interpretation start: session_operation "sendBegin g" "\<lambda>s. playbackAction s = ActBegin"
  "\<lambda>e. command_ok e \<and> hd (ex_bytes e) = ch CHR ''b''" for g
proof
  fix s s' assume a: "sendBegin g s = Some s'" "playbackAction s = ActBegin" "action_ok s" "tcpOpen s"
  then have "lightEngineState (lastKnownStatus s) = LE_Ready" "playbackState (lastKnownStatus s) = PB_Prepared"
    by (auto simp: action_ok_def)
  then show "exchanged (\<lambda>e. command_ok e \<and> hd (ex_bytes e) = ch CHR ''b'') s s' \<and> action_ok s'"
    using sendBegin_exchanges [OF a(1,3,4)] by (auto elim!: exchanged_mono dest: legal_bytes)
qed simp

subsection \<open>The worker keeps the invariant\<close>

lemma sleepFor_inv: "ed_inv s \<Longrightarrow> 1 \<le> m \<Longrightarrow> m \<le> 1000 \<Longrightarrow> ed_inv (sleepFor m s)"
  by (auto simp: ed_inv_def sleepFor_def action_ok_def)

lemma syncPointRate_spec:
  "playbackAction s = ActNone \<Longrightarrow> socket (syncPointRate s) = socket s \<and> action_ok (syncPointRate s)"
proof -
  have "socket (s\<lparr>playbackAction := ActStop, pendingRateChangeCount := 0\<rparr>) = socket s" by (simp add: socket_def)
  moreover assume "playbackAction s = ActNone"
  ultimately show ?thesis by (simp add: syncPointRate_def resetPoints_fields)
qed

lemma syncPointRate_inv:
  assumes "ed_inv s" and "playbackAction s = ActNone"
  shows "ed_inv (syncPointRate s)" "connectionActive (syncPointRate s) = connectionActive s"
  using syncPointRate_spec [OF assms(2)] assms(1) by (auto simp: ed_inv_def socket_def)

lemma workerPass_inv:
  assumes "workerPass g s = Some s'" and "ed_inv s" and "connectionActive s"
  shows "ed_inv s'"
proof (cases "playbackAction s")
  case ActNone
  note sync = syncPointRate_inv [OF assms(2) ActNone]
  define v where "v = syncPointRate s"
  have v: "ed_inv v" "connectionActive v" using sync assms(3) by (simp_all add: v_def)
  have pass: "(if playbackAction v \<noteq> ActNone then Some v
         else if \<not> canSendData v then map_option (sleepFor ETHERDREAM_MIN_SLEEP) (pollStatus g v)
         else streamPoints g v) = Some s'"
    using assms(1) by (simp only: workerPass_def ActNone PlaybackAction.case Let_def v_def)
  show ?thesis
  proof (cases "playbackAction v \<noteq> ActNone")
    case True
    then show ?thesis using pass v by simp
  next
    case False
    show ?thesis
    proof (cases "canSendData v")
      case True
      then have "streamPoints g v = Some s'" using pass False by simp
      then show ?thesis by (rule stream.keeps_inv [OF _ v(1) TrueI v(2)])
    next
      case poll: False
      then obtain u where u: "pollStatus g v = Some u" "s' = sleepFor ETHERDREAM_MIN_SLEEP u"
        using pass False by (auto simp: map_option_case split: option.splits)
      have "ed_inv u" by (rule poll.keeps_inv [OF u(1) v(1) TrueI v(2)])
      then show ?thesis using u(2) sleepFor_inv [of u 1] by (simp add: ETHERDREAM_MIN_SLEEP_def)
    qed
  qed
next
  case ActStop
  then have "sendStop g False s = Some s'" using assms(1) by (simp add: workerPass_def)
  then show ?thesis by (rule stop.keeps_inv [OF _ assms(2) TrueI assms(3)])
next
  case ActClear
  then have "sendClear g s = Some s'" using assms(1) by (simp add: workerPass_def)
  then show ?thesis by (rule clear.keeps_inv [OF _ assms(2) TrueI assms(3)])
next
  case ActPrepare
  then have "sendPrepare g s = Some s'" using assms(1) by (simp add: workerPass_def)
  then show ?thesis by (rule prepare.keeps_inv [OF _ assms(2) ActPrepare assms(3)])
next
  case ActBegin
  then have "sendBegin g s = Some s'" using assms(1) by (simp add: workerPass_def)
  then show ?thesis by (rule start.keeps_inv [OF _ assms(2) ActBegin assms(3)])
qed

lemma isRunning_inv: "isRunning s = (b, s') \<Longrightarrow> ed_inv s \<Longrightarrow> ed_inv s' \<and> connectionActive s' = connectionActive s"
  using ed_inv_ctrl [of s' s] isRunning_ctrl [of s b s'] by (simp add: ctrl_defs)

lemma sendOrderlyStop_inv:
  assumes "sendOrderlyStopBeforeClose g s = Some s'" and "ed_inv s"
  shows "ed_inv s'"
proof (cases "connectionActive s")
  case True
  obtain up u where u: "tcp_is_connected s = (up, u)" by fastforce
  then have c: "ctrl u = ctrl s" using tcp_is_connected_ctrl by blast
  then have "connectionActive u" using True by (simp add: ctrl_defs)
  moreover have "ed_inv u" using assms(2) ed_inv_ctrl [OF c] by blast
  moreover note calculation
  then show ?thesis using assms(1) True u stop.keeps_inv [of g True u s']
    by (auto simp: sendOrderlyStopBeforeClose_def split: if_splits)
qed (use assms in \<open>simp add: sendOrderlyStopBeforeClose_def\<close>)

lemma tcp_close_inv: "ed_inv s \<Longrightarrow> \<not> connectionActive s \<Longrightarrow> ed_inv (tcp_close s)"
  by (auto simp: ed_inv_def tcp_close_fields action_ok_def)

lemma ed_close_inv: "ed_inv s \<Longrightarrow> ed_inv (ed_close s) \<and> \<not> connectionActive (ed_close s)"
proof -
  assume i: "ed_inv s"
  define u where "u = connectionState False (s\<lparr>connectionActive := False\<rparr>)"
  have "ctrl u = ctrl (s\<lparr>connectionActive := False\<rparr>)" by (simp add: u_def)
  moreover have "ed_inv (s\<lparr>connectionActive := False\<rparr>)" using i by (simp add: ed_inv_def action_ok_def)
  ultimately have "ed_inv u" "\<not> connectionActive u" using ed_inv_ctrl by (blast, simp add: ctrl_defs)
  then show ?thesis using tcp_close_inv [of u] by (simp add: ed_close_def u_def [symmetric] tcp_close_fields)
qed

lemma tcp_connect_inv:
  assumes "tcp_connect s = (r, s')" and "ed_inv s" and "\<not> connectionActive s"
  shows "ed_inv s' \<and> \<not> connectionActive s' \<and> (r = None \<longrightarrow> tcpOpen s')"
proof -
  have "ed_inv (tcp_close s)" "\<not> connectionActive (tcp_close s)" "\<not> tcpOpen (tcp_close s)"
    using tcp_close_inv assms(2,3) by (simp_all add: tcp_close_fields)
  then show ?thesis using assms(1)
    by (auto simp: tcp_connect_def Let_def ed_inv_def action_ok_def split: if_splits)
qed

lemma resetProtocolState_inv:
  assumes "ed_inv s"
  shows "ed_inv (resetProtocolStateForConnection s) \<and> tcpOpen (resetProtocolStateForConnection s) = tcpOpen s \<and>
    \<not> connectionActive (resetProtocolStateForConnection s)"
  using assms
  by (simp add: resetProtocolStateForConnection_def resetStreamHealth_def ed_now_def resetPoints_def mapStream_def
      ed_inv_def action_ok_def initial_status_def Let_def)

lemma ed_connect_inv:
  assumes "ed_connect s = (ok, s')" and "ed_inv s" and "\<not> connectionActive s"
  shows "ed_inv s' \<and> \<not> connectionActive s' \<and> (ok \<longrightarrow> tcpOpen s')"
proof -
  have err: "ed_inv (connectionError code (u\<lparr>lastError := e\<rparr>)) = ed_inv u"
    "connectionActive (connectionError code (u\<lparr>lastError := e\<rparr>)) = connectionActive u" for code u e
    using ed_inv_ctrl [OF connectionError_ctrl, of code "u\<lparr>lastError := e\<rparr>"] connectionError_ctrl [of code "u\<lparr>lastError := e\<rparr>"]
    by (simp_all add: ctrl_defs ed_inv_def action_ok_def)
  obtain r s1 where c: "tcp_connect s = (r, s1)" by fastforce
  note s1 = tcp_connect_inv [OF c assms(2,3)]
  define s2 where "s2 = resetProtocolStateForConnection (s1\<lparr>connectionGeneration := connectionGeneration s1 + 1\<rparr>)"
  have "ed_inv (s1\<lparr>connectionGeneration := connectionGeneration s1 + 1\<rparr>)" using s1 by (simp add: ed_inv_def action_ok_def)
  from resetProtocolState_inv [OF this] have s2: "ed_inv s2" "tcpOpen s2 = tcpOpen s1" "\<not> connectionActive s2"
    by (simp_all add: s2_def)
  have s3: "ctrl (connectionState True (s2\<lparr>lastError := None\<rparr>)) = ctrl s2" by (simp add: ctrl_defs)
      (simp add: connectionState_def mapStream_def)
  have "ed_inv (connectionState True (s2\<lparr>lastError := None\<rparr>))" "\<not> connectionActive (connectionState True (s2\<lparr>lastError := None\<rparr>))"
    "tcpOpen (connectionState True (s2\<lparr>lastError := None\<rparr>)) = tcpOpen s1"
    using s2 ed_inv_ctrl [OF s3] s3 by (simp_all add: ctrl_defs)
  then show ?thesis
    using assms s1 err by (cases r) (auto simp: ed_connect_def c s2_def [symmetric] Let_def split: option.splits)
qed

end
