(* ===== verification/Ether_Dream_Runs.thy ===== *)
theory Ether_Dream_Runs
  imports Ether_Dream_Properties
begin

text \<open>
  Every run of the Ether Dream worker: the handshake and the reconnect loop keep the session
  invariant, so the commands, the socket events and the sleeps of every reachable state are as
  specified. The recovery after a broken exchange and the reboot latch of \<open>pointRateRecovery\<close>
  follow.
\<close>

subsection \<open>The handshake\<close>

lemma updated_status:
  "handleResponseFrame g cmd n r s = Some (Inr a, s') \<Longrightarrow> lastKnownStatus s' = ack_status a"
  by (auto simp: handleResponseFrame_def handleStopConditionResponse_def handleInvalidCommandResponse_def
      handleBufferFullResponse_def handleUnexpectedResponse_def recoverInPlace_def bind_eq_Some_conv Let_def
      dest!: updatePlaybackRequirements_spec split: if_splits)

lemma waitForResponse_status:
  assumes "waitForResponse g cmd allow n s = Some (Inr a, s')"
  shows "lastKnownStatus s' = ack_status a"
proof -
  obtain on s1 where 1: "isRunning s = (on, s1)" by fastforce
  obtain up s2 where 2: "tcp_is_connected s1 = (up, s2)" by fastforce
  obtain fr s3 where "readResponseFrame s2 = Some (fr, s3)"
    "(case fr of Inl ec \<Rightarrow> Some (Inl (commandFailureKindForResponseReadError ec, ec), s3)
      | Inr r \<Rightarrow> handleResponseFrame g cmd n r s3) = Some (Inr a, s')"
    using assms by (auto simp: waitForResponse_def 1 2 bind_eq_Some_conv split: if_splits)
  then show ?thesis by (cases fr) (auto dest: updated_status)
qed

lemma sendCommand_status:
  assumes "sendCommand g allow s0 = Some (Inr a, s')"
  shows "lastKnownStatus s' = ack_status a"
proof -
  obtain on s where 1: "isRunning s0 = (on, s)" by fastforce
  define q where "q = nextCommandSequence s + 1"
  obtain t0 s2 where n: "ed_now (s\<lparr>nextCommandSequence := q\<rparr>) = (t0, s2)" by fastforce
  define code where "code = opcode (commandBuffer s)"
  define s3 where "s3 = recordProtocolTx q code s2"
  obtain wr s4 where w: "tcp_write_all s3 = (wr, s4)" by fastforce
  have on: "\<not> (\<not> on \<and> \<not> allow)" "cmd_isReady (commandBuffer s)" "wr = None"
    using assms by (auto simp: sendCommand_def 1 n Let_def q_def [symmetric] code_def [symmetric] s3_def [symmetric] w
        split: if_split_asm option.split_asm)
  obtain s5 where 5: "waitForResponse g code True q s4 = Some (Inr a, s5)"
    and e: "s' = resetCommand (logExchange (exchange_of s (Inr a))
       (if code = ch CHR ''d'' then let (t, u) = ed_now s5 in latencySample (t - t0) u else s5))"
    using assms on by (auto simp: sendCommand_def 1 n Let_def q_def [symmetric] code_def [symmetric] s3_def [symmetric] w
        bind_eq_Some_conv)
  obtain t u where tu: "ed_now s5 = (t, u)" by fastforce
  have "lastKnownStatus s' = lastKnownStatus s5"
    using latencySample_ctrl [of "t - t0" u] ed_now_ctrl [OF tu]
    by (simp add: e tu resetCommand_def logExchange_def ctrl_def)
  then show ?thesis using waitForResponse_status [OF 5] by simp
qed

lemma applyFresh_spec:
  assumes "lastKnownStatus s = st"
  shows "action_ok (applyFreshConnectionStatus st s) \<and> tcpOpen (applyFreshConnectionStatus st s) = tcpOpen s \<and>
    wire (applyFreshConnectionStatus st s) = wire s \<and> slept (applyFreshConnectionStatus st s) = slept s \<and>
    connectionActive (applyFreshConnectionStatus st s) = connectionActive s"
  using assms
  by (simp add: applyFreshConnectionStatus_def scheduleClearRecovery_def resetPoints_def mapStream_def action_ok_def)

lemma applyFresh_inv: "ed_inv s \<Longrightarrow> lastKnownStatus s = st \<Longrightarrow> ed_inv (applyFreshConnectionStatus st s)"
  using applyFresh_spec [of s st] by (simp add: ed_inv_def)

lemma probe_inv:
  assumes "ed_inv s" and "tcpOpen s"
  shows "ed_inv (probeFirmwareVersionOnExistingConnection s)"
    "connectionActive (probeFirmwareVersionOnExistingConnection s) = connectionActive s"
  using assms
  by (auto simp: probeFirmwareVersionOnExistingConnection_def readFirmwareVersionString_def tcp_write_all_def tcp_read_exact_def
      ed_inv_def action_ok_def split: option.splits sum.splits)

lemma sendPing_spec:
  assumes "sendPing g s = Some (r, s')" and "ed_inv s" and "tcpOpen s"
  shows "tcpOpen s' \<and> connectionActive s' = connectionActive s \<and> action_ok s' \<and>
    (\<exists>l. link (wire s') = Some l \<and> (l = Up \<or> l = Desynced) \<and> (\<not> isl r \<longrightarrow> l = Up)) \<and>
    (\<forall>e. Exchanged e \<in> set (wire s') \<longrightarrow> command_ok e) \<and> (\<forall>ms \<in> set (slept s'). 1 \<le> ms \<and> ms \<le> 1000)"
proof -
  define c where "c = setSingleByteCommand (ch CHR ''?'') (commandBuffer s)"
  have ready: "cmd_isReady (commandBuffer (setCommand c s))"
    using opcodes_differ by (simp add: c_def single_byte_command setCommand_fields)
  have 1: "sendCommand g False (setCommand c s) = Some (r, s')" using assms(1) by (simp add: sendPing_def c_def)
  have k: "ctrl (setCommand c s) = ctrl s" by simp
  have a: "action_ok (setCommand c s)" using assms(2) by (simp add: ctrl_action_ok [OF k] ed_inv_def)
  have legal: "command_ok (exchange_of (setCommand c s) q)" for q
    by (rule legal_bytes(3)) (simp add: setCommand_fields c_def single_byte_command)
  have up: "link (wire s) = Some Up" using assms(2,3) by (simp add: ed_inv_def)
  from sendCommand_spec [OF 1 a ready] show ?thesis
  proof
    assume "ctrl s' = ctrl (setCommand c s) \<and> (\<exists>ec. r = Inl (FailShutdown, ec))"
    then have e: "ctrl s' = ctrl s" "isl r" by auto
    have "ed_inv s'" using assms(2) ed_inv_ctrl [OF e(1)] by blast
    then show ?thesis using e assms(3) up by (auto simp: ed_inv_def ctrl_defs)
  next
    assume "socket s' = (let (a, b, d) = socket (setCommand c s) in (a, Exchanged (exchange_of (setCommand c s) r) # b, d)) \<and>
      action_ok s' \<and> (\<forall>ec. r \<noteq> Inl (FailShutdown, ec))"
    moreover have "socket (setCommand c s) = socket s" using ctrl_socket [OF k] .
    ultimately have f: "tcpOpen s' = tcpOpen s" "wire s' = Exchanged (exchange_of (setCommand c s) r) # wire s"
      "slept s' = slept s" "connectionActive s' = connectionActive s" "action_ok s'"
      by (simp_all add: socket_def)
    have o: "\<not> isl r \<Longrightarrow> ex_outcome (exchange_of (setCommand c s) r) \<noteq> Broken"
      by (cases r) (simp_all add: exchange_of_def outcome_of_def)
    show ?thesis using f o legal up assms(2,3) by (auto simp: ed_inv_def)
  qed
qed

lemma performHandshake_inv:
  assumes "performHandshake g s = Some (ok, s')" and "ed_inv s" and "tcpOpen s"
  shows "ed_inv s'"
proof -
  obtain r s1 where 1: "waitForResponse g (ch CHR ''?'') False 0 s = Some (r, s1)"
    using assms(1) by (auto simp: performHandshake_def bind_eq_Some_conv)
  have w: "socket s1 = socket s" "action_ok s1" using waitForResponse_spec [OF 1] assms(2) by (simp_all add: ed_inv_def)
  then have i: "ed_inv s1" "tcpOpen s1" using assms(2,3) by (simp_all add: ed_inv_def socket_def)
  show ?thesis
  proof (cases r)
    case (Inr a)
    have "lastKnownStatus s1 = ack_status a" using waitForResponse_status 1 Inr by blast
    then have "ed_inv (applyFreshConnectionStatus (ack_status a) s1)" "tcpOpen (applyFreshConnectionStatus (ack_status a) s1)"
      using applyFresh_inv applyFresh_spec [of s1 "ack_status a"] i by simp_all
    then show ?thesis using assms(1) 1 Inr probe_inv by (auto simp: performHandshake_def)
  next
    case (Inl x)
    obtain q s2 where 2: "sendPing g s1 = Some (q, s2)"
      using assms(1) 1 Inl by (auto simp: performHandshake_def bind_eq_Some_conv)
    note p = sendPing_spec [OF 2 i]
    show ?thesis
    proof (cases q)
      case q: (Inr a)
      have st: "lastKnownStatus s2 = ack_status a" using sendCommand_status 2 q by (auto simp: sendPing_def)
      have "ed_inv s2" using p q by (auto simp: ed_inv_def)
      then have "ed_inv (applyFreshConnectionStatus (ack_status a) s2)" "tcpOpen (applyFreshConnectionStatus (ack_status a) s2)"
        using applyFresh_inv applyFresh_spec [OF st] st p by simp_all
      then show ?thesis using assms(1) 1 2 Inl q probe_inv by (auto simp: performHandshake_def)
    next
      case q: (Inl y)
      have "s' = handleNetworkFailure (error_of q) s2" using assms(1) 1 2 Inl q by (simp add: performHandshake_def)
      then show ?thesis using p by (auto simp: ed_inv_def handleNetworkFailure_fields action_ok_def)
    qed
  qed
qed

subsection \<open>Every reachable state\<close>

definition worker_inv :: "Worker \<Rightarrow> bool" where
  "worker_inv w \<longleftrightarrow> ed_inv (w_ed w) \<and>
     (case w_phase w of InSession t \<Rightarrow> True | _ \<Rightarrow> \<not> connectionActive (w_ed w)) \<and>
     (w_phase w = NotStarted \<or> RECONNECT_INITIAL_DELAY \<le> w_delay w \<and> w_delay w \<le> RECONNECT_MAX_DELAY)"

lemma connectionState_inv:
  "ed_inv (connectionState b s) = ed_inv s" "connectionActive (connectionState b s) = connectionActive s"
  "tcpOpen (connectionState b s) = tcpOpen s"
  using ed_inv_ctrl [OF connectionState_ctrl] connectionState_ctrl [of b s] by (simp_all add: ctrl_defs)

lemma ensureConnected_inv:
  assumes "ensureConnected s = (ok, s')" and "ed_inv s" and "\<not> connectionActive s"
  shows "ed_inv s' \<and> \<not> connectionActive s' \<and> (ok \<longrightarrow> tcpOpen s')"
proof -
  obtain up u where 1: "tcp_is_connected s = (up, u)" by fastforce
  have c: "ctrl u = ctrl s" "up \<longrightarrow> tcpOpen u" using tcp_is_connected_ctrl [OF 1] by simp_all
  then have u: "ed_inv u" "\<not> connectionActive u"
    using assms(2,3) ed_inv_ctrl [OF c(1)] by (simp_all add: ctrl_defs)
  obtain res v where 2: "ed_connect (tcp_close u) = (res, v)" by fastforce
  have v: "ed_inv v" "\<not> connectionActive v" "res \<longrightarrow> tcpOpen v"
    using ed_connect_inv [OF 2 tcp_close_inv [OF u]] u(2) by (simp_all add: tcp_close_fields)
  moreover have "ed_inv (v\<lparr>lastError := None\<rparr>)" using v(1) by (simp add: ed_inv_def action_ok_def)
  ultimately show ?thesis
    using assms(1) u c(2) by (cases up; cases res) (auto simp: ensureConnected_def 1 2 connectionState_inv)
qed

lemma retrying_inv:
  assumes "ed_inv s" and "\<not> connectionActive s" and "RECONNECT_INITIAL_DELAY \<le> d" and "d \<le> RECONNECT_MAX_DELAY"
  shows "worker_inv (retrying b d s)"
proof -
  have "ed_inv (sleepFor d s)" using sleepFor_inv [OF assms(1), of d] assms(3,4)
    by (simp add: RECONNECT_INITIAL_DELAY_def RECONNECT_MAX_DELAY_def)
  then show ?thesis using assms
    by (auto simp: retrying_def sleepBeforeRetry_def worker_inv_def sleepFor_fields RECONNECT_INITIAL_DELAY_def
        RECONNECT_MAX_DELAY_def)
qed

lemma startupBlank_inv: "startupBlank s = Some s' \<Longrightarrow> ed_inv s \<Longrightarrow> ed_inv s'"
  using startupBlank_ctrl ed_inv_ctrl by blast

lemma connectStep_inv:
  assumes "connectStep g d s = Some w'" and "ed_inv s" and "\<not> connectionActive s"
    and "RECONNECT_INITIAL_DELAY \<le> d" and "d \<le> RECONNECT_MAX_DELAY"
  shows "worker_inv w'"
proof -
  obtain on u where 1: "isRunning s = (on, u)" by fastforce
  have u: "ed_inv u" "\<not> connectionActive u" using isRunning_inv [OF 1 assms(2)] assms(3) by simp_all
  obtain ok v where 2: "ensureConnected u = (ok, v)" by fastforce
  have v: "ed_inv v" "\<not> connectionActive v" "ok \<longrightarrow> tcpOpen v" using ensureConnected_inv [OF 2 u] by simp_all
  define x where "x = connectionState True (v\<lparr>connectionActive := True\<rparr>)"
  have x: "ed_inv x \<and> tcpOpen x" if ok
  proof -
    have "ed_inv (v\<lparr>connectionActive := True\<rparr>)" "tcpOpen v" using v that by (simp_all add: ed_inv_def action_ok_def)
    then show ?thesis by (simp add: x_def connectionState_inv)
  qed
  consider (stop) "\<not> on" | (idle) "on" "controllerInfo u = None" | (retry) "on" "controllerInfo u \<noteq> None" "\<not> ok"
    | (greet) "on" "controllerInfo u \<noteq> None" ok by blast
  then show ?thesis
  proof cases
    case stop
    then show ?thesis using assms u by (auto simp: connectStep_def 1 worker_inv_def)
  next
    case idle
    have "ed_inv (sleepFor 250 (connectionState False u))" using u by (intro sleepFor_inv) (simp_all add: connectionState_inv)
    then show ?thesis using idle assms u
      by (auto simp: connectStep_def 1 worker_inv_def RECONNECT_BACKOFF_DELAY_def sleepFor_fields connectionState_inv)
  next
    case retry
    then show ?thesis using assms v retrying_inv by (auto simp: connectStep_def 1 2)
  next
    case greet
    then obtain greeted y where 3: "performHandshake g x = Some (greeted, y)"
      using assms(1) by (auto simp: connectStep_def 1 2 x_def Let_def bind_eq_Some_conv)
    have y: "ed_inv y" using performHandshake_inv [OF 3] x greet by simp
    show ?thesis
    proof (cases greeted)
      case False
      then have "w' = retrying True d (ed_close y)" using assms(1) greet 3 by (simp add: connectStep_def 1 2 x_def)
      then show ?thesis using retrying_inv ed_close_inv [OF y] assms(4,5) by simp
    next
      case True
      obtain t z where 4: "ed_now y = (t, z)" by fastforce
      obtain q where 5: "startupBlank z = Some q" "w' = \<lparr>w_ed = q, w_delay = d, w_phase = InSession t\<rparr>"
        using assms(1) greet 3 True 4 by (auto simp: connectStep_def 1 2 x_def bind_eq_Some_conv)
      have "ed_inv q" using startupBlank_inv [OF 5(1)] ed_inv_ctrl [OF ed_now_ctrl [OF 4]] y by simp
      then show ?thesis using 5(2) assms(4,5) by (simp add: worker_inv_def)
    qed
  qed
qed

lemma sessionStep_inv:
  assumes "sessionStep g d t s = Some w'" and "ed_inv s"
    and "RECONNECT_INITIAL_DELAY \<le> d" and "d \<le> RECONNECT_MAX_DELAY"
  shows "worker_inv w'"
proof -
  obtain on u where 1: "isRunning s = (on, u)" by fastforce
  have u: "ed_inv u" using isRunning_inv [OF 1 assms(2)] by simp
  show ?thesis
  proof (cases "on \<and> connectionActive u")
    case True
    then obtain v where "workerPass g u = Some v" "w' = \<lparr>w_ed = v, w_delay = d, w_phase = InSession t\<rparr>"
      using assms(1) by (auto simp: sessionStep_def 1)
    then show ?thesis using workerPass_inv u True assms(3,4) by (auto simp: worker_inv_def)
  next
    case False
    obtain v where 2: "sendOrderlyStopBeforeClose g u = Some v"
      using assms(1) False by (auto simp: sessionStep_def 1 bind_eq_Some_conv)
    have v: "ed_inv (ed_close v)" "\<not> connectionActive (ed_close v)"
      using ed_close_inv [OF sendOrderlyStop_inv [OF 2 u]] by simp_all
    obtain still x where 3: "isRunning (ed_close v) = (still, x)" by fastforce
    have x: "ed_inv x" "\<not> connectionActive x" using isRunning_inv [OF 3 v(1)] v(2) by simp_all
    obtain t1 y where 4: "ed_now x = (t1, y)" by fastforce
    have y: "ed_inv y" "\<not> connectionActive y"
      using ed_inv_ctrl [OF ed_now_ctrl [OF 4]] ed_now_ctrl [OF 4] x by (simp_all add: ctrl_defs)
    have "w' = (if \<not> still then \<lparr>w_ed = x, w_delay = d, w_phase = Connecting\<rparr>
        else retrying (\<not> RECONNECT_STABLE_RESET_TIME \<le> t1 - t)
          (if RECONNECT_STABLE_RESET_TIME \<le> t1 - t then RECONNECT_INITIAL_DELAY else d) y)"
      using assms(1) False by (auto simp: sessionStep_def 1 2 3 4 Let_def)
    moreover have "worker_inv (retrying b (if c then RECONNECT_INITIAL_DELAY else d) y)" for b c
      using retrying_inv [OF y] assms(3,4) by (simp add: RECONNECT_INITIAL_DELAY_def RECONNECT_MAX_DELAY_def)
    ultimately show ?thesis using x assms(3,4) by (simp add: worker_inv_def)
  qed
qed

lemma ed_step_inv:
  assumes "ed_step w w'" and "worker_inv w"
  shows "worker_inv w'"
  using assms(1)
proof (cases rule: ed_step.cases)
  case (start info)
  define u where "u = (w_ed w)\<lparr>controllerInfo := Some info, firmwareVersionString := info_firmwareVersion info\<rparr>"
  have "ed_inv u" "\<not> connectionActive u"
    using assms(2) start by (simp_all add: worker_inv_def u_def ed_inv_def action_ok_def)
  then have "ed_inv (snd (ed_connect u)) \<and> \<not> connectionActive (snd (ed_connect u))"
    using ed_connect_inv [of u] by (metis prod.collapse)
  then show ?thesis using start
    by (simp add: worker_inv_def prepareNewController_def ed_connectTo_def u_def [symmetric] RECONNECT_INITIAL_DELAY_def
        RECONNECT_MAX_DELAY_def)
next
  case (work g)
  show ?thesis
  proof (cases "w_phase w")
    case Connecting
    then have "connectStep g (w_delay w) (w_ed w) = Some w'" using work by (simp add: workerStep_def)
    moreover have "ed_inv (w_ed w)" "\<not> connectionActive (w_ed w)" "RECONNECT_INITIAL_DELAY \<le> w_delay w"
      "w_delay w \<le> RECONNECT_MAX_DELAY" using assms(2) Connecting by (simp_all add: worker_inv_def)
    ultimately show ?thesis by (rule connectStep_inv)
  next
    case (InSession t)
    then have "sessionStep g (w_delay w) t (w_ed w) = Some w'" using work by (simp add: workerStep_def)
    moreover have "ed_inv (w_ed w)" "RECONNECT_INITIAL_DELAY \<le> w_delay w"
      "w_delay w \<le> RECONNECT_MAX_DELAY" using assms(2) InSession by (simp_all add: worker_inv_def)
    ultimately show ?thesis by (rule sessionStep_inv)
  qed (use work in \<open>simp_all add: workerStep_def\<close>)
next
  case (application c)
  have "ed_inv ((w_ed w)\<lparr>ed_base := c\<rparr>) = ed_inv (w_ed w)" by (simp add: ed_inv_def action_ok_def)
  then show ?thesis using assms(2) application by (auto simp: worker_inv_def split: WorkerPhase.splits)
next
  case shut
  then show ?thesis using assms(2) ed_close_inv by (auto simp: worker_inv_def split: WorkerPhase.splits)
qed

lemma reachable_inv: "ed_reachable w \<Longrightarrow> worker_inv w"
proof (induction rule: ed_reachable.induct)
  case (created info verbose net runs clk)
  then show ?case by (simp add: worker_inv_def ed_init_def ed_inv_def action_ok_def)
next
  case (step w w')
  then show ?case using ed_step_inv by blast
qed

subsection \<open>A concrete run\<close>

text \<open>A DAC that greets idle and acknowledges the prepare command.\<close>

definition sample_net :: Network where
  "sample_net = \<lparr>net_address = \<lambda>_. None, net_connects = \<lambda>_. None, net_alive = \<lambda>_. True, net_writes = \<lambda>_. None,
     net_reads = \<lambda>n. Inr (response_bytes
       (if n = 0 then \<lparr>response = ch CHR ''a'', command = ch CHR ''?'', status = initial_status\<rparr>
        else \<lparr>response = ch CHR ''a'', command = ch CHR ''p'', status = initial_status\<lparr>playbackState := PB_Prepared\<rparr>\<rparr>))\<rparr>"

definition sample_info :: EtherDreamControllerInfo where
  "sample_info = \<lparr>info_ip = ''10.0.0.2'', info_port = 7765, info_bufferSize = 0, info_hardwareVersion = [],
     info_maxPointRate = 0, info_hardwareRevision = 0, info_softwareRevision = 0, info_firmwareVersion = []\<rparr>"

definition sample_start :: "Network \<Rightarrow> Worker" where
  "sample_start net = \<lparr>w_ed = prepareNewController sample_info
      (ed_init None False net (\<lambda>_. True) (\<lambda>n. int n + 1)),
     w_delay = RECONNECT_INITIAL_DELAY, w_phase = Connecting\<rparr>"

lemma sample_start_reachable: "ed_reachable (sample_start net)"
proof -
  have "ed_reachable \<lparr>w_ed = ed_init None False net (\<lambda>_. True) (\<lambda>n. int n + 1), w_delay = 0, w_phase = NotStarted\<rparr>"
    by (rule ed_reachable.created)
  then show ?thesis
    by (rule ed_reachable.step) (simp add: sample_start_def ed_step.start [of "\<lparr>w_ed = s, w_delay = 0, w_phase = NotStarted\<rparr>" for s, simplified])
qed

definition sample_quiet :: Worker where
  "sample_quiet = (sample_start sample_net)\<lparr>w_ed := (w_ed (sample_start sample_net))\<lparr>ed_base :=
     controller_init\<lparr>stream := stream_init\<lparr>pipe := pipeline_init\<lparr>PipelineState.pointRate := 0\<rparr>\<rparr>\<rparr>\<rparr>\<rparr>"

definition sample_run :: "Worker option" where
  "sample_run = do { w1 \<leftarrow> workerStep globals_init sample_quiet; workerStep globals_init w1 }"

text \<open>A DAC that refuses the connection.\<close>

definition sample_refused :: "Worker option" where
  "sample_refused = workerStep globals_init (sample_start (sample_net\<lparr>net_connects := \<lambda>_. Some TimedOut\<rparr>))"

lemma sample_refused_runs: "map_option (\<lambda>w. (slept (w_ed w), w_delay w)) sample_refused = Some ([100], 200)"
  by code_simp

lemma sample_refused_phase: "map_option w_phase sample_refused = Some Connecting"
  by code_simp

lemma sample_run_runs:
  "map_option (\<lambda>w. (map (\<lambda>ev. case ev of Exchanged e \<Rightarrow> ex_bytes e | _ \<Rightarrow> []) (wire (w_ed w)), tcpOpen (w_ed w))) sample_run
   = Some ([[ch CHR ''p''], []], True)"
  by code_simp

lemma sample_reachable: "\<exists>w. sample_run = Some w \<and> ed_reachable w \<and> tcpOpen (w_ed w) \<and>
   (\<exists>e. Exchanged e \<in> set (wire (w_ed w)) \<and> ex_bytes e = [ch CHR ''p''])"
proof -
  obtain w1 w2 where w: "workerStep globals_init sample_quiet = Some w1" "workerStep globals_init w1 = Some w2" "sample_run = Some w2"
    using sample_run_runs by (auto simp: sample_run_def bind_eq_Some_conv)
  have "ed_reachable sample_quiet" unfolding sample_quiet_def
    by (rule ed_reachable.step [OF sample_start_reachable]) (rule ed_step.application)
  then have "ed_reachable w2" using w ed_reachable.step ed_step.work by blast
  moreover have up: "map (\<lambda>ev. case ev of Exchanged e \<Rightarrow> ex_bytes e | _ \<Rightarrow> []) (wire (w_ed w2)) = [[ch CHR ''p''], []]"
    "tcpOpen (w_ed w2)"
    using sample_run_runs [unfolded w(3)] by simp_all
  obtain ev rest where "wire (w_ed w2) = ev # rest" "(case ev of Exchanged e \<Rightarrow> ex_bytes e | _ \<Rightarrow> []) = [ch CHR ''p'']"
    using up(1) by (cases "wire (w_ed w2)") auto
  then have "\<exists>e. Exchanged e \<in> set (wire (w_ed w2)) \<and> ex_bytes e = [ch CHR ''p'']" by (cases ev) auto
  ultimately show ?thesis using w(3) up(2) by auto
qed

subsection \<open>Properties of every run\<close>

text \<open>
  C3. Protocol safety of the Ether Dream worker. In every reachable state, whatever the DAC
  answers, whatever the network, the clock and the application do and whenever the thread is
  stopped, every command that was ever written is one the DAC's last status allowed: begin only
  when ready and prepared, prepare only when ready and idle, data only when ready and prepared
  or playing; and every data packet announces the number of points it carries, holds between 1
  and 3640 of them, and fits: estimated fullness plus points stays below the DAC's capacity.
\<close>

theorem ed_commands_legal:
  assumes "ed_reachable w" and "Exchanged e \<in> set (wire (w_ed w))"
  shows "command_ok e"
  using reachable_inv [OF assms(1)] assms(2) by (simp add: worker_inv_def ed_inv_def)

theorem ed_commands_legal_witness:
  "\<exists>w e. sample_run = Some w \<and> Exchanged e \<in> set (wire (w_ed w)) \<and> ex_bytes e = [ch CHR ''p''] \<and> command_ok e"
  using sample_reachable ed_commands_legal by blast

text \<open>
  C10. Session discipline. The socket events of every reachable state follow the automaton
  \<open>advance\<close>: exchanges and probes happen only on an open connection, a connection is opened only
  when there is none, and after an exchange that failed (write error, read error, undecodable or
  foreign response) nothing is sent before the socket is closed and a new connection is made.
  The state's own flags agree: the socket is open exactly when the events say so, and an active
  connection has an open socket.
\<close>

theorem ed_session_discipline:
  assumes "ed_reachable w"
  shows "link (wire (w_ed w)) = Some (if tcpOpen (w_ed w) then Up else Down) \<and>
    (connectionActive (w_ed w) \<longrightarrow> tcpOpen (w_ed w))"
  using reachable_inv [OF assms] by (auto simp: worker_inv_def ed_inv_def)

theorem ed_session_discipline_witness:
  "\<exists>w. sample_run = Some w \<and> link (wire (w_ed w)) = Some Up"
  using sample_reachable ed_session_discipline by force

text \<open>
  The worker neither spins nor hangs in a sleep: every sleep of every run, the waits of the
  streaming loop, the poll interval and the reconnect back-off, lasts between 1 and 1000
  milliseconds, and the next reconnect delay stays between 100 and 1000 once the thread runs.
\<close>

theorem ed_sleeps_bounded:
  assumes "ed_reachable w" and "w_phase w \<noteq> NotStarted"
  shows "100 \<le> w_delay w \<and> w_delay w \<le> 1000 \<and> list_all (\<lambda>ms. 1 \<le> ms \<and> ms \<le> 1000) (slept (w_ed w))"
  using reachable_inv [OF assms(1)] assms(2)
  by (auto simp: worker_inv_def ed_inv_def list_all_iff RECONNECT_INITIAL_DELAY_def RECONNECT_MAX_DELAY_def)

theorem ed_sleeps_bounded_witness:
  "\<exists>w. sample_refused = Some w \<and> slept (w_ed w) = [100] \<and> 100 \<le> w_delay w \<and> w_delay w \<le> 1000 \<and>
     list_all (\<lambda>ms. 1 \<le> ms \<and> ms \<le> 1000) (slept (w_ed w))"
proof -
  obtain w where w: "sample_refused = Some w" "slept (w_ed w) = [100]" "w_delay w = 200" using sample_refused_runs by auto
  then have r: "ed_reachable w"
    unfolding sample_refused_def using ed_reachable.step [OF sample_start_reachable] ed_step.work by blast
  have "w_phase w \<noteq> NotStarted" using sample_refused_phase [unfolded w(1)] by simp
  then show ?thesis using ed_sleeps_bounded [OF r] w by auto
qed

end
