(* ===== verification/Ether_Dream_Recovery.thy ===== *)
theory Ether_Dream_Recovery
  imports Ether_Dream_Runs
begin

text \<open>
  How the Ether Dream worker recovers. A run of status reports with an impossible point rate is
  answered by one clear and then by the reboot latch, which is reported once per run; a broken
  exchange leaves a demand for a clear that survives until a handshake schedules it.
\<close>

subsection \<open>The reboot latch\<close>

definition reported :: "string \<Rightarrow> EDState \<Rightarrow> u64" where
  "reported code s = (case map_of (errorCounts (controllerEvents (ed_stream s))) code of Some k \<Rightarrow> k | None \<Rightarrow> 0)"

fun receiveStatuses :: "Globals \<Rightarrow> EtherDreamStatus list \<Rightarrow> EDState \<Rightarrow> EDState option" where
  "receiveStatuses g [] s = Some s"
| "receiveStatuses g (st # sts) s = do { s1 \<leftarrow> updatePlaybackRequirements g st s; receiveStatuses g sts s1 }"

text \<open>The verdicts on the point rates of a run of reports, the reports that allow none left out.\<close>

definition verdicts :: "EtherDreamStatus list \<Rightarrow> EDState \<Rightarrow> bool list" where
  "verdicts sts s = map (\<lambda>st. statusPointRateIsImplausible st s) (filter statusAllowsPointRateRecovery sts)"

text \<open>The number of runs of at least two implausible verdicts, and the length of the last run.\<close>

function stuck_runs :: "bool list \<Rightarrow> nat" where
  "stuck_runs [] = 0"
| "stuck_runs (False # bs) = stuck_runs bs"
| "stuck_runs (True # bs) = (if takeWhile id bs = [] then 0 else 1) + stuck_runs (dropWhile id bs)"
  by pat_completeness auto

termination
  by (relation "measure length") (auto simp: le_imp_less_Suc length_dropWhile_le)

definition last_run :: "bool list \<Rightarrow> nat" where
  "last_run bs = length (takeWhile id (rev bs))"

text \<open>The three states of the latch and their transitions.\<close>

datatype RateTrust = Trusted | Recovering | RebootRequired

definition rate_trust :: "EDState \<Rightarrow> RateTrust" where
  "rate_trust s = (if rebootRequiredLatched s then RebootRequired
     else if implausiblePointRateRecoveryPending s then Recovering else Trusted)"

fun judge :: "RateTrust \<Rightarrow> bool \<Rightarrow> RateTrust" where
  "judge t False = Trusted"
| "judge Trusted True = Recovering"
| "judge _ True = RebootRequired"

fun reports :: "RateTrust \<Rightarrow> bool list \<Rightarrow> nat" where
  "reports t [] = 0"
| "reports t (b # bs) = (if t = Recovering \<and> b then 1 else 0) + reports (judge t b) bs"

lemma reports_stuck:
  "reports RebootRequired bs = reports Trusted (dropWhile id bs)"
  "reports Recovering bs = (if takeWhile id bs = [] then 0 else 1) + reports Trusted (dropWhile id bs)"
proof -
  show r: "reports RebootRequired bs = reports Trusted (dropWhile id bs)" for bs
    by (induction bs) auto
  show "reports Recovering bs = (if takeWhile id bs = [] then 0 else 1) + reports Trusted (dropWhile id bs)"
    by (cases bs) (auto simp: r)
qed

lemma reports_Trusted: "reports Trusted bs = stuck_runs bs"
  by (induction bs rule: stuck_runs.induct) (auto simp: reports_stuck)

lemma judge_fold:
  "foldl judge Trusted bs = (if last_run bs = 0 then Trusted else if last_run bs = 1 then Recovering else RebootRequired)"
  by (induction bs rule: rev_induct) (auto simp: last_run_def)

lemma intermittentError_reported:
  "code \<noteq> [] \<Longrightarrow> reported c (intermittentError code s) = reported c s + (if c = code then 1 else 0)"
  by (simp add: reported_def intermittentError_def ed_now_def mapStream_def ed_stream_def recordIntermittentError_def
      recordRecentEvent_fields map_of_update split: option.splits)

lemma startupBlank_events:
  assumes "startupBlank s = Some s'"
  shows "reported c s' = reported c s \<and> rate_trust s' = rate_trust s"
  using assms by (auto simp: startupBlank_def bind_eq_Some_conv reported_def mapStream_def ed_stream_def rate_trust_def)

lemma receiveStatus_events:
  assumes "receiveStatus st s = Some s'"
  shows "reported ed_rebootRequired s' = reported ed_rebootRequired s \<and> rate_trust s' = rate_trust s"
proof -
  obtain t s1 where n: "ed_now (s\<lparr>lastKnownStatus := st\<rparr>) = (t, s1)" by fastforce
  define s2 where "s2 = s1\<lparr>lastReceiveTime := t, lastEstimatedBufferFullness := uint (bufferFullness st),
    lastKnownBufferCapacity := getBufferSize s1\<rparr>"
  have 2: "reported c s2 = reported c s" "rate_trust s2 = rate_trust s" for c
    using n by (auto simp: ed_now_def s2_def reported_def ed_stream_def rate_trust_def)
  have 3: "reported ed_rebootRequired (intermittentError net_bufferUnderflow s2) = reported ed_rebootRequired s2"
    by (subst intermittentError_reported) (simp_all add: net_bufferUnderflow_def ed_rebootRequired_def)
  have 4: "rate_trust (intermittentError net_bufferUnderflow s2) = rate_trust s2"
    by (simp add: intermittentError_def ed_now_def mapStream_def rate_trust_def)
  have "(if hasPlaybackUnderflow st \<and> \<not> hasPlaybackUnderflow (lastKnownStatus s)
         then startupBlank (intermittentError net_bufferUnderflow s2) else Some s2) = Some s'"
    using assms by (simp add: receiveStatus_def n s2_def [symmetric])
  then show ?thesis using 2 3 4 startupBlank_events by (auto split: if_splits)
qed

lemma pointRateRecovery_events:
  fixes s st
  defines "bad \<equiv> statusPointRateIsImplausible st s"
  shows "reported ed_rebootRequired (pointRateRecovery st s) = reported ed_rebootRequired s +
      (if statusAllowsPointRateRecovery st \<and> bad \<and> rate_trust s = Recovering then 1 else 0)" (is ?counted)
    and "rate_trust (pointRateRecovery st s) = (if statusAllowsPointRateRecovery st then judge (rate_trust s) bad else rate_trust s)"
      (is ?trust)
    and "statusAllowsPointRateRecovery st \<Longrightarrow> bad \<Longrightarrow>
      playbackAction (pointRateRecovery st s) = (if rate_trust s = Trusted then ActClear else ActStop)"
proof -
  have c: "reported k (scheduleClearRecovery u) = reported k u" "reported k (resetPoints u) = reported k u" for k u
    by (simp_all add: scheduleClearRecovery_def resetPoints_def mapStream_def reported_def ed_stream_def)
  have f: "reported k (u\<lparr>playbackAction := a\<rparr>) = reported k u" "reported k (u\<lparr>rebootRequiredLatched := b\<rparr>) = reported k u"
    "reported k (u\<lparr>implausiblePointRateRecoveryPending := b\<rparr>) = reported k u" for k u a b
    by (simp_all add: reported_def ed_stream_def)
  have r: "reported ed_rebootRequired (intermittentError ed_rebootRequired u) = reported ed_rebootRequired u + 1" for u
    by (subst intermittentError_reported) (simp_all add: ed_rebootRequired_def)
  have i: "rebootRequiredLatched (intermittentError k u) = rebootRequiredLatched u"
    "implausiblePointRateRecoveryPending (intermittentError k u) = implausiblePointRateRecoveryPending u" for k u
    by (simp_all add: intermittentError_def ed_now_def mapStream_def)
  have j: "rebootRequiredLatched (resetPoints u) = rebootRequiredLatched u"
    "implausiblePointRateRecoveryPending (resetPoints u) = implausiblePointRateRecoveryPending u"
    "playbackAction (resetPoints u) = playbackAction u" for u
    by (simp_all add: resetPoints_def mapStream_def)
  show ?counted by (auto simp: pointRateRecovery_def Let_def c f r rate_trust_def bad_def)
  show ?trust
    by (auto simp: pointRateRecovery_def Let_def rate_trust_def bad_def i j scheduleClearRecovery_def)
  show "statusAllowsPointRateRecovery st \<Longrightarrow> bad \<Longrightarrow>
      playbackAction (pointRateRecovery st s) = (if rate_trust s = Trusted then ActClear else ActStop)"
    by (auto simp: pointRateRecovery_def Let_def rate_trust_def bad_def j scheduleClearRecovery_def)
qed

lemma implausible_ctrl:
  "controllerInfo s' = controllerInfo s \<Longrightarrow> statusPointRateIsImplausible st s' = statusPointRateIsImplausible st s"
  by (simp add: statusPointRateIsImplausible_def maxSafePointRate_def)

lemma update_events:
  assumes "updatePlaybackRequirements g st s = Some s'"
  defines "bad \<equiv> statusPointRateIsImplausible st s" and "ok \<equiv> statusAllowsPointRateRecovery st"
  shows "reported ed_rebootRequired s' = reported ed_rebootRequired s + (if ok \<and> bad \<and> rate_trust s = Recovering then 1 else 0)"
    and "rate_trust s' = (if ok then judge (rate_trust s) bad else rate_trust s)"
    and "controllerInfo s' = controllerInfo s"
    and "ok \<Longrightarrow> bad \<Longrightarrow> playbackAction s' = (if rate_trust s = Trusted then ActClear else ActStop)"
proof -
  obtain s1 a where 1: "receiveStatus st s = Some s1" and e: "s' = pointRateRecovery st (s1\<lparr>playbackAction := a\<rparr>)"
    using assms(1) by (auto simp: updatePlaybackRequirements_def bind_eq_Some_conv)
  have c: "controllerInfo s1 = controllerInfo s" using receiveStatus_spec [OF 1] by (simp add: socket_def)
  then have b: "statusPointRateIsImplausible st (s1\<lparr>playbackAction := a\<rparr>) = bad"
    unfolding bad_def by (intro implausible_ctrl) simp
  have f: "reported k (s1\<lparr>playbackAction := a\<rparr>) = reported k s1" "rate_trust (s1\<lparr>playbackAction := a\<rparr>) = rate_trust s1" for k
    by (simp_all add: reported_def ed_stream_def rate_trust_def)
  note p = pointRateRecovery_events [of st "s1\<lparr>playbackAction := a\<rparr>", unfolded b f]
  show "reported ed_rebootRequired s' = reported ed_rebootRequired s + (if ok \<and> bad \<and> rate_trust s = Recovering then 1 else 0)"
    "rate_trust s' = (if ok then judge (rate_trust s) bad else rate_trust s)"
    "ok \<Longrightarrow> bad \<Longrightarrow> playbackAction s' = (if rate_trust s = Trusted then ActClear else ActStop)"
    using p receiveStatus_events [OF 1] unfolding e ok_def by simp_all
  show "controllerInfo s' = controllerInfo s"
    using updatePlaybackRequirements_spec [OF assms(1)] by (simp add: socket_def)
qed

lemma receiveStatuses_reports:
  "receiveStatuses g sts s = Some s' \<Longrightarrow>
   reported ed_rebootRequired s' = reported ed_rebootRequired s + of_nat (reports (rate_trust s) (verdicts sts s)) \<and>
   rate_trust s' = foldl judge (rate_trust s) (verdicts sts s)"
proof (induction sts arbitrary: s)
  case Nil
  then show ?case by (simp add: verdicts_def)
next
  case (Cons st sts)
  obtain s1 where 1: "updatePlaybackRequirements g st s = Some s1" "receiveStatuses g sts s1 = Some s'"
    using Cons.prems by (auto simp: bind_eq_Some_conv)
  note u = update_events [OF 1(1)]
  have v: "verdicts sts s1 = verdicts sts s" by (simp add: verdicts_def implausible_ctrl [OF u(3)])
  show ?case using Cons.IH [OF 1(2)] u(1,2) by (simp add: v) (simp add: verdicts_def)
qed

text \<open>
  C11. The reboot latch. Over any run of status reports, the DAC is reported as needing a reboot
  exactly once for every stretch of two or more consecutive implausible point rates (reports
  taken while the light engine is not ready, or playback is paused or unknown, do not count
  either way); the latch is set exactly when the current stretch has reached two, a single
  implausible report leaves a recovery pending, and one plausible report clears both. The
  answer to an implausible report is a clear when it is the first of its stretch and a stop
  from then on.
\<close>

theorem ed_reboot_reported_once:
  assumes "receiveStatuses g sts s = Some s'" and "rate_trust s = Trusted"
  shows "reported ed_rebootRequired s' = reported ed_rebootRequired s + of_nat (stuck_runs (verdicts sts s)) \<and>
    rebootRequiredLatched s' = (2 \<le> last_run (verdicts sts s)) \<and>
    (updatePlaybackRequirements g st s' = Some s'' \<and> statusAllowsPointRateRecovery st \<and> statusPointRateIsImplausible st s' \<longrightarrow>
       playbackAction s'' = (if last_run (verdicts sts s) = 0 then ActClear else ActStop))"
proof -
  have t: "rate_trust s' = (if last_run (verdicts sts s) = 0 then Trusted
      else if last_run (verdicts sts s) = 1 then Recovering else RebootRequired)"
    and c: "reported ed_rebootRequired s' = reported ed_rebootRequired s + of_nat (stuck_runs (verdicts sts s))"
    using receiveStatuses_reports [OF assms(1)] assms(2) by (simp_all add: reports_Trusted judge_fold)
  have "rebootRequiredLatched s' = (rate_trust s' = RebootRequired)" by (simp add: rate_trust_def)
  then show ?thesis using t c update_events(4) [of g st s' s''] by auto
qed

text \<open>A run with two stretches: the first reaches the latch, the second as well.\<close>

definition sample_report :: "u32 \<Rightarrow> EtherDreamStatus" where
  "sample_report rate = initial_status\<lparr>playbackState := PB_Prepared, EtherDreamStatus.pointRate := rate\<rparr>"

definition sample_state :: EDState where
  "sample_state = ed_init (Some sample_info) False sample_net (\<lambda>_. True) (\<lambda>n. int n + 1)"

lemma sample_reports_run:
  "receiveStatuses globals_init (map sample_report [2000000, 2000000, 2000000, 30000, 2000000, 2000000]) sample_state \<noteq> None"
  by code_simp

theorem ed_reboot_reported_once_witness:
  "\<exists>s'. receiveStatuses globals_init (map sample_report [2000000, 2000000, 2000000, 30000, 2000000, 2000000]) sample_state = Some s' \<and>
     reported ed_rebootRequired s' = 2 \<and> rebootRequiredLatched s'"
proof -
  let ?sts = "map sample_report [2000000, 2000000, 2000000, 30000, 2000000, 2000000]"
  obtain s' where s': "receiveStatuses globals_init ?sts sample_state = Some s'" using sample_reports_run by blast
  have "rate_trust sample_state = Trusted" "reported ed_rebootRequired sample_state = 0"
    "verdicts ?sts sample_state = [True, True, True, False, True, True]" by code_simp+
  then show ?thesis using ed_reboot_reported_once [OF s'] s' by (simp add: last_run_def)
qed

subsection \<open>The demand for a clear\<close>

lemma workerPass_exchanged:
  assumes "workerPass g s = Some s'" and "action_ok s" and "tcpOpen s"
  shows "exchanged command_ok s s'"
proof (cases "playbackAction s")
  case ActNone
  define v where "v = syncPointRate s"
  have v: "socket v = socket s" "action_ok v" using syncPointRate_spec [OF ActNone] by (simp_all add: v_def)
  then have o: "tcpOpen v" using assms(3) by (simp add: socket_def)
  have pass: "(if playbackAction v \<noteq> ActNone then Some v
         else if \<not> canSendData v then map_option (sleepFor ETHERDREAM_MIN_SLEEP) (pollStatus g v)
         else streamPoints g v) = Some s'"
    using assms(1) by (simp only: workerPass_def ActNone PlaybackAction.case Let_def v_def)
  have from_v: "exchanged command_ok v s' \<Longrightarrow> exchanged command_ok s s'"
    using v(1) by (simp add: exchanged_def socket_def)
  show ?thesis
  proof (cases "playbackAction v \<noteq> ActNone")
    case True
    then show ?thesis using pass from_v by simp
  next
    case False
    show ?thesis
    proof (cases "canSendData v")
      case True
      then have "streamPoints g v = Some s'" using pass False by simp
      then show ?thesis using from_v stream.exchanges [OF _ TrueI v(2) o] by blast
    next
      case poll: False
      then obtain u where u: "pollStatus g v = Some u" "s' = sleepFor ETHERDREAM_MIN_SLEEP u"
        using pass False by (auto simp: map_option_case split: option.splits)
      have "exchanged command_ok v u"
        using poll.exchanges [OF u(1) TrueI v(2) o] poll.legal exchanged_mono by blast
      then show ?thesis
        using from_v exchanged_then_sleep [of command_ok v u 1] u(2) by (simp add: ETHERDREAM_MIN_SLEEP_def ETHERDREAM_MAX_SLEEP_def)
    qed
  qed
next
  case ActStop
  then have "sendStop g False s = Some s'" using assms(1) by (simp add: workerPass_def)
  then show ?thesis using stop.exchanges [OF _ TrueI assms(2,3)] stop.legal exchanged_mono by blast
next
  case ActClear
  then have "sendClear g s = Some s'" using assms(1) by (simp add: workerPass_def)
  then show ?thesis using clear.exchanges [OF _ TrueI assms(2,3)] clear.legal exchanged_mono by blast
next
  case ActPrepare
  then have "sendPrepare g s = Some s'" using assms(1) by (simp add: workerPass_def)
  then show ?thesis using prepare.exchanges [OF _ ActPrepare assms(2,3)] prepare.legal exchanged_mono by blast
next
  case ActBegin
  then have "sendBegin g s = Some s'" using assms(1) by (simp add: workerPass_def)
  then show ?thesis using start.exchanges [OF _ ActBegin assms(2,3)] start.legal exchanged_mono by blast
qed

lemma exchanged_demand: "exchanged P s s' \<Longrightarrow> clearOnFreshConnection s \<Longrightarrow> clearOnFreshConnection s'"
  by (auto simp: exchanged_def)

lemma sendPing_flags:
  assumes "sendPing g s = Some (r, s')" and "action_ok s"
  shows "clearOnFreshConnection s' = clearOnFreshConnection s \<and> connectionActive s' = connectionActive s"
proof -
  define c where "c = setSingleByteCommand (ch CHR ''?'') (commandBuffer s)"
  have "cmd_isReady (commandBuffer (setCommand c s))"
    using opcodes_differ by (simp add: c_def single_byte_command setCommand_fields)
  moreover have "sendCommand g False (setCommand c s) = Some (r, s')" using assms(1) by (simp add: sendPing_def c_def)
  moreover have "ctrl (setCommand c s) = ctrl s" by simp
  ultimately show ?thesis
    using sendCommand_spec [of g False "setCommand c s" r s'] assms(2) ctrl_action_ok [of "setCommand c s" s]
    by (auto simp: ctrl_defs)
qed

lemma applyFresh_demand:
  "clearOnFreshConnection s \<Longrightarrow> clearOnFreshConnection (applyFreshConnectionStatus st s) \<or>
   playbackAction (applyFreshConnectionStatus st s) = ActClear"
  by (simp add: applyFreshConnectionStatus_def scheduleClearRecovery_def resetPoints_def mapStream_def)

lemma probe_flags:
  "clearOnFreshConnection (probeFirmwareVersionOnExistingConnection s) = clearOnFreshConnection s"
  "playbackAction (probeFirmwareVersionOnExistingConnection s) = playbackAction s"
  "connectionActive (probeFirmwareVersionOnExistingConnection s) = connectionActive s"
  by (simp_all add: probeFirmwareVersionOnExistingConnection_def readFirmwareVersionString_def tcp_write_all_def
      tcp_read_exact_def split: option.splits sum.splits)

lemma performHandshake_demand:
  assumes "performHandshake g s = Some (ok, s')" and "action_ok s" and "clearOnFreshConnection s" and "connectionActive s"
  shows "clearOnFreshConnection s' \<or> ok \<and> playbackAction s' = ActClear \<and> connectionActive s'"
proof -
  obtain r s1 where 1: "waitForResponse g (ch CHR ''?'') False 0 s = Some (r, s1)"
    using assms(1) by (auto simp: performHandshake_def bind_eq_Some_conv)
  have w: "socket s1 = socket s" "action_ok s1" using waitForResponse_spec [OF 1 assms(2)] by simp_all
  then have d: "clearOnFreshConnection s1" "connectionActive s1" using assms(3,4) by (simp_all add: socket_def)
  have fin: "clearOnFreshConnection (probeFirmwareVersionOnExistingConnection (applyFreshConnectionStatus st u)) \<or>
      playbackAction (probeFirmwareVersionOnExistingConnection (applyFreshConnectionStatus st u)) = ActClear \<and>
      connectionActive (probeFirmwareVersionOnExistingConnection (applyFreshConnectionStatus st u))"
    if "clearOnFreshConnection u" "connectionActive u" "lastKnownStatus u = st" for st u
    using applyFresh_demand [OF that(1), of st] applyFresh_spec [OF that(3)] that(2) by (simp add: probe_flags)
  show ?thesis
  proof (cases r)
    case (Inr a)
    then show ?thesis using assms(1) 1 fin [OF d] waitForResponse_status [of g _ _ _ s a s1] by (auto simp: performHandshake_def)
  next
    case (Inl x)
    obtain q s2 where 2: "sendPing g s1 = Some (q, s2)"
      using assms(1) 1 Inl by (auto simp: performHandshake_def bind_eq_Some_conv)
    have d2: "clearOnFreshConnection s2" "connectionActive s2" using sendPing_flags [OF 2 w(2)] d by simp_all
    show ?thesis
    proof (cases q)
      case q: (Inr a)
      have "lastKnownStatus s2 = ack_status a" using sendCommand_status 2 q by (auto simp: sendPing_def)
      then show ?thesis using assms(1) 1 2 Inl q fin [OF d2] by (auto simp: performHandshake_def)
    next
      case q: (Inl y)
      have "s' = handleNetworkFailure (error_of q) s2" using assms(1) 1 2 Inl q by (simp add: performHandshake_def)
      then show ?thesis by (simp add: handleNetworkFailure_fields)
    qed
  qed
qed

text \<open>The worker is about to send the clear.\<close>

definition clear_due :: "Worker \<Rightarrow> bool" where
  "clear_due w \<longleftrightarrow> (case w_phase w of InSession t \<Rightarrow> playbackAction (w_ed w) = ActClear \<and> connectionActive (w_ed w) | _ \<Rightarrow> False)"

lemma ed_close_demand: "clearOnFreshConnection (ed_close s) = clearOnFreshConnection s"
  using connectionState_ctrl [of False "s\<lparr>connectionActive := False\<rparr>"]
  by (simp add: ed_close_def tcp_close_fields ctrl_defs)

lemma retrying_demand: "clearOnFreshConnection (w_ed (retrying b d s)) = clearOnFreshConnection s"
  by (simp add: retrying_def sleepBeforeRetry_def Let_def sleepFor_fields)

lemma ed_connect_demand:
  assumes "ed_connect s = (ok, s')"
  shows "clearOnFreshConnection s' = clearOnFreshConnection s"
proof -
  have err: "clearOnFreshConnection (connectionError k (u\<lparr>lastError := e\<rparr>)) = clearOnFreshConnection u" for k u e
    using connectionError_ctrl [of k "u\<lparr>lastError := e\<rparr>"] by (simp add: ctrl_defs)
  have up: "clearOnFreshConnection (connectionState True (u\<lparr>lastError := None\<rparr>)) = clearOnFreshConnection u" for u
    using connectionState_ctrl [of True "u\<lparr>lastError := None\<rparr>"] by (simp add: ctrl_defs)
  have reset: "clearOnFreshConnection (resetProtocolStateForConnection u) = clearOnFreshConnection u" for u
    by (simp add: resetProtocolStateForConnection_def resetStreamHealth_def ed_now_def resetPoints_def mapStream_def Let_def)
  obtain r s1 where c: "tcp_connect s = (r, s1)" by fastforce
  then have "clearOnFreshConnection s1 = clearOnFreshConnection s"
    by (auto simp: tcp_connect_def Let_def tcp_close_fields split: if_splits)
  then show ?thesis using assms
    by (cases r) (auto simp: ed_connect_def c err up reset Let_def split: option.splits)
qed

lemma ensureConnected_demand:
  assumes "ensureConnected s = (ok, s')"
  shows "clearOnFreshConnection s' = clearOnFreshConnection s"
proof -
  obtain up u where 1: "tcp_is_connected s = (up, u)" by fastforce
  obtain res v where 2: "ed_connect (tcp_close u) = (res, v)" by fastforce
  have c: "clearOnFreshConnection u = clearOnFreshConnection s" "clearOnFreshConnection v = clearOnFreshConnection s"
    using tcp_is_connected_ctrl [OF 1] ed_connect_demand [OF 2] by (simp_all add: ctrl_defs tcp_close_fields)
  have cs: "clearOnFreshConnection (connectionState b x) = clearOnFreshConnection x" for b x
    using connectionState_ctrl [of b x] by (simp add: ctrl_defs)
  show ?thesis using assms c by (cases up; cases res) (auto simp: ensureConnected_def 1 2 cs)
qed

lemma connectStep_demand:
  assumes "connectStep g d s = Some w'" and "ed_inv s" and "\<not> connectionActive s" and "clearOnFreshConnection s"
  shows "clearOnFreshConnection (w_ed w') \<or> clear_due w'"
proof -
  obtain on u where 1: "isRunning s = (on, u)" by fastforce
  obtain ok v where 2: "ensureConnected u = (ok, v)" by fastforce
  have u: "ed_inv u" "\<not> connectionActive u" using isRunning_inv [OF 1 assms(2)] assms(3) by simp_all
  have d: "clearOnFreshConnection u" "clearOnFreshConnection v"
    using isRunning_ctrl [OF 1] ensureConnected_demand [OF 2] assms(4) by (simp_all add: ctrl_defs)
  define x where "x = connectionState True (v\<lparr>connectionActive := True\<rparr>)"
  have x: "clearOnFreshConnection x" "connectionActive x" "action_ok x"
    using connectionState_ctrl [of True "v\<lparr>connectionActive := True\<rparr>"] d(2) ensureConnected_inv [OF 2 u]
    by (simp_all add: x_def ctrl_defs ed_inv_def action_ok_def)
  have idle: "clearOnFreshConnection (connectionState False u)"
    using connectionState_ctrl [of False u] d(1) by (simp add: ctrl_defs)
  consider (stop) "\<not> on \<or> controllerInfo u = None \<or> \<not> ok" | (greet) "on" "controllerInfo u \<noteq> None" ok by blast
  then show ?thesis
  proof cases
    case stop
    then show ?thesis using assms(1) d idle
      by (auto simp: connectStep_def 1 2 retrying_demand sleepFor_fields split: if_splits)
  next
    case greet
    then obtain greeted y where 3: "performHandshake g x = Some (greeted, y)"
      using assms(1) by (auto simp: connectStep_def 1 2 x_def Let_def bind_eq_Some_conv)
    note y = performHandshake_demand [OF 3 x(3,1,2)]
    show ?thesis
    proof (cases greeted)
      case False
      then have "w' = retrying True d (ed_close y)" using assms(1) greet 3 by (simp add: connectStep_def 1 2 x_def)
      then show ?thesis using y False by (simp add: retrying_demand ed_close_demand)
    next
      case True
      obtain t z where 4: "ed_now y = (t, z)" by fastforce
      obtain q where 5: "startupBlank z = Some q" "w' = \<lparr>w_ed = q, w_delay = d, w_phase = InSession t\<rparr>"
        using assms(1) greet 3 True 4 by (auto simp: connectStep_def 1 2 x_def bind_eq_Some_conv)
      have "ctrl q = ctrl y" using startupBlank_ctrl [OF 5(1)] ed_now_ctrl [OF 4] by simp
      then show ?thesis using 5(2) y by (auto simp: clear_due_def ctrl_defs)
    qed
  qed
qed

lemma sessionStep_demand:
  assumes "sessionStep g d t s = Some w'" and "ed_inv s" and "clearOnFreshConnection s"
  shows "clearOnFreshConnection (w_ed w')"
proof -
  obtain on u where 1: "isRunning s = (on, u)" by fastforce
  have u: "ed_inv u" "clearOnFreshConnection u"
    using isRunning_inv [OF 1 assms(2)] isRunning_ctrl [OF 1] assms(3) by (simp_all add: ctrl_defs)
  show ?thesis
  proof (cases "on \<and> connectionActive u")
    case True
    then obtain v where v: "workerPass g u = Some v" "w' = \<lparr>w_ed = v, w_delay = d, w_phase = InSession t\<rparr>"
      using assms(1) by (auto simp: sessionStep_def 1)
    have "action_ok u" "tcpOpen u" using u(1) True by (simp_all add: ed_inv_def)
    then show ?thesis using exchanged_demand [OF workerPass_exchanged [OF v(1)]] u(2) v(2) by simp
  next
    case False
    obtain v where 2: "sendOrderlyStopBeforeClose g u = Some v"
      using assms(1) False by (auto simp: sessionStep_def 1 bind_eq_Some_conv)
    obtain up y where y: "tcp_is_connected u = (up, y)" by fastforce
    note yc = tcp_is_connected_ctrl [OF y]
    have "action_ok y" "clearOnFreshConnection y"
      using u yc ctrl_action_ok [of y u] by (simp_all add: ed_inv_def ctrl_defs)
    then have v: "clearOnFreshConnection v"
      using 2 u yc exchanged_demand [OF conjunct1 [OF sendStop_exchanges [of g True y v]]]
      by (auto simp: sendOrderlyStopBeforeClose_def y split: if_splits)
    obtain still x where 3: "isRunning (ed_close v) = (still, x)" by fastforce
    obtain t1 z where 4: "ed_now x = (t1, z)" by fastforce
    have "clearOnFreshConnection x" "clearOnFreshConnection z"
      using isRunning_ctrl [OF 3] ed_now_ctrl [OF 4] v by (simp_all add: ctrl_defs ed_close_demand)
    then show ?thesis
      using assms(1) False by (auto simp: sessionStep_def 1 2 3 4 Let_def retrying_demand split: if_splits)
  qed
qed

lemma demand_step:
  assumes "ed_step w w'" and "worker_inv w" and "clearOnFreshConnection (w_ed w)"
  shows "clearOnFreshConnection (w_ed w') \<or> clear_due w'"
  using assms(1)
proof (cases rule: ed_step.cases)
  case (start info)
  then show ?thesis using assms(3) ed_connect_demand [of "(w_ed w)\<lparr>controllerInfo := Some info, firmwareVersionString := info_firmwareVersion info\<rparr>"]
    by (simp add: prepareNewController_def ed_connectTo_def prod_eq_iff)
next
  case (work g)
  show ?thesis
  proof (cases "w_phase w")
    case Connecting
    then show ?thesis using work assms(2,3) connectStep_demand [of g "w_delay w" "w_ed w" w']
      by (simp add: workerStep_def worker_inv_def)
  next
    case (InSession t)
    then show ?thesis using work assms(2,3) sessionStep_demand [of g "w_delay w" t "w_ed w" w']
      by (simp add: workerStep_def worker_inv_def)
  qed (use work in \<open>simp_all add: workerStep_def\<close>)
next
  case (application c)
  then show ?thesis using assms(3) by simp
next
  case shut
  then show ?thesis using assms(3) by (simp add: ed_close_demand)
qed

lemma demand_run:
  assumes "ed_step\<^sup>*\<^sup>* w v" and "ed_reachable w" and "clearOnFreshConnection (w_ed w)"
  shows "clearOnFreshConnection (w_ed v) \<or> (\<exists>u. ed_step\<^sup>*\<^sup>* w u \<and> ed_step\<^sup>*\<^sup>* u v \<and> clear_due u)"
  using assms(1)
proof (induction rule: rtranclp_induct)
  case base
  then show ?case using assms(3) by blast
next
  case (step y z)
  have "ed_reachable y" using step(1) assms(2) by (induction rule: rtranclp_induct) (auto intro: ed_reachable.step)
  then have i: "worker_inv y" by (rule reachable_inv)
  show ?case
  proof (cases "clearOnFreshConnection (w_ed y)")
    case True
    then show ?thesis using demand_step [OF step(2) i] step(1,2) by (meson rtranclp.rtrancl_into_rtrancl rtranclp.rtrancl_refl)
  next
    case False
    then show ?thesis using step by (meson rtranclp.rtrancl_into_rtrancl)
  qed
qed

lemma sendCommand_running:
  assumes "sendCommand g allow s0 = Some (r, s')" and "ed_running s0 0" and "action_ok s0" and "cmd_isReady (commandBuffer s0)"
  shows "\<forall>ec. r \<noteq> Inl (FailShutdown, ec)"
proof -
  obtain on s where 1: "isRunning s0 = (on, s)" by fastforce
  have s: "on" "commandBuffer s = commandBuffer s0" "ctrl s = ctrl s0"
    using 1 assms(2) isRunning_ctrl [OF 1] by (auto simp: isRunning_def)
  define q where "q = nextCommandSequence s + 1"
  obtain t0 s2 where n: "ed_now (s\<lparr>nextCommandSequence := q\<rparr>) = (t0, s2)" by fastforce
  define code where "code = opcode (commandBuffer s0)"
  define s3 where "s3 = recordProtocolTx q code s2"
  obtain wr s4 where w: "tcp_write_all s3 = (wr, s4)" by fastforce
  have "ctrl s2 = ctrl s0" using ed_now_ctrl [OF n] s(3) by (simp add: ctrl_defs)
  then have c: "ctrl s4 = ctrl s0" using tcp_write_ctrl [OF w] by (simp add: s3_def)
  then have a: "action_ok s4" using ctrl_action_ok assms(3) by blast
  show ?thesis
  proof (cases wr)
    case None
    then obtain s5 where "waitForResponse g code True q s4 = Some (r, s5)"
      using assms(1,4) s by (auto simp: sendCommand_def 1 n Let_def q_def [symmetric] code_def [symmetric] s3_def [symmetric] w
          bind_eq_Some_conv)
    then show ?thesis using waitForResponse_spec [OF _ a] by blast
  next
    case (Some ec)
    then have "r = Inl (NetworkFailure, ec)"
      using assms(1,4) s by (auto simp: sendCommand_def 1 n Let_def q_def [symmetric] code_def [symmetric] s3_def [symmetric] w)
    then show ?thesis by simp
  qed
qed

lemma clear_sent:
  assumes "clear_due u" and "worker_inv u" and "ed_running (w_ed u) 0" and "ed_running (w_ed u) 1" and "workerStep g u = Some v"
  shows "\<exists>e. ex_bytes e = [ch CHR ''c''] \<and>
    (wire (w_ed v) = Exchanged e # wire (w_ed u) \<or> wire (w_ed v) = Closed # Exchanged e # wire (w_ed u))"
proof -
  obtain t where t: "w_phase u = InSession t" "playbackAction (w_ed u) = ActClear" "connectionActive (w_ed u)"
    using assms(1) by (auto simp: clear_due_def split: WorkerPhase.splits)
  obtain s where 1: "isRunning (w_ed u) = (True, s)" "ed_running s 0"
    using assms(3,4) by (auto simp: isRunning_def)
  have s: "ed_inv s" "connectionActive s" "playbackAction s = ActClear" "wire s = wire (w_ed u)"
    using isRunning_inv [OF 1(1)] isRunning_ctrl [OF 1(1)] assms(2) t by (simp_all add: worker_inv_def ctrl_defs)
  define c where "c = setSingleByteCommand (ch CHR ''c'') (commandBuffer s)"
  obtain p where p: "sendClear g s = Some p" "w_ed v = p"
    using assms(5) t s(2,3) by (auto simp: workerStep_def sessionStep_def 1 workerPass_def)
  obtain r s1 where 2: "sendCommand g False (setCommand c s) = Some (r, s1)" and e: "p = closeAfterFailure r s1"
    using p(1) by (auto simp: sendClear_def c_def bind_eq_Some_conv)
  have ready: "cmd_isReady (commandBuffer (setCommand c s))"
    using opcodes_differ by (simp add: c_def single_byte_command setCommand_fields)
  have k: "ctrl (setCommand c s) = ctrl s" by simp
  have a: "action_ok (setCommand c s)" "ed_running (setCommand c s) 0"
    using s(1) 1(2) ctrl_action_ok [OF k] by (simp_all add: ed_inv_def setCommand_def)
  note nr = sendCommand_running [OF 2 a(2,1) ready]
  have f: "socket s1 = (let (a, b, d) = socket (setCommand c s) in (a, Exchanged (exchange_of (setCommand c s) r) # b, d))"
    using sendCommand_spec [OF 2 a(1) ready] nr by blast
  have "wire s1 = Exchanged (exchange_of (setCommand c s) r) # wire s"
    using f ctrl_socket [OF k] by (simp add: socket_def)
  moreover have "wire p = wire s1 \<or> wire p = Closed # wire s1"
    using e closeAfterFailure_cases [OF nr] by (simp add: handleNetworkFailure_fields)
  moreover have "ex_bytes (exchange_of (setCommand c s) r) = [ch CHR ''c'']"
    by (simp add: setCommand_fields c_def single_byte_command)
  ultimately show ?thesis using p(2) s(4) by auto
qed

text \<open>
  C4. Recovery after a broken exchange. When an exchange breaks while a session is streaming,
  that pass closes the socket and ends the session, with nothing sent after the failed command.
  The demand for a clear it leaves behind survives every run (reconnects that fail, whole
  sessions in which the light engine is not ready, anything the application does) until the
  worker stands in a session with the clear as its next action; and from such a state, while the
  thread runs, the next step sends the clear before anything else.
\<close>

theorem ed_broken_then_clear:
  assumes "ed_reachable w" and "w_phase w = InSession t" and "connectionActive (w_ed w)" and "ed_running (w_ed w) 0"
    and "workerStep g w = Some w'" and "wire (w_ed w') = evs @ wire (w_ed w)" and "Exchanged e \<in> set evs"
    and "ex_outcome e = Broken" and "ed_step\<^sup>*\<^sup>* w' v"
  shows "evs = [Closed, Exchanged e] \<and> \<not> tcpOpen (w_ed w') \<and> \<not> connectionActive (w_ed w') \<and>
    (clearOnFreshConnection (w_ed v) \<or>
     (\<exists>u. ed_step\<^sup>*\<^sup>* w' u \<and> ed_step\<^sup>*\<^sup>* u v \<and> clear_due u \<and>
        (\<forall>h x. ed_running (w_ed u) 0 \<and> ed_running (w_ed u) 1 \<and> workerStep h u = Some x \<longrightarrow>
           (\<exists>c. ex_bytes c = [ch CHR ''c''] \<and>
             (wire (w_ed x) = Exchanged c # wire (w_ed u) \<or> wire (w_ed x) = Closed # Exchanged c # wire (w_ed u))))))"
proof -
  obtain s where 1: "isRunning (w_ed w) = (True, s)" using assms(4) by (auto simp: isRunning_def)
  have s: "ed_inv s" "connectionActive s" "wire s = wire (w_ed w)"
    using isRunning_inv [OF 1] isRunning_ctrl [OF 1] reachable_inv [OF assms(1)] assms(3)
    by (simp_all add: worker_inv_def ctrl_defs)
  have p: "workerPass g s = Some (w_ed w')"
    using assms(2,5) s(2) by (auto simp: workerStep_def sessionStep_def 1)
  have "exchanged command_ok s (w_ed w')"
    using workerPass_exchanged [OF p] s(1,2) by (simp add: ed_inv_def)
  then have b: "evs = [Closed, Exchanged e] \<and> \<not> tcpOpen (w_ed w') \<and> \<not> connectionActive (w_ed w') \<and>
      clearOnFreshConnection (w_ed w')"
    using assms(6-8) s(3) by (auto simp: exchanged_def)
  have r: "ed_reachable w'" using assms(1,5) ed_reachable.step ed_step.work by blast
  have reach: "ed_reachable u" if "ed_step\<^sup>*\<^sup>* w' u" for u
    using that r by (induction rule: rtranclp_induct) (auto intro: ed_reachable.step)
  then have "worker_inv u" if "ed_step\<^sup>*\<^sup>* w' u" for u using that reachable_inv by blast
  then show ?thesis using b demand_run [OF assms(9) r] clear_sent by blast
qed

definition sample_broken :: "(Worker \<times> Worker) option" where
  "sample_broken = (let net = sample_net\<lparr>net_reads := \<lambda>n. if n = 0 then net_reads sample_net 0 else Inl TimedOut\<rparr>;
       w0 = (sample_start net)\<lparr>w_ed := (w_ed (sample_start net))\<lparr>ed_base :=
         controller_init\<lparr>stream := stream_init\<lparr>pipe := pipeline_init\<lparr>PipelineState.pointRate := 0\<rparr>\<rparr>\<rparr>\<rparr>\<rparr>
     in do { w1 \<leftarrow> workerStep globals_init w0; w2 \<leftarrow> workerStep globals_init w1; Some (w1, w2) })"

definition sample_exchange :: Exchange where
  "sample_exchange = \<lparr>ex_bytes = [ch CHR ''p''], ex_status = initial_status, ex_estimate = 0, ex_capacity = 0,
     ex_outcome = Broken\<rparr>"

lemma sample_broken_runs:
  "map_option (\<lambda>(w, w'). (connectionActive (w_ed w), ed_running (w_ed w) 0, wire (w_ed w), wire (w_ed w'),
      case w_phase w of InSession t \<Rightarrow> True | _ \<Rightarrow> False)) sample_broken
   = Some (True, True, [Opened], [Closed, Exchanged sample_exchange, Opened], True)"
  by code_simp

theorem ed_broken_then_clear_witness:
  "\<exists>w w'. sample_broken = Some (w, w') \<and> wire (w_ed w) = [Opened] \<and>
     wire (w_ed w') = [Closed, Exchanged sample_exchange, Opened] \<and>
     \<not> tcpOpen (w_ed w') \<and> \<not> connectionActive (w_ed w')"
proof -
  obtain w0 w w' where run: "ed_reachable w0" "workerStep globals_init w0 = Some w" "workerStep globals_init w = Some w'"
    "sample_broken = Some (w, w')"
  proof -
    define net where "net = sample_net\<lparr>net_reads := \<lambda>n. if n = 0 then net_reads sample_net 0 else Inl TimedOut\<rparr>"
    define w0 where "w0 = (sample_start net)\<lparr>w_ed := (w_ed (sample_start net))\<lparr>ed_base :=
         controller_init\<lparr>stream := stream_init\<lparr>pipe := pipeline_init\<lparr>PipelineState.pointRate := 0\<rparr>\<rparr>\<rparr>\<rparr>\<rparr>"
    have b: "sample_broken = do { w1 \<leftarrow> workerStep globals_init w0; w2 \<leftarrow> workerStep globals_init w1; Some (w1, w2) }"
      unfolding sample_broken_def Let_def net_def w0_def by (rule refl)
    obtain w w' where p: "sample_broken = Some (w, w')" using sample_broken_runs by auto
    have "do { w1 \<leftarrow> workerStep globals_init w0; w2 \<leftarrow> workerStep globals_init w1; Some (w1, w2) } = Some (w, w')"
      using b p by (rule subst)
    then have "workerStep globals_init w0 = Some w" "workerStep globals_init w = Some w'"
      unfolding bind_eq_Some_conv by simp_all
    note p this
    moreover have "ed_reachable w0" unfolding w0_def
      by (rule ed_reachable.step [OF sample_start_reachable]) (rule ed_step.application)
    ultimately show thesis using that by blast
  qed
  note ev = sample_broken_runs [unfolded run(4), simplified]
  obtain t where t: "w_phase w = InSession t" using ev by (auto split: WorkerPhase.splits)
  have r: "ed_reachable w" using run(1,2) ed_reachable.step ed_step.work by blast
  have o: "ex_outcome sample_exchange = Broken" by (simp add: sample_exchange_def)
  have "\<not> tcpOpen (w_ed w') \<and> \<not> connectionActive (w_ed w')"
    using ed_broken_then_clear [OF r t _ _ run(3), of "[Closed, Exchanged sample_exchange]" sample_exchange w'] ev o by simp
  then show ?thesis using run(4) ev by (intro exI [of _ w] exI [of _ w'] conjI) simp_all
qed

end
