(* ===== verification/Clock_Advance.thy ===== *)
theory Clock_Advance
  imports Controller
begin

text \<open>
  An operation reads the clock some number of times and leaves the rest of the readings: the facts
  about it that the runs of the network controllers share.
\<close>

subsection \<open>The clock only advances\<close>

definition suffix_clock :: "clock \<Rightarrow> clock \<Rightarrow> bool" where
  "suffix_clock c c' = (\<exists>k. \<forall>n. c' n = c (n + k))"

lemma suffix_clock_refl [intro, simp]: "suffix_clock c c"
  by (auto simp: suffix_clock_def intro: exI [of _ 0])

lemma suffix_clock_later [intro, simp]: "suffix_clock c (later c)"
  by (auto simp: suffix_clock_def later_def intro!: exI [of _ 1])

lemma suffix_clock_trans [trans]: "suffix_clock a b \<Longrightarrow> suffix_clock b c \<Longrightarrow> suffix_clock a c"
  unfolding suffix_clock_def by (metis add.assoc)

lemma suffix_clock_positive: "suffix_clock c c' \<Longrightarrow> (\<And>n. 0 < c n) \<Longrightarrow> 0 < c' n"
  by (auto simp: suffix_clock_def)

lemma beginPlay_clock: "beginPlay f c = (f', c') \<Longrightarrow> suffix_clock c c'"
  by (auto simp: beginPlay_def split: if_splits)

lemma advanceFrame_clock: "advanceFrame rate hold est n f q c = Some (e, q', c') \<Longrightarrow> suffix_clock c c'"
  by (auto simp: advanceFrame_def bind_eq_Some_conv split: if_splits)

lemma fillLoop_clock:
  "fillLoop req rate hold est s c out = Some r \<Longrightarrow> suffix_clock c (snd (snd r))"
proof (induction rule: fillLoop.raw_induct [rotated, consumes 1, case_names body])
  case (body loop req rate hold est s c out r)
  note run = body(2)
  obtain f0 q f1 c1 where q: "frameQueue s = f0 # q" "beginPlay f0 c = (f1, c1)"
    using run by (cases "frameQueue s") (auto split: prod.splits)
  obtain f out1 where e: "emitPoints (maximumPointsRequired req) f1 out = Some (f, out1)"
    using run by (auto simp: q bind_eq_Some_conv split: if_splits)
  have c1: "suffix_clock c c1" by (rule beginPlay_clock [OF q(2)])
  show ?case
  proof (cases "snd (snd r) = c1")
    case True
    with c1 show ?thesis by simp
  next
    case False
    obtain x q2 c2 where a: "advanceFrame rate hold est (length out1) f q c1 = Some (x, q2, c2)"
      using run False by (auto simp: q e Let_def bind_eq_Some_conv split: if_splits)
    have c2: "suffix_clock c c2" by (rule suffix_clock_trans [OF c1 advanceFrame_clock [OF a]])
    have "snd (snd r) = c2 \<or> (\<exists>s3 out2. loop req rate hold est s3 c2 out2 = Some r)"
      using run False by (cases q2) (auto simp: q e a Let_def bind_eq_Some_conv split: if_splits)
    with c2 show ?thesis by (metis body(1) suffix_clock_trans)
  qed
qed

lemma fillPoints_clock:
  assumes "fillPoints req rate hold s c out = Some (r, s', c')"
  shows "suffix_clock c c'"
proof -
  obtain est c1 where est: "(if estimatedFirstPointRenderTime req = 0 then (now c, later c)
      else (estimatedFirstPointRenderTime req, c)) = (est, c1)" by fastforce
  then have 1: "suffix_clock c c1" by (auto split: if_splits)
  then have "suffix_clock c (later c1)" by (rule suffix_clock_trans) simp
  with assms 1 show ?thesis
    by (auto simp: fillPoints_def est Let_def split: if_splits prod.splits
        dest!: fillLoop_clock intro: suffix_clock_trans)
qed

lemma requestPoints_clock: "requestPoints g req c s = Some (ok, s', c') \<Longrightarrow> suffix_clock c c'"
  by (auto simp: requestPoints_def bind_eq_Some_conv split: ContentSource.splits dest: fillPoints_clock)

end
