(* ===== verification/Laser_Cube_Net.thy ===== *)
theory Laser_Cube_Net
  imports Controller Device_Status
begin

text \<open>
  The LaserCube network controller (src/lasercubenet/LaserCubeNetController.cpp and its headers):
  point packets on one UDP socket, the rate command on another, the 256 slots of packets that
  wait for their acknowledgement, and the worker loop.

  The network is outside the program: \<open>CubeNetwork\<close> answers, one after the other, each opening or
  binding of a socket, each send and each receive, and nothing is assumed of the answers. Clock
  readings are successive elements of \<open>cn_clock\<close>; readings that only feed log lines are left out.
  \<open>cn_wire\<close> records the packets handed to the sockets, newest first, each data packet with the buffer
  estimate and the target it was made for, and \<open>cn_slept\<close> the milliseconds slept.
\<close>

subsection \<open>Configuration\<close>

definition CUBE_DATA_PORT :: u16 where "CUBE_DATA_PORT = 45458"
definition CUBE_COMMAND_PORT :: u16 where "CUBE_COMMAND_PORT = 45457"
definition CMD_SET_ILDA_RATE :: u8 where "CMD_SET_ILDA_RATE = 0x82"
definition CMD_GET_RINGBUFFER_FREE :: u8 where "CMD_GET_RINGBUFFER_FREE = 0x8a"
definition CMD_SAMPLE_DATA :: u8 where "CMD_SAMPLE_DATA = 0xa9"
definition MAX_POINTS_PER_PACKET :: int where "MAX_POINTS_PER_PACKET = 140"
definition SAFETY_HEADROOM_PACKETS :: int where "SAFETY_HEADROOM_PACKETS = 2"
definition SAFETY_HEADROOM_POINTS :: int where "SAFETY_HEADROOM_POINTS = MAX_POINTS_PER_PACKET * SAFETY_HEADROOM_PACKETS"

text \<open>Durations of the steady clock are in nanoseconds, sleeps in milliseconds.\<close>

definition ackDisconnectThreshold :: int where "ackDisconnectThreshold = 500000000"
definition oneSecond :: int where "oneSecond = 1000000000"
definition reconnectRetryDelay :: int where "reconnectRetryDelay = 100"
definition maxAckPollsPerCall :: nat where "maxAckPollsPerCall = 64"

definition cube_clampPointRate :: "u32 \<Rightarrow> u32 \<Rightarrow> u32" where
  "cube_clampPointRate rate maxRate = (if 0 < maxRate \<and> maxRate < rate then maxRate else rate)"

definition cube_targetBufferPoints :: "u32 \<Rightarrow> int \<Rightarrow> int \<Rightarrow> int option" where
  "cube_targetBufferPoints rate bufferCapacity latencyMs =
     targetBufferPoints rate bufferCapacity latencyMs MAX_POINTS_PER_PACKET SAFETY_HEADROOM_POINTS"

subsection \<open>State\<close>

text \<open>What \<open>recv_from\<close> gives on the data socket: a datagram, and whether it came from the data endpoint
  of the device.\<close>

datatype UdpReceipt = Datagram bool bytes | NothingReceived | ReceiveError

record CubeNetwork =
  cw_address :: "string \<Rightarrow> bool"
  cw_opens :: "nat \<Rightarrow> bool"
  cw_sends :: "nat \<Rightarrow> bool"
  cw_receives :: "nat \<Rightarrow> UdpReceipt"

record DataPacket =
  dp_bytes :: bytes
  dp_estimate :: int
  dp_target :: int
  dp_capacity :: int

datatype CubeEvent = SocketsRenewed | DataSent DataPacket | CommandSent bytes

record CubeNet =
  cn_base :: Controller
  cn_running :: "nat \<Rightarrow> bool"
  cn_clock :: clock
  cn_net :: CubeNetwork
  cn_wire :: "CubeEvent list"
  cn_slept :: "int list"
  cn_sockets :: bool
  cn_ipAddress :: string
  pointBufferCapacity :: int
  maxPointRate :: u32
  networkConnected :: bool
  reconnectRequested :: bool
  messageNumber :: u8
  frameNumber :: u8
  latestStatus :: "LaserCubeNetStatus option"
  messageTimes :: "time_point list"
  pendingAckCount :: int
  lastAckTime :: time_point
  lastAckWarningTime :: time_point
  lastUnexpectedAckSenderLogTime :: time_point
  lastDataSentTime :: time_point
  lastDataSentBufferSize :: int
  lastReportedBufferFullness :: int
  cn_lastEstimatedBufferFullness :: int
  cn_lastSentPointRate :: u32
  pointRatePushNeeded :: bool

definition cn_init :: "string \<Rightarrow> CubeNetwork \<Rightarrow> (nat \<Rightarrow> bool) \<Rightarrow> clock \<Rightarrow> CubeNet" where
  "cn_init ip net runs clk = \<lparr>cn_base = controller_init, cn_running = runs, cn_clock = clk, cn_net = net, cn_wire = [],
     cn_slept = [], cn_sockets = False, cn_ipAddress = ip, pointBufferCapacity = 1000, maxPointRate = 60000,
     networkConnected = False, reconnectRequested = False, messageNumber = 0, frameNumber = 0, latestStatus = None,
     messageTimes = replicate 256 0, pendingAckCount = 0, lastAckTime = 0, lastAckWarningTime = 0,
     lastUnexpectedAckSenderLogTime = 0, lastDataSentTime = 0, lastDataSentBufferSize = 0, lastReportedBufferFullness = 0,
     cn_lastEstimatedBufferFullness = 0, cn_lastSentPointRate = 0, pointRatePushNeeded = True\<rparr>"

subsection \<open>Base-class state, clock and network\<close>

definition cn_now :: "CubeNet \<Rightarrow> time_point \<times> CubeNet" where
  "cn_now s = (now (cn_clock s), s\<lparr>cn_clock := later (cn_clock s)\<rparr>)"

definition cn_isRunning :: "CubeNet \<Rightarrow> bool \<times> CubeNet" where
  "cn_isRunning s = (cn_running s 0, s\<lparr>cn_running := \<lambda>n. cn_running s (Suc n)\<rparr>)"

definition cn_sleep :: "int \<Rightarrow> CubeNet \<Rightarrow> CubeNet" where
  "cn_sleep ms s = s\<lparr>cn_slept := ms # cn_slept s\<rparr>"

definition cn_stream :: "(StreamState \<Rightarrow> StreamState) \<Rightarrow> CubeNet \<Rightarrow> CubeNet" where
  "cn_stream f s = s\<lparr>cn_base := (cn_base s)\<lparr>stream := f (stream (cn_base s))\<rparr>\<rparr>"

definition cn_pointRate :: "CubeNet \<Rightarrow> u32" where
  "cn_pointRate s = getPointRate (stream (cn_base s))"

definition cn_intermittentError :: "string \<Rightarrow> CubeNet \<Rightarrow> CubeNet" where
  "cn_intermittentError code s =
     (let (t, s1) = cn_now s
      in cn_stream (\<lambda>st. st\<lparr>controllerEvents := recordIntermittentError code t (controllerEvents st)\<rparr>) s1)"

definition cn_connectionError :: "string \<Rightarrow> CubeNet \<Rightarrow> CubeNet" where
  "cn_connectionError code s =
     (let (t, s1) = cn_now s
      in cn_stream (\<lambda>st. st\<lparr>controllerEvents := recordConnectionError code t (controllerEvents st)\<rparr>) s1)"

definition cn_connectionState :: "bool \<Rightarrow> CubeNet \<Rightarrow> CubeNet" where
  "cn_connectionState up = cn_stream (\<lambda>st. st\<lparr>controllerEvents := setConnectionState up (controllerEvents st)\<rparr>)"

definition cn_latencySample :: "int \<Rightarrow> CubeNet \<Rightarrow> CubeNet" where
  "cn_latencySample d = cn_stream (\<lambda>st. st\<lparr>latencyRecord := recordLatencySample d (latencyRecord st)\<rparr>)"

definition cn_startupBlank :: "CubeNet \<Rightarrow> CubeNet option" where
  "cn_startupBlank s = do {
     p \<leftarrow> resetStartupBlank (pipe (stream (cn_base s)));
     Some (cn_stream (\<lambda>st. st\<lparr>pipe := p\<rparr>) s) }"

definition base_setPointRate :: "u32 \<Rightarrow> CubeNet \<Rightarrow> CubeNet" where
  "base_setPointRate rate = cn_stream (\<lambda>st. st\<lparr>pipe := setPointRate rate (pipe st)\<rparr>)"

definition cw_open :: "CubeNet \<Rightarrow> bool \<times> CubeNet" where
  "cw_open s = (cw_opens (cn_net s) 0, s\<lparr>cn_net := (cn_net s)\<lparr>cw_opens := \<lambda>n. cw_opens (cn_net s) (Suc n)\<rparr>\<rparr>)"

definition cw_send :: "CubeNet \<Rightarrow> bool \<times> CubeNet" where
  "cw_send s = (cw_sends (cn_net s) 0, s\<lparr>cn_net := (cn_net s)\<lparr>cw_sends := \<lambda>n. cw_sends (cn_net s) (Suc n)\<rparr>\<rparr>)"

definition cw_receive :: "CubeNet \<Rightarrow> UdpReceipt \<times> CubeNet" where
  "cw_receive s = (cw_receives (cn_net s) 0, s\<lparr>cn_net := (cn_net s)\<lparr>cw_receives := \<lambda>n. cw_receives (cn_net s) (Suc n)\<rparr>\<rparr>)"

subsection \<open>Connecting\<close>

definition cn_setPointRate :: "u32 \<Rightarrow> CubeNet \<Rightarrow> CubeNet" where
  "cn_setPointRate rate s = base_setPointRate (cube_clampPointRate rate (maxPointRate s)) s"

definition cn_updateDiscoveredStatus :: "LaserCubeNetStatus \<Rightarrow> CubeNet \<Rightarrow> CubeNet" where
  "cn_updateDiscoveredStatus status s =
     (let s1 = s\<lparr>latestStatus := Some status, maxPointRate := pointRateMax status,
                 pointBufferCapacity := uint (bufferMax status)\<rparr>;
          s2 = base_setPointRate (cube_clampPointRate (cn_pointRate s1) (pointRateMax status)) s1
      in if \<not> networkConnected s2 then s2\<lparr>reconnectRequested := True\<rparr> else s2)"

text \<open>The four sockets operations, in order, up to the first that fails.\<close>

fun openSockets :: "nat \<Rightarrow> CubeNet \<Rightarrow> bool \<times> CubeNet" where
  "openSockets 0 s = (True, s)"
| "openSockets (Suc n) s = (case cw_open s of (True, s1) \<Rightarrow> openSockets n s1 | (False, s1) \<Rightarrow> (False, s1))"

text \<open>What \<open>connectToStatus\<close> resets before it opens the sockets, and the sockets it replaces.\<close>

definition cn_resetLink :: "LaserCubeNetStatus \<Rightarrow> CubeNet \<Rightarrow> CubeNet" where
  "cn_resetLink status s0 =
     (let s1 = s0\<lparr>cn_ipAddress := lc_ipAddress status, maxPointRate := pointRateMax status,
                  pointBufferCapacity := uint (bufferMax status)\<rparr>;
          s2 = base_setPointRate (cube_clampPointRate (cn_pointRate s1) (pointRateMax status)) s1;
          (t, s3) = cn_now (s2\<lparr>messageTimes := replicate 256 0, pendingAckCount := 0\<rparr>)
      in s3\<lparr>lastAckTime := t, lastAckWarningTime := 0, lastUnexpectedAckSenderLogTime := 0, lastDataSentTime := 0,
            lastDataSentBufferSize := 0, lastReportedBufferFullness := 0, cn_lastEstimatedBufferFullness := 0,
            cn_sockets := True, cn_wire := SocketsRenewed # cn_wire s3\<rparr>)"

definition cn_connectToStatus :: "LaserCubeNetStatus \<Rightarrow> CubeNet \<Rightarrow> (bool \<times> CubeNet) option" where
  "cn_connectToStatus status s =
     (case openSockets 4 (cn_resetLink status s) of
        (False, s1) \<Rightarrow> Some (False, cn_connectionError net_connectFailed s1)
      | (True, s1) \<Rightarrow>
          if \<not> cw_address (cn_net s1) (cn_ipAddress s1) then Some (False, cn_connectionError net_connectFailed s1)
          else do {
            s2 \<leftarrow> cn_startupBlank ((cn_connectionState True (s1\<lparr>networkConnected := True, reconnectRequested := False\<rparr>))
                    \<lparr>pointRatePushNeeded := True\<rparr>);
            Some (True, s2) })"

definition cn_connect :: "LaserCubeNetStatus \<Rightarrow> CubeNet \<Rightarrow> (bool \<times> CubeNet) option" where
  "cn_connect status s = cn_connectToStatus status (cn_updateDiscoveredStatus status s)"

definition reconnectToLatestStatus :: "CubeNet \<Rightarrow> (bool \<times> CubeNet) option" where
  "reconnectToLatestStatus s =
     (case latestStatus s of None \<Rightarrow> Some (False, s) | Some status \<Rightarrow> cn_connectToStatus status s)"

definition cn_close :: "CubeNet \<Rightarrow> CubeNet" where
  "cn_close s = (cn_connectionState False (s\<lparr>networkConnected := False, reconnectRequested := False\<rparr>))
     \<lparr>messageTimes := replicate 256 0, pendingAckCount := 0\<rparr>"

subsection \<open>Sending\<close>

definition sendFailure :: "CubeNet \<Rightarrow> CubeNet" where
  "sendFailure s = (cn_connectionError net_sendFailed s)\<lparr>networkConnected := False\<rparr>"

definition cn_sendCommand :: "u8 \<Rightarrow> bytes \<Rightarrow> CubeNet \<Rightarrow> bool \<times> CubeNet" where
  "cn_sendCommand cmd body s =
     (if \<not> cn_sockets s then (False, sendFailure s)
      else case cw_send (s\<lparr>cn_wire := CommandSent (cmd # body) # cn_wire s\<rparr>) of
             (True, s1) \<Rightarrow> (True, s1)
           | (False, s1) \<Rightarrow> (False, sendFailure s1))"

definition cn_syncPointRate :: "CubeNet \<Rightarrow> CubeNet" where
  "cn_syncPointRate s =
     (let desired = cn_pointRate s
      in if \<not> pointRatePushNeeded s \<and> desired = cn_lastSentPointRate s then s
         else case cn_sendCommand CMD_SET_ILDA_RATE (le32 desired) s of
                (True, s1) \<Rightarrow> s1\<lparr>cn_lastSentPointRate := desired, pointRatePushNeeded := False\<rparr>
              | (False, s1) \<Rightarrow> s1\<lparr>pointRatePushNeeded := True\<rparr>)"

definition cn_sendData :: "DataPacket \<Rightarrow> CubeNet \<Rightarrow> bool \<times> CubeNet" where
  "cn_sendData packet s =
     (if \<not> cn_sockets s \<or> dp_bytes packet = [] then (False, sendFailure s)
      else case cw_send (s\<lparr>cn_wire := DataSent packet # cn_wire s\<rparr>) of
             (True, s1) \<Rightarrow> (True, s1)
           | (False, s1) \<Rightarrow> (False, sendFailure s1))"

definition cubePoint :: "LaserPoint \<Rightarrow> bytes option" where
  "cubePoint p = do {
     x \<leftarrow> encodeUnsigned12FromSignedUnit (fneg (pt_x p));
     y \<leftarrow> encodeUnsigned12FromSignedUnit (pt_y p);
     r \<leftarrow> encodeUnsigned12FromUnit (pt_r p);
     g \<leftarrow> encodeUnsigned12FromUnit (pt_g p);
     b \<leftarrow> encodeUnsigned12FromUnit (pt_b p);
     Some (le16 x @ le16 y @ le16 r @ le16 g @ le16 b) }"

fun cubePoints :: "LaserPoint list \<Rightarrow> bytes option" where
  "cubePoints [] = Some []"
| "cubePoints (p # ps) = do { a \<leftarrow> cubePoint p; b \<leftarrow> cubePoints ps; Some (a @ b) }"

definition cubePacket :: "u8 \<Rightarrow> u8 \<Rightarrow> LaserPoint list \<Rightarrow> bytes option" where
  "cubePacket message frame ps = map_option (\<lambda>body. [CMD_SAMPLE_DATA, 0, message, frame] @ body) (cubePoints ps)"

text \<open>The two projections of the buffer: from the last packet sent and from the last acknowledgement.
  The order of the two clock readings is unspecified, here as written.\<close>

definition minEstimatedBufferFullness :: "CubeNet \<Rightarrow> (int \<times> CubeNet) option" where
  "minEstimatedBufferFullness s =
     (let (t1, s1) = cn_now s; (t2, s2) = cn_now s1
      in do {
        (sent, _) \<leftarrow> calculateBufferFullnessFromSnapshot (lastDataSentBufferSize s) (lastDataSentTime s) (cn_lastSentPointRate s) 0 t1;
        (acked, _) \<leftarrow> calculateBufferFullnessFromSnapshot (lastReportedBufferFullness s) (lastAckTime s) (cn_lastSentPointRate s) 0 t2;
        Some (max sent acked, s2\<lparr>cn_lastEstimatedBufferFullness := max sent acked\<rparr>) })"

text \<open>A packet that went out occupies its slot until it is acknowledged.\<close>

definition noteSent :: "int \<Rightarrow> CubeNet \<Rightarrow> CubeNet" where
  "noteSent fullness s =
     (let (t, s1) = cn_now s; n = unat (messageNumber s)
      in s1\<lparr>pendingAckCount := (if messageTimes s ! n = 0 then pendingAckCount s + 1 else pendingAckCount s),
            messageTimes := (messageTimes s)[n := t], lastDataSentTime := t,
            lastDataSentBufferSize := fullness + int (length (pointsToSend (stream (cn_base s))))\<rparr>)"

definition transmitPoints :: "int \<Rightarrow> int \<Rightarrow> CubeNet \<Rightarrow> (bool \<times> CubeNet) option" where
  "transmitPoints fullness target s = do {
     packet \<leftarrow> cubePacket (messageNumber s) (frameNumber s) (pointsToSend (stream (cn_base s)));
     let (ok, s1) = cn_sendData \<lparr>dp_bytes = packet, dp_estimate = fullness, dp_target = target, dp_capacity = pointBufferCapacity s\<rparr> s;
     let s2 = (if ok then noteSent fullness s1 else s1);
     Some (ok, s2\<lparr>messageNumber := messageNumber s2 + 1\<rparr>) }"

definition cn_requestPoints :: "Globals \<Rightarrow> PointFillRequest \<Rightarrow> CubeNet \<Rightarrow> (bool \<times> CubeNet) option" where
  "cn_requestPoints g req s = do {
     (ok, c, clk) \<leftarrow> requestPoints g req (cn_clock s) (cn_base s);
     Some (ok, s\<lparr>cn_base := c, cn_clock := clk\<rparr>) }"

definition cn_sendPoints :: "Globals \<Rightarrow> CubeNet \<Rightarrow> (bool \<times> CubeNet) option" where
  "cn_sendPoints g s0 = do {
     (fullness, s1) \<leftarrow> minEstimatedBufferFullness (s0\<lparr>frameNumber := frameNumber s0 + 1\<rparr>);
     target \<leftarrow> cube_targetBufferPoints (cn_lastSentPointRate s1) (pointBufferCapacity s1) (targetLatencyMs g);
     let maxPointsToAdd = max 0 (target - fullness);
     (if maxPointsToAdd \<le> 0 then Some (True, s1)
      else do {
        let toAdd = nat (min maxPointsToAdd MAX_POINTS_PER_PACKET);
        renderLead \<leftarrow> ftrunc (fmul F64 (pointsToMillis (nat fullness) (cn_lastSentPointRate s1)) (Fin 1000000));
        let (t, s2) = cn_now s1;
        (ran, s3) \<leftarrow> cn_requestPoints g \<lparr>minimumPointsRequired = toAdd, maximumPointsRequired = toAdd,
                       estimatedFirstPointRenderTime = t + renderLead, currentPointIndex = 0, allowShortRead = False\<rparr> s2;
        (if \<not> ran then Some (False, s3)
         else if pointsToSend (stream (cn_base s3)) = [] then Some (True, s3)
         else transmitPoints fullness target
                (cn_stream (\<lambda>st. st\<lparr>pointsToSend := take toAdd (pointsToSend st)\<rparr>) s3)) }) }"

subsection \<open>Acknowledgements\<close>

definition cn_unexpectedSender :: "time_point \<Rightarrow> CubeNet \<Rightarrow> CubeNet" where
  "cn_unexpectedSender t s =
     (if lastUnexpectedAckSenderLogTime s = 0 \<or> oneSecond < t - lastUnexpectedAckSenderLogTime s
      then (cn_intermittentError net_packetLoss s)\<lparr>lastUnexpectedAckSenderLogTime := t\<rparr> else s)"

text \<open>The acknowledgement of an occupied slot. The free space may exceed the capacity, the fullness
  is then negative.\<close>

definition takeAck :: "time_point \<Rightarrow> u8 \<Rightarrow> u16 \<Rightarrow> CubeNet \<Rightarrow> CubeNet" where
  "takeAck t message bufferSpace s =
     (let n = unat message;
          fullness = pointBufferCapacity s - uint bufferSpace;
          s1 = (cn_latencySample (t - messageTimes s ! n) s)
                 \<lparr>lastAckTime := t, lastAckWarningTime := 0, lastReportedBufferFullness := fullness,
                  cn_lastEstimatedBufferFullness := fullness, lastDataSentTime := t, lastDataSentBufferSize := fullness\<rparr>;
          s2 = (if bufferSpace = 0 then cn_intermittentError net_bufferOverrun s1 else s1)
      in s2\<lparr>messageTimes := (messageTimes s2)[n := 0],
            pendingAckCount := (if 0 < pendingAckCount s2 then pendingAckCount s2 - 1 else pendingAckCount s2)\<rparr>)"

text \<open>One datagram; \<open>recv_from\<close> keeps at most four bytes of it.\<close>

definition handleDatagram :: "time_point \<Rightarrow> bool \<Rightarrow> bytes \<Rightarrow> CubeNet \<Rightarrow> CubeNet option" where
  "handleDatagram t fromDevice datagram s =
     (let data = take 4 datagram
      in if \<not> fromDevice then Some (cn_unexpectedSender t s)
      else if length data \<noteq> 4 then Some (if 0 < length data then cn_intermittentError net_protocolError s else s)
      else do {
        code \<leftarrow> rd8 data 0;
        (if code \<noteq> CMD_GET_RINGBUFFER_FREE then Some (cn_intermittentError net_protocolError s)
         else do {
           message \<leftarrow> rd8 data 1;
           (if messageTimes s ! unat message = 0 then Some (cn_intermittentError net_packetLoss s)
            else map_option (\<lambda>bufferSpace. takeAck t message bufferSpace s) (readLe16 (drop 2 data))) }) })"

fun ackLoop :: "nat \<Rightarrow> time_point \<Rightarrow> CubeNet \<Rightarrow> CubeNet option" where
  "ackLoop 0 t s = Some s"
| "ackLoop (Suc polls) t s =
     (case cw_receive s of
        (NothingReceived, s1) \<Rightarrow> Some s1
      | (ReceiveError, s1) \<Rightarrow> Some (cn_intermittentError net_receiveFailed s1)
      | (Datagram fromDevice data, s1) \<Rightarrow>
          (case handleDatagram t fromDevice data s1 of None \<Rightarrow> None | Some s2 \<Rightarrow> ackLoop polls t s2))"

text \<open>Slots pending for more than a second are given up.\<close>

fun dropExpired :: "time_point \<Rightarrow> time_point list \<Rightarrow> int \<Rightarrow> time_point list \<times> int" where
  "dropExpired t [] pending = ([], pending)"
| "dropExpired t (slot # slots) pending =
     (if slot = 0 then (case dropExpired t slots pending of (rest, p) \<Rightarrow> (slot # rest, p))
      else if oneSecond < t - slot
      then (case dropExpired t slots (if 0 < pending then pending - 1 else pending) of (rest, p) \<Rightarrow> (0 # rest, p))
      else (case dropExpired t slots pending of (rest, p) \<Rightarrow> (slot # rest, p)))"

definition oldestPending :: "time_point \<Rightarrow> time_point list \<Rightarrow> time_point" where
  "oldestPending t slots = fold (\<lambda>slot oldest. if slot \<noteq> 0 \<and> slot < oldest then slot else oldest) slots t"

definition warnOfWait :: "time_point \<Rightarrow> CubeNet \<Rightarrow> CubeNet" where
  "warnOfWait t s =
     (if oneSecond < t - lastAckTime s \<and> (lastAckWarningTime s = 0 \<or> oneSecond < t - lastAckWarningTime s)
      then (cn_intermittentError net_packetLoss s)\<lparr>lastAckWarningTime := t\<rparr> else s)"

definition ackStreamStalled :: "time_point \<Rightarrow> CubeNet \<Rightarrow> bool" where
  "ackStreamStalled t s =
     (int (length (messageTimes s)) \<le> pendingAckCount s \<and> ackDisconnectThreshold \<le> t - oldestPending t (messageTimes s))"

definition watchPending :: "time_point \<Rightarrow> CubeNet \<Rightarrow> CubeNet" where
  "watchPending t s =
     (if \<not> 0 < pendingAckCount s then s
      else let (slots, pending) = dropExpired t (messageTimes s) (pendingAckCount s);
               s1 = s\<lparr>messageTimes := slots, pendingAckCount := pending\<rparr>
           in if \<not> 0 < pending then s1
           else let s2 = warnOfWait t s1
           in if ackStreamStalled t s2
              then cn_connectionState False ((cn_connectionError net_connectionLost s2)\<lparr>networkConnected := False\<rparr>)
              else s2)"

definition checkAcks :: "CubeNet \<Rightarrow> CubeNet option" where
  "checkAcks s =
     (if \<not> cn_sockets s then Some s
      else let (t, s1) = cn_now s in map_option (watchPending t) (ackLoop maxAckPollsPerCall t s1))"

subsection \<open>The worker\<close>

definition sleepAfterPass :: "Globals \<Rightarrow> CubeNet \<Rightarrow> CubeNet option" where
  "sleepAfterPass g s = do {
     target \<leftarrow> cube_targetBufferPoints (cn_lastSentPointRate s) (pointBufferCapacity s) (targetLatencyMs g);
     let excess = cn_lastEstimatedBufferFullness s - target;
     (if 0 < excess \<and> 0 < cn_lastSentPointRate s
      then do {
        r \<leftarrow> llround (pointsToMillis (nat excess) (cn_lastSentPointRate s));
        Some (cn_sleep (clamp_int (cast_int r) 1 10) s) }
      else Some (cn_sleep 1 s)) }"

text \<open>One pass of the loop of \<open>run\<close>, without the test of \<open>running\<close>.\<close>

definition cubePass :: "Globals \<Rightarrow> CubeNet \<Rightarrow> CubeNet option" where
  "cubePass g s =
     (if \<not> networkConnected s
      then let s1 = cn_connectionState False s
           in if reconnectRequested s1
              then map_option (\<lambda>(ok, s2). cn_sleep reconnectRetryDelay s2) (reconnectToLatestStatus (s1\<lparr>reconnectRequested := False\<rparr>))
              else Some (cn_sleep reconnectRetryDelay s1)
      else do {
        (ok, s1) \<leftarrow> cn_sendPoints g (cn_syncPointRate (cn_connectionState True s));
        s2 \<leftarrow> checkAcks s1;
        sleepAfterPass g s2 })"

definition cn_getBufferState :: "CubeNet \<Rightarrow> BufferState option" where
  "cn_getBufferState s = buildBufferState (pointBufferCapacity s) (cn_lastEstimatedBufferFullness s)"

datatype CubePhase = CubeCreated | CubeRunning | CubeStopped

text \<open>The manager connects the controller and starts its thread, whose first act is the startup blank.
  The worker then interleaves with the application, which may replace every part of the base-class
  state, set the rate or close the controller, and with the discovery thread, which reports the
  status it heard. Each acts between two passes.\<close>

inductive cube_step :: "CubePhase \<times> CubeNet \<Rightarrow> CubePhase \<times> CubeNet \<Rightarrow> bool" where
  connect: "cn_connect status s = Some (ok, s') \<Longrightarrow> cube_step (p, s) (p, s')"
| begins: "cn_startupBlank s = Some s' \<Longrightarrow> cube_step (CubeCreated, s) (CubeRunning, s')"
| passes: "cn_isRunning s = (True, s1) \<Longrightarrow> cubePass g s1 = Some s' \<Longrightarrow> cube_step (CubeRunning, s) (CubeRunning, s')"
| stops: "cn_isRunning s = (False, s') \<Longrightarrow> cube_step (CubeRunning, s) (CubeStopped, s')"
| discovered: "cube_step (p, s) (p, cn_updateDiscoveredStatus status s)"
| setsRate: "cube_step (p, s) (p, cn_setPointRate rate s)"
| application: "cube_step (p, s) (p, s\<lparr>cn_base := c\<rparr>)"
| closes: "cube_step (p, s) (p, cn_close s)"

inductive cube_reachable :: "clock \<Rightarrow> CubePhase \<times> CubeNet \<Rightarrow> bool" for clk where
  created: "cube_reachable clk (CubeCreated, cn_init ip net runs clk)"
| step: "cube_reachable clk x \<Longrightarrow> cube_step x y \<Longrightarrow> cube_reachable clk y"

end
