(* ===== verification/Laser_Cube_Runs.thy ===== *)
theory Laser_Cube_Runs
  imports Laser_Cube_Net Clock_Advance
begin

text \<open>
  What holds in every run of the LaserCube network controller: the count of unacknowledged packets
  is exact, every data packet is well formed, numbered and within the room of the device, and the
  connection is dropped for missing acknowledgements exactly when the device has stalled.
\<close>

section \<open>Steps that leave the packets alone\<close>

definition quiet :: "CubeNet \<Rightarrow> CubeNet \<Rightarrow> bool" where
  "quiet s s' =
     (messageTimes s' = messageTimes s \<and> pendingAckCount s' = pendingAckCount s \<and> cn_wire s' = cn_wire s \<and>
      messageNumber s' = messageNumber s \<and> cn_sockets s' = cn_sockets s \<and>
      pointBufferCapacity s' = pointBufferCapacity s \<and> cn_slept s' = cn_slept s \<and> suffix_clock (cn_clock s) (cn_clock s'))"

lemma quiet_refl [simp]: "quiet s s"
  by (simp add: quiet_def)

lemma quiet_trans [trans]: "quiet a b \<Longrightarrow> quiet b c \<Longrightarrow> quiet a c"
  by (auto simp: quiet_def intro: suffix_clock_trans)

lemmas cube_frame = cn_now_def cn_stream_def cn_intermittentError_def cn_connectionError_def cn_connectionState_def
  cn_latencySample_def base_setPointRate_def cw_open_def cw_send_def cw_receive_def Let_def

lemma quiet_events [simp]:
  "quiet s (cn_intermittentError code s)" "quiet s (cn_connectionError code s)" "quiet s (cn_connectionState up s)"
  "quiet s (cn_latencySample d s)" "quiet s (cn_stream f s)" "quiet s (snd (cn_now s))" "quiet s (sendFailure s)"
  "quiet s (snd (cw_receive s))" "quiet s (snd (cw_send s))" "quiet s (snd (cw_open s))" "quiet s (snd (cn_isRunning s))"
  by (simp_all add: quiet_def cube_frame sendFailure_def cn_isRunning_def)

lemma quiet_startupBlank: "cn_startupBlank s = Some s' \<Longrightarrow> quiet s s'"
  by (auto simp: cn_startupBlank_def bind_eq_Some_conv)

lemma quiet_requestPoints: "cn_requestPoints g req s = Some (ok, s') \<Longrightarrow> quiet s s'"
  by (auto simp: cn_requestPoints_def bind_eq_Some_conv quiet_def dest: requestPoints_clock)

lemma quiet_estimate:
  assumes "minEstimatedBufferFullness s = Some (n, s')"
  shows "quiet s s'" "0 \<le> n" "cn_lastSentPointRate s' = cn_lastSentPointRate s"
proof -
  have "suffix_clock (cn_clock s) (later (later (cn_clock s)))"
    by (rule suffix_clock_trans [of _ "later (cn_clock s)"]) simp_all
  with assms show "quiet s s'" "0 \<le> n" "cn_lastSentPointRate s' = cn_lastSentPointRate s"
    by (auto simp: minEstimatedBufferFullness_def cn_now_def bind_eq_Some_conv quiet_def calculateBufferFullnessFromSnapshot_def)
qed

section \<open>The slots\<close>

definition occupied :: "time_point list \<Rightarrow> nat" where
  "occupied slots = length (filter (\<lambda>t. t \<noteq> 0) slots)"

definition cube_ok :: "CubeNet \<Rightarrow> bool" where
  "cube_ok s =
     ((\<forall>n. 0 < cn_clock s n) \<and> length (messageTimes s) = 256 \<and> pendingAckCount s = int (occupied (messageTimes s)))"

lemma occupied_le: "occupied slots \<le> length slots"
  by (simp add: occupied_def)

lemma occupied_update:
  assumes "n < length slots"
  shows "occupied (slots[n := t]) + (if slots ! n = 0 then 0 else 1) = occupied slots + (if t = 0 then 0 else 1)"
proof -
  have "occupied slots = occupied (take n slots @ slots ! n # drop (Suc n) slots)"
    using id_take_nth_drop [OF assms] by simp
  moreover have "slots[n := t] = take n slots @ t # drop (Suc n) slots" by (rule upd_conv_take_nth_drop [OF assms])
  ultimately show ?thesis by (simp add: occupied_def)
qed

lemma occupied_empty [simp]: "occupied (replicate n 0) = 0"
  by (simp add: occupied_def)

lemma cube_ok_quiet: "quiet s s' \<Longrightarrow> cube_ok s \<Longrightarrow> cube_ok s'"
  by (auto simp: cube_ok_def quiet_def intro: suffix_clock_positive)

lemma cube_ok_cleared: "cube_ok s \<Longrightarrow> suffix_clock (cn_clock s) (cn_clock s') \<Longrightarrow> messageTimes s' = replicate 256 0 \<Longrightarrow>
    pendingAckCount s' = 0 \<Longrightarrow> cube_ok s'"
  by (auto simp: cube_ok_def intro: suffix_clock_positive)

lemma cube_ok_noteSent:
  assumes "cube_ok s"
  shows "cube_ok (noteSent n s)"
proof -
  have "cn_clock s 0 \<noteq> 0" using assms by (metis cube_ok_def less_irrefl)
  then show ?thesis
    using assms occupied_update [of "unat (messageNumber s)" "messageTimes s" "cn_clock s 0"]
    by (auto simp: cube_ok_def noteSent_def cn_now_def now_def later_def Let_def split: if_splits)
qed

lemma quiet_unexpectedSender: "quiet s (cn_unexpectedSender t s)"
  by (simp add: cn_unexpectedSender_def quiet_def cube_frame)

lemma cube_ok_takeAck:
  assumes "cube_ok s" "messageTimes s ! unat m \<noteq> 0"
  shows "cube_ok (takeAck t m space s)"
proof -
  define s1 where "s1 = (cn_latencySample (t - messageTimes s ! unat m) s)
    \<lparr>lastAckTime := t, lastAckWarningTime := 0, lastReportedBufferFullness := pointBufferCapacity s - uint space,
     cn_lastEstimatedBufferFullness := pointBufferCapacity s - uint space, lastDataSentTime := t,
     lastDataSentBufferSize := pointBufferCapacity s - uint space\<rparr>"
  define s2 where "s2 = (if space = 0 then cn_intermittentError net_bufferOverrun s1 else s1)"
  have "quiet s s1" by (simp add: s1_def quiet_def cube_frame)
  moreover have "quiet s1 s2" by (simp add: s2_def)
  ultimately have q: "quiet s s2" by (rule quiet_trans)
  then have ok: "cube_ok s2" "messageTimes s2 = messageTimes s" using assms(1) cube_ok_quiet by (auto simp: quiet_def)
  have "takeAck t m space s = s2\<lparr>messageTimes := (messageTimes s2)[unat m := 0],
      pendingAckCount := (if 0 < pendingAckCount s2 then pendingAckCount s2 - 1 else pendingAckCount s2)\<rparr>"
    by (simp add: takeAck_def s1_def s2_def Let_def)
  with ok assms(2) show ?thesis
    using occupied_update [of "unat m" "messageTimes s2" 0] by (auto simp: cube_ok_def)
qed

text \<open>What one datagram does: nothing to the slots, or the acknowledgement of an occupied one.\<close>

lemma handleDatagram_cases:
  assumes "handleDatagram t f d s = Some s'"
  obtains "quiet s s'" "cn_slept s' = cn_slept s" "networkConnected s' = networkConnected s"
  | m space where "messageTimes s ! unat m \<noteq> 0" "s' = takeAck t m space s"
proof -
  have "s' = cn_unexpectedSender t s \<or> (\<exists>c. s' = cn_intermittentError c s) \<or> s' = s \<or>
      (\<exists>m space. messageTimes s ! unat m \<noteq> 0 \<and> s' = takeAck t m space s)"
    using assms by (auto simp: handleDatagram_def Let_def bind_eq_Some_conv split: if_splits) metis
  moreover have "networkConnected (cn_unexpectedSender t s) = networkConnected s"
    "networkConnected (cn_intermittentError c s) = networkConnected s" for c
    by (simp_all add: cn_unexpectedSender_def cube_frame)
  moreover note quiet_unexpectedSender [of s t] quiet_events(1) [of s]
  ultimately show thesis using that by (auto simp: quiet_def)
qed

lemma cn_sendFailure_connected [simp]: "networkConnected (sendFailure s) = False"
  by (simp add: sendFailure_def)

text \<open>The loop over the datagrams keeps the packets, the sockets, the capacity and the connection.\<close>

definition acked :: "CubeNet \<Rightarrow> CubeNet \<Rightarrow> bool" where
  "acked s s' =
     (cn_wire s' = cn_wire s \<and> messageNumber s' = messageNumber s \<and> cn_sockets s' = cn_sockets s \<and>
      cn_slept s' = cn_slept s \<and> networkConnected s' = networkConnected s)"

lemma acked_refl [simp]: "acked s s"
  by (simp add: acked_def)

lemma acked_trans: "acked a b \<Longrightarrow> acked b c \<Longrightarrow> acked a c"
  by (simp add: acked_def)

lemma acked_takeAck: "acked s (takeAck t m space s)"
  by (simp add: takeAck_def acked_def cube_frame)

lemma handleDatagram_ok:
  assumes "handleDatagram t f d s = Some s'"
  shows "cube_ok s \<Longrightarrow> cube_ok s'" "acked s s'"
proof -
  have "(cube_ok s \<longrightarrow> cube_ok s') \<and> acked s s'"
    using assms
  proof (cases rule: handleDatagram_cases)
    case 1
    then show ?thesis by (auto simp: acked_def quiet_def intro: cube_ok_quiet [OF 1(1)])
  next
    case (2 m space)
    then show ?thesis by (simp add: acked_takeAck cube_ok_takeAck)
  qed
  then show "cube_ok s \<Longrightarrow> cube_ok s'" "acked s s'" by auto
qed

lemma ackLoop_ok:
  "ackLoop n t s = Some s' \<Longrightarrow> (cube_ok s \<longrightarrow> cube_ok s') \<and> acked s s'"
proof (induction n t s rule: ackLoop.induct)
  case (2 n t s)
  obtain r s1 where r: "cw_receive s = (r, s1)" by fastforce
  have q: "cube_ok s \<Longrightarrow> cube_ok s1" "acked s s1"
    using r cube_ok_quiet [of s s1] quiet_events(8) [of s] by (auto simp: cw_receive_def acked_def)
  show ?case
  proof (cases r)
    case (Datagram f d)
    with "2.prems" r obtain s2 where s2: "handleDatagram t f d s1 = Some s2" "ackLoop n t s2 = Some s'"
      by (auto split: option.splits)
    from "2.IH" [OF r [symmetric] Datagram s2(1) s2(2)] handleDatagram_ok [OF s2(1)] q
    show ?thesis by (auto intro: acked_trans)
  next
    case NothingReceived
    with "2.prems" r q show ?thesis by simp
  next
    case ReceiveError
    with "2.prems" r q cube_ok_quiet [OF quiet_events(1)] show ?thesis
      by (auto simp: acked_def cube_frame)
  qed
qed simp

section \<open>Giving up on packets\<close>

lemma dropExpired_slots:
  "dropExpired t slots p = (slots', p') \<Longrightarrow>
     slots' = map (\<lambda>slot. if slot \<noteq> 0 \<and> oneSecond < t - slot then 0 else slot) slots \<and>
     (int (occupied slots) \<le> p \<longrightarrow> p' = p - int (occupied slots) + int (occupied slots'))"
  by (induction slots arbitrary: p slots' p') (fastforce simp: occupied_def split: if_splits prod.splits)+

lemma oldestPending_Min: "oldestPending t slots = Min (insert t {slot \<in> set slots. slot \<noteq> 0})"
proof -
  have "oldestPending t slots = fold min (filter (\<lambda>slot. slot \<noteq> 0) slots) t"
    unfolding oldestPending_def by (induction slots arbitrary: t) (auto simp: min_def)
  then show ?thesis using Min.set_eq_fold [of t "filter (\<lambda>slot. slot \<noteq> 0) slots"] by simp
qed

lemma oldestPending_reached: "t - oldestPending t slots \<ge> d \<longleftrightarrow> d \<le> 0 \<or> (\<exists>slot\<in>set slots. slot \<noteq> 0 \<and> d \<le> t - slot)"
proof -
  have "oldestPending t slots \<le> t - d \<longleftrightarrow> (\<exists>x\<in>insert t {slot \<in> set slots. slot \<noteq> 0}. x \<le> t - d)"
    unfolding oldestPending_Min by (subst Min_le_iff) auto
  then show ?thesis by (auto simp: algebra_simps)
qed

definition waiting_long :: "time_point \<Rightarrow> time_point list \<Rightarrow> bool" where
  "waiting_long t slots = (occupied slots = 256 \<and> (\<exists>slot\<in>set slots. slot \<noteq> 0 \<and> ackDisconnectThreshold \<le> t - slot))"

lemma warnOfWait_quiet: "quiet s (warnOfWait t s)" "networkConnected (warnOfWait t s) = networkConnected s"
  by (simp_all add: warnOfWait_def quiet_def cube_frame)

lemma stalled_iff: "cube_ok s \<Longrightarrow> ackStreamStalled t s = waiting_long t (messageTimes s)"
  using occupied_le [of "messageTimes s"]
  by (auto simp: ackStreamStalled_def cube_ok_def waiting_long_def oldestPending_reached ackDisconnectThreshold_def)

lemma watchPending_frame:
  "cn_wire (watchPending t s) = cn_wire s \<and> messageNumber (watchPending t s) = messageNumber s \<and>
   cn_sockets (watchPending t s) = cn_sockets s \<and> cn_slept (watchPending t s) = cn_slept s"
  by (simp add: watchPending_def warnOfWait_def cube_frame split: prod.split)

lemma watchPending_ok:
  assumes "cube_ok s"
  shows "cube_ok (watchPending t s) \<and>
     (networkConnected s \<longrightarrow> networkConnected (watchPending t s) = (\<not> waiting_long t (messageTimes (watchPending t s)))) \<and>
     (waiting_long t (messageTimes (watchPending t s)) \<longrightarrow>
        lastErrorCode (controllerEvents (stream (cn_base (watchPending t s)))) = net_connectionLost \<and>
        \<not> hasConnection (controllerEvents (stream (cn_base (watchPending t s)))))"
proof (cases "0 < pendingAckCount s")
  case False
  then have "occupied (messageTimes s) = 0" "watchPending t s = s" using assms by (simp_all add: cube_ok_def watchPending_def)
  then show ?thesis using assms by (simp add: waiting_long_def)
next
  case True
  obtain slots p where d: "dropExpired t (messageTimes s) (pendingAckCount s) = (slots, p)" by fastforce
  define s1 where "s1 = s\<lparr>messageTimes := slots, pendingAckCount := p\<rparr>"
  have s1: "cube_ok s1" using dropExpired_slots [OF d] assms by (simp add: cube_ok_def s1_def)
  show ?thesis
  proof (cases "0 < p")
    case False
    then have "occupied slots = 0" "watchPending t s = s1" using True d s1 by (simp_all add: cube_ok_def watchPending_def s1_def)
    then show ?thesis using s1 by (simp add: waiting_long_def s1_def)
  next
    case p: True
    define s2 where "s2 = warnOfWait t s1"
    have q: "quiet s1 s2" "networkConnected s2 = networkConnected s" by (simp_all add: s2_def warnOfWait_quiet) (simp add: s1_def)
    have s2: "cube_ok s2" "messageTimes s2 = slots" using cube_ok_quiet [OF q(1) s1] q(1) by (auto simp: quiet_def s1_def)
    define s3 where "s3 = cn_connectionState False ((cn_connectionError net_connectionLost s2)\<lparr>networkConnected := False\<rparr>)"
    have w: "watchPending t s = (if waiting_long t slots then s3 else s2)"
      using True d p stalled_iff [OF s2(1), of t] s2(2) by (simp add: watchPending_def s1_def s2_def s3_def Let_def)
    have "quiet s2 s3" by (simp add: s3_def quiet_def cube_frame)
    moreover have "net_connectionLost \<noteq> []" by (simp add: net_connectionLost_def)
    then have "lastErrorCode (controllerEvents (stream (cn_base s3))) = net_connectionLost"
      "\<not> hasConnection (controllerEvents (stream (cn_base s3)))" "\<not> networkConnected s3"
      by (simp_all add: s3_def cube_frame recordConnectionError_def setConnectionState_def hasConnection_def recordRecentEvent_fields)
    ultimately show ?thesis
      using w q s2 cube_ok_quiet [of s2 s3] by (auto simp: quiet_def s1_def)
  qed
qed

lemma checkAcks_runs:
  assumes "checkAcks s = Some s'" "cn_sockets s"
  obtains s1 where "acked s s1" "cube_ok s \<Longrightarrow> cube_ok s1" "s' = watchPending (cn_clock s 0) s1"
proof -
  let ?s = "snd (cn_now s)"
  from assms obtain s1 where s1: "ackLoop maxAckPollsPerCall (cn_clock s 0) ?s = Some s1" "s' = watchPending (cn_clock s 0) s1"
    by (auto simp: checkAcks_def cn_now_def now_def)
  have q: "quiet s ?s" "networkConnected ?s = networkConnected s" by simp (simp add: cn_now_def)
  from ackLoop_ok [OF s1(1)] q cube_ok_quiet [OF q(1)] have "acked s s1" "cube_ok s \<Longrightarrow> cube_ok s1"
    by (auto simp: acked_def quiet_def)
  with that s1(2) show thesis by blast
qed

lemma checkAcks_frame:
  assumes "checkAcks s = Some s'"
  shows "cn_wire s' = cn_wire s \<and> messageNumber s' = messageNumber s \<and> cn_sockets s' = cn_sockets s \<and> cn_slept s' = cn_slept s"
proof (cases "cn_sockets s")
  case True
  from checkAcks_runs [OF assms True] watchPending_frame show ?thesis by (metis acked_def)
next
  case False
  with assms show ?thesis by (simp add: checkAcks_def)
qed

lemma checkAcks_ok:
  assumes "checkAcks s = Some s'" "cube_ok s"
  shows "cube_ok s'"
proof (cases "cn_sockets s")
  case True
  from checkAcks_runs [OF assms(1) True] assms(2) watchPending_ok show ?thesis by metis
next
  case False
  with assms show ?thesis by (simp add: checkAcks_def)
qed

section \<open>The packets\<close>

fun sentPackets :: "CubeEvent list \<Rightarrow> DataPacket list" where
  "sentPackets [] = []"
| "sentPackets (DataSent p # w) = sentPackets w @ [p]"
| "sentPackets (CommandSent b # w) = sentPackets w"
| "sentPackets (SocketsRenewed # w) = sentPackets w"

text \<open>The packet of a number: its layout, its size, and the room it was made for.\<close>

definition cube_packet_ok :: "nat \<Rightarrow> DataPacket \<Rightarrow> bool" where
  "cube_packet_ok i p =
     (\<exists>n\<in>{1..140}. length (dp_bytes p) = 4 + 10 * n \<and> take 3 (dp_bytes p) = [CMD_SAMPLE_DATA, 0, of_nat i] \<and>
        0 \<le> dp_estimate p \<and> dp_estimate p + int n \<le> dp_target p \<and> dp_target p \<le> dp_capacity p \<and>
        (SAFETY_HEADROOM_POINTS + MAX_POINTS_PER_PACKET \<le> dp_capacity p \<longrightarrow> dp_target p + SAFETY_HEADROOM_POINTS \<le> dp_capacity p))"

definition wire_ok :: "CubeNet \<Rightarrow> bool" where
  "wire_ok s =
     (messageNumber s = of_nat (length (sentPackets (cn_wire s))) \<and>
      (\<forall>i<length (sentPackets (cn_wire s)). cube_packet_ok i (sentPackets (cn_wire s) ! i)) \<and>
      list_all (\<lambda>ms. 1 \<le> ms \<and> ms \<le> 10 \<or> ms = reconnectRetryDelay) (cn_slept s) \<and>
      (networkConnected s \<longrightarrow> cn_sockets s))"

lemma wire_ok_same:
  "wire_ok s \<Longrightarrow> sentPackets (cn_wire s') = sentPackets (cn_wire s) \<Longrightarrow> messageNumber s' = messageNumber s \<Longrightarrow>
     cn_slept s' = cn_slept s \<Longrightarrow> (networkConnected s' \<longrightarrow> cn_sockets s') \<Longrightarrow> wire_ok s'"
  by (simp add: wire_ok_def)

lemma wire_ok_sent:
  assumes "wire_ok s" "cube_packet_ok (length (sentPackets (cn_wire s))) p" "cn_wire s' = DataSent p # cn_wire s"
    "messageNumber s' = messageNumber s + 1" "cn_slept s' = cn_slept s" "networkConnected s' \<longrightarrow> cn_sockets s'"
  shows "wire_ok s'"
  using assms by (auto simp: wire_ok_def nth_append less_Suc_eq)

lemma length_cubePoints: "cubePoints ps = Some b \<Longrightarrow> length b = 10 * length ps"
  by (induction ps arbitrary: b) (auto simp: bind_eq_Some_conv cubePoint_def le16_def)

lemma cube_packet_okI:
  assumes "cubePacket m f ps = Some b" "m = of_nat i" "1 \<le> length ps" "length ps \<le> 140" "0 \<le> est"
    "est + int (length ps) \<le> target" "cube_targetBufferPoints rate cap latency = Some target"
  shows "cube_packet_ok i \<lparr>dp_bytes = b, dp_estimate = est, dp_target = target, dp_capacity = cap\<rparr>"
proof -
  have "length b = 4 + 10 * length ps" "take 3 b = [CMD_SAMPLE_DATA, 0, of_nat i]"
    using assms(1,2) by (auto simp: cubePacket_def length_cubePoints)
  moreover have "0 < cap" using assms(3,5-7) by (auto simp: cube_targetBufferPoints_def targetBufferPoints_def split: if_splits)
  then have "target \<le> cap" "SAFETY_HEADROOM_POINTS + MAX_POINTS_PER_PACKET \<le> cap \<Longrightarrow> target + SAFETY_HEADROOM_POINTS \<le> cap"
    using assms(7)
    by (auto simp: cube_targetBufferPoints_def targetBufferPoints_def Let_def clamp_int_def bind_eq_Some_conv
        SAFETY_HEADROOM_POINTS_def MAX_POINTS_PER_PACKET_def SAFETY_HEADROOM_PACKETS_def split: if_splits)
  ultimately show ?thesis using assms(3-6) by (auto simp: cube_packet_ok_def intro!: bexI [of _ "length ps"])
qed

section \<open>Sending points\<close>

definition quietly :: "CubeNet \<Rightarrow> CubeNet \<Rightarrow> bool" where
  "quietly s s' = (quiet s s' \<and> networkConnected s' = networkConnected s)"

lemma quietly_trans: "quietly a b \<Longrightarrow> quietly b c \<Longrightarrow> quietly a c"
  by (auto simp: quietly_def intro: quiet_trans)

lemma quietly_simps [simp]: "quietly s s" "quietly s (cn_stream f s)" "quietly s (snd (cn_now s))"
  by (simp_all add: quietly_def cube_frame) (simp_all add: quiet_def)

lemma quietly_frame: "quietly s (s\<lparr>frameNumber := n\<rparr>)"
  by (simp add: quietly_def quiet_def)

lemma quietly_estimate: "minEstimatedBufferFullness s = Some (n, s') \<Longrightarrow> quietly s s'"
  using quiet_estimate(1) by (auto simp: quietly_def minEstimatedBufferFullness_def cn_now_def bind_eq_Some_conv)

lemma quietly_requestPoints: "cn_requestPoints g req s = Some (ok, s') \<Longrightarrow> quietly s s'"
  using quiet_requestPoints by (auto simp: quietly_def cn_requestPoints_def bind_eq_Some_conv)

lemma sendPoints_cases:
  assumes "cn_sendPoints g s = Some (ok, s')"
  obtains (idle) "quietly s s'"
  | (sent) fullness target s3 rate where "quietly s s3" "transmitPoints fullness target s3 = Some (ok, s')"
      "1 \<le> length (pointsToSend (stream (cn_base s3)))" "length (pointsToSend (stream (cn_base s3))) \<le> 140" "0 \<le> fullness"
      "fullness + int (length (pointsToSend (stream (cn_base s3)))) \<le> target"
      "cube_targetBufferPoints rate (pointBufferCapacity s3) (targetLatencyMs g) = Some target"
proof -
  from assms obtain n s1 target where 1: "minEstimatedBufferFullness (s\<lparr>frameNumber := frameNumber s + 1\<rparr>) = Some (n, s1)"
    and target: "cube_targetBufferPoints (cn_lastSentPointRate s1) (pointBufferCapacity s1) (targetLatencyMs g) = Some target"
    by (auto simp: cn_sendPoints_def bind_eq_Some_conv)
  have q1: "quietly s s1" by (rule quietly_trans [OF quietly_frame quietly_estimate [OF 1]])
  note n = quiet_estimate(2) [OF 1]
  show thesis
  proof (cases "target - n \<le> 0")
    case True
    with assms have "s' = s1" by (simp add: cn_sendPoints_def 1 target)
    with q1 idle show thesis by simp
  next
    case False
    define toAdd where "toAdd = nat (min (target - n) MAX_POINTS_PER_PACKET)"
    have toAdd: "toAdd \<le> 140" "int toAdd \<le> target - n" using False by (auto simp: toAdd_def MAX_POINTS_PER_PACKET_def)
    obtain req ran s3 where 3: "cn_requestPoints g req (snd (cn_now s1)) = Some (ran, s3)"
      and rest: "(if \<not> ran then Some (False, s3)
         else if pointsToSend (stream (cn_base s3)) = [] then Some (True, s3)
         else transmitPoints n target (cn_stream (\<lambda>st. st\<lparr>pointsToSend := take toAdd (pointsToSend st)\<rparr>) s3)) = Some (ok, s')"
      using assms False
      by (clarsimp simp: cn_sendPoints_def 1 target toAdd_def max_def bind_eq_Some_conv split_beta Let_def split del: if_split cong: if_cong)
    have q3: "quietly s s3"
      by (rule quietly_trans [OF quietly_trans [OF q1 quietly_simps(3)] quietly_requestPoints [OF 3]])
    let ?s4 = "cn_stream (\<lambda>st. st\<lparr>pointsToSend := take toAdd (pointsToSend st)\<rparr>) s3"
    show thesis
    proof (cases "ran \<and> pointsToSend (stream (cn_base s3)) \<noteq> []")
      case False
      with rest have "s' = s3" by (auto split: if_splits)
      with q3 idle show thesis by simp
    next
      case True
      with rest have "transmitPoints n target ?s4 = Some (ok, s')" by simp
      moreover have "pointsToSend (stream (cn_base ?s4)) = take toAdd (pointsToSend (stream (cn_base s3)))"
        by (simp add: cn_stream_def)
      moreover have "1 \<le> toAdd" using False by (simp add: toAdd_def MAX_POINTS_PER_PACKET_def)
      then have "1 \<le> length (take toAdd (pointsToSend (stream (cn_base s3))))"
        using True by (cases "pointsToSend (stream (cn_base s3))") auto
      moreover have "pointBufferCapacity ?s4 = pointBufferCapacity s1"
        using q1 q3 by (simp add: cn_stream_def quietly_def quiet_def)
      moreover have "quietly s ?s4" by (rule quietly_trans [OF q3 quietly_simps(2)])
      ultimately show thesis using sent [of ?s4 n target "cn_lastSentPointRate s1"] toAdd n target by simp
    qed
  qed
qed

lemma transmit_effect:
  assumes "transmitPoints n target s = Some (ok, s')" "cn_sockets s"
  shows "\<exists>b. cubePacket (messageNumber s) (frameNumber s) (pointsToSend (stream (cn_base s))) = Some b \<and>
      cn_wire s' = DataSent \<lparr>dp_bytes = b, dp_estimate = n, dp_target = target, dp_capacity = pointBufferCapacity s\<rparr> # cn_wire s \<and>
      messageNumber s' = messageNumber s + 1 \<and> cn_slept s' = cn_slept s \<and> cn_sockets s' \<and> (cube_ok s \<longrightarrow> cube_ok s')"
proof -
  from assms(1) obtain b where b: "cubePacket (messageNumber s) (frameNumber s) (pointsToSend (stream (cn_base s))) = Some b"
    by (auto simp: transmitPoints_def bind_eq_Some_conv)
  let ?p = "\<lparr>dp_bytes = b, dp_estimate = n, dp_target = target, dp_capacity = pointBufferCapacity s\<rparr>"
  let ?s1 = "s\<lparr>cn_wire := DataSent ?p # cn_wire s, cn_net := (cn_net s)\<lparr>cw_sends := \<lambda>i. cw_sends (cn_net s) (Suc i)\<rparr>\<rparr>"
  have "b \<noteq> []" using b by (auto simp: cubePacket_def)
  then have "cn_sendData ?p s = (if cw_sends (cn_net s) 0 then (True, ?s1) else (False, sendFailure ?s1))"
    using assms(2) by (simp add: cn_sendData_def cw_send_def)
  then have s': "s' = (let s2 = (if cw_sends (cn_net s) 0 then noteSent n ?s1 else sendFailure ?s1) in s2\<lparr>messageNumber := messageNumber s2 + 1\<rparr>)"
    using assms(1) b by (auto simp: transmitPoints_def Let_def split: if_splits)
  have "cube_ok s \<Longrightarrow> cube_ok ?s1" by (simp add: cube_ok_def)
  then have "cube_ok s \<Longrightarrow> cube_ok (noteSent n ?s1)" "cube_ok s \<Longrightarrow> cube_ok (sendFailure ?s1)"
    using cube_ok_noteSent cube_ok_quiet [OF quiet_events(7)] by blast+
  then have "cube_ok s \<Longrightarrow> cube_ok s'" by (auto simp: s' Let_def cube_ok_def)
  moreover have "cn_wire s' = DataSent ?p # cn_wire s \<and> messageNumber s' = messageNumber s + 1 \<and> cn_slept s' = cn_slept s \<and> cn_sockets s'"
    using assms(2) by (simp add: s' noteSent_def sendFailure_def cube_frame)
  ultimately show ?thesis using b by blast
qed

lemma sendPoints_ok:
  assumes "cn_sendPoints g s = Some (ok, s')" "cn_sockets s"
  shows "cube_ok s \<Longrightarrow> cube_ok s'" "cn_sockets s'" "wire_ok s \<Longrightarrow> wire_ok s'"
proof -
  have "(cube_ok s \<longrightarrow> cube_ok s') \<and> cn_sockets s' \<and> (wire_ok s \<longrightarrow> wire_ok s')"
    using assms(1)
  proof (cases rule: sendPoints_cases)
    case idle
    then show ?thesis using assms(2) by (auto simp: quietly_def quiet_def wire_ok_def intro: cube_ok_quiet)
  next
    case (sent fullness target s3 rate)
    then have s3: "cn_sockets s3" "cn_wire s3 = cn_wire s" "messageNumber s3 = messageNumber s" "cn_slept s3 = cn_slept s"
      "cube_ok s \<Longrightarrow> cube_ok s3"
      using assms(2) by (auto simp: quietly_def quiet_def intro: cube_ok_quiet)
    from transmit_effect [OF sent(2) s3(1)] obtain b where
      b: "cubePacket (messageNumber s3) (frameNumber s3) (pointsToSend (stream (cn_base s3))) = Some b"
      and e: "cn_wire s' = DataSent \<lparr>dp_bytes = b, dp_estimate = fullness, dp_target = target, dp_capacity = pointBufferCapacity s3\<rparr> # cn_wire s3"
        "messageNumber s' = messageNumber s3 + 1" "cn_slept s' = cn_slept s3" "cn_sockets s'" "cube_ok s3 \<longrightarrow> cube_ok s'" by blast
    have "wire_ok s'" if ok: "wire_ok s"
    proof (rule wire_ok_sent [OF ok _ _ _ _])
      show "cube_packet_ok (length (sentPackets (cn_wire s))) \<lparr>dp_bytes = b, dp_estimate = fullness, dp_target = target, dp_capacity = pointBufferCapacity s3\<rparr>"
        using ok s3(3) sent by (intro cube_packet_okI [OF b]) (auto simp: wire_ok_def)
    qed (use e s3 in auto)
    with e s3 show ?thesis by auto
  qed
  then show "cube_ok s \<Longrightarrow> cube_ok s'" "cn_sockets s'" "wire_ok s \<Longrightarrow> wire_ok s'" by auto
qed

section \<open>Every step\<close>

text \<open>What the operations of the application, the discovery thread and the connection do.\<close>

definition cube_kept :: "CubeNet \<Rightarrow> CubeNet \<Rightarrow> bool" where
  "cube_kept s s' = (wire_ok s \<longrightarrow> wire_ok s' \<and> (cube_ok s \<longrightarrow> cube_ok s'))"

lemma cube_kept_refl [simp]: "cube_kept s s"
  by (simp add: cube_kept_def)

lemma cube_kept_trans: "cube_kept a b \<Longrightarrow> cube_kept b c \<Longrightarrow> cube_kept a c"
  by (simp add: cube_kept_def)

lemma cube_kept_quietly: "quietly s s' \<Longrightarrow> cube_kept s s'"
  using cube_ok_quiet by (auto simp: cube_kept_def quietly_def quiet_def wire_ok_def)

lemma cube_kept_settings:
  "cube_kept s (cn_setPointRate r s)" "cube_kept s (cn_updateDiscoveredStatus status s)" "cube_kept s (s\<lparr>cn_base := c\<rparr>)"
  "cube_kept s (cn_connectionState up s)" "cube_kept s (snd (cn_isRunning s))" "cube_kept s (s\<lparr>reconnectRequested := b\<rparr>)"
  by (simp_all add: cube_kept_def cube_ok_def wire_ok_def cn_setPointRate_def cn_updateDiscoveredStatus_def cube_frame cn_isRunning_def)

lemma cube_kept_startupBlank: "cn_startupBlank s = Some s' \<Longrightarrow> cube_kept s s'"
  by (auto simp: cn_startupBlank_def bind_eq_Some_conv intro!: cube_kept_quietly)

lemma cube_kept_close: "cube_kept s (cn_close s)"
  by (simp add: cube_kept_def cube_ok_def wire_ok_def cn_close_def cube_frame)

lemma cube_kept_sleep: "1 \<le> ms \<and> ms \<le> 10 \<or> ms = reconnectRetryDelay \<Longrightarrow> cube_kept s (cn_sleep ms s)"
  by (simp add: cube_kept_def cube_ok_def wire_ok_def cn_sleep_def)

lemma openSockets_quietly: "openSockets n s = (b, s') \<Longrightarrow> quietly s s'"
proof (induction n s rule: openSockets.induct)
  case (2 n s)
  obtain b1 s1 where 1: "cw_open s = (b1, s1)" by fastforce
  then have "quietly s s1" using quiet_events(10) [of s] by (auto simp: quietly_def cw_open_def)
  with 2 1 show ?case by (cases b1) (auto intro: quietly_trans)
qed simp

lemma cube_kept_connectToStatus:
  assumes "cn_connectToStatus status s = Some (ok, s')"
  shows "cube_kept s s'"
proof -
  define s4 where "s4 = cn_resetLink status s"
  have s4: "cn_sockets s4" "sentPackets (cn_wire s4) = sentPackets (cn_wire s)" "messageNumber s4 = messageNumber s"
    "cn_slept s4 = cn_slept s" "messageTimes s4 = replicate 256 0" "pendingAckCount s4 = 0" "cn_clock s4 = later (cn_clock s)"
    by (simp_all add: s4_def cn_resetLink_def cube_frame)
  obtain b s5 where 5: "openSockets 4 s4 = (b, s5)" by fastforce
  from assms have r: "s' = cn_connectionError net_connectFailed s5 \<or>
      cn_startupBlank ((cn_connectionState True (s5\<lparr>networkConnected := True, reconnectRequested := False\<rparr>))\<lparr>pointRatePushNeeded := True\<rparr>) = Some s'"
    by (cases b) (auto simp: cn_connectToStatus_def 5 [unfolded s4_def] bind_eq_Some_conv split: if_splits)
  have q: "quiet s4 s5" using openSockets_quietly [OF 5] by (simp add: quietly_def)
  have "quiet s5 s'"
    using r
  proof
    assume "cn_startupBlank ((cn_connectionState True (s5\<lparr>networkConnected := True, reconnectRequested := False\<rparr>))\<lparr>pointRatePushNeeded := True\<rparr>) = Some s'"
    from quiet_startupBlank [OF this] show ?thesis by (auto simp: quiet_def cube_frame)
  qed simp
  with q have "quiet s4 s'" by (rule quiet_trans)
  then have s': "cn_sockets s'" "sentPackets (cn_wire s') = sentPackets (cn_wire s)" "messageNumber s' = messageNumber s"
    "cn_slept s' = cn_slept s" "messageTimes s' = replicate 256 0" "pendingAckCount s' = 0"
    "suffix_clock (later (cn_clock s)) (cn_clock s')" using s4 by (auto simp: quiet_def)
  have "suffix_clock (cn_clock s) (cn_clock s')" by (rule suffix_clock_trans [OF suffix_clock_later s'(7)])
  with s' cube_ok_cleared [of s s'] wire_ok_same [of s s'] show ?thesis by (simp add: cube_kept_def)
qed

lemma cube_kept_syncPointRate: "cube_kept s (cn_syncPointRate s) \<and> cn_sockets (cn_syncPointRate s) = cn_sockets s"
  by (cases "cw_sends (cn_net s) 0")
    (simp_all add: cn_syncPointRate_def cn_sendCommand_def cube_kept_def cube_ok_def wire_ok_def sendFailure_def cube_frame later_def)

lemma cubePass_kept:
  assumes "cubePass g s = Some s'"
  shows "cube_kept s s'"
proof (cases "networkConnected s")
  case False
  let ?s1 = "cn_connectionState False s"
  have delay: "cube_kept t (cn_sleep reconnectRetryDelay t)" for t by (rule cube_kept_sleep) simp
  show ?thesis
  proof (cases "reconnectRequested ?s1")
    case True
    with assms False obtain ok s2 where 2: "reconnectToLatestStatus (?s1\<lparr>reconnectRequested := False\<rparr>) = Some (ok, s2)"
      "s' = cn_sleep reconnectRetryDelay s2" by (auto simp: cubePass_def Let_def)
    then have "cube_kept (?s1\<lparr>reconnectRequested := False\<rparr>) s2"
      using cube_kept_connectToStatus by (auto simp: reconnectToLatestStatus_def split: option.splits)
    then have "cube_kept s s2" using cube_kept_trans cube_kept_settings(4,6) by blast
    with 2 delay show ?thesis by (auto intro: cube_kept_trans)
  next
    case False
    with assms \<open>\<not> networkConnected s\<close> have "s' = cn_sleep reconnectRetryDelay ?s1" by (simp add: cubePass_def Let_def)
    with delay cube_kept_settings(4) show ?thesis by (auto intro: cube_kept_trans)
  qed
next
  case True
  let ?s1 = "cn_syncPointRate (cn_connectionState True s)"
  from assms True obtain ok s2 s3 where 2: "cn_sendPoints g ?s1 = Some (ok, s2)" and 3: "checkAcks s2 = Some s3"
    and 4: "sleepAfterPass g s3 = Some s'" by (auto simp: cubePass_def bind_eq_Some_conv)
  have k1: "cube_kept s ?s1" using cube_kept_syncPointRate cube_kept_settings(4) cube_kept_trans by blast
  have 5: "\<exists>ms. s' = cn_sleep ms s3 \<and> 1 \<le> ms \<and> ms \<le> 10"
    using 4 clamp_int_bounds [of 1 10] by (auto simp: sleepAfterPass_def bind_eq_Some_conv Let_def split: if_splits)
  have "cube_kept s s3"
  proof (cases "wire_ok s")
    case wire: True
    with True have "cn_sockets ?s1" using cube_kept_syncPointRate by (simp add: cube_frame wire_ok_def)
    note S = sendPoints_ok [OF 2 this] and A = checkAcks_frame [OF 3] checkAcks_ok [OF 3]
    have "wire_ok s2 \<Longrightarrow> wire_ok s3" by (rule wire_ok_same) (use S(2) A(1) in auto)
    with k1 S A(2) show ?thesis by (auto simp: cube_kept_def)
  qed (simp add: cube_kept_def)
  with 5 cube_kept_sleep show ?thesis by (auto intro: cube_kept_trans)
qed

lemma cube_step_kept: "cube_step x y \<Longrightarrow> cube_kept (snd x) (snd y)"
proof (induction rule: cube_step.induct)
  case (connect status s ok s' p)
  then show ?case using cube_kept_connectToStatus cube_kept_settings(2) cube_kept_trans by (fastforce simp: cn_connect_def)
next
  case (begins s s')
  then show ?case by (simp add: cube_kept_startupBlank)
next
  case (passes s s1 g s')
  then show ?case using cubePass_kept cube_kept_settings(5) [of s] by (auto intro: cube_kept_trans)
next
  case (stops s s')
  then show ?case using cube_kept_settings(5) [of s] by simp
qed (simp_all add: cube_kept_settings cube_kept_close)

lemma cube_reachable_ok: "cube_reachable clk x \<Longrightarrow> wire_ok (snd x) \<and> ((\<forall>n. 0 < clk n) \<longrightarrow> cube_ok (snd x))"
proof (induction rule: cube_reachable.induct)
  case (created ip net runs)
  then show ?case by (simp add: wire_ok_def cube_ok_def cn_init_def)
next
  case (step x y)
  then show ?case using cube_step_kept by (auto simp: cube_kept_def)
qed

end
