(* ===== verification/Laser_Cube_Properties.thy ===== *)
theory Laser_Cube_Properties
  imports Laser_Cube_Runs
begin

text \<open>
  The properties of the LaserCube network controller, over its reachable states, and the run that
  shows they can hold: a device of two points that is connected, is sent its rate and one packet,
  and has not acknowledged it yet.
\<close>

section \<open>A run\<close>

definition cube_sample_status :: LaserCubeNetStatus where
  "cube_sample_status = \<lparr>payloadVersion = 0, firmwareMajor = 0, firmwareMinor = 1, lc_firmwareVersion = ''0.1'',
     outputEnabled = True, interlockEnabled = False, temperatureWarning = False, overTemperature = False, packetErrors = 0,
     lc_pointRate = 0, pointRateMax = 30000, bufferFree = 2, bufferMax = 2, batteryPercent = 0, temperatureC = 20,
     connectionType = 0, serialNumber = ''00'', lc_ipAddress = ''10.0.0.3'', modelNumber = 0, modelName = ''cube'', lc_lastSeen = 0\<rparr>"

definition cube_sample_net :: CubeNetwork where
  "cube_sample_net = \<lparr>cw_address = \<lambda>_. True, cw_opens = \<lambda>_. True, cw_sends = \<lambda>_. True, cw_receives = \<lambda>_. NothingReceived\<rparr>"

definition cube_sample_base :: Controller where
  "cube_sample_base = controller_init\<lparr>activeSource := PointCallback,
     stream := stream_init\<lparr>requestPointsCallback := Some (\<lambda>_ ps. ps),
       pipe := pipeline_init\<lparr>PipelineState.pointRate := 0, scannerSyncEnabled := False\<rparr>\<rparr>\<rparr>"

definition cube_sample_start :: CubeNet where
  "cube_sample_start = (cn_init ''10.0.0.3'' cube_sample_net (\<lambda>_. True) (\<lambda>n. int n + 1))\<lparr>cn_base := cube_sample_base\<rparr>"

text \<open>The first pass, cut where it has estimated the buffer, sent the packet, and ended.\<close>

definition cube_sample_up :: "CubeNet option" where
  "cube_sample_up = do { (ok, s1) \<leftarrow> cn_connect cube_sample_status cube_sample_start; cn_startupBlank s1 }"

definition cube_sample_ready :: "CubeNet \<Rightarrow> CubeNet" where
  "cube_sample_ready s = cn_syncPointRate (cn_connectionState True (snd (cn_isRunning s)))"

definition cube_sample_estimate :: "(int \<times> CubeNet) option" where
  "cube_sample_estimate = do {
     s \<leftarrow> cube_sample_up;
     let s1 = cube_sample_ready s;
     minEstimatedBufferFullness (s1\<lparr>frameNumber := frameNumber s1 + 1\<rparr>) }"

definition cube_sample_sent :: "(bool \<times> CubeNet) option" where
  "cube_sample_sent = do {
     (n, s1) \<leftarrow> cube_sample_estimate;
     let (t, s2) = cn_now s1;
     (ran, s3) \<leftarrow> cn_requestPoints globals_init \<lparr>minimumPointsRequired = 2, maximumPointsRequired = 2,
       estimatedFirstPointRenderTime = t, currentPointIndex = 0, allowShortRead = False\<rparr> s2;
     (if \<not> ran then Some (False, s3)
      else if pointsToSend (stream (cn_base s3)) = [] then Some (True, s3)
      else transmitPoints 0 2 (cn_stream (\<lambda>st. st\<lparr>pointsToSend := take 2 (pointsToSend st)\<rparr>) s3)) }"

definition cube_sample :: "CubeNet option" where
  "cube_sample = do { (ok, s1) \<leftarrow> cube_sample_sent; s2 \<leftarrow> checkAcks s1; sleepAfterPass globals_init s2 }"

lemma cube_sample_estimate_runs:
  "map_option (\<lambda>(n, s). (n, cn_lastSentPointRate s, pointBufferCapacity s)) cube_sample_estimate = Some (0, 0, 2)"
  by code_simp

lemma cube_sample_up_runs: "map_option (\<lambda>s. (networkConnected s, cn_running s 0)) cube_sample_up = Some (True, True)"
  by code_simp

lemma cube_sample_sent_runs:
  "map_option (\<lambda>(ok, s). (ok, networkConnected s, map (\<lambda>p. (length (dp_bytes p), dp_estimate p, dp_target p)) (sentPackets (cn_wire s)),
     pendingAckCount s)) cube_sample_sent = Some (True, True, [(24, 0, 2)], 1)"
  by code_simp

lemma cube_sample_runs:
  "map_option (\<lambda>s. (networkConnected s, length (sentPackets (cn_wire s)), pendingAckCount s, cn_slept s)) cube_sample = Some (True, 1, 1, [1])"
  by code_simp

lemma cube_sample_target: "cube_targetBufferPoints 0 2 (targetLatencyMs globals_init) = Some 2"
  by code_simp

lemma cube_sample_sends:
  assumes "cube_sample_up = Some u"
  shows "cn_sendPoints globals_init (cube_sample_ready u) = cube_sample_sent"
proof -
  from cube_sample_estimate_runs obtain s1 where s1: "cube_sample_estimate = Some (0, s1)"
    "cn_lastSentPointRate s1 = 0" "pointBufferCapacity s1 = 2" by auto
  let ?s = "cube_sample_ready u"
  have e: "minEstimatedBufferFullness (?s\<lparr>frameNumber := frameNumber ?s + 1\<rparr>) = Some (0, s1)"
    using s1(1) unfolding cube_sample_estimate_def assms Let_def by simp
  have "pointsToMillis 0 0 = Fin 0" by (simp add: pointsToMillis_def)
  then have lead: "ftrunc (fmul F64 (pointsToMillis 0 0) (Fin 1000000)) = Some 0" by (simp add: trunc_rat_def)
  have "nat (min 2 MAX_POINTS_PER_PACKET) = 2" by (simp add: MAX_POINTS_PER_PACKET_def)
  then show ?thesis
    by (simp add: cn_sendPoints_def e s1 cube_sample_target lead cube_sample_sent_def Let_def split_beta del: ftrunc.simps cong: if_cong)
qed

text \<open>The state that sends, its successor, and the end of the pass, which is reachable.\<close>

lemma cube_sample_reachable:
  obtains u ok s2 s3 s4 where "cube_reachable (\<lambda>n. int n + 1) (CubeRunning, u)" "networkConnected u"
    "cn_sendPoints globals_init (cube_sample_ready u) = Some (ok, s2)" "networkConnected s2" "checkAcks s2 = Some s3"
    "cube_sample = Some s4" "cube_reachable (\<lambda>n. int n + 1) (CubeRunning, s4)"
    "map (\<lambda>p. (length (dp_bytes p), dp_estimate p, dp_target p)) (sentPackets (cn_wire s2)) = [(24, 0, 2)]"
    "length (sentPackets (cn_wire s4)) = 1" "pendingAckCount s4 = 1" "networkConnected s4"
proof -
  obtain s4 where s4: "cube_sample = Some s4" "networkConnected s4" "length (sentPackets (cn_wire s4)) = 1" "pendingAckCount s4 = 1"
    using cube_sample_runs by auto
  from s4(1) obtain ok s2 s3 where s2: "cube_sample_sent = Some (ok, s2)" "checkAcks s2 = Some s3" "sleepAfterPass globals_init s3 = Some s4"
    unfolding cube_sample_def by (auto simp: bind_eq_Some_conv)
  from s2(1) obtain u where u: "cube_sample_up = Some u"
    by (auto simp: cube_sample_sent_def cube_sample_estimate_def bind_eq_Some_conv)
  then obtain ok1 s1 where s1: "cn_connect cube_sample_status cube_sample_start = Some (ok1, s1)" "cn_startupBlank s1 = Some u"
    by (auto simp: cube_sample_up_def bind_eq_Some_conv)
  have "cube_reachable (\<lambda>n. int n + 1) (CubeCreated, cube_sample_start)"
    unfolding cube_sample_start_def by (rule cube_reachable.step [OF cube_reachable.created cube_step.application])
  from cube_reachable.step [OF cube_reachable.step [OF this cube_step.connect [OF s1(1)]] cube_step.begins [OF s1(2)]]
  have r: "cube_reachable (\<lambda>n. int n + 1) (CubeRunning, u)" .
  note sends = cube_sample_sends [OF u, unfolded s2(1)] and sent = cube_sample_sent_runs [unfolded s2(1)]
  have up: "networkConnected u" "cn_running u 0"
    using cube_sample_up_runs [unfolded u] by auto
  have "cn_isRunning u = (True, snd (cn_isRunning u))" using up by (simp add: cn_isRunning_def)
  moreover have "cubePass globals_init (snd (cn_isRunning u)) = Some s4"
    using up(1) s2(2,3) sends [unfolded cube_sample_ready_def]
    by (simp add: cubePass_def) (simp add: cn_isRunning_def)
  ultimately have "cube_reachable (\<lambda>n. int n + 1) (CubeRunning, s4)" by (rule cube_reachable.step [OF r cube_step.passes])
  with that r up(1) sends s2(2) s4 sent show thesis by auto
qed

section \<open>Properties\<close>

text \<open>
  C13. The ring of unacknowledged packets is exact. In every reachable state, whatever the network
  answers, whatever acknowledgements arrive (late, repeated, for packets never sent) and whatever the
  application and the discovery thread do between the passes, there are 256 slots and
  \<open>pendingAckCount\<close> is the number of occupied ones, as long as the clock never reads the epoch, which
  marks an empty slot. So the count is never negative, and no acknowledgement is counted twice.
\<close>

theorem cube_ack_slots_exact:
  assumes "cube_reachable clk (phase, s)" and "\<And>n. 0 < clk n"
  shows "length (messageTimes s) = 256 \<and> pendingAckCount s = int (occupied (messageTimes s)) \<and> pendingAckCount s \<le> 256"
  using cube_reachable_ok [OF assms(1)] assms(2) occupied_le [of "messageTimes s"] by (auto simp: cube_ok_def)

theorem cube_ack_slots_exact_witness:
  "\<exists>s. cube_sample = Some s \<and> pendingAckCount s = 1 \<and> occupied (messageTimes s) = 1 \<and> length (messageTimes s) = 256"
proof -
  obtain s where s: "cube_sample = Some s" "cube_reachable (\<lambda>n. int n + 1) (CubeRunning, s)" "pendingAckCount s = 1"
    using cube_sample_reachable by metis
  from cube_ack_slots_exact [OF s(2)] s show ?thesis by auto
qed

text \<open>
  C12. The packets of every run. Whatever the callback or the frame queue delivers, the i-th data
  packet handed to the socket carries the number i modulo 256, has the header of the protocol and 10
  bytes for each of its 1 to 140 points, and was within budget: the estimated fullness plus its points
  is at most the target, the target is at most the capacity of the device and, where the capacity
  allows it, two full packets below. The worker sleeps 1 to 10 ms a pass, or 100 ms while it waits for
  a reconnect.
\<close>

theorem cube_packets_within_budget:
  assumes "cube_reachable clk (phase, s)"
  shows "(\<forall>i<length (sentPackets (cn_wire s)). cube_packet_ok i (sentPackets (cn_wire s) ! i)) \<and>
    list_all (\<lambda>ms. 1 \<le> ms \<and> ms \<le> 10 \<or> ms = 100) (cn_slept s)"
  using cube_reachable_ok [OF assms] by (simp add: wire_ok_def reconnectRetryDelay_def)

theorem cube_packets_within_budget_witness:
  "\<exists>s. cube_sample = Some s \<and> length (sentPackets (cn_wire s)) = 1 \<and> cube_packet_ok 0 (sentPackets (cn_wire s) ! 0)"
proof -
  obtain s where s: "cube_sample = Some s" "cube_reachable (\<lambda>n. int n + 1) (CubeRunning, s)" "length (sentPackets (cn_wire s)) = 1"
    using cube_sample_reachable by metis
  from cube_packets_within_budget [OF s(2)] s show ?thesis by auto
qed

text \<open>
  C14. When the connection is given up for missing acknowledgements. In a pass of a connected
  controller whose send did not fail, \<open>checkAcks\<close> leaves it connected unless, after the
  acknowledgements received and the slots older than a second given up, all 256 slots wait and one has
  waited for half a second; then, and only then, it disconnects, and the last error is the lost
  connection.
\<close>

theorem cube_stall_disconnects:
  assumes "cube_reachable clk (phase, s)" and "\<And>n. 0 < clk n"
    and "networkConnected s" and "cn_sendPoints g (cube_sample_ready s) = Some (ok, s2)"
    and "networkConnected s2" and "checkAcks s2 = Some s3"
  shows "networkConnected s3 = (\<not> waiting_long (cn_clock s2 0) (messageTimes s3)) \<and>
    (\<not> networkConnected s3 \<longrightarrow> lastErrorCode (controllerEvents (stream (cn_base s3))) = net_connectionLost \<and>
       \<not> hasConnection (controllerEvents (stream (cn_base s3))))"
proof -
  from cube_reachable_ok [OF assms(1)] assms(2,3) have s: "wire_ok s" "cube_ok s" "cn_sockets s" by (auto simp: wire_ok_def)
  have "cube_kept s (cube_sample_ready s) \<and> cn_sockets (cube_sample_ready s) = cn_sockets s"
    unfolding cube_sample_ready_def using cube_kept_syncPointRate cube_kept_settings(4,5) cube_kept_trans quiet_events(3,11)
    by (metis quiet_def)
  with s have "cube_ok (cube_sample_ready s)" "cn_sockets (cube_sample_ready s)" by (auto simp: cube_kept_def)
  with sendPoints_ok [OF assms(4)] have s2: "cube_ok s2" "cn_sockets s2" by auto
  obtain s1 where s1: "acked s2 s1" "cube_ok s1" "s3 = watchPending (cn_clock s2 0) s1"
    using checkAcks_runs [OF assms(6) s2(2)] s2(1) by metis
  then have "networkConnected s1" using assms(5) by (simp add: acked_def)
  with watchPending_ok [OF s1(2), of "cn_clock s2 0"] show ?thesis by (auto simp: s1(3))
qed

theorem cube_stall_disconnects_witness:
  "\<exists>ok u s2 s3. cn_sendPoints globals_init (cube_sample_ready u) = Some (ok, s2) \<and> checkAcks s2 = Some s3 \<and>
     networkConnected s3 = (\<not> waiting_long (cn_clock s2 0) (messageTimes s3))"
proof -
  obtain u ok s2 s3 where s: "cube_reachable (\<lambda>n. int n + 1) (CubeRunning, u)" "networkConnected u"
    "cn_sendPoints globals_init (cube_sample_ready u) = Some (ok, s2)" "networkConnected s2" "checkAcks s2 = Some s3"
    using cube_sample_reachable by metis
  from cube_stall_disconnects [OF s(1) _ s(2-5)] s show ?thesis by auto
qed

end
