(* ===== verification/Controller_Manager.thy ===== *)
theory Controller_Manager
  imports Text "HOL-Library.AList"
begin

text \<open>
  The lifecycle of controllers: core/ControllerCache.hpp and core/ControllerManagerBase.hpp.

  A controller object is an address. The world records what is visible of the objects: the
  strong references that keep each alive (what \<open>weak_ptr::lock\<close> tests), the calls made on
  them in order, and the answers of the environment to calls that may fail. A manager is its
  cache of weak references, with its derived class's own state; the virtual functions of the
  derived class are a record of functions. An \<open>unordered_map\<close> is an association list with
  distinct keys; the order in which one is iterated is unspecified, so it is a parameter, the
  position \<open>h_rank\<close> of each key.
\<close>

section \<open>Discovery records\<close>

record NetworkInfo =
  net_ip :: string
  net_port :: u16

datatype ControllerUsageState = UsageUnknown | UsageIdle | UsageActive | UsageBusyExclusive

text \<open>The base class, with the fields of the derived class (whichever it is) as the last field.\<close>

record 'p ControllerInfo =
  typeString :: string
  driverIdString :: string
  ci_id :: string
  ci_label :: string
  ci_maxPointRate :: u32
  ci_network :: "NetworkInfo option"
  ci_usage :: ControllerUsageState
  ci_derived :: 'p

definition newControllerInfo :: "string \<Rightarrow> string \<Rightarrow> string \<Rightarrow> u32 \<Rightarrow> NetworkInfo option \<Rightarrow> 'p \<Rightarrow> 'p ControllerInfo" where
  "newControllerInfo t i l r n d =
     \<lparr>typeString = t, driverIdString = '''', ci_id = i, ci_label = l, ci_maxPointRate = r, ci_network = n,
      ci_usage = UsageUnknown, ci_derived = d\<rparr>"

definition setDriverId :: "string \<Rightarrow> 'p ControllerInfo \<Rightarrow> 'p ControllerInfo" where
  "setDriverId v i = i\<lparr>driverIdString := v\<rparr>"

definition setUsageState :: "ControllerUsageState \<Rightarrow> 'p ControllerInfo \<Rightarrow> 'p ControllerInfo" where
  "setUsageState v i = i\<lparr>ci_usage := v\<rparr>"

section \<open>Controller objects\<close>

datatype call =
    Constructed nat | Destroyed nat | ConnectCalled nat bool | OpenCalled nat bool
  | ThreadStarted nat | ThreadStopped nat | CloseCalled nat | ShutdownPrepared nat
  | StatusUpdated nat | PointRateSet nat u32 | HealthEndpointSet nat | DiscoveryNoted nat
  | HealthStarted nat | HealthStopped nat | IndexUpdated nat u32
  | SettingsApplied nat bool | SettingsPublished nat | FrameQueueUsed nat

primrec subject :: "call \<Rightarrow> nat" where
  "subject (Constructed c) = c" | "subject (Destroyed c) = c" | "subject (ConnectCalled c b) = c"
| "subject (OpenCalled c b) = c" | "subject (ThreadStarted c) = c" | "subject (ThreadStopped c) = c"
| "subject (CloseCalled c) = c" | "subject (ShutdownPrepared c) = c" | "subject (StatusUpdated c) = c"
| "subject (PointRateSet c r) = c" | "subject (HealthEndpointSet c) = c" | "subject (DiscoveryNoted c) = c"
| "subject (HealthStarted c) = c" | "subject (HealthStopped c) = c" | "subject (IndexUpdated c i) = c"
| "subject (SettingsApplied c b) = c" | "subject (SettingsPublished c) = c" | "subject (FrameQueueUsed c) = c"

fun is_end :: "call \<Rightarrow> bool" where
  "is_end (ThreadStopped c) = True"
| "is_end (CloseCalled c) = True"
| "is_end _ = False"

record world =
  w_next :: nat
  w_refs :: "nat \<Rightarrow> nat"
  w_calls :: "call list"
  w_identity :: "nat \<Rightarrow> string \<times> string"
  w_up :: "nat \<Rightarrow> bool"
  w_answers :: "nat \<Rightarrow> bool"
  w_asked :: nat

definition called :: "call \<Rightarrow> world \<Rightarrow> world" where
  "called x w = w\<lparr>w_calls := w_calls w @ [x]\<rparr>"

definition ask :: "world \<Rightarrow> bool \<times> world" where
  "ask w = (w_answers w (w_asked w), w\<lparr>w_asked := Suc (w_asked w)\<rparr>)"

definition weak_lock :: "world \<Rightarrow> nat \<Rightarrow> bool" where
  "weak_lock w c = (0 < w_refs w c)"

definition retain :: "nat \<Rightarrow> world \<Rightarrow> world" where
  "retain c w = w\<lparr>w_refs := (w_refs w)(c := w_refs w c + 1)\<rparr>"

text \<open>Dropping the last reference runs the destructor.\<close>

definition release :: "nat \<Rightarrow> world \<Rightarrow> world" where
  "release c w =
     (let w' = w\<lparr>w_refs := (w_refs w)(c := w_refs w c - 1)\<rparr>
      in if w_refs w c = 1 then called (Destroyed c) w' else w')"

text \<open>\<open>std::make_shared\<close>: a fresh object with one reference, the one returned.\<close>

definition make_shared :: "world \<Rightarrow> nat \<times> world" where
  "make_shared w =
     (w_next w, called (Constructed (w_next w))
        (w\<lparr>w_next := Suc (w_next w), w_refs := (w_refs w)(w_next w := 1)\<rparr>))"

definition setControllerIdentity :: "nat \<Rightarrow> string \<Rightarrow> string \<Rightarrow> world \<Rightarrow> world" where
  "setControllerIdentity c i l w = w\<lparr>w_identity := (w_identity w)(c := (i, l))\<rparr>"

section \<open>The cache\<close>

type_synonym cache = "(string \<times> nat) list"

definition findLiveLocked :: "string \<Rightarrow> cache \<Rightarrow> world \<Rightarrow> nat option \<times> cache \<times> world" where
  "findLiveLocked key cs w =
     (case map_of cs key of
        None \<Rightarrow> (None, cs, w)
      | Some c \<Rightarrow> if weak_lock w c then (Some c, cs, retain c w) else (None, AList.delete key cs, w))"

definition makeController ::
  "('s \<Rightarrow> world \<Rightarrow> nat option \<times> 's \<times> world) \<Rightarrow> string \<Rightarrow> cache \<Rightarrow> 's \<Rightarrow> world
     \<Rightarrow> (nat \<times> bool) option \<times> cache \<times> 's \<times> world" where
  "makeController create key cs s w =
     (case create s w of
        (None, s', w') \<Rightarrow> (None, cs, s', w')
      | (Some c, s', w') \<Rightarrow> (Some (c, True), AList.update key c cs, s', w'))"

definition getOrCreateIf ::
  "(nat \<Rightarrow> 's \<Rightarrow> world \<Rightarrow> bool) \<Rightarrow> ('s \<Rightarrow> world \<Rightarrow> nat option \<times> 's \<times> world) \<Rightarrow> string \<Rightarrow> cache \<Rightarrow> 's \<Rightarrow> world
     \<Rightarrow> (nat \<times> bool) option \<times> cache \<times> 's \<times> world" where
  "getOrCreateIf reuse create key cs s w =
     (case map_of cs key of
        None \<Rightarrow> makeController create key cs s w
      | Some c \<Rightarrow>
          if weak_lock w c
          then if reuse c s (retain c w) then (Some (c, False), cs, s, retain c w)
               else makeController create key (AList.delete key cs) s (release c (retain c w))
          else makeController create key (AList.delete key cs) s w)"

definition getOrCreate ::
  "('s \<Rightarrow> world \<Rightarrow> nat option \<times> 's \<times> world) \<Rightarrow> string \<Rightarrow> cache \<Rightarrow> 's \<Rightarrow> world
     \<Rightarrow> (nat \<times> bool) option \<times> cache \<times> 's \<times> world" where
  "getOrCreate = getOrCreateIf (\<lambda>_ _ _. True)"

definition cache_take :: "string \<Rightarrow> cache \<Rightarrow> world \<Rightarrow> nat option \<times> cache \<times> world" where
  "cache_take key cs w =
     (case map_of cs key of
        None \<Rightarrow> (None, cs, w)
      | Some c \<Rightarrow> if weak_lock w c then (Some c, AList.delete key cs, retain c w) else (None, AList.delete key cs, w))"

definition liveEntries :: "cache \<Rightarrow> world \<Rightarrow> cache" where
  "liveEntries cs w = filter (\<lambda>(k, c). weak_lock w c) cs"

definition snapshotLocked :: "bool \<Rightarrow> cache \<Rightarrow> world \<Rightarrow> cache \<times> cache \<times> world" where
  "snapshotLocked clearAfter cs w =
     (let live = liveEntries cs w
      in (live, if clearAfter then [] else live, fold (\<lambda>(k, c). retain c) live w))"

definition dropSnapshot :: "cache \<Rightarrow> world \<Rightarrow> world" where
  "dropSnapshot live w = fold (\<lambda>(k, c). release c) live w"

section \<open>The manager base class\<close>

datatype NewControllerDisposition = KeepController | DropController

record ('p, 's) Hooks =
  h_isInfo :: "'p \<Rightarrow> bool"
  h_key :: "'p ControllerInfo \<Rightarrow> string"
  h_create :: "'p ControllerInfo \<Rightarrow> 's \<Rightarrow> world \<Rightarrow> nat option \<times> 's \<times> world"
  h_reuse :: "nat \<Rightarrow> 'p ControllerInfo \<Rightarrow> 's \<Rightarrow> world \<Rightarrow> bool"
  h_prepareNew :: "nat \<Rightarrow> 'p ControllerInfo \<Rightarrow> 's \<Rightarrow> world \<Rightarrow> NewControllerDisposition \<times> 's \<times> world"
  h_prepareExisting :: "nat \<Rightarrow> 'p ControllerInfo \<Rightarrow> 's \<Rightarrow> world \<Rightarrow> 's \<times> world"
  h_beforeClose :: "'s \<Rightarrow> world \<Rightarrow> 's \<times> world"
  h_afterClose :: "'s \<Rightarrow> world \<Rightarrow> 's \<times> world"
  h_stop :: "nat \<Rightarrow> 's \<Rightarrow> world \<Rightarrow> 's \<times> world"
  h_disconnect :: "string \<Rightarrow> nat \<Rightarrow> 's \<Rightarrow> world \<Rightarrow> 's \<times> world"
  h_close :: "string \<Rightarrow> nat \<Rightarrow> 's \<Rightarrow> world \<Rightarrow> 's \<times> world"
  h_rank :: "string \<Rightarrow> nat"

record 's Manager =
  m_type :: string
  m_cache :: cache
  m_own :: 's

text \<open>The default bodies of the virtual functions.\<close>

definition default_key :: "'p ControllerInfo \<Rightarrow> string" where
  "default_key i = ci_id i"

definition default_reuse :: "nat \<Rightarrow> 'p ControllerInfo \<Rightarrow> 's \<Rightarrow> world \<Rightarrow> bool" where
  "default_reuse c i s w = True"

definition default_prepareExisting :: "nat \<Rightarrow> 'p ControllerInfo \<Rightarrow> 's \<Rightarrow> world \<Rightarrow> 's \<times> world" where
  "default_prepareExisting c i s w = (s, w)"

definition default_aroundClose :: "'s \<Rightarrow> world \<Rightarrow> 's \<times> world" where
  "default_aroundClose s w = (s, w)"

definition default_stop :: "nat \<Rightarrow> 's \<Rightarrow> world \<Rightarrow> 's \<times> world" where
  "default_stop c s w = (s, called (ThreadStopped c) w)"

definition default_disconnect ::
  "(string \<Rightarrow> nat \<Rightarrow> 's \<Rightarrow> world \<Rightarrow> 's \<times> world) \<Rightarrow> string \<Rightarrow> nat \<Rightarrow> 's \<Rightarrow> world \<Rightarrow> 's \<times> world" where
  "default_disconnect close key c s w = (case default_stop c s w of (s1, w1) \<Rightarrow> close key c s1 w1)"

definition mgr_connect ::
  "('p, 's) Hooks \<Rightarrow> 'p ControllerInfo \<Rightarrow> 's Manager \<Rightarrow> world \<Rightarrow> nat option \<times> 's Manager \<times> world" where
  "mgr_connect H info m w =
     (if \<not> h_isInfo H (ci_derived info) then (None, m, w)
      else case getOrCreateIf (\<lambda>c. h_reuse H c info) (h_create H info) (h_key H info) (m_cache m) (m_own m) w of
        (None, cs, s, w1) \<Rightarrow> (None, m\<lparr>m_cache := cs, m_own := s\<rparr>, w1)
      | (Some (c, created), cs, s, w1) \<Rightarrow>
          if created
          then case h_prepareNew H c info s w1 of
                 (DropController, s2, w2) \<Rightarrow>
                    (None, m\<lparr>m_cache := AList.delete (h_key H info) cs, m_own := s2\<rparr>, release c w2)
               | (KeepController, s2, w2) \<Rightarrow> (Some c, m\<lparr>m_cache := cs, m_own := s2\<rparr>, w2)
          else case h_prepareExisting H c info s w1 of
                 (s2, w2) \<Rightarrow> (Some c, m\<lparr>m_cache := cs, m_own := s2\<rparr>, w2))"

definition mgr_disconnect ::
  "('p, 's) Hooks \<Rightarrow> string \<Rightarrow> 's Manager \<Rightarrow> world \<Rightarrow> bool \<times> 's Manager \<times> world" where
  "mgr_disconnect H key m w =
     (case cache_take key (m_cache m) w of
        (None, cs, w1) \<Rightarrow> (False, m\<lparr>m_cache := cs\<rparr>, w1)
      | (Some c, cs, w1) \<Rightarrow>
          (case h_disconnect H key c (m_own m) w1 of
             (s2, w2) \<Rightarrow> (True, m\<lparr>m_cache := cs, m_own := s2\<rparr>, release c w2)))"

definition stopAndClose :: "('p, 's) Hooks \<Rightarrow> string \<times> nat \<Rightarrow> 's \<times> world \<Rightarrow> 's \<times> world" where
  "stopAndClose H e sw =
     (case h_stop H (snd e) (fst sw) (snd sw) of (s1, w1) \<Rightarrow> h_close H (fst e) (snd e) s1 w1)"

text \<open>The order in which an unordered map with these entries is iterated.\<close>

definition iterated :: "(string \<Rightarrow> nat) \<Rightarrow> (string \<times> 'a) list \<Rightarrow> (string \<times> 'a) list" where
  "iterated rank entries = sort_key (\<lambda>e. rank (fst e)) entries"

definition mgr_closeAll :: "('p, 's) Hooks \<Rightarrow> 's Manager \<Rightarrow> world \<Rightarrow> 's Manager \<times> world" where
  "mgr_closeAll H m w =
     (case h_beforeClose H (m_own m) w of (s1, w1) \<Rightarrow>
      case snapshotLocked True (m_cache m) w1 of (live, cs, w2) \<Rightarrow>
      case fold (stopAndClose H) (iterated (h_rank H) live) (s1, w2) of (s3, w3) \<Rightarrow>
      case h_afterClose H s3 (dropSnapshot live w3) of (s4, w4) \<Rightarrow>
        (m\<lparr>m_cache := cs, m_own := s4\<rparr>, w4))"

definition liveControllers :: "'s Manager \<Rightarrow> world \<Rightarrow> cache \<times> 's Manager \<times> world" where
  "liveControllers m w =
     (case snapshotLocked False (m_cache m) w of (live, cs, w1) \<Rightarrow> (live, m\<lparr>m_cache := cs\<rparr>, w1))"

definition findLiveController :: "string \<Rightarrow> 's Manager \<Rightarrow> world \<Rightarrow> nat option \<times> 's Manager \<times> world" where
  "findLiveController key m w =
     (case findLiveLocked key (m_cache m) w of (r, cs, w1) \<Rightarrow> (r, m\<lparr>m_cache := cs\<rparr>, w1))"

definition dropLiveController :: "string \<Rightarrow> 's Manager \<Rightarrow> 's Manager" where
  "dropLiveController key m = m\<lparr>m_cache := AList.delete key (m_cache m)\<rparr>"

end
