(* ===== verification/Manager_Lifecycle.thy ===== *)
theory Manager_Lifecycle
  imports Controller_Manager
begin

text \<open>
  What ControllerManagerBase promises, proved once for every backend. The locale
  \<open>backend\<close> states what the base class expects of the virtual functions it calls (a created
  controller is a fresh object, the hooks act on the controller they are given, closing calls
  \<open>close()\<close> once); \<open>reusing_backend\<close> adds that a live controller is always reused. From them:
  the cache holds at most one object per key, the object handed out was never closed, a
  shutdown stops and closes every live cached controller exactly once, and no controller is
  left alive and open outside the cache.
\<close>

section \<open>Effects on the objects\<close>

fun is_life :: "call \<Rightarrow> bool" where
  "is_life (Constructed c) = True"
| "is_life (Destroyed c) = True"
| "is_life _ = False"

definition ends :: "call list \<Rightarrow> call list" where
  "ends l = filter is_end l"

definition same_objects :: "world \<Rightarrow> world \<Rightarrow> bool" where
  "same_objects w w' = (w_next w' = w_next w \<and> w_refs w' = w_refs w \<and> w_calls w' = w_calls w)"

definition calls_on :: "nat \<Rightarrow> call list \<Rightarrow> world \<Rightarrow> world \<Rightarrow> bool" where
  "calls_on c l w w' =
     (w_next w' = w_next w \<and> w_refs w' = w_refs w \<and> w_calls w' = w_calls w @ l \<and>
      list_all (\<lambda>x. subject x = c \<and> \<not> is_life x) l)"

definition made :: "nat \<Rightarrow> call list \<Rightarrow> world \<Rightarrow> world \<Rightarrow> bool" where
  "made c l w w' =
     (c = w_next w \<and> w_next w' = Suc c \<and> w_refs w' = (w_refs w)(c := 1) \<and>
      w_calls w' = w_calls w @ Constructed c # l \<and> list_all (\<lambda>x. subject x = c \<and> \<not> is_life x) l)"

named_theorems object_simps "what each primitive does to the objects"

lemma ends_simps [object_simps]:
  "ends [] = []"
  "ends (x # l) = (if is_end x then x # ends l else ends l)"
  "ends (l @ l') = ends l @ ends l'"
  by (simp_all add: ends_def)

lemma called_simps [object_simps]:
  "w_next (called x w) = w_next w"
  "w_refs (called x w) = w_refs w"
  "w_calls (called x w) = w_calls w @ [x]"
  by (simp_all add: called_def)

lemma ask_simps [object_simps]:
  "w_next (snd (ask w)) = w_next w"
  "w_refs (snd (ask w)) = w_refs w"
  "w_calls (snd (ask w)) = w_calls w"
  by (simp_all add: ask_def)

lemma retain_simps [object_simps]:
  "w_next (retain c w) = w_next w"
  "w_refs (retain c w) = (w_refs w)(c := w_refs w c + 1)"
  "w_calls (retain c w) = w_calls w"
  by (simp_all add: retain_def)

lemma release_simps [object_simps]:
  "w_next (release c w) = w_next w"
  "w_refs (release c w) = (w_refs w)(c := w_refs w c - 1)"
  "w_calls (release c w) = (if w_refs w c = 1 then w_calls w @ [Destroyed c] else w_calls w)"
  by (simp_all add: release_def called_def Let_def)

lemma release_retain: "weak_lock w c \<Longrightarrow> release c (retain c w) = w"
  by (simp add: release_def retain_def weak_lock_def Let_def)

lemma make_shared_made: "make_shared w = (c, w') \<Longrightarrow> made c [] w w'"
  by (auto simp: make_shared_def made_def called_def)

lemma same_objectsI [intro]: "same_objects w w"
  by (simp add: same_objects_def)

lemma same_objects_trans: "same_objects u v \<Longrightarrow> same_objects v w \<Longrightarrow> same_objects u w"
  by (simp add: same_objects_def)

lemma calls_on_same: "same_objects w w' \<Longrightarrow> calls_on c [] w w'"
  by (simp add: same_objects_def calls_on_def)

lemma calls_on_called: "subject x = c \<Longrightarrow> \<not> is_life x \<Longrightarrow> calls_on c [x] w (called x w)"
  by (simp add: calls_on_def called_simps)

lemma calls_on_trans: "calls_on c l u v \<Longrightarrow> calls_on c l' v w \<Longrightarrow> calls_on c (l @ l') u w"
  by (simp add: calls_on_def)

section \<open>Association lists of distinct keys\<close>

lemma update_new_key: "map_of cs k = None \<Longrightarrow> AList.update k c cs = cs @ [(k, c)]"
  by (induction cs) (auto split: if_splits)

lemma map_of_delete_None: "map_of (AList.delete k cs) k = None"
  by (simp add: AList.delete_conv')

lemma delete_as_filter: "AList.delete k cs = filter (\<lambda>e. fst e \<noteq> k) cs"
  by (induction cs) auto

lemma distinct_map_delete: "distinct (map f cs) \<Longrightarrow> distinct (map f (AList.delete k cs))"
  by (simp add: delete_as_filter distinct_map_filter)

lemma map_of_in: "map_of cs k = Some c \<Longrightarrow> c \<in> snd ` set cs"
  by (force dest: map_of_SomeD)

lemma delete_drops_entry:
  assumes "distinct (map snd cs)" "map_of cs k = Some c"
  shows "c \<notin> snd ` set (AList.delete k cs)"
proof
  assume "c \<in> snd ` set (AList.delete k cs)"
  then obtain k' where "(k', c) \<in> set cs" "k' \<noteq> k" by (auto simp: delete_as_filter)
  moreover have "(k, c) \<in> set cs" using assms(2) by (rule map_of_SomeD)
  ultimately show False using assms(1) by (force simp: distinct_map inj_on_def)
qed

lemma delete_keeps_others:
  assumes "distinct (map fst cs)" "map_of cs k = Some c"
  shows "snd ` set cs \<subseteq> insert c (snd ` set (AList.delete k cs))"
proof
  fix d assume "d \<in> snd ` set cs"
  then obtain k' where k': "(k', d) \<in> set cs" by auto
  show "d \<in> insert c (snd ` set (AList.delete k cs))"
  proof (cases "k' = k")
    case True
    with k' assms have "d = c" by (auto dest: map_of_is_SomeI)
    then show ?thesis by simp
  next
    case False
    with k' show ?thesis by (force simp: delete_as_filter)
  qed
qed

lemma delete_subset: "snd ` set (AList.delete k cs) \<subseteq> snd ` set cs"
  by (auto simp: delete_as_filter)

section \<open>The invariant\<close>

definition addresses :: "cache \<Rightarrow> nat set" where
  "addresses cs = snd ` set cs"

text \<open>\<open>C\<close>: every cached address, of this manager and of the others.\<close>

definition world_ok :: "nat set \<Rightarrow> world \<Rightarrow> bool" where
  "world_ok C w =
     ((\<forall>c\<in>C. c < w_next w) \<and> (\<forall>c\<ge>w_next w. w_refs w c = 0) \<and> (\<forall>x\<in>set (w_calls w). subject x < w_next w) \<and>
      (\<forall>c\<in>C. 0 < w_refs w c \<longrightarrow> CloseCalled c \<notin> set (w_calls w)))"

definition no_orphans :: "nat set \<Rightarrow> world \<Rightarrow> bool" where
  "no_orphans C w = (\<forall>c. 0 < w_refs w c \<longrightarrow> CloseCalled c \<notin> set (w_calls w) \<longrightarrow> c \<in> C)"

definition cache_ok :: "nat set \<Rightarrow> cache \<Rightarrow> bool" where
  "cache_ok R cs = (distinct (map fst cs) \<and> distinct (map snd cs) \<and> addresses cs \<inter> R = {})"

definition mgr_ok :: "nat set \<Rightarrow> cache \<Rightarrow> world \<Rightarrow> bool" where
  "mgr_ok R cs w = (cache_ok R cs \<and> world_ok (addresses cs \<union> R) w)"

lemma cache_ok_delete: "cache_ok R cs \<Longrightarrow> cache_ok R (AList.delete k cs)"
  using delete_subset by (fastforce simp: cache_ok_def addresses_def distinct_map_delete)

lemma world_ok_mono: "world_ok C w \<Longrightarrow> D \<subseteq> C \<Longrightarrow> world_ok D w"
  by (auto simp: world_ok_def)

lemma mgr_ok_delete: "mgr_ok R cs w \<Longrightarrow> mgr_ok R (AList.delete k cs) w"
  using delete_subset [of k cs]
  by (auto simp: mgr_ok_def cache_ok_delete addresses_def elim!: world_ok_mono)

lemma world_ok_same: "same_objects w w' \<Longrightarrow> world_ok C w \<Longrightarrow> world_ok C w'"
  by (simp add: world_ok_def same_objects_def)

lemma no_orphans_same: "same_objects w w' \<Longrightarrow> no_orphans C w \<Longrightarrow> no_orphans C w'"
  by (simp add: no_orphans_def same_objects_def)

lemma not_closed_in: "ends l = [] \<Longrightarrow> CloseCalled c \<notin> set l"
  by (auto simp: ends_def filter_empty_conv dest: bspec)

lemma subjects_of: "list_all (\<lambda>x. subject x = c \<and> P x) l \<Longrightarrow> CloseCalled d \<in> set l \<Longrightarrow> d = c"
  by (auto simp: list_all_iff)

lemma world_ok_calls:
  assumes "calls_on c l w w'" "world_ok C w" "c < w_next w" "ends l = [] \<or> c \<notin> C"
  shows "world_ok C w'"
proof -
  have calls: "w_calls w' = w_calls w @ l" and next_refs: "w_next w' = w_next w" "w_refs w' = w_refs w"
    and subj: "list_all (\<lambda>x. subject x = c \<and> \<not> is_life x) l"
    using assms(1) by (simp_all add: calls_on_def)
  have "CloseCalled d \<notin> set l" if "d \<in> C" for d
    using assms(4) that not_closed_in [of l d] subjects_of [OF subj] by blast
  moreover have "subject x < w_next w" if "x \<in> set l" for x
    using subj that assms(3) by (simp add: list_all_iff)
  ultimately show ?thesis
    using assms(2) by (auto simp: world_ok_def calls next_refs)
qed

lemma no_orphans_calls: "calls_on c l w w' \<Longrightarrow> no_orphans C w \<Longrightarrow> no_orphans C w'"
  by (auto simp: no_orphans_def calls_on_def)

lemma world_ok_retain: "world_ok C w \<Longrightarrow> c < w_next w \<Longrightarrow> weak_lock w c \<Longrightarrow> world_ok C (retain c w)"
  by (auto simp: world_ok_def object_simps weak_lock_def)

lemma no_orphans_retain: "no_orphans C w \<Longrightarrow> weak_lock w c \<Longrightarrow> no_orphans C (retain c w)"
  by (auto simp: no_orphans_def object_simps weak_lock_def)

lemma world_ok_release: "world_ok C w \<Longrightarrow> c < w_next w \<Longrightarrow> world_ok C (release c w)"
  by (auto simp: world_ok_def object_simps)

lemma no_orphans_release: "no_orphans C w \<Longrightarrow> no_orphans C (release c w)"
  by (auto simp: no_orphans_def object_simps split: if_splits)

lemma world_ok_made:
  assumes "made c l w w'" "world_ok C w" "ends l = []"
  shows "world_ok (insert c C) w'"
proof -
  have "CloseCalled c \<notin> set (w_calls w)" using assms(1,2) by (force simp: made_def world_ok_def)
  with assms show ?thesis
    using not_closed_in [of l] by (auto simp: world_ok_def made_def list_all_iff less_Suc_eq)
qed

lemma no_orphans_made: "made c l w w' \<Longrightarrow> no_orphans C w \<Longrightarrow> no_orphans (insert c C) w'"
  by (auto simp: no_orphans_def made_def split: if_splits)

lemma no_orphans_gone:
  assumes "distinct (map fst cs)" "map_of cs k = Some c" "no_orphans (addresses cs \<union> R) w"
    "w_refs w c = 0 \<or> CloseCalled c \<in> set (w_calls w)"
  shows "no_orphans (addresses (AList.delete k cs) \<union> R) w"
  unfolding no_orphans_def
proof (intro allI impI)
  fix d assume d: "0 < w_refs w d" "CloseCalled d \<notin> set (w_calls w)"
  with assms(4) have "d \<noteq> c" by auto
  moreover have "d \<in> addresses cs \<union> R" using assms(3) d by (simp add: no_orphans_def)
  ultimately show "d \<in> addresses (AList.delete k cs) \<union> R"
    using delete_keeps_others [OF assms(1,2)] by (auto simp: addresses_def)
qed

section \<open>Snapshots\<close>

lemma hold_snapshot:
  "w_next (fold (\<lambda>(k, c). retain c) live w) = w_next w"
  "w_refs (fold (\<lambda>(k, c). retain c) live w) = (\<lambda>c. w_refs w c + count_list (map snd live) c)"
  "w_calls (fold (\<lambda>(k, c). retain c) live w) = w_calls w"
  by (induction live arbitrary: w) (auto simp: object_simps fun_eq_iff)

lemma drop_snapshot:
  assumes "\<forall>c\<in>snd ` set live. count_list (map snd live) c < w_refs w c"
  shows "w_next (dropSnapshot live w) = w_next w \<and>
         w_refs (dropSnapshot live w) = (\<lambda>c. w_refs w c - count_list (map snd live) c) \<and>
         w_calls (dropSnapshot live w) = w_calls w"
  using assms
proof (induction live arbitrary: w)
  case Nil
  show ?case by (simp add: dropSnapshot_def)
next
  case (Cons e live)
  obtain k c where e: "e = (k, c)" by fastforce
  have two: "1 + count_list (map snd live) c < w_refs w c" using Cons.prems by (simp add: e)
  have "\<forall>d\<in>snd ` set live. count_list (map snd live) d < w_refs (release c w) d"
    using Cons.prems two by (auto simp: e object_simps split: if_splits)
  from Cons.IH [OF this] two show ?case
    by (auto simp: dropSnapshot_def e object_simps fun_eq_iff)
qed

lemma count_distinct: "distinct (map snd live) \<Longrightarrow> c \<in> snd ` set live \<Longrightarrow> count_list (map snd live) c = 1"
proof (induction live)
  case (Cons e live)
  then show ?case by (cases "snd e = c") (auto simp: count_list_0_iff)
qed simp

lemma snapshot_released:
  assumes "distinct (map snd cs)" "live = liveEntries cs w"
    and "w_refs v = w_refs (fold (\<lambda>(k, c). retain c) live w)"
  shows "w_refs (dropSnapshot live v) = w_refs w \<and> w_next (dropSnapshot live v) = w_next v \<and>
         w_calls (dropSnapshot live v) = w_calls v"
proof -
  have "distinct (map snd live)" using assms(1,2) by (simp add: liveEntries_def distinct_map_filter)
  then have "\<forall>c\<in>snd ` set live. count_list (map snd live) c < w_refs v c"
    using assms(2,3) by (auto simp: hold_snapshot count_distinct liveEntries_def weak_lock_def)
  from drop_snapshot [OF this] assms(3) show ?thesis by (simp add: hold_snapshot)
qed

section \<open>The contract of the virtual functions\<close>

definition ended :: "nat \<Rightarrow> call list" where
  "ended c = [ThreadStopped c, CloseCalled c]"

lemma ended_closed: "ends l = ended c \<Longrightarrow> CloseCalled c \<in> set l"
proof -
  assume "ends l = ended c"
  then have "CloseCalled c \<in> set (ends l)" by (simp add: ended_def)
  then show ?thesis by (simp add: ends_def)
qed

text \<open>
  The operations on a manager from outside: the calls of \<open>System\<close>, the lookups a discovery
  thread makes, and what else happens between them (a client copies or drops a pointer it
  holds, a device goes up or down).
\<close>

datatype 'p manager_op =
    Connect "'p ControllerInfo" | Disconnect string | CloseAll
  | Snapshot | FindLive string | CopyPointer nat | DropPointer nat | LinkChanged nat bool

definition mgr_step :: "('p, 's) Hooks \<Rightarrow> 'p manager_op \<Rightarrow> 's Manager \<times> world \<Rightarrow> 's Manager \<times> world" where
  "mgr_step H x mw =
     (case mw of (m, w) \<Rightarrow>
      case x of
        Connect i \<Rightarrow> snd (mgr_connect H i m w)
      | Disconnect k \<Rightarrow> snd (mgr_disconnect H k m w)
      | CloseAll \<Rightarrow> mgr_closeAll H m w
      | Snapshot \<Rightarrow> (case liveControllers m w of (live, m', w') \<Rightarrow> (m', dropSnapshot live w'))
      | FindLive k \<Rightarrow>
          (case findLiveController k m w of
             (None, m', w') \<Rightarrow> (m', w') | (Some c, m', w') \<Rightarrow> (m', release c w'))
      | CopyPointer c \<Rightarrow> (m, if weak_lock w c then retain c w else w)
      | DropPointer c \<Rightarrow> (m, if weak_lock w c then release c w else w)
      | LinkChanged c b \<Rightarrow> (m, w\<lparr>w_up := (w_up w)(c := b)\<rparr>))"

definition mgr_run :: "('p, 's) Hooks \<Rightarrow> 'p manager_op list \<Rightarrow> 's Manager \<times> world \<Rightarrow> 's Manager \<times> world" where
  "mgr_run H xs mw = fold (mgr_step H) xs mw"

locale backend =
  fixes H :: "('p, 's) Hooks"
  assumes create_none: "h_create H i s w = (None, s', w') \<Longrightarrow> same_objects w w'"
    and create_some: "h_create H i s w = (Some c, s', w') \<Longrightarrow> \<exists>l. made c l w w' \<and> ends l = []"
    and prepareNew: "h_prepareNew H c i s w = (d, s', w') \<Longrightarrow>
                       \<exists>l. calls_on c l w w' \<and> (d = KeepController \<longrightarrow> ends l = [])"
    and prepareExisting: "h_prepareExisting H c i s w = (s', w') \<Longrightarrow> \<exists>l. calls_on c l w w' \<and> ends l = []"
    and beforeClose: "h_beforeClose H s w = (s', w') \<Longrightarrow> same_objects w w'"
    and afterClose: "h_afterClose H s w = (s', w') \<Longrightarrow> same_objects w w'"
    and stop: "h_stop H c s w = (s', w') \<Longrightarrow> \<exists>l. calls_on c l w w' \<and> ends l = [ThreadStopped c]"
    and close: "h_close H k c s w = (s', w') \<Longrightarrow> \<exists>l. calls_on c l w w' \<and> ends l = [CloseCalled c]"
    and disconnect: "h_disconnect H k c s w = (s', w') \<Longrightarrow> \<exists>l. calls_on c l w w' \<and> ends l = ended c"
begin

lemma order_set: "set (iterated (h_rank H) cs) = set cs"
  by (simp add: iterated_def)

lemma stopAndClose_calls:
  "stopAndClose H (k, c) (s, w) = (s', w') \<Longrightarrow> \<exists>l. calls_on c l w w' \<and> ends l = ended c"
proof -
  assume r: "stopAndClose H (k, c) (s, w) = (s', w')"
  obtain s1 w1 where 1: "h_stop H c s w = (s1, w1)" by fastforce
  with r have 2: "h_close H k c s1 w1 = (s', w')" by (simp add: stopAndClose_def)
  from stop [OF 1] close [OF 2] show ?thesis
    by (auto simp: ended_def object_simps dest: calls_on_trans)
qed

lemma closing_calls:
  "fold (stopAndClose H) es (s, w) = (s', w') \<Longrightarrow>
     w_next w' = w_next w \<and> w_refs w' = w_refs w \<and>
     (\<exists>l. w_calls w' = w_calls w @ l \<and> ends l = concat (map (\<lambda>e. ended (snd e)) es) \<and>
          (\<forall>x\<in>set l. subject x \<in> snd ` set es))"
proof (induction es arbitrary: s w)
  case Nil
  then show ?case by (simp add: object_simps)
next
  case (Cons e es)
  obtain k c where e: "e = (k, c)" by fastforce
  obtain s1 w1 where 1: "stopAndClose H (k, c) (s, w) = (s1, w1)" by fastforce
  obtain l where l: "calls_on c l w w1" "ends l = ended c" using stopAndClose_calls [OF 1] by blast
  from Cons.prems 1 have "fold (stopAndClose H) es (s1, w1) = (s', w')" by (simp add: e)
  from Cons.IH [OF this] obtain l' where
    "w_next w' = w_next w1" "w_refs w' = w_refs w1" "w_calls w' = w_calls w1 @ l'"
    "ends l' = concat (map (\<lambda>e. ended (snd e)) es)" "\<forall>x\<in>set l'. subject x \<in> snd ` set es" by blast
  with l show ?case
    by (auto simp: e calls_on_def object_simps list_all_iff intro!: exI [of _ "l @ l'"])
qed

text \<open>What a shutdown does to the objects.\<close>

lemma closeAll_effect:
  assumes "distinct (map snd (m_cache m))" "mgr_closeAll H m w = (m', w')"
  shows "m_cache m' = [] \<and> w_next w' = w_next w \<and> w_refs w' = w_refs w \<and>
     (\<exists>l. w_calls w' = w_calls w @ l \<and>
          ends l = concat (map (\<lambda>e. ended (snd e)) (iterated (h_rank H) (liveEntries (m_cache m) w))) \<and>
          (\<forall>x\<in>set l. subject x \<in> addresses (m_cache m)))"
proof -
  obtain s1 w1 where 1: "h_beforeClose H (m_own m) w = (s1, w1)" by fastforce
  note same1 = beforeClose [OF 1, unfolded same_objects_def]
  define live where "live = liveEntries (m_cache m) w1"
  have live_w: "live = liveEntries (m_cache m) w"
    using same1 by (simp add: live_def liveEntries_def weak_lock_def)
  define w2 where "w2 = fold (\<lambda>(k, c). retain c) live w1"
  obtain s3 w3 where 3: "fold (stopAndClose H) (iterated (h_rank H) live) (s1, w2) = (s3, w3)" by fastforce
  obtain s4 w4 where 4: "h_afterClose H s3 (dropSnapshot live w3) = (s4, w4)" by fastforce
  note same4 = afterClose [OF 4, unfolded same_objects_def]
  from closing_calls [OF 3] obtain l where l: "w_next w3 = w_next w2" "w_refs w3 = w_refs w2"
    "w_calls w3 = w_calls w2 @ l" "ends l = concat (map (\<lambda>e. ended (snd e)) (iterated (h_rank H) live))"
    "\<forall>x\<in>set l. subject x \<in> snd ` set (iterated (h_rank H) live)" by blast
  have drop: "w_refs (dropSnapshot live w3) = w_refs w1" "w_next (dropSnapshot live w3) = w_next w3"
    "w_calls (dropSnapshot live w3) = w_calls w3"
    using snapshot_released [OF assms(1) live_def, of w3] l(2) by (simp_all add: w2_def)
  have "m' = m\<lparr>m_cache := [], m_own := s4\<rparr>" "w' = w4"
    using assms(2) 1 3 4 by (simp_all add: mgr_closeAll_def snapshotLocked_def Let_def live_def w2_def)
  moreover have "snd ` set (iterated (h_rank H) live) \<subseteq> addresses (m_cache m)"
    by (auto simp: order_set live_def liveEntries_def addresses_def)
  ultimately show ?thesis
    using same1 same4 drop l live_w by (auto simp: w2_def hold_snapshot subset_iff)
qed

lemma made_mgr_ok:
  assumes "mgr_ok R cs w" "map_of cs k = None" "made c l w w'" "ends l = []"
  shows "mgr_ok R (cs @ [(k, c)]) w'"
proof -
  have "c = w_next w" using assms(3) by (simp add: made_def)
  then have "c \<notin> addresses cs \<union> R" using assms(1) by (auto simp: mgr_ok_def world_ok_def)
  moreover have "k \<notin> fst ` set cs" using assms(2) by (simp add: map_of_eq_None_iff)
  moreover have "world_ok (insert c (addresses cs \<union> R)) w'"
    using world_ok_made [OF assms(3) _ assms(4)] assms(1) by (simp add: mgr_ok_def)
  ultimately show ?thesis
    using assms(1) by (auto simp: mgr_ok_def cache_ok_def addresses_def)
qed

lemma makeController_ok:
  assumes ok: "mgr_ok R cs w" and new: "map_of cs k = None"
    and run: "makeController (h_create H i) k cs s w = (r, cs', s', w')"
  shows "mgr_ok R cs' w' \<and>
     (no_orphans (addresses cs \<union> R) w \<longrightarrow> no_orphans (addresses cs' \<union> R) w') \<and>
     (case r of None \<Rightarrow> map_of cs' k = None
      | Some (c, b) \<Rightarrow> b \<and> map_of cs' k = Some c \<and> w_refs w' c = 1 \<and> c < w_next w' \<and> c \<notin> addresses cs \<union> R)"
proof (cases "h_create H i s w")
  case (fields a s1 w1)
  show ?thesis
  proof (cases a)
    case None
    with fields run have "r = None" "cs' = cs" "same_objects w w'"
      using create_none [of i s w s1 w1] by (auto simp: makeController_def)
    with ok new show ?thesis
      by (auto simp: mgr_ok_def elim: world_ok_same no_orphans_same)
  next
    case (Some c)
    with fields run have r: "r = Some (c, True)" "cs' = AList.update k c cs" "w' = w1"
      by (auto simp: makeController_def)
    from fields Some obtain l where l: "made c l w w'" "ends l = []"
      using create_some [of i s w c s1 w1] r by auto
    have "cs' = cs @ [(k, c)]" using r new by (simp add: update_new_key)
    moreover have "c \<notin> addresses cs \<union> R" using l(1) ok by (auto simp: made_def mgr_ok_def world_ok_def)
    moreover have "mgr_ok R (cs @ [(k, c)]) w'" by (rule made_mgr_ok [OF ok new l])
    ultimately show ?thesis
      using r l(1) new no_orphans_made [OF l(1)]
      by (auto simp: made_def map_add_def addresses_def map_of_append)
  qed
qed

lemma acquire_ok:
  assumes ok: "mgr_ok R cs w"
    and run: "getOrCreateIf reuse (h_create H i) k cs s w = (r, cs', s', w')"
  shows "mgr_ok R cs' w' \<and>
     ((\<forall>c v. reuse c s v) \<longrightarrow> no_orphans (addresses cs \<union> R) w \<longrightarrow> no_orphans (addresses cs' \<union> R) w') \<and>
     (case r of None \<Rightarrow> map_of cs' k = None
      | Some (c, b) \<Rightarrow> map_of cs' k = Some c \<and> 0 < w_refs w' c \<and> c < w_next w' \<and> (b \<longrightarrow> w_refs w' c = 1))"
proof (cases "map_of cs k")
  case None
  with makeController_ok [OF ok None] run show ?thesis
    by (fastforce simp: getOrCreateIf_def split: option.splits prod.splits)
next
  case (Some c)
  note deleted = mgr_ok_delete [OF ok, of k]
  have keys: "distinct (map fst cs)" and c: "c \<in> addresses cs \<union> R" "c < w_next w"
    using ok map_of_in [OF Some] by (auto simp: mgr_ok_def cache_ok_def world_ok_def addresses_def)
  show ?thesis
  proof (cases "weak_lock w c")
    case False
    with Some run have "makeController (h_create H i) k (AList.delete k cs) s w = (r, cs', s', w')"
      by (simp add: getOrCreateIf_def)
    from makeController_ok [OF deleted map_of_delete_None this]
      no_orphans_gone [OF keys Some, of R w] False show ?thesis
      by (fastforce simp: weak_lock_def split: option.splits prod.splits)
  next
    case True
    show ?thesis
    proof (cases "reuse c s (retain c w)")
      case reuse: True
      with True Some run have "r = Some (c, False)" "cs' = cs" "w' = retain c w"
        by (simp_all add: getOrCreateIf_def)
      with ok c True Some show ?thesis
        by (auto simp: mgr_ok_def world_ok_retain no_orphans_retain object_simps)
    next
      case False
      with True Some run have "makeController (h_create H i) k (AList.delete k cs) s w = (r, cs', s', w')"
        by (simp add: getOrCreateIf_def release_retain)
      from makeController_ok [OF deleted map_of_delete_None this] False show ?thesis
        by (fastforce split: option.splits prod.splits)
    qed
  qed
qed

lemma mgr_ok_quiet: "mgr_ok R cs w \<Longrightarrow> calls_on c l w w' \<Longrightarrow> c < w_next w \<Longrightarrow> ends l = [] \<Longrightarrow> mgr_ok R cs w'"
  by (auto simp: mgr_ok_def intro: world_ok_calls)

lemma mgr_ok_ended:
  assumes "mgr_ok R cs w" "map_of cs k = Some c" "calls_on c l w w'"
  shows "mgr_ok R (AList.delete k cs) w'"
proof -
  have "c \<in> addresses cs" "c < w_next w"
    using assms(1) map_of_in [OF assms(2)] by (auto simp: mgr_ok_def world_ok_def addresses_def)
  moreover have "c \<notin> addresses (AList.delete k cs) \<union> R"
    using assms(1,2) delete_drops_entry [of cs k c] calculation(1)
    by (auto simp: mgr_ok_def cache_ok_def addresses_def)
  ultimately show ?thesis
    using mgr_ok_delete [OF assms(1), of k] world_ok_calls [OF assms(3)] by (auto simp: mgr_ok_def)
qed

lemma connect_ok:
  assumes ok: "mgr_ok R (m_cache m) w" and run: "mgr_connect H i m w = (r, m', w')"
  shows "mgr_ok R (m_cache m') w' \<and>
     ((\<forall>c s v. h_reuse H c i s v) \<longrightarrow> no_orphans (addresses (m_cache m) \<union> R) w \<longrightarrow>
        no_orphans (addresses (m_cache m') \<union> R) w') \<and>
     (\<forall>c. r = Some c \<longrightarrow> map_of (m_cache m') (h_key H i) = Some c \<and> 0 < w_refs w' c)"
proof (cases "h_isInfo H (ci_derived i)")
  case False
  with ok run show ?thesis by (auto simp: mgr_connect_def)
next
  case info: True
  obtain a cs1 s1 w1 where acq:
    "getOrCreateIf (\<lambda>c. h_reuse H c i) (h_create H i) (h_key H i) (m_cache m) (m_own m) w = (a, cs1, s1, w1)"
    using prod_cases4 by blast
  note A = acquire_ok [OF ok acq]
  show ?thesis
  proof (cases a)
    case None
    with A acq info run show ?thesis by (auto simp: mgr_connect_def)
  next
    case (Some cb)
    obtain c b where cb: "cb = (c, b)" by fastforce
    with A Some have A1: "mgr_ok R cs1 w1" and A2: "map_of cs1 (h_key H i) = Some c" "0 < w_refs w1 c"
      "c < w_next w1" "b \<longrightarrow> w_refs w1 c = 1" by auto
    have keys: "distinct (map fst cs1)" using A1 by (simp add: mgr_ok_def cache_ok_def)
    show ?thesis
    proof (cases b)
      case False
      obtain s2 w2 where p: "h_prepareExisting H c i s1 w1 = (s2, w2)" by fastforce
      from prepareExisting [OF p] obtain l where l: "calls_on c l w1 w2" "ends l = []" by blast
      have "r = Some c" "m' = m\<lparr>m_cache := cs1, m_own := s2\<rparr>" "w' = w2"
        using acq Some cb False info run p by (simp_all add: mgr_connect_def)
      then show ?thesis
        using A A2 mgr_ok_quiet [OF A1 l(1) A2(3) l(2)] no_orphans_calls [OF l(1)] l(1)
        by (auto simp: calls_on_def)
    next
      case True
      obtain d s2 w2 where p: "h_prepareNew H c i s1 w1 = (d, s2, w2)" using prod_cases3 by blast
      from prepareNew [OF p] obtain l where l: "calls_on c l w1 w2" "d = KeepController \<longrightarrow> ends l = []" by blast
      show ?thesis
      proof (cases d)
        case KeepController
        then have "r = Some c" "m' = m\<lparr>m_cache := cs1, m_own := s2\<rparr>" "w' = w2"
          using acq Some cb True info run p by (simp_all add: mgr_connect_def)
        then show ?thesis
          using A A2 mgr_ok_quiet [OF A1 l(1) A2(3)] no_orphans_calls [OF l(1)] l KeepController
          by (auto simp: calls_on_def)
      next
        case DropController
        then have r: "r = None" "m' = m\<lparr>m_cache := AList.delete (h_key H i) cs1, m_own := s2\<rparr>" "w' = release c w2"
          using acq Some cb True info run p by (simp_all add: mgr_connect_def)
        have refs: "w_refs w2 c = 1" "c < w_next w2" using l(1) A2 True by (auto simp: calls_on_def)
        have "mgr_ok R (AList.delete (h_key H i) cs1) w2" by (rule mgr_ok_ended [OF A1 A2(1) l(1)])
        then have "mgr_ok R (m_cache m') w'" using refs(2) by (simp add: r mgr_ok_def world_ok_release)
        moreover have "no_orphans (addresses (m_cache m') \<union> R) w'"
          if "no_orphans (addresses cs1 \<union> R) w1"
        proof -
          from that have "no_orphans (addresses cs1 \<union> R) (release c w2)"
            using l(1) by (blast intro: no_orphans_release no_orphans_calls)
          from no_orphans_gone [OF keys A2(1) this] refs show ?thesis by (simp add: r object_simps)
        qed
        ultimately show ?thesis using A r by auto
      qed
    qed
  qed
qed

lemma disconnect_ok:
  assumes ok: "mgr_ok R (m_cache m) w" and run: "mgr_disconnect H k m w = (b, m', w')"
  shows "mgr_ok R (m_cache m') w' \<and>
     (no_orphans (addresses (m_cache m) \<union> R) w \<longrightarrow> no_orphans (addresses (m_cache m') \<union> R) w') \<and>
     map_of (m_cache m') k = None \<and>
     (b \<longleftrightarrow> (\<exists>c. map_of (m_cache m) k = Some c \<and> weak_lock w c)) \<and>
     (\<forall>c. map_of (m_cache m) k = Some c \<and> weak_lock w c \<longrightarrow>
          w_refs w' = w_refs w \<and> (\<exists>l. w_calls w' = w_calls w @ l \<and> ends l = ended c))"
proof (cases "map_of (m_cache m) k")
  case None
  with ok run show ?thesis by (auto simp: mgr_disconnect_def cache_take_def)
next
  case (Some c)
  have keys: "distinct (map fst (m_cache m))" and c: "c < w_next w"
    using ok map_of_in [OF Some] by (auto simp: mgr_ok_def cache_ok_def world_ok_def addresses_def)
  show ?thesis
  proof (cases "weak_lock w c")
    case False
    with Some run have r: "b = False" "m_cache m' = AList.delete k (m_cache m)" "w' = w"
      by (auto simp: mgr_disconnect_def cache_take_def)
    have "w_refs w c = 0" using False by (simp add: weak_lock_def)
    with r ok Some False show ?thesis
      by (auto simp: mgr_ok_delete map_of_delete_None no_orphans_gone [OF keys Some])
  next
    case True
    obtain s2 w2 where p: "h_disconnect H k c (m_own m) (retain c w) = (s2, w2)" by fastforce
    from disconnect [OF p] obtain l where l: "calls_on c l (retain c w) w2" "ends l = ended c" by blast
    have r: "b = True" "m_cache m' = AList.delete k (m_cache m)" "w' = release c w2"
      using Some True run p by (auto simp: mgr_disconnect_def cache_take_def)
    have refs: "w_refs w2 c = w_refs w c + 1" "0 < w_refs w c" and c2: "c < w_next w2"
      using l(1) True c by (auto simp: calls_on_def object_simps weak_lock_def)
    have "mgr_ok R (m_cache m) (retain c w)"
      using ok c True by (simp add: mgr_ok_def world_ok_retain)
    from mgr_ok_ended [OF this Some l(1)] have "mgr_ok R (m_cache m') w'"
      using c2 by (simp add: r mgr_ok_def world_ok_release)
    moreover have calls: "w_calls w' = w_calls w @ l" "w_refs w' = w_refs w"
      using refs l(1) by (auto simp: r calls_on_def object_simps fun_eq_iff)
    moreover have "CloseCalled c \<in> set l" by (rule ended_closed [OF l(2)])
    moreover have "no_orphans (addresses (m_cache m') \<union> R) w'" if "no_orphans (addresses (m_cache m) \<union> R) w"
    proof -
      from that True have "no_orphans (addresses (m_cache m) \<union> R) w'"
        unfolding r by (blast intro: no_orphans_release no_orphans_calls [OF l(1)] no_orphans_retain)
      from no_orphans_gone [OF keys Some this] calls \<open>CloseCalled c \<in> set l\<close> show ?thesis by (simp add: r)
    qed
    ultimately show ?thesis using Some True r l(2) by (auto simp: map_of_delete_None)
  qed
qed

lemma closeAll_ok:
  assumes ok: "mgr_ok R (m_cache m) w" and run: "mgr_closeAll H m w = (m', w')"
  shows "mgr_ok R (m_cache m') w' \<and>
     (no_orphans (addresses (m_cache m) \<union> R) w \<longrightarrow> no_orphans (addresses (m_cache m') \<union> R) w')"
proof -
  have addr: "distinct (map snd (m_cache m))" and disj: "addresses (m_cache m) \<inter> R = {}"
    and bound: "\<And>c. c \<in> addresses (m_cache m) \<Longrightarrow> c < w_next w"
    using ok by (auto simp: mgr_ok_def cache_ok_def world_ok_def)
  from closeAll_effect [OF addr run] obtain l where e: "m_cache m' = []" "w_next w' = w_next w" "w_refs w' = w_refs w"
    "w_calls w' = w_calls w @ l" "ends l = concat (map (\<lambda>e. ended (snd e)) (iterated (h_rank H) (liveEntries (m_cache m) w)))"
    "\<forall>x\<in>set l. subject x \<in> addresses (m_cache m)" by blast
  have others: "CloseCalled c \<notin> set l" if "c \<in> R" for c using e(6) disj that by fastforce
  have closed: "CloseCalled c \<in> set l" if "c \<in> addresses (m_cache m)" "0 < w_refs w c" for c
  proof -
    from that have "c \<in> snd ` set (iterated (h_rank H) (liveEntries (m_cache m) w))"
      by (force simp: order_set liveEntries_def addresses_def weak_lock_def)
    then have "CloseCalled c \<in> set (ends l)" by (auto simp: e(5) ended_def)
    then show ?thesis by (simp add: ends_def)
  qed
  have "world_ok R w'"
    using ok others bound e(6) by (auto simp: world_ok_def mgr_ok_def e)
  moreover have "no_orphans R w'" if "no_orphans (addresses (m_cache m) \<union> R) w"
    using that closed by (auto simp: no_orphans_def e)
  ultimately show ?thesis by (simp add: e(1) mgr_ok_def cache_ok_def addresses_def)
qed

lemma prune_ok:
  assumes ok: "mgr_ok R (m_cache m) w"
  shows "mgr_ok R (liveEntries (m_cache m) w) w \<and>
     (no_orphans (addresses (m_cache m) \<union> R) w \<longrightarrow> no_orphans (addresses (liveEntries (m_cache m) w) \<union> R) w)"
proof -
  have sub: "addresses (liveEntries (m_cache m) w) \<subseteq> addresses (m_cache m)"
    by (auto simp: liveEntries_def addresses_def)
  with ok have "mgr_ok R (liveEntries (m_cache m) w) w"
    by (auto simp: mgr_ok_def cache_ok_def liveEntries_def distinct_map_filter elim!: world_ok_mono)
  moreover have "no_orphans (addresses (liveEntries (m_cache m) w) \<union> R) w"
    if "no_orphans (addresses (m_cache m) \<union> R) w"
    using that by (force simp: no_orphans_def liveEntries_def addresses_def weak_lock_def)
  ultimately show ?thesis by blast
qed

lemma step_ok:
  assumes ok: "mgr_ok R (m_cache m) w" and run: "mgr_step H x (m, w) = (m', w')"
  shows "mgr_ok R (m_cache m') w' \<and>
     ((\<forall>c i s v. h_reuse H c i s v) \<longrightarrow> no_orphans (addresses (m_cache m) \<union> R) w \<longrightarrow>
        no_orphans (addresses (m_cache m') \<union> R) w')"
proof (cases x)
  case (Connect i)
  obtain r where "mgr_connect H i m w = (r, m', w')" using run Connect by (cases "mgr_connect H i m w") (auto simp: mgr_step_def)
  from connect_ok [OF ok this] show ?thesis by blast
next
  case (Disconnect k)
  obtain b where "mgr_disconnect H k m w = (b, m', w')" using run Disconnect by (cases "mgr_disconnect H k m w") (auto simp: mgr_step_def)
  from disconnect_ok [OF ok this] show ?thesis by blast
next
  case CloseAll
  with run have "mgr_closeAll H m w = (m', w')" by (simp add: mgr_step_def)
  from closeAll_ok [OF ok this] show ?thesis by blast
next
  case Snapshot
  let ?live = "liveEntries (m_cache m) w"
  have m': "m_cache m' = ?live" and w': "w' = dropSnapshot ?live (fold (\<lambda>(k, c). retain c) ?live w)"
    using run Snapshot by (auto simp: mgr_step_def liveControllers_def snapshotLocked_def Let_def)
  have "same_objects w w'"
    using snapshot_released [of "m_cache m" ?live w] ok
    by (simp add: w' same_objects_def hold_snapshot mgr_ok_def cache_ok_def)
  with prune_ok [OF ok] show ?thesis
    by (auto simp: m' mgr_ok_def elim: world_ok_same no_orphans_same)
next
  case (FindLive k)
  show ?thesis
  proof (cases "map_of (m_cache m) k")
    case None
    with run FindLive ok show ?thesis by (auto simp: mgr_step_def findLiveController_def findLiveLocked_def)
  next
    case (Some c)
    have keys: "distinct (map fst (m_cache m))" using ok by (simp add: mgr_ok_def cache_ok_def)
    show ?thesis
    proof (cases "weak_lock w c")
      case True
      with run FindLive Some ok show ?thesis
        by (auto simp: mgr_step_def findLiveController_def findLiveLocked_def release_retain)
    next
      case False
      with run FindLive Some have "m_cache m' = AList.delete k (m_cache m)" "w' = w"
        by (auto simp: mgr_step_def findLiveController_def findLiveLocked_def)
      with ok False show ?thesis
        by (auto simp: mgr_ok_delete weak_lock_def intro: no_orphans_gone [OF keys Some])
    qed
  qed
next
  case (CopyPointer c)
  have "c < w_next w" if "weak_lock w c"
    using ok that by (auto simp: mgr_ok_def world_ok_def weak_lock_def not_less [symmetric])
  with run CopyPointer ok show ?thesis
    by (auto simp: mgr_step_def mgr_ok_def world_ok_retain no_orphans_retain)
next
  case (DropPointer c)
  have "c < w_next w" if "weak_lock w c"
    using ok that by (auto simp: mgr_ok_def world_ok_def weak_lock_def not_less [symmetric])
  with run DropPointer ok show ?thesis
    by (auto simp: mgr_step_def mgr_ok_def world_ok_release no_orphans_release)
next
  case (LinkChanged c b)
  with run have "m' = m" "same_objects w w'" by (auto simp: mgr_step_def same_objects_def)
  with ok show ?thesis by (auto simp: mgr_ok_def elim: world_ok_same no_orphans_same)
qed

lemma run_ok:
  "mgr_ok R (m_cache m) w \<Longrightarrow> mgr_run H xs (m, w) = (m', w') \<Longrightarrow>
     mgr_ok R (m_cache m') w' \<and>
     ((\<forall>c i s v. h_reuse H c i s v) \<longrightarrow> no_orphans (addresses (m_cache m) \<union> R) w \<longrightarrow>
        no_orphans (addresses (m_cache m') \<union> R) w')"
proof (induction xs arbitrary: m w)
  case Nil
  then show ?case by (simp add: mgr_run_def)
next
  case (Cons x xs)
  obtain m1 w1 where 1: "mgr_step H x (m, w) = (m1, w1)" by fastforce
  from Cons.prems(2) 1 have 2: "mgr_run H xs (m1, w1) = (m', w')" by (simp add: mgr_run_def)
  note S = step_ok [OF Cons.prems(1) 1]
  from Cons.IH [OF conjunct1 [OF S] 2] S show ?case by blast
qed

end

locale reusing_backend = backend +
  assumes reuse: "h_reuse H c i s w"
begin

text \<open>Connecting twice without a disconnect in between gives the same object.\<close>

lemma connect_reuses:
  assumes "h_isInfo H (ci_derived i)" "map_of (m_cache m) (h_key H i) = Some c" "weak_lock w c"
  shows "\<exists>m' w'. mgr_connect H i m w = (Some c, m', w') \<and> m_cache m' = m_cache m \<and> w_next w' = w_next w"
proof -
  obtain s2 w2 where p: "h_prepareExisting H c i (m_own m) (retain c w) = (s2, w2)" by fastforce
  from prepareExisting [OF p] have "w_next w2 = w_next w" by (auto simp: calls_on_def object_simps)
  with assms p show ?thesis by (simp add: mgr_connect_def getOrCreateIf_def reuse)
qed

lemma run_no_orphans:
  "mgr_ok R (m_cache m) w \<Longrightarrow> no_orphans (addresses (m_cache m) \<union> R) w \<Longrightarrow> mgr_run H xs (m, w) = (m', w') \<Longrightarrow>
     no_orphans (addresses (m_cache m') \<union> R) w'"
  using run_ok reuse by blast

end

end
