(* ===== verification/Controller_Infos.thy ===== *)
theory Controller_Infos
  imports Controller_Manager Ether_Dream_State Device_Status
begin

text \<open>
  The discovery record of every driver (the \<open>*ControllerInfo.hpp\<close> headers): one constructor
  per class derived from ControllerInfo, so that the \<open>dynamic_cast\<close> of the manager base class
  is a test of the constructor. The advertisement of the Libera protocol is declared in a
  submodule that is not part of the repository; the record holds the fields the manager reads.
\<close>

record HeliosFields =
  hi_portPath :: string
  hi_isUsb :: bool
  hi_firmwareVersion :: int

record IdnFields =
  ii_unitId :: string
  ii_serviceId :: u32
  ii_index :: u32
  ii_firmwareVersion :: int
  ii_hostName :: string
  ii_serviceName :: string

record LightSpaceFields =
  ls_status :: LightSpaceNetStatus
  ls_preferredPointRate :: u32

datatype EndpointAvailability = Available | Busy | Disabled | Fault

record DiscoveryAdvertisement =
  adv_endpointId :: string
  adv_displayName :: string
  adv_maxPointRate :: u32
  adv_address :: string
  adv_tcpPort :: u16
  adv_availability :: EndpointAvailability

record LiberaFields =
  li_advertisement :: DiscoveryAdvertisement
  li_sourceAddress :: string

record PluginFields =
  pl_id :: string
  pl_label :: string
  pl_max_point_rate :: u32
  pl_usage_state :: nat
  pl_network :: "(string \<times> u16) option"
  pl_connect_cookie :: bytes
  pl_connect_cookie_size :: u32

datatype derived =
    is_EtherDreamInfo: EtherDreamInfo EtherDreamControllerInfo
  | is_HeliosInfo: HeliosInfo HeliosFields
  | is_IdnInfo: IdnInfo IdnFields
  | is_LaserCubeNetInfo: LaserCubeNetInfo LaserCubeNetStatus
  | is_LaserCubeUsbInfo: LaserCubeUsbInfo string
  | is_LightSpaceInfo: LightSpaceInfo LightSpaceFields
  | is_LiberaInfo: LiberaInfo LiberaFields
  | is_PluginInfo: PluginInfo PluginFields

type_synonym info = "derived ControllerInfo"

definition newEtherDreamInfo :: "string \<Rightarrow> string \<Rightarrow> EtherDreamControllerInfo \<Rightarrow> info" where
  "newEtherDreamInfo i l e =
     newControllerInfo ''EtherDream'' i l (info_maxPointRate e) (Some \<lparr>net_ip = info_ip e, net_port = info_port e\<rparr>)
       (EtherDreamInfo e)"

definition newHeliosInfo :: "string \<Rightarrow> string \<Rightarrow> u32 \<Rightarrow> string \<Rightarrow> bool \<Rightarrow> int \<Rightarrow> info" where
  "newHeliosInfo i l r path usb fw =
     newControllerInfo ''Helios'' i l r None
       (HeliosInfo \<lparr>hi_portPath = path, hi_isUsb = usb, hi_firmwareVersion = fw\<rparr>)"

definition newIdnInfo :: "string \<Rightarrow> string \<Rightarrow> u32 \<Rightarrow> string \<Rightarrow> u32 \<Rightarrow> u32 \<Rightarrow> int \<Rightarrow> NetworkInfo option \<Rightarrow> string \<Rightarrow> string \<Rightarrow> info" where
  "newIdnInfo i unit service l r index fw n host name =
     newControllerInfo ''IDN'' i l r n
       (IdnInfo \<lparr>ii_unitId = unit, ii_serviceId = service, ii_index = index, ii_firmwareVersion = fw,
                 ii_hostName = host, ii_serviceName = name\<rparr>)"

definition LASERCUBE_DATA_PORT :: u16 where
  "LASERCUBE_DATA_PORT = 45458"

definition newLaserCubeNetInfo :: "LaserCubeNetStatus \<Rightarrow> info" where
  "newLaserCubeNetInfo s =
     newControllerInfo ''LaserCubeNet'' (serialNumber s) (if modelName s = [] then serialNumber s else modelName s)
       (pointRateMax s) (Some \<lparr>net_ip = lc_ipAddress s, net_port = LASERCUBE_DATA_PORT\<rparr>) (LaserCubeNetInfo s)"

definition newLaserCubeUsbInfo :: "string \<Rightarrow> string \<Rightarrow> info" where
  "newLaserCubeUsbInfo serial l = newControllerInfo ''LaserCubeUSB'' serial l 0 None (LaserCubeUsbInfo serial)"

definition LS_NETWORK_PORT :: u16 where
  "LS_NETWORK_PORT = 25555"

definition newLightSpaceInfo :: "LightSpaceNetStatus \<Rightarrow> info" where
  "newLightSpaceInfo s =
     newControllerInfo ''LightSpaceNet'' (stableId s) (displayLabel s) (word_of_int LS_MAX_POINT_RATE)
       (Some \<lparr>net_ip = ipAddress s, net_port = LS_NETWORK_PORT\<rparr>)
       (LightSpaceInfo \<lparr>ls_status = s, ls_preferredPointRate = 0\<rparr>)"

definition newLiberaInfo :: "DiscoveryAdvertisement \<Rightarrow> string \<Rightarrow> info" where
  "newLiberaInfo a sender =
     (let address = (if adv_address a = [] then sender else adv_address a);
          i = newControllerInfo ''LiberaProtocol'' (adv_endpointId a) (adv_displayName a) (adv_maxPointRate a)
                (Some \<lparr>net_ip = address, net_port = adv_tcpPort a\<rparr>)
                (LiberaInfo \<lparr>li_advertisement = a\<lparr>adv_address := address\<rparr>, li_sourceAddress = sender\<rparr>)
      in case adv_availability a of
           Available \<Rightarrow> setUsageState UsageIdle i
         | Busy \<Rightarrow> setUsageState UsageBusyExclusive i
         | Disabled \<Rightarrow> setUsageState UsageBusyExclusive i
         | Fault \<Rightarrow> setUsageState UsageBusyExclusive i)"

definition makeNetworkInfo :: "PluginFields \<Rightarrow> NetworkInfo option" where
  "makeNetworkInfo p =
     (case pl_network p of None \<Rightarrow> None | Some (ip, port) \<Rightarrow> Some \<lparr>net_ip = ip, net_port = port\<rparr>)"

definition newPluginInfo :: "PluginFields \<Rightarrow> string \<Rightarrow> info" where
  "newPluginInfo p type =
     newControllerInfo type (pl_id p) (pl_label p) (pl_max_point_rate p) (makeNetworkInfo p) (PluginInfo p)"

end
