(* ===== verification/Network_Discovery.thy ===== *)
theory Network_Discovery
  imports Controller_Infos
begin

text \<open>
  The tables of devices that the network managers keep between their listener thread and
  \<open>discover()\<close>: EtherDream/EtherDreamManager.cpp, lasercubenet/LaserCubeNetManager.cpp and
  lightspacenet/LightSpaceNetManager.cpp. A table maps a stable id to what was last heard and
  when. The locale \<open>expiring_table\<close> is the contract of the three pruning routines.
\<close>

type_synonym 'e table = "(string \<times> 'e \<times> time_point) list"

definition heard :: "string \<Rightarrow> 'e \<Rightarrow> time_point \<Rightarrow> 'e table \<Rightarrow> 'e table" where
  "heard k e t tab = AList.update k (e, t) tab"

definition listed :: "'e table \<Rightarrow> 'e list" where
  "listed tab = map (\<lambda>(k, e, t). e) tab"

section \<open>Ether Dream\<close>

definition MIN_DISCOVERY_PACKET_BYTES :: nat where
  "MIN_DISCOVERY_PACKET_BYTES = 36"

definition ETHERDREAM_DAC_PORT_DEFAULT :: u16 where
  "ETHERDREAM_DAC_PORT_DEFAULT = 7765"

definition ETHERDREAM_DISCOVERY_TIMEOUT :: int where
  "ETHERDREAM_DISCOVERY_TIMEOUT = 3000000000"

definition discovery_port_from_revisions :: "u16 \<Rightarrow> u16 \<Rightarrow> u16" where
  "discovery_port_from_revisions hw sw =
     (if hw \<noteq> 0 then ETHERDREAM_DAC_PORT_DEFAULT
      else let port = (ucast ETHERDREAM_DAC_PORT_DEFAULT :: u32) + ucast sw
           in if 65535 < port then ETHERDREAM_DAC_PORT_DEFAULT else ucast port)"

text \<open>\<open>printf\<close>'s zero-padded hexadecimal numeral.\<close>

definition padded_hex :: "bool \<Rightarrow> nat \<Rightarrow> nat \<Rightarrow> string" where
  "padded_hex up width n = (let d = digits_of 16 up n in replicate (width - length d) (CHR ''0'') @ d)"

definition format_mac_id :: "u64 \<Rightarrow> string" where
  "format_mac_id mac =
     padded_hex True 4 (unat (drop_bit 32 mac AND 0xFFFF)) @
     padded_hex True 4 (unat (drop_bit 16 mac AND 0xFFFF)) @
     padded_hex True 4 (unat (mac AND 0xFFFF))"

definition format_display_id :: "u64 \<Rightarrow> string" where
  "format_display_id mac = padded_hex False 6 (unat (mac AND 0xFFFFFF))"

definition mac_of_bytes :: "bytes \<Rightarrow> u64" where
  "mac_of_bytes bs = fold (\<lambda>b mac. push_bit 8 mac OR ucast b) bs 0"

definition usageOfPlayback :: "PlaybackState \<Rightarrow> ControllerUsageState" where
  "usageOfPlayback s =
     (case s of PB_Idle \<Rightarrow> UsageIdle | PB_Prepared \<Rightarrow> UsageActive | PB_Playing \<Rightarrow> UsageActive
      | PB_Paused \<Rightarrow> UsageActive | PB_other b \<Rightarrow> UsageUnknown)"

text \<open>A datagram of at least 36 bytes, as the listener decodes it. The outer \<open>None\<close> would be a read
  outside the datagram.\<close>

definition etherDreamDatagram :: "string \<Rightarrow> bytes \<Rightarrow> info option option" where
  "etherDreamDatagram ip data =
     (if length data < MIN_DISCOVERY_PACKET_BYTES then Some None
      else do {
        macBytes \<leftarrow> slice data 0 6;
        let mac = mac_of_bytes macBytes;
        hw \<leftarrow> readLe16 (drop 6 data);
        sw \<leftarrow> readLe16 (drop 8 data);
        cap \<leftarrow> readLe16 (drop 10 data);
        rate \<leftarrow> readLe32 (drop 12 data);
        playback \<leftarrow> rd8 data 18;
        let i = (if mac \<noteq> 0 then format_mac_id mac else ''etherdream-'' @ ip);
        let l = (if mac \<noteq> 0 then ''Ether Dream '' @ format_display_id mac else ''Ether Dream '' @ ip);
        Some (Some (setUsageState (usageOfPlayback (playback_of_byte playback))
          (newEtherDreamInfo i l
             \<lparr>info_ip = ip, info_port = discovery_port_from_revisions hw sw, info_bufferSize = uint cap,
              info_hardwareVersion = ''hw'' @ dec_string (unat hw) @ ''-sw'' @ dec_string (unat sw),
              info_maxPointRate = rate, info_hardwareRevision = hw, info_softwareRevision = sw,
              info_firmwareVersion = ''''\<rparr>))) })"

record EtherDreamManagerState =
  edm_running :: bool
  edm_socket :: bool
  edm_controllers :: "info table"

text \<open>The constructor, with the results of opening and binding the broadcast socket.\<close>

definition edm_construct :: "bool \<Rightarrow> bool \<Rightarrow> EtherDreamManagerState" where
  "edm_construct opened bound =
     (if \<not> opened then \<lparr>edm_running = False, edm_socket = False, edm_controllers = []\<rparr>
      else if \<not> bound then \<lparr>edm_running = False, edm_socket = False, edm_controllers = []\<rparr>
      else \<lparr>edm_running = True, edm_socket = True, edm_controllers = []\<rparr>)"

definition edm_pruneStale :: "time_point \<Rightarrow> info table \<Rightarrow> info table" where
  "edm_pruneStale t tab = filter (\<lambda>(k, e, seen). \<not> seen < t - ETHERDREAM_DISCOVERY_TIMEOUT) tab"

text \<open>One return of \<open>recv_from\<close> in the listener's loop, with the clock reading after it; the
  result says whether the loop goes on.\<close>

datatype receipt = Received string bytes | ReceiveTimedOut | ReceiveAborted | ReceiveFailed

definition edm_receive :: "receipt \<Rightarrow> time_point \<Rightarrow> EtherDreamManagerState \<Rightarrow> (bool \<times> EtherDreamManagerState) option" where
  "edm_receive r t s =
     (if \<not> edm_running s then Some (False, s)
      else case r of
        ReceiveAborted \<Rightarrow> Some (False, s)
      | ReceiveTimedOut \<Rightarrow> Some (True, s\<lparr>edm_controllers := edm_pruneStale t (edm_controllers s)\<rparr>)
      | ReceiveFailed \<Rightarrow> Some (True, s)
      | Received ip data \<Rightarrow>
          (case etherDreamDatagram ip data of
             None \<Rightarrow> None
           | Some None \<Rightarrow> Some (True, s)
           | Some (Some i) \<Rightarrow>
               Some (True, s\<lparr>edm_controllers := edm_pruneStale t (heard (ci_id i) i t (edm_controllers s))\<rparr>)))"

fun edm_listen :: "(receipt \<times> time_point) list \<Rightarrow> EtherDreamManagerState \<Rightarrow> EtherDreamManagerState option" where
  "edm_listen [] s = Some s"
| "edm_listen ((r, t) # rs) s =
     (case edm_receive r t s of
        None \<Rightarrow> None
      | Some (goesOn, s') \<Rightarrow> if goesOn then edm_listen rs s' else Some s')"

definition edm_threadedFunction :: "(receipt \<times> time_point) list \<Rightarrow> EtherDreamManagerState \<Rightarrow> EtherDreamManagerState option" where
  "edm_threadedFunction rs s = (if \<not> edm_socket s then Some s else edm_listen rs s)"

definition edm_discover :: "time_point \<Rightarrow> EtherDreamManagerState \<Rightarrow> info list \<times> EtherDreamManagerState" where
  "edm_discover t s =
     (let tab = edm_pruneStale t (edm_controllers s) in (listed tab, s\<lparr>edm_controllers := tab\<rparr>))"

section \<open>LaserCube\<close>

record LaserCubeManagerState =
  lcm_running :: bool
  lcm_socket :: bool
  lcm_controllers :: "LaserCubeNetStatus table"

text \<open>The socket object exists even when opening it failed.\<close>

definition lcm_construct :: LaserCubeManagerState where
  "lcm_construct = \<lparr>lcm_running = True, lcm_socket = True, lcm_controllers = []\<rparr>"

text \<open>\<open>Clock::now()\<close> is read again for every entry.\<close>

fun pruneOlder :: "int \<Rightarrow> clock \<Rightarrow> 'e table \<Rightarrow> 'e table" where
  "pruneOlder limit clk [] = []"
| "pruneOlder limit clk ((k, e, seen) # tab) =
     (if limit < now clk - seen then pruneOlder limit (later clk) tab
      else (k, e, seen) # pruneOlder limit (later clk) tab)"

definition LASERCUBE_STALE_AFTER :: int where
  "LASERCUBE_STALE_AFTER = 3000000000"

definition lcm_prune :: "clock \<Rightarrow> LaserCubeNetStatus table \<Rightarrow> LaserCubeNetStatus table" where
  "lcm_prune = pruneOlder LASERCUBE_STALE_AFTER"

text \<open>What a listener does with a parsed status: note it, and pass it to the controller in use.\<close>

definition tellActive :: "string \<Rightarrow> 's Manager \<Rightarrow> world \<Rightarrow> 's Manager \<times> world" where
  "tellActive k m w =
     (case findLiveController k m w of
        (None, m', w') \<Rightarrow> (m', w')
      | (Some c, m', w') \<Rightarrow> (m', release c (called (StatusUpdated c) w')))"

definition lcm_receive ::
  "receipt \<Rightarrow> time_point \<Rightarrow> LaserCubeManagerState Manager \<Rightarrow> world \<Rightarrow> (bool \<times> LaserCubeManagerState Manager \<times> world) option" where
  "lcm_receive r t m w =
     (case r of
        ReceiveAborted \<Rightarrow> Some (False, m, w)
      | ReceiveTimedOut \<Rightarrow> Some (lcm_running (m_own m), m, w)
      | ReceiveFailed \<Rightarrow> Some (lcm_running (m_own m), m, w)
      | Received ip data \<Rightarrow>
          (case lasercube_parse 0 (Some data) of
             None \<Rightarrow> None
           | Some None \<Rightarrow> Some (True, m, w)
           | Some (Some parsed) \<Rightarrow>
               let status = parsed\<lparr>lc_ipAddress := ip, lc_lastSeen := t\<rparr>;
                   m1 = m\<lparr>m_own := (m_own m)\<lparr>lcm_controllers :=
                          heard (serialNumber status) status t (lcm_controllers (m_own m))\<rparr>\<rparr>;
                   (m2, w2) = tellActive (serialNumber status) m1 w
               in Some (True, m2, w2)))"

text \<open>The inner loop of one probe window; each entry is the clock at the test, the receipt and the
  clock after it.\<close>

definition LASERCUBE_WINDOW :: int where
  "LASERCUBE_WINDOW = 1000000000"

fun lcm_window ::
  "time_point \<Rightarrow> (time_point \<times> receipt \<times> time_point) list \<Rightarrow> LaserCubeManagerState Manager \<Rightarrow> world
     \<Rightarrow> (LaserCubeManagerState Manager \<times> world) option" where
  "lcm_window start [] m w = Some (m, w)"
| "lcm_window start ((t, r, t') # rs) m w =
     (if lcm_running (m_own m) \<and> t - start < LASERCUBE_WINDOW
      then case lcm_receive r t' m w of
             None \<Rightarrow> None
           | Some (goesOn, m', w') \<Rightarrow> if goesOn then lcm_window start rs m' w' else Some (m', w')
      else Some (m, w))"

definition lcm_pass ::
  "time_point \<Rightarrow> (time_point \<times> receipt \<times> time_point) list \<Rightarrow> clock \<Rightarrow> LaserCubeManagerState Manager \<Rightarrow> world
     \<Rightarrow> (LaserCubeManagerState Manager \<times> world) option" where
  "lcm_pass start rs clk m w =
     (if \<not> lcm_socket (m_own m) \<or> \<not> lcm_running (m_own m) then Some (m, w)
      else case lcm_window start rs m w of
             None \<Rightarrow> None
           | Some (m', w') \<Rightarrow>
               Some (m'\<lparr>m_own := (m_own m')\<lparr>lcm_controllers := lcm_prune clk (lcm_controllers (m_own m'))\<rparr>\<rparr>, w'))"

definition lcm_discover :: "LaserCubeManagerState \<Rightarrow> info list" where
  "lcm_discover s = map newLaserCubeNetInfo (listed (lcm_controllers s))"

section \<open>LightSpace\<close>

record LightSpaceManagerState =
  lsm_running :: bool
  lsm_socket :: bool
  lsm_requested :: bool
  lsm_lastSocketError :: "string option"
  lsm_controllers :: "LightSpaceNetStatus table"
  lsm_probes :: "time_point list"

definition lsm_construct :: LightSpaceManagerState where
  "lsm_construct = \<lparr>lsm_running = True, lsm_socket = False, lsm_requested = False, lsm_lastSocketError = None,
                     lsm_controllers = [], lsm_probes = []\<rparr>"

definition DISCOVERY_RECV_TIMEOUT :: int where "DISCOVERY_RECV_TIMEOUT = 100000000"
definition DISCOVERY_PROBE_INTERVAL :: int where "DISCOVERY_PROBE_INTERVAL = 300000000"
definition DISCOVERY_LISTEN_WINDOW :: int where "DISCOVERY_LISTEN_WINDOW = 1200000000"
definition DISCOVERY_STALE_AFTER :: int where "DISCOVERY_STALE_AFTER = 15000000000"

definition lsm_updateSocketErrorState :: "string \<Rightarrow> string \<Rightarrow> LightSpaceManagerState \<Rightarrow> LightSpaceManagerState" where
  "lsm_updateSocketErrorState action ec s =
     (let message = action @ '' failed: '' @ ec
      in if lsm_lastSocketError s \<noteq> Some message then s\<lparr>lsm_lastSocketError := Some message\<rparr> else s)"

text \<open>The argument is the socket call that fails, if one does, with its message.\<close>

definition lsm_openDiscoverySession :: "(string \<times> string) option \<Rightarrow> LightSpaceManagerState \<Rightarrow> bool \<times> LightSpaceManagerState" where
  "lsm_openDiscoverySession failure s =
     (case failure of
        Some (action, ec) \<Rightarrow> (False, lsm_updateSocketErrorState action ec s)
      | None \<Rightarrow> (True, s\<lparr>lsm_lastSocketError := None, lsm_socket := True\<rparr>))"

definition lsm_closeDiscoverySession :: "LightSpaceManagerState \<Rightarrow> LightSpaceManagerState" where
  "lsm_closeDiscoverySession s = s\<lparr>lsm_socket := False\<rparr>"

definition lsm_stopDiscoveryThread :: "LightSpaceManagerState \<Rightarrow> LightSpaceManagerState" where
  "lsm_stopDiscoveryThread s = lsm_closeDiscoverySession (s\<lparr>lsm_running := False\<rparr>)"

definition lsm_pruneStaleControllers :: "clock \<Rightarrow> LightSpaceManagerState \<Rightarrow> LightSpaceManagerState" where
  "lsm_pruneStaleControllers clk s = s\<lparr>lsm_controllers := pruneOlder DISCOVERY_STALE_AFTER clk (lsm_controllers s)\<rparr>"

definition lsm_receive ::
  "receipt \<Rightarrow> time_point \<Rightarrow> LightSpaceManagerState Manager \<Rightarrow> world \<Rightarrow> (bool \<times> LightSpaceManagerState Manager \<times> world) option" where
  "lsm_receive r t m w =
     (case r of
        ReceiveAborted \<Rightarrow> Some (False, m, w)
      | ReceiveTimedOut \<Rightarrow> Some (lsm_running (m_own m), m, w)
      | ReceiveFailed \<Rightarrow> Some (lsm_running (m_own m), m, w)
      | Received ip data \<Rightarrow>
          (case parseBroadcastResponse 0 (Some data) of
             None \<Rightarrow> None
           | Some None \<Rightarrow> Some (True, m, w)
           | Some (Some parsed) \<Rightarrow>
               let status = parsed\<lparr>ipAddress := ip, lastSeen := t\<rparr>;
                   k = stableId status;
                   m1 = m\<lparr>m_own := (m_own m)\<lparr>lsm_controllers := heard k status t (lsm_controllers (m_own m))\<rparr>\<rparr>;
                   (m2, w2) = tellActive k m1 w
               in Some (True, m2, w2)))"

fun lsm_session ::
  "time_point \<Rightarrow> time_point \<Rightarrow> (time_point \<times> receipt \<times> time_point) list \<Rightarrow> LightSpaceManagerState Manager \<Rightarrow> world
     \<Rightarrow> (LightSpaceManagerState Manager \<times> world) option" where
  "lsm_session deadline nextProbeAt [] m w = Some (m, w)"
| "lsm_session deadline nextProbeAt ((t, r, t') # rs) m w =
     (if \<not> lsm_running (m_own m) \<or> deadline \<le> t then Some (m, w)
      else
        let probe = (nextProbeAt \<le> t);
            next' = (if probe then t + DISCOVERY_PROBE_INTERVAL else nextProbeAt);
            m1 = (if probe then m\<lparr>m_own := (m_own m)\<lparr>lsm_probes := lsm_probes (m_own m) @ [t]\<rparr>\<rparr> else m)
        in case lsm_receive r t' m1 w of
             None \<Rightarrow> None
           | Some (goesOn, m', w') \<Rightarrow> if goesOn then lsm_session deadline next' rs m' w' else Some (m', w'))"

definition lsm_runDiscoverySession ::
  "(string \<times> string) option \<Rightarrow> time_point \<Rightarrow> (time_point \<times> receipt \<times> time_point) list \<Rightarrow> clock
     \<Rightarrow> LightSpaceManagerState Manager \<Rightarrow> world \<Rightarrow> (LightSpaceManagerState Manager \<times> world) option" where
  "lsm_runDiscoverySession failure start rs clk m w =
     (case lsm_openDiscoverySession failure (m_own m) of
        (False, s) \<Rightarrow> Some (m\<lparr>m_own := lsm_pruneStaleControllers clk s\<rparr>, w)
      | (True, s) \<Rightarrow>
          (case lsm_session (start + DISCOVERY_LISTEN_WINDOW) start rs (m\<lparr>m_own := s\<rparr>) w of
             None \<Rightarrow> None
           | Some (m', w') \<Rightarrow>
               Some (m'\<lparr>m_own := lsm_pruneStaleControllers clk (lsm_closeDiscoverySession (m_own m'))\<rparr>, w')))"

text \<open>The wait between two sessions ends by a request, a stop or its timeout; whether the thread
  goes on.\<close>

definition lsm_waitForNextDiscoveryBurst :: "LightSpaceManagerState \<Rightarrow> bool \<times> LightSpaceManagerState" where
  "lsm_waitForNextDiscoveryBurst s =
     (if \<not> lsm_running s then (False, s) else (True, s\<lparr>lsm_requested := False\<rparr>))"

definition lsm_discover :: "LightSpaceManagerState \<Rightarrow> info list \<times> LightSpaceManagerState" where
  "lsm_discover s = (map newLightSpaceInfo (listed (lsm_controllers s)), s\<lparr>lsm_requested := True\<rparr>)"

end
