(* ===== verification/Discovery_Properties.thy ===== *)
theory Discovery_Properties
  imports Network_Discovery
begin

text \<open>
  What the tables of discovered devices hold. The locale \<open>expiring_table\<close> derives, from what
  a pruning routine keeps and drops, that a table always holds the last thing heard of a
  device and holds it exactly while it is fresh. The routines of the three managers are its
  interpretations; the Ether Dream listener is related to a run of the locale.
\<close>

section \<open>Tables of what was heard\<close>

datatype 'e tab_event = Hear string 'e time_point | Prune clock

fun last_heard :: "string \<Rightarrow> 'e tab_event list \<Rightarrow> ('e \<times> time_point) option" where
  "last_heard k [] = None"
| "last_heard k (Hear k' e t # evs) =
     (case last_heard k evs of Some r \<Rightarrow> Some r | None \<Rightarrow> if k' = k then Some (e, t) else None)"
| "last_heard k (Prune clk # evs) = last_heard k evs"

fun readings_before :: "time_point \<Rightarrow> 'e tab_event list \<Rightarrow> bool" where
  "readings_before T [] = True"
| "readings_before T (Hear k e t # evs) = readings_before T evs"
| "readings_before T (Prune clk # evs) = ((\<forall>n. clk n \<le> T) \<and> readings_before T evs)"

lemma now_const [simp]: "now (\<lambda>n. t) = t"
  by (simp add: now_def)

lemma heard_keys: "distinct (map fst tab) \<Longrightarrow> distinct (map fst (heard k e t tab))"
  unfolding heard_def by (rule AList.distinct_update)

lemma heard_map_of: "map_of (heard k e t tab) = (map_of tab)(k \<mapsto> (e, t))"
  unfolding heard_def by (rule AList.update_conv')

locale expiring_table =
  fixes prune :: "clock \<Rightarrow> 'e table \<Rightarrow> 'e table" and limit :: int
  assumes prune_keys: "distinct (map fst tab) \<Longrightarrow> distinct (map fst (prune clk tab))"
    and prune_subset: "set (prune clk tab) \<subseteq> set tab"
    and prune_keeps: "(k, e, t) \<in> set tab \<Longrightarrow> (\<And>n. clk n - t \<le> limit) \<Longrightarrow> (k, e, t) \<in> set (prune clk tab)"
    and prune_drops: "(k, e, t) \<in> set (prune clk tab) \<Longrightarrow> \<exists>n. clk n - t \<le> limit"
begin

fun tab_run :: "'e tab_event list \<Rightarrow> 'e table \<Rightarrow> 'e table" where
  "tab_run [] tab = tab"
| "tab_run (Hear k e t # evs) tab = tab_run evs (heard k e t tab)"
| "tab_run (Prune clk # evs) tab = tab_run evs (prune clk tab)"

lemma run_keys: "distinct (map fst tab) \<Longrightarrow> distinct (map fst (tab_run evs tab))"
  by (induction evs tab rule: tab_run.induct) (auto intro: heard_keys prune_keys)

lemma run_sound:
  "distinct (map fst tab) \<Longrightarrow> (k, e, t) \<in> set (tab_run evs tab) \<Longrightarrow>
     last_heard k evs = Some (e, t) \<or> last_heard k evs = None \<and> (k, e, t) \<in> set tab"
proof (induction evs tab rule: tab_run.induct)
  case (2 k' e' t' evs tab)
  from "2.IH" [OF heard_keys [OF "2.prems"(1)]] "2.prems"
  consider "last_heard k evs = Some (e, t)" | "last_heard k evs = None" "(k, e, t) \<in> set (heard k' e' t' tab)"
    by auto
  then show ?case
  proof cases
    case 2
    then have "map_of (heard k' e' t' tab) k = Some (e, t)"
      using heard_keys [OF "2.prems"(1), of k' e' t'] by simp
    with 2 "2.prems"(1) show ?thesis by (auto simp: heard_map_of split: if_splits)
  qed auto
next
  case (3 clk evs tab)
  from "3.IH" [OF prune_keys [OF "3.prems"(1)]] "3.prems" prune_subset [of clk tab] show ?case by auto
qed auto

lemma run_complete:
  assumes "distinct (map fst tab)" "readings_before T evs" "T - t \<le> limit"
    and "last_heard k evs = Some (e, t) \<or> last_heard k evs = None \<and> (k, e, t) \<in> set tab"
  shows "(k, e, t) \<in> set (tab_run evs tab)"
  using assms
proof (induction evs tab rule: tab_run.induct)
  case (2 k' e' t' evs tab)
  have keys: "distinct (map fst (heard k' e' t' tab))" by (rule heard_keys [OF "2.prems"(1)])
  have "last_heard k evs = Some (e, t) \<or> last_heard k evs = None \<and> (k, e, t) \<in> set (heard k' e' t' tab)"
  proof (cases "last_heard k evs")
    case None
    with "2.prems"(1,4) have "map_of (heard k' e' t' tab) k = Some (e, t)"
      by (auto simp: heard_map_of split: if_splits)
    with None show ?thesis by (auto dest: map_of_SomeD)
  qed (use "2.prems"(4) in auto)
  with "2.IH" [OF keys] "2.prems"(2,3) show ?case by simp
next
  case (3 clk evs tab)
  have "clk n - t \<le> limit" for n
  proof -
    have "clk n \<le> T" using "3.prems"(2) by simp
    with "3.prems"(3) show ?thesis by linarith
  qed
  note fresh = this
  have "(k, e, t) \<in> set (prune clk tab)" if "(k, e, t) \<in> set tab"
    using that fresh by (rule prune_keeps)
  with "3.IH" [OF prune_keys [OF "3.prems"(1)]] "3.prems" show ?case by auto
qed auto

text \<open>A table pruned at one instant T lists a device exactly when it was heard within the limit.\<close>

lemma listed_exactly:
  assumes "readings_before T evs"
  shows "map_of (prune (\<lambda>n. T) (tab_run evs [])) k =
     (case last_heard k evs of Some (e, t) \<Rightarrow> if T - t \<le> limit then Some (e, t) else None | None \<Rightarrow> None)"
proof -
  let ?tab = "prune (\<lambda>n. T) (tab_run evs [])"
  have keys: "distinct (map fst ?tab)" by (intro prune_keys run_keys) simp
  have sound: "last_heard k evs = Some (e, t) \<and> T - t \<le> limit" if "(k, e, t) \<in> set ?tab" for e t
    using run_sound [of "[]" k e t evs] prune_subset prune_drops [OF that] that by auto
  have complete: "(k, e, t) \<in> set ?tab" if "last_heard k evs = Some (e, t)" "T - t \<le> limit" for e t
    using that run_complete [OF _ assms, of "[]" t k e] by (auto intro: prune_keeps)
  show ?thesis
  proof (cases "map_of ?tab k")
    case None
    then have "(k, e, t) \<notin> set ?tab" for e t using keys by (metis map_of_is_SomeI option.simps(3))
    with complete None show ?thesis by (auto split: option.splits)
  next
    case (Some et)
    obtain e t where et: "et = (e, t)" by fastforce
    with Some have "(k, e, t) \<in> set ?tab" by (auto dest: map_of_SomeD)
    from sound [OF this] Some et show ?thesis by simp
  qed
qed

end

section \<open>The three managers\<close>

lemma pruneOlder_subset: "set (pruneOlder limit clk tab) \<subseteq> set tab"
  by (induction limit clk tab rule: pruneOlder.induct) auto

lemma pruneOlder_keys: "distinct (map fst tab) \<Longrightarrow> distinct (map fst (pruneOlder limit clk tab))"
proof (induction limit clk tab rule: pruneOlder.induct)
  case (2 limit clk k e seen tab)
  with pruneOlder_subset [of limit "later clk" tab] show ?case by (auto simp: subset_iff)
qed simp

lemma pruneOlder_keeps:
  "(k, e, t) \<in> set tab \<Longrightarrow> (\<And>n. clk n - t \<le> limit) \<Longrightarrow> (k, e, t) \<in> set (pruneOlder limit clk tab)"
proof (induction limit clk tab rule: pruneOlder.induct)
  case (2 limit clk k' e' seen tab)
  have "later clk n - t \<le> limit" for n using "2.prems"(2) by (simp add: later_def)
  moreover have "\<not> limit < now clk - t" using "2.prems"(2) [of 0] by (simp add: now_def)
  ultimately show ?case using 2 by auto
qed simp

lemma pruneOlder_drops: "(k, e, t) \<in> set (pruneOlder limit clk tab) \<Longrightarrow> \<exists>n. clk n - t \<le> limit"
proof (induction limit clk tab rule: pruneOlder.induct)
  case (2 limit clk k' e' seen tab)
  consider "(k, e, t) \<in> set (pruneOlder limit (later clk) tab)" | "(k, e, t) = (k', e', seen)" "now clk - seen \<le> limit"
    using "2.prems" by (auto split: if_splits)
  then show ?case
  proof cases
    case 1
    then show ?thesis using "2.IH" by (auto simp: later_def split: if_splits)
  next
    case 2
    then show ?thesis by (auto simp: now_def)
  qed
qed simp

lemma edm_pruneStale_keeps:
  "(k, e, t) \<in> set tab \<Longrightarrow> T - t \<le> ETHERDREAM_DISCOVERY_TIMEOUT \<Longrightarrow> (k, e, t) \<in> set (edm_pruneStale T tab)"
  by (simp add: edm_pruneStale_def)

interpretation edm: expiring_table "\<lambda>clk. edm_pruneStale (now clk)" ETHERDREAM_DISCOVERY_TIMEOUT
proof
  show "(k, e, t) \<in> set (edm_pruneStale (now clk) tab)"
    if "(k, e, t) \<in> set tab" "\<And>n. clk n - t \<le> ETHERDREAM_DISCOVERY_TIMEOUT" for k e t tab clk
    using that(1) that(2) [of 0] by (simp add: edm_pruneStale_keeps now_def)
qed (auto simp: edm_pruneStale_def distinct_map_filter now_def intro: exI [of _ 0])

interpretation lcm: expiring_table lcm_prune LASERCUBE_STALE_AFTER
  unfolding lcm_prune_def
  by unfold_locales (auto intro: pruneOlder_keys pruneOlder_keeps pruneOlder_drops dest: subsetD [OF pruneOlder_subset])

interpretation lsm: expiring_table "pruneOlder DISCOVERY_STALE_AFTER" DISCOVERY_STALE_AFTER
  by unfold_locales (auto intro: pruneOlder_keys pruneOlder_keeps pruneOlder_drops dest: subsetD [OF pruneOlder_subset])

section \<open>The Ether Dream listener\<close>

lemma etherDreamDatagram_total: "\<exists>r. etherDreamDatagram ip data = Some r"
proof (cases "length data < MIN_DISCOVERY_PACKET_BYTES")
  case True
  then show ?thesis by (simp add: etherDreamDatagram_def)
next
  case False
  then have len: "36 \<le> length data" by (simp add: MIN_DISCOVERY_PACKET_BYTES_def)
  then have "2 \<le> length (drop 6 data)" "2 \<le> length (drop 8 data)" "2 \<le> length (drop 10 data)"
    "4 \<le> length (drop 12 data)" by simp_all
  then obtain hw sw cap rate where "readLe16 (drop 6 data) = Some hw" "readLe16 (drop 8 data) = Some sw"
    "readLe16 (drop 10 data) = Some cap" "readLe32 (drop 12 data) = Some rate"
    by (metis le16_put_get le32_put_get)
  with len False show ?thesis by (simp add: etherDreamDatagram_def rd8_in Let_def)
qed

lemma etherDreamDatagram_id:
  "etherDreamDatagram ip data = Some (Some i) \<Longrightarrow> 36 \<le> length data"
  by (auto simp: etherDreamDatagram_def MIN_DISCOVERY_PACKET_BYTES_def split: if_splits)

fun last_datagram :: "string \<Rightarrow> (receipt \<times> time_point) list \<Rightarrow> (info \<times> time_point) option" where
  "last_datagram k [] = None"
| "last_datagram k ((r, t) # rs) =
     (case last_datagram k rs of
        Some x \<Rightarrow> Some x
      | None \<Rightarrow>
          (case r of
             Received ip data \<Rightarrow>
               (case etherDreamDatagram ip data of
                  Some (Some i) \<Rightarrow> if ci_id i = k then Some (i, t) else None
                | _ \<Rightarrow> None)
           | _ \<Rightarrow> None))"

fun edm_events :: "(receipt \<times> time_point) list \<Rightarrow> info tab_event list" where
  "edm_events [] = []"
| "edm_events ((Received ip data, t) # rs) =
     (case etherDreamDatagram ip data of
        Some (Some i) \<Rightarrow> Hear (ci_id i) i t # Prune (\<lambda>n. t) # edm_events rs
      | _ \<Rightarrow> edm_events rs)"
| "edm_events ((ReceiveTimedOut, t) # rs) = Prune (\<lambda>n. t) # edm_events rs"
| "edm_events ((_, t) # rs) = edm_events rs"

lemma edm_events_heard: "last_heard k (edm_events rs) = last_datagram k rs"
  by (induction rs rule: edm_events.induct) (auto split: option.splits)

lemma edm_events_before: "list_all (\<lambda>(r, t). t \<le> T) rs \<Longrightarrow> readings_before T (edm_events rs)"
  by (induction rs rule: edm_events.induct) (auto split: option.splits)

lemma edm_listen_runs:
  "edm_running s \<Longrightarrow> ReceiveAborted \<notin> fst ` set rs \<Longrightarrow>
     edm_listen rs s = Some (s\<lparr>edm_controllers := edm.tab_run (edm_events rs) (edm_controllers s)\<rparr>)"
proof (induction rs arbitrary: s)
  case Nil
  then show ?case by simp
next
  case (Cons rt rs)
  obtain r t where rt: "rt = (r, t)" by fastforce
  show ?case
  proof (cases r)
    case (Received ip data)
    obtain d where d: "etherDreamDatagram ip data = Some d" using etherDreamDatagram_total by blast
    with Cons Received show ?thesis
      by (cases d) (auto simp: rt edm_receive_def)
  qed (use Cons in \<open>auto simp: rt edm_receive_def\<close>)
qed

lemma last_datagram_id: "last_datagram k rs = Some (i, t) \<Longrightarrow> ci_id i = k"
  by (induction rs) (auto split: option.splits receipt.splits if_splits)

lemma last_datagram_keyed: "(k, i, t) \<in> set (edm.tab_run (edm_events rs) []) \<Longrightarrow> ci_id i = k"
  using edm.run_sound [of "[]" k i t "edm_events rs"] by (auto simp: edm_events_heard intro: last_datagram_id)

text \<open>
  C28. Discovery of Ether Dream DACs is exact. Whatever the network delivers to the listener
  (datagrams of any content and length, timeouts, errors) up to the time T, the listener
  never reads outside a datagram, and \<open>discover()\<close> at T lists precisely the devices heard
  within the last three seconds: each id once, with the record decoded from its most recent
  datagram.
\<close>

theorem etherdream_discovery_exact:
  assumes "ReceiveAborted \<notin> fst ` set rs" and "list_all (\<lambda>(r, t). t \<le> T) rs"
  shows "\<exists>s infos s'. edm_threadedFunction rs (edm_construct True True) = Some s \<and>
     edm_discover T s = (infos, s') \<and> distinct (map ci_id infos) \<and>
     (\<forall>i. (i \<in> set infos) = (\<exists>t. last_datagram (ci_id i) rs = Some (i, t) \<and> T - t \<le> ETHERDREAM_DISCOVERY_TIMEOUT))"
proof -
  define s where "s = (edm_construct True True)\<lparr>edm_controllers := edm.tab_run (edm_events rs) []\<rparr>"
  have run: "edm_threadedFunction rs (edm_construct True True) = Some s"
    using edm_listen_runs [of "edm_construct True True" rs] assms(1)
    by (simp add: edm_threadedFunction_def edm_construct_def s_def)
  define tab where "tab = edm_pruneStale T (edm.tab_run (edm_events rs) [])"
  have disc: "edm_discover T s = (listed tab, s\<lparr>edm_controllers := tab\<rparr>)"
    by (simp add: edm_discover_def s_def tab_def Let_def)
  have keys: "distinct (map fst tab)"
    using edm.prune_keys [OF edm.run_keys, of "[]" "\<lambda>n. T"] by (simp add: tab_def)
  have sub: "set tab \<subseteq> set (edm.tab_run (edm_events rs) [])"
    using edm.prune_subset [of "\<lambda>n. T"] by (simp add: tab_def)
  have keyed: "ci_id i = k" if "(k, i, t) \<in> set tab" for k i t
    using that sub by (blast intro: last_datagram_keyed)
  then have ids: "map ci_id (listed tab) = map fst tab"
    by (auto simp: listed_def)
  have found: "map_of tab k = (case last_datagram k rs of
      Some (e, t) \<Rightarrow> if T - t \<le> ETHERDREAM_DISCOVERY_TIMEOUT then Some (e, t) else None | None \<Rightarrow> None)" for k
    using edm.listed_exactly [OF edm_events_before [OF assms(2)], of k]
    by (simp add: tab_def edm_events_heard)
  have "(i \<in> set (listed tab)) = (\<exists>t. last_datagram (ci_id i) rs = Some (i, t) \<and> T - t \<le> ETHERDREAM_DISCOVERY_TIMEOUT)" for i
  proof -
    have "(i \<in> set (listed tab)) = (\<exists>t. (ci_id i, i, t) \<in> set tab)"
      using keyed by (force simp: listed_def)
    also have "\<dots> = (\<exists>t. map_of tab (ci_id i) = Some (i, t))" using keys by simp
    also have "\<dots> = (\<exists>t. last_datagram (ci_id i) rs = Some (i, t) \<and> T - t \<le> ETHERDREAM_DISCOVERY_TIMEOUT)"
      by (auto simp: found split: option.splits if_splits)
    finally show ?thesis .
  qed
  with run disc keys ids show ?thesis by auto
qed

definition broadcast_example :: bytes where
  "broadcast_example =
     [0x00, 0x04, 0xA3, 0x12, 0x34, 0x56, 0x1E, 0x00, 0x02, 0x00, 0x08, 0x07, 0xA0, 0x86, 0x01, 0x00,
      0, 0, 2, 0, 0, 0, 0, 0, 0, 0, 0, 0, 0, 0, 0, 0, 0, 0, 0, 0]"

lemma mac_example: "mac_of_bytes [0x00, 0x04, 0xA3, 0x12, 0x34, 0x56] = 0x4A3123456"
  by (simp add: mac_of_bytes_def)

lemma replicate_3: "replicate 3 x = [x, x, x]"
  by (simp add: numeral_eq_Suc)

lemma mac_id_example: "format_mac_id 0x4A3123456 = ''0004A3123456''"
  by (simp add: format_mac_id_def padded_hex_def digits_of.simps hex_digit_def Let_def replicate_3)

lemma broadcast_decodes:
  "map_option (map_option ci_id) (etherDreamDatagram ''10.0.0.5'' broadcast_example) = Some (Some ''0004A3123456'')"
  by (simp add: etherDreamDatagram_def broadcast_example_def MIN_DISCOVERY_PACKET_BYTES_def mac_example mac_id_example
        readLe16_def readLe32_def rd8_def Let_def setUsageState_def newEtherDreamInfo_def newControllerInfo_def)

lemma only_member: "distinct xs \<Longrightarrow> set xs = {x} \<Longrightarrow> xs = [x]"
  by (cases xs) (auto simp: subset_singleton_iff)

theorem etherdream_discovery_exact_witness:
  "\<exists>s infos s'.
     edm_threadedFunction [(Received ''10.0.0.5'' broadcast_example, 1000), (ReceiveFailed, 1500), (ReceiveTimedOut, 2000)]
       (edm_construct True True) = Some s \<and>
     edm_discover 3000 s = (infos, s') \<and> map ci_id infos = [''0004A3123456'']"
proof -
  let ?rs = "[(Received ''10.0.0.5'' broadcast_example, 1000), (ReceiveFailed, 1500), (ReceiveTimedOut, 2000)]"
  obtain i where i: "etherDreamDatagram ''10.0.0.5'' broadcast_example = Some (Some i)" "ci_id i = ''0004A3123456''"
    using broadcast_decodes by auto
  have last: "last_datagram k ?rs = (if k = ci_id i then Some (i, 1000) else None)" for k
    by (simp add: i)
  have "ReceiveAborted \<notin> fst ` set ?rs" "list_all (\<lambda>(r, t). t \<le> (3000 :: int)) ?rs" by simp_all
  from etherdream_discovery_exact [OF this] obtain s infos s' where
    e: "edm_threadedFunction ?rs (edm_construct True True) = Some s" "edm_discover 3000 s = (infos, s')"
    "distinct (map ci_id infos)" "\<And>j. (j \<in> set infos) =
       (\<exists>t. last_datagram (ci_id j) ?rs = Some (j, t) \<and> 3000 - t \<le> ETHERDREAM_DISCOVERY_TIMEOUT)" by blast
  have "(j \<in> set infos) = (j = i)" for j
    unfolding e(4) last ETHERDREAM_DISCOVERY_TIMEOUT_def by (cases "ci_id j = ci_id i") auto
  then have "set infos = {i}" by auto
  moreover have "distinct infos" using e(3) by (simp add: distinct_map)
  ultimately have "infos = [i]" by (rule only_member [rotated])
  with e(1,2) i(2) show ?thesis by auto
qed

end
