(* ===== verification/Helios_Naming.thy ===== *)
theory Helios_Naming
  imports Controller_Infos "HOL-Library.Char_ord" "HOL-Library.List_Lexorder" "HOL-Library.Product_Lexorder" "HOL-Library.Sublist" "HOL-Library.Multiset"
begin

text \<open>
  helios/HeliosManager.cpp: the names and ids of Helios USB DACs, and the discovery pass that
  assigns them. The USB transfers are inputs: a device is what its probe finds. The vendor
  header's maximum point rate is a parameter. A name search that would count past the largest
  \<open>int\<close> is \<open>None\<close>.
\<close>

section \<open>Strings\<close>

definition isdigit :: "char \<Rightarrow> bool" where
  "isdigit c = (let n = byte_of_char c in 48 \<le> n \<and> n \<le> 57)"

definition isalnum :: "char \<Rightarrow> bool" where
  "isalnum c = (let n = byte_of_char c in isdigit c \<or> (65 \<le> n \<and> n \<le> 90) \<or> (97 \<le> n \<and> n \<le> 122))"

definition tolower :: "char \<Rightarrow> char" where
  "tolower c = (let n = byte_of_char c in if 65 \<le> n \<and> n \<le> 90 then char_of (n + 32) else c)"

definition trimAsciiWhitespace :: "string \<Rightarrow> string" where
  "trimAsciiWhitespace v = rev (dropWhile isspace (rev (dropWhile isspace v)))"

definition lowercaseAscii :: "string \<Rightarrow> string" where
  "lowercaseAscii v = map tolower v"

fun occurs_in :: "string \<Rightarrow> string \<Rightarrow> bool" where
  "occurs_in needle [] = (needle = [])"
| "occurs_in needle (c # cs) = (prefix needle (c # cs) \<or> occurs_in needle cs)"

definition containsAsciiNoCase :: "string \<Rightarrow> string \<Rightarrow> bool" where
  "containsAsciiNoCase haystack needle = occurs_in (lowercaseAscii needle) (lowercaseAscii haystack)"

definition sanitizeSerialToken :: "string \<Rightarrow> string" where
  "sanitizeSerialToken v = filter isalnum v"

definition digitsOnly :: "string \<Rightarrow> string" where
  "digitsOnly v = filter isdigit v"

definition lastChars :: "nat \<Rightarrow> string \<Rightarrow> string" where
  "lastChars n v = drop (length v - n) v"

definition makePortPathFallbackToken :: "string \<Rightarrow> nat \<Rightarrow> string" where
  "makePortPathFallbackToken portPath maxLength =
     (let d0 = digitsOnly portPath;
          d1 = (if d0 = [] then sanitizeSerialToken portPath else d0);
          d = (if d1 = [] then ''0'' else d1)
      in if length d > maxLength then lastChars maxLength d else d)"

section \<open>Names\<close>

definition maxHeliosNameLength :: nat where
  "maxHeliosNameLength = 30"

definition truncateHeliosName :: "string \<Rightarrow> string" where
  "truncateHeliosName label = (if length label \<le> maxHeliosNameLength then label else take maxHeliosNameLength label)"

definition prefersHeliosProDefaultName :: "string \<Rightarrow> string \<Rightarrow> bool" where
  "prefersHeliosProDefaultName product serialToken =
     (if containsAsciiNoCase product ''heliospro'' \<or> containsAsciiNoCase product ''idn'' then True
      else serialToken \<noteq> [] \<and> length serialToken \<le> 4)"

definition makeHeliosUsbDefaultName :: "string \<Rightarrow> string \<Rightarrow> string \<Rightarrow> string" where
  "makeHeliosUsbDefaultName product serial portPath =
     (let t0 = digitsOnly serial;
          t = (if t0 = [] then sanitizeSerialToken serial else t0)
      in if prefersHeliosProDefaultName product t
         then truncateHeliosName (''HeliosPro '' @
                (if t = [] then makePortPathFallbackToken portPath 4
                 else if length t > 4 then lastChars 4 t else t))
         else truncateHeliosName (''helios '' @ (if t = [] then makePortPathFallbackToken portPath 9 else t)))"

definition makeGenericHeliosFallbackName :: "nat \<Rightarrow> string" where
  "makeGenericHeliosFallbackName index = truncateHeliosName (''helios '' @ dec_string index)"

definition nameSuffix :: "nat \<Rightarrow> string" where
  "nameSuffix n = '' ('' @ dec_string n @ '')''"

definition makeUniqueRenameLabelWithSuffix :: "nat \<Rightarrow> string \<Rightarrow> nat \<Rightarrow> string" where
  "makeUniqueRenameLabelWithSuffix index preferredBase n =
     (let b0 = truncateHeliosName preferredBase;
          base = (if b0 = [] then makeGenericHeliosFallbackName index else b0);
          suffixLabel = nameSuffix n
      in if maxHeliosNameLength \<le> length suffixLabel then truncateHeliosName base
         else
           let maxBaseLength = maxHeliosNameLength - length suffixLabel;
               base' = (if length base > maxBaseLength
                        then let b1 = rev (dropWhile (\<lambda>c. c = CHR '' '') (rev (take maxBaseLength base)))
                             in if b1 = [] then take maxBaseLength (makeGenericHeliosFallbackName index) else b1
                        else base)
           in base' @ suffixLabel)"

partial_function (option) renameLoop :: "nat \<Rightarrow> string \<Rightarrow> string \<Rightarrow> string set \<Rightarrow> nat \<Rightarrow> string option" where
  "renameLoop index preferredBase current used n =
     (if int n > int_max32 then None
      else let candidate = makeUniqueRenameLabelWithSuffix index preferredBase n
           in if candidate \<noteq> current \<and> candidate \<notin> used then Some candidate
              else renameLoop index preferredBase current used (Suc n))"

definition makeUniqueRenameLabel :: "nat \<Rightarrow> string \<Rightarrow> string \<Rightarrow> string set \<Rightarrow> string option" where
  "makeUniqueRenameLabel index preferredBase currentLabel usedLabels =
     (let c0 = truncateHeliosName preferredBase;
          candidate = (if c0 = [] then makeGenericHeliosFallbackName index else c0);
          current = truncateHeliosName currentLabel
      in if candidate \<noteq> current \<and> candidate \<notin> usedLabels then Some candidate
         else renameLoop index preferredBase current usedLabels 2)"

section \<open>Ids\<close>

definition idChar :: "char \<Rightarrow> string" where
  "idChar c = (if isalnum c then [tolower c]
               else if c = CHR '' '' \<or> c = CHR ''-'' \<or> c = CHR ''_'' \<or> c = CHR ''.'' then ''-'' else [])"

fun collapseDashes :: "bool \<Rightarrow> string \<Rightarrow> string" where
  "collapseDashes previousDash [] = []"
| "collapseDashes previousDash (c # cs) =
     (if c = CHR ''-'' then (if previousDash then collapseDashes True cs else c # collapseDashes True cs)
      else c # collapseDashes False cs)"

definition sanitizeIdComponent :: "string \<Rightarrow> string" where
  "sanitizeIdComponent text =
     (let collapsed = collapseDashes False (concat (map idChar text))
      in rev (dropWhile (\<lambda>c. c = CHR ''-'') (rev (dropWhile (\<lambda>c. c = CHR ''-'') collapsed))))"

partial_function (option) idLoop :: "string \<Rightarrow> string set \<Rightarrow> string \<Rightarrow> nat \<Rightarrow> string option" where
  "idLoop base used candidate n =
     (if candidate \<notin> used then Some candidate
      else if int_max32 \<le> int n then None
      else idLoop base used (base @ ''-'' @ dec_string n) (Suc n))"

text \<open>The id, and the ids used with it.\<close>

definition makeHeliosControllerId :: "string \<Rightarrow> nat \<Rightarrow> string set \<Rightarrow> (string \<times> string set) option" where
  "makeHeliosControllerId label index usedIds =
     (let b0 = sanitizeIdComponent label;
          base = (if b0 = [] then ''helios'' else b0);
          candidate = (if base \<in> usedIds then base @ ''-'' @ dec_string index else base)
      in map_option (\<lambda>i. (i, insert i usedIds)) (idLoop base usedIds candidate 2))"

definition makeBusyHeliosControllerId :: "string \<Rightarrow> string" where
  "makeBusyHeliosControllerId portPath = ''helios-usb-busy-'' @ portPath"

definition makeBusyHeliosLabel :: "string \<Rightarrow> string" where
  "makeBusyHeliosLabel portPath = ''Helios USB '' @ portPath"

text \<open>The port numbers of the device's hub path, and otherwise its bus and device numbers.\<close>

definition joinPorts :: "u8 list \<Rightarrow> string" where
  "joinPorts ports = fold (\<lambda>p path. (if path = [] then path else path @ ''-'') @ dec_string (unat p)) ports []"

definition makeHeliosUsbPortPath :: "u8 list \<Rightarrow> u8 \<Rightarrow> u8 \<Rightarrow> string" where
  "makeHeliosUsbPortPath ports bus dev =
     (if ports \<noteq> [] \<and> joinPorts ports \<noteq> [] then joinPorts ports
      else ''bus'' @ dec_string (unat bus) @ ''-dev'' @ dec_string (unat dev))"

section \<open>The searches for a free name end\<close>

text \<open>
  Both loops try numbered candidates. The contract is that different numbers give different
  candidates; then one of any |B| + 1 consecutive numbers is free of a finite set B.
\<close>

locale numbered_names =
  fixes candidate :: "nat \<Rightarrow> string"
  assumes numbers_distinct: "int m \<le> int_max32 \<Longrightarrow> int n \<le> int_max32 \<Longrightarrow> candidate m = candidate n \<Longrightarrow> m = n"
begin

lemma free_number:
  assumes "finite B" "int (card B) + 2 < int_max32"
  shows "\<exists>n. 2 \<le> n \<and> n \<le> card B + 2 \<and> candidate n \<notin> B"
proof (rule ccontr)
  assume "\<not> ?thesis"
  then have sub: "candidate ` {2..card B + 2} \<subseteq> B" by auto
  have "inj_on candidate {2..card B + 2}"
    using assms(2) by (intro inj_onI numbers_distinct) auto
  then have "card B + 1 = card (candidate ` {2..card B + 2})" by (simp add: card_image)
  also have "\<dots> \<le> card B" using assms(1) sub by (rule card_mono)
  finally show False by simp
qed

text \<open>The first free number from 2 on.\<close>

lemma first_free:
  assumes "finite B" "int (card B) + 2 < int_max32"
  obtains n where "2 \<le> n" "n \<le> card B + 2" "candidate n \<notin> B" "\<And>m. 2 \<le> m \<Longrightarrow> m < n \<Longrightarrow> candidate m \<in> B"
proof -
  define P where "P n = (2 \<le> n \<and> candidate n \<notin> B)" for n
  from free_number [OF assms] obtain k where k: "P k" "k \<le> card B + 2" by (auto simp: P_def)
  have "P (Least P)" using k(1) by (rule LeastI)
  moreover have "Least P \<le> k" using k(1) by (rule Least_le)
  moreover have "\<not> P m" if "m < Least P" for m using that by (rule not_less_Least)
  ultimately show ?thesis using k(2) by (intro that [of "Least P"]) (auto simp: P_def)
qed

end

lemma set_digits_of: "2 \<le> b \<Longrightarrow> b \<le> 10 \<Longrightarrow> set (digits_of b up n) \<subseteq> {c. isdigit c}"
proof (induction b up n rule: digits_of.induct)
  case (1 b up n)
  have d: "isdigit (hex_digit up k)" if "k < 10" for k
  proof -
    have "k \<in> {0,1,2,3,4,5,6,7,8,9}" using that by auto
    then show ?thesis by (auto simp: hex_digit_def isdigit_def byte_of_char_def Let_def)
  qed
  show ?case
  proof (cases "n < b")
    case True
    with "1.prems" d show ?thesis by (subst digits_of.simps) auto
  next
    case False
    have "n mod b < 10" using "1.prems" by (meson mod_less_divisor order.strict_trans2 pos2 order.strict_trans1)
    with False "1" d show ?thesis by (subst digits_of.simps) auto
  qed
qed

lemma set_dec_string: "c \<in> set (dec_string n) \<Longrightarrow> isdigit c"
  using set_digits_of [of 10 True n] by (auto simp: dec_string_def)

lemma length_digits_of: "n < 10 ^ k \<Longrightarrow> 0 < k \<Longrightarrow> length (digits_of 10 up n) \<le> k"
proof (induction k arbitrary: n)
  case (Suc k)
  show ?case
  proof (cases "n < 10")
    case True
    then show ?thesis by (subst digits_of.simps) simp
  next
    case False
    then have "0 < k" using Suc.prems(1) by (cases k) auto
    moreover have "n div 10 < 10 ^ k" using Suc.prems(1) by (simp add: less_mult_imp_div_less mult.commute)
    ultimately have "length (digits_of 10 up (n div 10)) \<le> k" by (intro Suc.IH)
    with False show ?thesis by (subst digits_of.simps) simp
  qed
qed simp

lemma length_nameSuffix: "int n \<le> int_max32 \<Longrightarrow> length (nameSuffix n) < maxHeliosNameLength"
proof -
  assume "int n \<le> int_max32"
  then have "n < 10 ^ 10" by (simp add: int_max32_def)
  then have "length (digits_of 10 True n) \<le> 10" by (rule length_digits_of) simp
  then show ?thesis by (simp add: nameSuffix_def maxHeliosNameLength_def dec_string_def)
qed

text \<open>The number is what stands after the last opening parenthesis.\<close>

lemma nameSuffix_readable: "takeWhile (\<lambda>c. c \<noteq> CHR ''('') (rev (base @ nameSuffix n)) = rev (dec_string n @ '')'')"
proof -
  have "\<forall>c\<in>set ('')'' @ rev (dec_string n)). c \<noteq> CHR ''(''"
    by (auto dest!: set_dec_string simp: isdigit_def byte_of_char_def Let_def)
  then have "takeWhile (\<lambda>c. c \<noteq> CHR ''('') (('')'' @ rev (dec_string n)) @ CHR ''('' # CHR '' '' # rev base) = '')'' @ rev (dec_string n)"
    by (subst takeWhile_append2) auto
  then show ?thesis by (simp add: nameSuffix_def)
qed

lemma nameSuffix_inj: "a @ nameSuffix m = b @ nameSuffix n \<Longrightarrow> m = n"
proof -
  assume "a @ nameSuffix m = b @ nameSuffix n"
  then have "rev (dec_string m @ '')'') = rev (dec_string n @ '')'')"
    by (metis nameSuffix_readable)
  then show ?thesis by (auto intro: dec_string_inj)
qed

lemma renameLabel_shape:
  assumes "int n \<le> int_max32"
  shows "\<exists>base. makeUniqueRenameLabelWithSuffix index preferredBase n = base @ nameSuffix n \<and>
     length base \<le> maxHeliosNameLength - length (nameSuffix n)"
proof -
  have "length (rev (dropWhile (\<lambda>c. c = CHR '' '') (rev (take k (b :: string))))) \<le> k" for k b
    using length_dropWhile_le [of "\<lambda>c. c = CHR '' ''" "rev (take k b)"] by simp
  with length_nameSuffix [OF assms] show ?thesis
    by (auto simp: makeUniqueRenameLabelWithSuffix_def Let_def)
qed

interpretation rename: numbered_names "makeUniqueRenameLabelWithSuffix index preferredBase" for index preferredBase
  by unfold_locales (metis renameLabel_shape nameSuffix_inj)

interpretation ids: numbered_names "\<lambda>n. base @ ''-'' @ dec_string n" for base
  by unfold_locales (auto intro: dec_string_inj)

lemma renameLoop_finds:
  assumes "2 \<le> start" "start \<le> n" "int n \<le> int_max32"
    and "makeUniqueRenameLabelWithSuffix index b n \<notin> insert current used"
    and "\<And>m. 2 \<le> m \<Longrightarrow> m < n \<Longrightarrow> makeUniqueRenameLabelWithSuffix index b m \<in> insert current used"
  shows "renameLoop index b current used start = Some (makeUniqueRenameLabelWithSuffix index b n)"
  using assms(1,2)
proof (induction "n - start" arbitrary: start)
  case 0
  then have "start = n" by simp
  with assms(3,4) show ?case by (subst renameLoop.simps) (auto simp: Let_def)
next
  case (Suc k)
  then have less: "start < n" by simp
  then have "makeUniqueRenameLabelWithSuffix index b start \<in> insert current used"
    using assms(5) Suc.prems(1) by blast
  moreover have "renameLoop index b current used (Suc start) = Some (makeUniqueRenameLabelWithSuffix index b n)"
    using Suc less by (intro Suc.hyps(1)) auto
  ultimately show ?case using less assms(3) by (subst renameLoop.simps) (auto simp: Let_def)
qed

lemma idLoop_finds:
  assumes "2 \<le> start" "start \<le> n" "int n < int_max32"
    and "base @ ''-'' @ dec_string n \<notin> used"
    and "\<And>m. 2 \<le> m \<Longrightarrow> m < n \<Longrightarrow> base @ ''-'' @ dec_string m \<in> used" and "candidate \<in> used"
  shows "idLoop base used candidate start = Some (base @ ''-'' @ dec_string n)"
  using assms(1,2,6)
proof (induction "n - start" arbitrary: start candidate)
  case 0
  then have "start = n" by simp
  have "idLoop base used (base @ ''-'' @ dec_string n) (Suc n) = Some (base @ ''-'' @ dec_string n)"
    using assms(4) by (subst idLoop.simps) simp
  with 0 \<open>start = n\<close> assms(3) show ?case by (simp add: idLoop.simps [of base used candidate])
next
  case (Suc k)
  then have less: "start < n" by simp
  have "base @ ''-'' @ dec_string start \<in> used" using assms(5) Suc.prems(1) less by blast
  then have "idLoop base used (base @ ''-'' @ dec_string start) (Suc start) = Some (base @ ''-'' @ dec_string n)"
    using Suc less by (intro Suc.hyps(1)) auto
  with Suc.prems less assms(3) show ?case by (simp add: idLoop.simps [of base used candidate])
qed

lemma idLoop_some:
  assumes "finite used" "int (card used) + 2 < int_max32"
  shows "\<exists>i. idLoop base used candidate 2 = Some i \<and> i \<notin> used"
proof (cases "candidate \<in> used")
  case False
  then show ?thesis by (simp add: idLoop.simps)
next
  case True
  from ids.first_free [OF assms, of base] obtain n where n: "2 \<le> n" "n \<le> card used + 2"
    "base @ ''-'' @ dec_string n \<notin> used" "\<And>m. 2 \<le> m \<Longrightarrow> m < n \<Longrightarrow> base @ ''-'' @ dec_string m \<in> used" by blast
  have "int n < int_max32" using n(2) assms(2) by linarith
  from idLoop_finds [OF _ n(1) this n(3,4) True] n(3) show ?thesis by simp
qed

lemma makeHeliosControllerId_fresh:
  assumes "finite used" "int (card used) + 2 < int_max32"
  shows "\<exists>i. makeHeliosControllerId label index used = Some (i, insert i used) \<and> i \<notin> used"
  using idLoop_some [OF assms] by (fastforce simp: makeHeliosControllerId_def Let_def)

lemma helios_rename_total:
  assumes "finite usedLabels" and "int (card usedLabels) + 3 < int_max32"
  shows "\<exists>label. makeUniqueRenameLabel index preferredBase currentLabel usedLabels = Some label \<and>
     label \<notin> usedLabels \<and> label \<noteq> truncateHeliosName currentLabel \<and> length label \<le> maxHeliosNameLength"
proof -
  let ?current = "truncateHeliosName currentLabel"
  let ?B = "insert ?current usedLabels"
  have "card ?B \<le> card usedLabels + 1" using card_insert_le_m1 [of "card usedLabels + 1" usedLabels ?current] by simp
  then have small: "finite ?B" "int (card ?B) + 2 < int_max32" using assms by auto
  from rename.first_free [OF small, of index preferredBase] obtain n where n: "2 \<le> n" "n \<le> card ?B + 2"
    "makeUniqueRenameLabelWithSuffix index preferredBase n \<notin> ?B"
    "\<And>m. 2 \<le> m \<Longrightarrow> m < n \<Longrightarrow> makeUniqueRenameLabelWithSuffix index preferredBase m \<in> ?B" by blast
  have max: "int n \<le> int_max32" using n(2) small(2) by linarith
  have loop: "renameLoop index preferredBase ?current usedLabels 2 = Some (makeUniqueRenameLabelWithSuffix index preferredBase n)"
    by (rule renameLoop_finds [OF _ n(1) max n(3,4)]) auto
  obtain base where "makeUniqueRenameLabelWithSuffix index preferredBase n = base @ nameSuffix n"
    "length base \<le> maxHeliosNameLength - length (nameSuffix n)"
    using renameLabel_shape [OF max] by blast
  then have len: "length (makeUniqueRenameLabelWithSuffix index preferredBase n) \<le> maxHeliosNameLength"
    using length_nameSuffix [OF max] by simp
  have "length (truncateHeliosName l) \<le> maxHeliosNameLength" for l
    by (simp add: truncateHeliosName_def)
  with loop len n(3) show ?thesis
    by (auto simp: makeUniqueRenameLabel_def Let_def makeGenericHeliosFallbackName_def)
qed

text \<open>
  A free name is always found. For any set of names in use (short of the range of an
  \<open>int\<close>) the renaming search ends with a name that is not in use, differs from the name the
  device has, and fits the thirty bytes the firmware stores.
\<close>

theorem helios_rename_finds:
  assumes "finite usedLabels" and "int (card usedLabels) + 3 < int_max32"
  shows "\<exists>label. makeUniqueRenameLabel index preferredBase currentLabel usedLabels = Some label \<and>
     label \<notin> usedLabels \<and> label \<noteq> truncateHeliosName currentLabel \<and> length label \<le> maxHeliosNameLength"
  using helios_rename_total [OF assms] .

theorem helios_rename_finds_witness:
  "\<exists>label. makeUniqueRenameLabel 0 ''helios 1'' ''helios 1'' {''helios 1'', ''helios 1 (2)''} = Some label \<and>
     label \<notin> {''helios 1'', ''helios 1 (2)''} \<and> label \<noteq> truncateHeliosName ''helios 1'' \<and>
     length label \<le> maxHeliosNameLength"
  by (rule helios_rename_finds) (simp_all add: int_max32_def)

end
