(* ===== verification/Helios_Discovery.thy ===== *)
theory Helios_Discovery
  imports Helios_Naming
begin

text \<open>
  The discovery pass of helios/HeliosManager.cpp (\<open>collectDiscoveredControllers\<close>): devices are
  probed, sorted, named, given ids, and their names remembered by port path.
\<close>

datatype UsbProbe =
    ProbeBusy
  | ProbeInvalid
  | ProbeOpened int string string "string option"

text \<open>A USB device: whether it is a Helios, its port path, what opening it and asking for
  firmware version, product, serial number and name gives, and whether a name can be stored.\<close>

record UsbDevice =
  ud_isHelios :: bool
  ud_path :: string
  ud_probe :: UsbProbe
  ud_stores :: bool

record HeliosProbe =
  hp_path :: string
  hp_reportedLabel :: string
  hp_product :: string
  hp_serial :: string
  hp_firmware :: int
  hp_nameQuerySucceeded :: bool
  hp_nameWasEmpty :: bool
  hp_stores :: bool

definition newProbe :: "UsbDevice \<Rightarrow> HeliosProbe" where
  "newProbe d = \<lparr>hp_path = ud_path d, hp_reportedLabel = '''', hp_product = '''', hp_serial = '''', hp_firmware = 0,
     hp_nameQuerySucceeded = False, hp_nameWasEmpty = False, hp_stores = ud_stores d\<rparr>"

text \<open>The free probes and the busy ones.\<close>

fun probeDevices :: "string set \<Rightarrow> UsbDevice list \<Rightarrow> HeliosProbe list \<times> HeliosProbe list" where
  "probeDevices owned [] = ([], [])"
| "probeDevices owned (d # ds) =
     (let (free, busy) = probeDevices owned ds
      in if \<not> ud_isHelios d then (free, busy)
         else case ud_probe d of
           ProbeBusy \<Rightarrow> if ud_path d \<in> owned then (newProbe d # free, busy) else (free, newProbe d # busy)
         | ProbeInvalid \<Rightarrow> (free, busy)
         | ProbeOpened fw product serial name \<Rightarrow>
             ((newProbe d)\<lparr>hp_firmware := fw, hp_product := trimAsciiWhitespace product,
                           hp_serial := trimAsciiWhitespace serial,
                           hp_nameQuerySucceeded := name \<noteq> None, hp_nameWasEmpty := (name = Some ''''),
                           hp_reportedLabel := (case name of Some n \<Rightarrow> n | None \<Rightarrow> '''')\<rparr> # free, busy))"

definition seenPortPaths :: "UsbDevice list \<Rightarrow> string set" where
  "seenPortPaths ds = ud_path ` {d \<in> set ds. ud_isHelios d}"

record HeliosScan =
  hs_usedIds :: "string set"
  hs_usedLabels :: "string set"
  hs_stable :: "(string \<times> string) list"
  hs_results :: "info list"

text \<open>The label of a free device, and whether it is to be remembered.\<close>

definition freeLabel :: "nat \<Rightarrow> HeliosProbe \<Rightarrow> HeliosScan \<Rightarrow> (string \<times> bool) option" where
  "freeLabel i p s =
     (let cached = map_of (hs_stable s) (hp_path p);
          hadCached = (cached \<noteq> None);
          preferred = makeHeliosUsbDefaultName (hp_product p) (hp_serial p) (hp_path p);
          l0 = hp_reportedLabel p;
          l1 = (if l0 = '''' then (case cached of Some c \<Rightarrow> c | None \<Rightarrow> l0) else l0);
          label = (if l1 = '''' then preferred else l1);
          persist = (label \<in> hs_usedLabels s \<or> hp_nameWasEmpty p \<and> \<not> hadCached)
      in if persist
         then do {
           renamed \<leftarrow> makeUniqueRenameLabel i preferred (if hp_nameWasEmpty p then '''' else label) (hs_usedLabels s);
           Some (if hp_stores p then renamed else label, True) }
         else Some (label, hp_nameQuerySucceeded p \<or> hadCached))"

definition freeStep :: "u32 \<Rightarrow> nat \<Rightarrow> HeliosProbe \<Rightarrow> HeliosScan \<Rightarrow> HeliosScan option" where
  "freeStep maxPps i p s = do {
     (label, remember) \<leftarrow> freeLabel i p s;
     (ident, ids) \<leftarrow> makeHeliosControllerId label i (hs_usedIds s);
     Some \<lparr>hs_usedIds = ids, hs_usedLabels = insert label (hs_usedLabels s),
           hs_stable = (if remember then AList.update (hp_path p) label (hs_stable s) else hs_stable s),
           hs_results = hs_results s @
             [setUsageState UsageIdle (newHeliosInfo ident label maxPps (hp_path p) True (hp_firmware p))]\<rparr> }"

definition busyStep :: "u32 \<Rightarrow> nat \<Rightarrow> HeliosProbe \<Rightarrow> HeliosScan \<Rightarrow> HeliosScan option" where
  "busyStep maxPps i p s =
     (case map_of (hs_stable s) (hp_path p) of
        Some label \<Rightarrow>
          if label \<noteq> '''' then do {
            (ident, ids) \<leftarrow> makeHeliosControllerId label i (hs_usedIds s);
            Some (s\<lparr>hs_usedIds := ids,
                   hs_results := hs_results s @
                     [setUsageState UsageBusyExclusive (newHeliosInfo ident label maxPps (hp_path p) True 0)]\<rparr>) }
          else Some (s\<lparr>hs_results := hs_results s @
                     [setUsageState UsageBusyExclusive (newHeliosInfo (makeBusyHeliosControllerId (hp_path p))
                        (makeBusyHeliosLabel (hp_path p)) maxPps (hp_path p) True 0)]\<rparr>)
      | None \<Rightarrow> Some (s\<lparr>hs_results := hs_results s @
                     [setUsageState UsageBusyExclusive (newHeliosInfo (makeBusyHeliosControllerId (hp_path p))
                        (makeBusyHeliosLabel (hp_path p)) maxPps (hp_path p) True 0)]\<rparr>))"

fun scanAll :: "(nat \<Rightarrow> HeliosProbe \<Rightarrow> HeliosScan \<Rightarrow> HeliosScan option) \<Rightarrow> nat \<Rightarrow> HeliosProbe list \<Rightarrow> HeliosScan \<Rightarrow> HeliosScan option" where
  "scanAll step i [] s = Some s"
| "scanAll step i (p # ps) s = (case step i p s of None \<Rightarrow> None | Some s' \<Rightarrow> scanAll step (Suc i) ps s')"

record HeliosManagerState =
  hm_usbContext :: bool
  hm_stableLabels :: "(string \<times> string) list"

definition collectDiscoveredControllers ::
  "u32 \<Rightarrow> string set \<Rightarrow> UsbDevice list option \<Rightarrow> HeliosManagerState \<Rightarrow> (info list \<times> HeliosManagerState) option" where
  "collectDiscoveredControllers maxPps owned deviceList m =
     (if \<not> hm_usbContext m then Some ([], m)
      else case deviceList of
        None \<Rightarrow> Some ([], m)
      | Some ds \<Rightarrow>
          (let (free0, busy0) = probeDevices owned ds;
               free = sort_key (\<lambda>p. (hp_reportedLabel p, hp_path p)) free0;
               busy = sort_key hp_path busy0
           in do {
             s1 \<leftarrow> scanAll (freeStep maxPps) 0 free
                     \<lparr>hs_usedIds = {}, hs_usedLabels = {}, hs_stable = hm_stableLabels m, hs_results = []\<rparr>;
             s2 \<leftarrow> scanAll (busyStep maxPps) (length free) busy s1;
             Some (hs_results s2,
                   m\<lparr>hm_stableLabels := filter (\<lambda>(path, l). path \<in> seenPortPaths ds) (hs_stable s2)\<rparr>) }))"

section \<open>Ids are distinct\<close>

definition busyPrefix :: string where
  "busyPrefix = ''helios-usb-busy-''"

definition portPathOf :: "info \<Rightarrow> string" where
  "portPathOf i = (case ci_derived i of HeliosInfo h \<Rightarrow> hi_portPath h | _ \<Rightarrow> '''')"

definition named_ids :: "info list \<Rightarrow> string list" where
  "named_ids infos = filter (\<lambda>i. \<not> prefix busyPrefix i) (map ci_id infos)"

definition scan_ok :: "HeliosScan \<Rightarrow> bool" where
  "scan_ok s =
     (finite (hs_usedIds s) \<and> card (hs_usedIds s) \<le> length (hs_results s) \<and>
      finite (hs_usedLabels s) \<and> card (hs_usedLabels s) \<le> length (hs_results s) \<and>
      distinct (named_ids (hs_results s)) \<and> set (named_ids (hs_results s)) \<subseteq> hs_usedIds s)"

text \<open>What one probe adds to the scan.\<close>

definition adds :: "HeliosProbe \<Rightarrow> HeliosScan \<Rightarrow> HeliosScan \<Rightarrow> bool" where
  "adds p s s' = (\<exists>i. hs_results s' = hs_results s @ [i] \<and> portPathOf i = hp_path p)"

lemma portPathOf_new [simp]: "portPathOf (setUsageState u (newHeliosInfo i l r path usb fw)) = path"
  by (simp add: portPathOf_def setUsageState_def newHeliosInfo_def newControllerInfo_def)

lemma ci_id_new [simp]: "ci_id (setUsageState u (newHeliosInfo i l r path usb fw)) = i"
  by (simp add: setUsageState_def newHeliosInfo_def newControllerInfo_def)

lemma named_ids_append: "named_ids (xs @ [i]) = named_ids xs @ (if prefix busyPrefix (ci_id i) then [] else [ci_id i])"
  by (simp add: named_ids_def)

lemma scan_ok_named:
  assumes "scan_ok s" "ci_id i \<notin> hs_usedIds s"
    "hs_usedIds s' = insert (ci_id i) (hs_usedIds s)" "hs_results s' = hs_results s @ [i]"
    "hs_usedLabels s' = hs_usedLabels s \<or> hs_usedLabels s' = insert l (hs_usedLabels s)"
  shows "scan_ok s'"
proof -
  have "card (insert l (hs_usedLabels s)) \<le> Suc (card (hs_usedLabels s))"
    using assms(1) by (simp add: scan_ok_def card_insert_if)
  then show ?thesis
    using assms by (auto simp: scan_ok_def named_ids_append card_insert_if)
qed

lemma scan_ok_busy:
  assumes "scan_ok s" "prefix busyPrefix (ci_id i)" "s' = s\<lparr>hs_results := hs_results s @ [i]\<rparr>"
  shows "scan_ok s'"
  using assms by (auto simp: scan_ok_def named_ids_append)

lemma freeLabel_total:
  assumes "scan_ok s" "int (length (hs_results s)) + 3 < int_max32"
  shows "\<exists>r. freeLabel i p s = Some r"
proof -
  have "finite (hs_usedLabels s)" "int (card (hs_usedLabels s)) + 3 < int_max32"
    using assms by (auto simp: scan_ok_def)
  then have "\<forall>b c. \<exists>r. makeUniqueRenameLabel i b c (hs_usedLabels s) = Some r"
    using helios_rename_total by blast
  then obtain g where "\<And>b c. makeUniqueRenameLabel i b c (hs_usedLabels s) = Some (g b c)" by metis
  then show ?thesis by (simp add: freeLabel_def Let_def) blast
qed

lemma freeStep_ok:
  assumes "scan_ok s" "int (length (hs_results s)) + 3 < int_max32"
  shows "\<exists>s'. freeStep maxPps i p s = Some s' \<and> scan_ok s' \<and> adds p s s'"
proof -
  obtain l r where l: "freeLabel i p s = Some (l, r)" using freeLabel_total [OF assms] by fastforce
  have "finite (hs_usedIds s)" "int (card (hs_usedIds s)) + 2 < int_max32"
    using assms by (auto simp: scan_ok_def)
  from makeHeliosControllerId_fresh [OF this, of l i] obtain n where
    n: "makeHeliosControllerId l i (hs_usedIds s) = Some (n, insert n (hs_usedIds s))" "n \<notin> hs_usedIds s" by blast
  let ?info = "setUsageState UsageIdle (newHeliosInfo n l maxPps (hp_path p) True (hp_firmware p))"
  have "scan_ok s'" if "hs_usedIds s' = insert n (hs_usedIds s)" "hs_results s' = hs_results s @ [?info]"
    "hs_usedLabels s' = insert l (hs_usedLabels s)" for s' :: HeliosScan
    by (rule scan_ok_named [OF assms(1), of ?info _ l]) (use that n(2) in simp_all)
  with l n(1) show ?thesis by (auto simp: freeStep_def adds_def)
qed

lemma busyStep_ok:
  assumes "scan_ok s" "int (length (hs_results s)) + 3 < int_max32"
  shows "\<exists>s'. busyStep maxPps i p s = Some s' \<and> scan_ok s' \<and> adds p s s'"
proof -
  let ?unnamed = "setUsageState UsageBusyExclusive (newHeliosInfo (makeBusyHeliosControllerId (hp_path p))
                        (makeBusyHeliosLabel (hp_path p)) maxPps (hp_path p) True 0)"
  have pre: "prefix busyPrefix (ci_id ?unnamed)"
    by (simp add: busyPrefix_def makeBusyHeliosControllerId_def)
  have unnamed: "\<exists>s'. Some (s\<lparr>hs_results := hs_results s @ [?unnamed]\<rparr>) = Some s' \<and> scan_ok s' \<and> adds p s s'"
    using scan_ok_busy [OF assms(1) pre refl] by (simp add: adds_def)
  show ?thesis
  proof (cases "map_of (hs_stable s) (hp_path p)")
    case None
    with unnamed show ?thesis by (simp add: busyStep_def)
  next
    case (Some l)
    show ?thesis
    proof (cases "l = ''''")
      case True
      with Some unnamed show ?thesis by (simp add: busyStep_def)
    next
      case False
      have "finite (hs_usedIds s)" "int (card (hs_usedIds s)) + 2 < int_max32"
        using assms by (auto simp: scan_ok_def)
      from makeHeliosControllerId_fresh [OF this, of l i] obtain n where
        n: "makeHeliosControllerId l i (hs_usedIds s) = Some (n, insert n (hs_usedIds s))" "n \<notin> hs_usedIds s" by blast
      let ?info = "setUsageState UsageBusyExclusive (newHeliosInfo n l maxPps (hp_path p) True 0)"
      have "scan_ok (s\<lparr>hs_usedIds := insert n (hs_usedIds s), hs_results := hs_results s @ [?info]\<rparr>)"
        by (rule scan_ok_named [OF assms(1), of ?info _ l]) (use n(2) in simp_all)
      with Some False n(1) show ?thesis by (auto simp: busyStep_def adds_def)
    qed
  qed
qed

lemma scanAll_ok:
  assumes "\<And>i p s. scan_ok s \<Longrightarrow> int (length (hs_results s)) + 3 < int_max32 \<Longrightarrow>
      \<exists>s'. step i p s = Some s' \<and> scan_ok s' \<and> adds p s s'"
  shows "scan_ok s \<Longrightarrow> int (length (hs_results s) + length ps) + 3 < int_max32 \<Longrightarrow>
     \<exists>s'. scanAll step i ps s = Some s' \<and> scan_ok s' \<and>
          map portPathOf (hs_results s') = map portPathOf (hs_results s) @ map hp_path ps \<and>
          length (hs_results s') = length (hs_results s) + length ps"
proof (induction ps arbitrary: i s)
  case Nil
  then show ?case by simp
next
  case (Cons p ps)
  from assms [OF Cons.prems(1), of i p] Cons.prems(2) obtain s1 where
    s1: "step i p s = Some s1" "scan_ok s1" "adds p s s1" by auto
  then have len: "length (hs_results s1) = Suc (length (hs_results s))"
    and paths: "map portPathOf (hs_results s1) = map portPathOf (hs_results s) @ [hp_path p]"
    by (auto simp: adds_def)
  from Cons.IH [OF s1(2), of "Suc i"] Cons.prems(2) len paths s1(1) show ?case by auto
qed

lemma probeDevices_submultiset:
  "probeDevices owned ds = (free, busy) \<Longrightarrow>
     mset (map hp_path free) + mset (map hp_path busy) \<subseteq># mset (map ud_path ds)"
proof (induction ds arbitrary: free busy)
  case Nil
  then show ?case by simp
next
  case (Cons d ds)
  obtain f b where fb: "probeDevices owned ds = (f, b)" by fastforce
  note sub = Cons.IH [OF fb]
  consider "free = f" "busy = b"
    | "map hp_path free = ud_path d # map hp_path f" "busy = b"
    | "free = f" "map hp_path busy = ud_path d # map hp_path b"
    using Cons.prems fb
    by (cases "ud_probe d") (auto simp: newProbe_def split: if_splits)
  then show ?case
  proof cases
    case 1
    have "A \<subseteq># add_mset x B" if "A \<subseteq># B" for A B :: "string multiset" and x
      using that by (simp add: subseteq_mset_def le_SucI)
    from this [OF sub] 1 show ?thesis by simp
  qed (use sub in simp_all)
qed

lemma distinct_submultiset: "mset xs \<subseteq># mset ys \<Longrightarrow> distinct ys \<Longrightarrow> distinct xs"
proof -
  assume sub: "mset xs \<subseteq># mset ys" and "distinct ys"
  then have "count (mset ys) a \<le> 1" for a by (simp add: distinct_count_atmost_1)
  then have "count (mset xs) a \<le> 1" for a
    using mset_subset_eq_count [OF sub, of a] order.trans by blast
  then show "distinct xs"
    unfolding distinct_count_atmost_1 by (metis One_nat_def count_mset_0_iff le_Suc_eq le_zero_eq)
qed

lemma probeDevices_paths:
  assumes "probeDevices owned ds = (free, busy)"
  shows "length free + length busy \<le> length ds \<and>
     (distinct (map ud_path ds) \<longrightarrow> distinct (map hp_path free @ map hp_path busy))"
proof -
  note sub = probeDevices_submultiset [OF assms]
  from size_mset_mono [OF sub] have "length free + length busy \<le> length ds" by simp
  moreover have "distinct (map hp_path free @ map hp_path busy)" if "distinct (map ud_path ds)"
    by (rule distinct_submultiset [OF _ that]) (use sub in simp)
  ultimately show ?thesis by blast
qed


definition helios_example :: "UsbDevice list" where
  "helios_example =
     [\<lparr>ud_isHelios = True, ud_path = ''1-2'', ud_probe = ProbeOpened 6 ''helios'' ''12'' (Some ''stage''), ud_stores = True\<rparr>,
      \<lparr>ud_isHelios = True, ud_path = ''1-3'', ud_probe = ProbeOpened 6 ''helios'' ''13'' (Some ''stage''), ud_stores = False\<rparr>]"


end
