(* ===== verification/Idn_Discovery.thy ===== *)
theory Idn_Discovery
  imports Controller_Infos "HOL-Library.Sublist"
begin

text \<open>
  idn/IdnManager.cpp: how a pass of discovery gives the slots of the vendor SDK, whose indices
  are reshuffled at every rescan, ids that follow the service announced on the network. The SDK
  and the raw hello scan are inputs: what each slot answers, and the servers that replied.
\<close>

section \<open>The raw scan\<close>

record IdnAddress =
  ia_errorFlags :: nat
  ia_addr :: u32

record IdnServer =
  is_hostName :: string
  is_unitID :: bytes
  is_addresses :: "IdnAddress list"
  is_services :: "(u32 \<times> string) list"

record IdnService =
  sv_unitId :: string
  sv_controllerId :: string
  sv_network :: NetworkInfo
  sv_serviceId :: u32
  sv_hostName :: string
  sv_serviceName :: string
  sv_displayLabel :: string

type_synonym services = "(string \<times> IdnService list) list"

definition makeFallbackLabel :: "nat \<Rightarrow> string" where
  "makeFallbackLabel index = ''IDN '' @ dec_string index"

definition makeFallbackUnitId :: "nat \<Rightarrow> string" where
  "makeFallbackUnitId index = ''unknown-index-'' @ dec_string index"

definition makeFallbackControllerId :: "nat \<Rightarrow> string" where
  "makeFallbackControllerId index = ''idn-'' @ makeFallbackUnitId index"

definition makeControllerIdFromServiceId :: "string \<Rightarrow> u32 \<Rightarrow> string" where
  "makeControllerIdFromServiceId unitId serviceId = ''idn-'' @ unitId @ ''-service-'' @ dec_string (unat serviceId)"

definition sdkNameMaxLength :: nat where
  "sdkNameMaxLength = 31"

definition truncateToSdkNameLength :: "string \<Rightarrow> string" where
  "truncateToSdkNameLength v = (if length v > sdkNameMaxLength then take sdkNameMaxLength v else v)"

definition makeSdkServiceLabel :: "string \<Rightarrow> string \<Rightarrow> string" where
  "makeSdkServiceLabel host name = truncateToSdkNameLength (host @ '' - '' @ name)"

definition makeDisplayServiceLabel :: "string \<Rightarrow> string \<Rightarrow> string \<Rightarrow> string" where
  "makeDisplayServiceLabel host name fallback =
     (if host \<noteq> '''' \<and> name \<noteq> '''' then host @ '' - '' @ name
      else if host \<noteq> '''' then host else if name \<noteq> '''' then name else fallback)"

definition ipv4ToString :: "u32 \<Rightarrow> string" where
  "ipv4ToString a =
     dec_string (unat (drop_bit 24 a AND 0xFF)) @ ''.'' @ dec_string (unat (drop_bit 16 a AND 0xFF)) @ ''.'' @
     dec_string (unat (drop_bit 8 a AND 0xFF)) @ ''.'' @ dec_string (unat (a AND 0xFF))"

definition encodeUnitIdHex :: "bytes \<Rightarrow> string" where
  "encodeUnitIdHex unitId = hex_bytes False unitId"

fun firstEndpoint :: "u16 \<Rightarrow> IdnAddress list \<Rightarrow> NetworkInfo option" where
  "firstEndpoint port [] = None"
| "firstEndpoint port (a # as) =
     (if ia_errorFlags a \<noteq> 0 then firstEndpoint port as
      else Some \<lparr>net_ip = ipv4ToString (ia_addr a), net_port = port\<rparr>)"

definition pushService :: "string \<Rightarrow> IdnService \<Rightarrow> services \<Rightarrow> services" where
  "pushService k v m = AList.update k (case map_of m k of None \<Rightarrow> [v] | Some vs \<Rightarrow> vs @ [v]) m"

definition serviceOf :: "IdnServer \<Rightarrow> NetworkInfo \<Rightarrow> u32 \<times> string \<Rightarrow> IdnService" where
  "serviceOf server endpoint sv =
     (let unitId = encodeUnitIdHex (is_unitID server);
          sdkLabel = makeSdkServiceLabel (is_hostName server) (snd sv)
      in \<lparr>sv_unitId = unitId, sv_controllerId = makeControllerIdFromServiceId unitId (fst sv), sv_network = endpoint,
          sv_serviceId = fst sv, sv_hostName = is_hostName server, sv_serviceName = snd sv,
          sv_displayLabel = makeDisplayServiceLabel (is_hostName server) (snd sv) sdkLabel\<rparr>)"

text \<open>The services by label and by address.\<close>

definition addService :: "IdnServer \<Rightarrow> NetworkInfo \<Rightarrow> u32 \<times> string \<Rightarrow> services \<times> services \<Rightarrow> services \<times> services" where
  "addService server endpoint sv snap =
     (let service = serviceOf server endpoint sv
      in (pushService (makeSdkServiceLabel (is_hostName server) (snd sv)) service (fst snap),
          pushService (net_ip endpoint) service (snd snap)))"

definition addServer :: "u16 \<Rightarrow> IdnServer \<Rightarrow> services \<times> services \<Rightarrow> services \<times> services" where
  "addServer port server snap =
     (case firstEndpoint port (is_addresses server) of
        None \<Rightarrow> snap
      | Some endpoint \<Rightarrow> fold (addService server endpoint) (is_services server) snap)"

definition discoverIdnServices :: "u16 \<Rightarrow> IdnServer list option \<Rightarrow> services \<times> services" where
  "discoverIdnServices port servers =
     (case servers of None \<Rightarrow> ([], []) | Some ss \<Rightarrow> fold (addServer port) ss ([], []))"

definition countDiscoveredServices :: "services \<Rightarrow> nat" where
  "countDiscoveredServices byLabel = sum_list (map (\<lambda>(k, vs). length vs) byLabel)"

definition matchDiscoveredService :: "services \<Rightarrow> string \<Rightarrow> string option \<Rightarrow> string set \<Rightarrow> IdnService option" where
  "matchDiscoveredService byKey key preferred used =
     (case map_of byKey key of
        None \<Rightarrow> None
      | Some vs \<Rightarrow>
          let unused = List.find (\<lambda>v. sv_controllerId v \<notin> used) vs
          in case preferred of
               None \<Rightarrow> unused
             | Some p \<Rightarrow>
                 (case List.find (\<lambda>v. sv_controllerId v = p \<and> sv_controllerId v \<notin> used) vs of
                    Some v \<Rightarrow> Some v
                  | None \<Rightarrow> unused))"

section \<open>Discovery\<close>

text \<open>What the SDK says of a slot: \<open>GetIsClosed\<close>, \<open>GetIsUsb\<close>, \<open>GetName\<close> (if it succeeds) and
  \<open>GetFirmwareVersion\<close>.\<close>

record SdkSlot =
  slot_closed :: int
  slot_usb :: int
  slot_name :: "string option"
  slot_firmware :: int

record IdnManagerState =
  idm_opened :: bool
  idm_controllerCount :: nat
  idm_emptyCountdown :: nat
  idm_reported :: bool
  idm_stableUnitId :: "(nat \<times> string) list"
  idm_stableControllerId :: "(nat \<times> string) list"
  idm_slotOf :: "nat \<Rightarrow> nat"

definition idm_construct :: IdnManagerState where
  "idm_construct = \<lparr>idm_opened = False, idm_controllerCount = 0, idm_emptyCountdown = 0, idm_reported = False,
                     idm_stableUnitId = [], idm_stableControllerId = [], idm_slotOf = (\<lambda>c. 0)\<rparr>"

definition openIfNeeded :: "int \<Rightarrow> IdnManagerState \<Rightarrow> IdnManagerState" where
  "openIfNeeded opens m =
     (if idm_opened m then m
      else m\<lparr>idm_opened := True, idm_controllerCount := (if 0 < opens then nat opens else 0)\<rparr>)"

definition refreshControllerCount :: "bool \<Rightarrow> int \<Rightarrow> int \<Rightarrow> IdnManagerState \<Rightarrow> nat \<times> IdnManagerState" where
  "refreshControllerCount allowRescan opens rescans m0 =
     (let m = openIfNeeded opens m0
      in if \<not> allowRescan then (idm_controllerCount m, m)
         else let m' = (if 0 < rescans then m\<lparr>idm_controllerCount := nat rescans\<rparr> else m)
              in (idm_controllerCount m', m'))"

definition idnIpPrefix :: string where
  "idnIpPrefix = ''IDN: ''"

text \<open>The service a slot stands for: by its label, or by the address its fallback name carries.\<close>

definition matchSlot :: "services \<times> services \<Rightarrow> string \<Rightarrow> string option \<Rightarrow> string set \<Rightarrow> IdnService option" where
  "matchSlot snap sdkLabel preferred used =
     (case matchDiscoveredService (fst snap) (truncateToSdkNameLength sdkLabel) preferred used of
        Some v \<Rightarrow> Some v
      | None \<Rightarrow>
          if prefix idnIpPrefix sdkLabel \<and> 5 < length sdkLabel
          then matchDiscoveredService (snd snap) (drop 5 sdkLabel) preferred used else None)"

text \<open>The unit id, the controller id and the service id of a slot.\<close>

definition knownIdentity :: "IdnService option \<Rightarrow> nat \<Rightarrow> IdnManagerState \<Rightarrow> string \<times> string \<times> u32" where
  "knownIdentity matched index m =
     (case matched of
        Some v \<Rightarrow> (sv_unitId v, sv_controllerId v, sv_serviceId v)
      | None \<Rightarrow>
          (case (map_of (idm_stableUnitId m) index, map_of (idm_stableControllerId m) index) of
             (Some u, Some c) \<Rightarrow> (u, c, 0)
           | _ \<Rightarrow> (makeFallbackUnitId index, makeFallbackControllerId index, 0)))"

definition slotIdentity :: "IdnService option \<Rightarrow> nat \<Rightarrow> IdnManagerState \<Rightarrow> string set \<Rightarrow> string \<times> string \<times> u32" where
  "slotIdentity matched index m used =
     (case knownIdentity matched index m of (u, c, sid) \<Rightarrow>
        if c \<in> used then (makeFallbackUnitId index, makeFallbackControllerId index, 0) else (u, c, sid))"

record IdnScan =
  id_used :: "string set"
  id_seen :: "nat set"
  id_results :: "info list"
  id_manager :: IdnManagerState
  id_world :: world

text \<open>A controller in use learns its slot and that it was seen.\<close>

definition noteActive :: "cache \<Rightarrow> string \<Rightarrow> nat \<Rightarrow> NetworkInfo option \<Rightarrow> bool \<Rightarrow> IdnManagerState \<Rightarrow> world \<Rightarrow> IdnManagerState \<times> world" where
  "noteActive active controllerId index network matched m w =
     (case map_of active controllerId of
        None \<Rightarrow> (m, w)
      | Some c \<Rightarrow>
          let (m1, w1) = (if idm_slotOf m c \<noteq> index
                          then (m\<lparr>idm_slotOf := (idm_slotOf m)(c := index)\<rparr>, called (IndexUpdated c (of_nat index)) w)
                          else (m, w));
              w2 = (if network \<noteq> None then called (HealthEndpointSet c) w1 else w1);
              w3 = (if matched then called (DiscoveryNoted c) w2 else w2)
          in (m1, w3))"

definition idnSlot ::
  "u32 \<Rightarrow> u16 \<Rightarrow> services \<times> services \<Rightarrow> cache \<Rightarrow> (nat \<Rightarrow> SdkSlot) \<Rightarrow> nat \<Rightarrow> IdnScan \<Rightarrow> IdnScan" where
  "idnSlot maxPps port snap active slots index s =
     (let slot = slots index
      in if 0 < slot_closed slot \<or> slot_usb slot \<noteq> 0 then s
         else
           let m = id_manager s;
               sdkLabel = (case slot_name slot of Some n \<Rightarrow> n | None \<Rightarrow> makeFallbackLabel index);
               matched = matchSlot snap sdkLabel (map_of (idm_stableControllerId m) index) (id_used s);
               (unitId, controllerId, serviceId) = slotIdentity matched index m (id_used s);
               m1 = m\<lparr>idm_stableUnitId := AList.update index unitId (idm_stableUnitId m),
                      idm_stableControllerId := AList.update index controllerId (idm_stableControllerId m)\<rparr>;
               network = map_option sv_network matched;
               (m2, w2) = noteActive active controllerId index network (matched \<noteq> None) m1 (id_world s);
               shown = (if network = None \<and> prefix idnIpPrefix sdkLabel \<and> 5 < length sdkLabel
                        then Some \<lparr>net_ip = drop 5 sdkLabel, net_port = port\<rparr> else network);
               label = (case matched of Some v \<Rightarrow> if sv_displayLabel v \<noteq> '''' then sv_displayLabel v else sdkLabel
                        | None \<Rightarrow> sdkLabel);
               info = newIdnInfo controllerId unitId serviceId label maxPps (of_nat index) (slot_firmware slot) shown
                        (case matched of Some v \<Rightarrow> sv_hostName v | None \<Rightarrow> '''')
                        (case matched of Some v \<Rightarrow> sv_serviceName v | None \<Rightarrow> '''')
           in \<lparr>id_used = insert controllerId (id_used s), id_seen = insert index (id_seen s),
               id_results = id_results s @ [info], id_manager = m2, id_world = w2\<rparr>)"

text \<open>The inputs of one pass: what opening and rescanning the SDK return, its slots, and the raw
  scan.\<close>

record IdnInputs =
  in_opens :: int
  in_rescans :: int
  in_slots :: "nat \<Rightarrow> SdkSlot"
  in_servers :: "IdnServer list option"
  in_port :: u16
  in_maxPps :: u32

definition idn_discover ::
  "IdnInputs \<Rightarrow> IdnManagerState Manager \<Rightarrow> world \<Rightarrow> info list \<times> IdnManagerState Manager \<times> world" where
  "idn_discover inp m0 w0 =
     (case liveControllers m0 w0 of (active, m, w) \<Rightarrow>
      let hasDisconnected = list_ex (\<lambda>(k, c). \<not> w_up w c) active;
          (count, own) = refreshControllerCount (active = [] \<or> hasDisconnected) (in_opens inp) (in_rescans inp) (m_own m)
      in if count = 0
         then ([], m\<lparr>m_own := (if idm_emptyCountdown own = 0 then own\<lparr>idm_emptyCountdown := 5\<rparr>
                              else own\<lparr>idm_emptyCountdown := idm_emptyCountdown own - 1\<rparr>)\<rparr>, dropSnapshot active w)
         else
           let snap = discoverIdnServices (in_port inp) (in_servers inp);
               s = fold (idnSlot (in_maxPps inp) (in_port inp) snap active (in_slots inp)) [0..<count]
                     \<lparr>id_used = {}, id_seen = {}, id_results = [], id_manager = own\<lparr>idm_emptyCountdown := 0\<rparr>, id_world = w\<rparr>;
               own' = (id_manager s)\<lparr>
                  idm_reported := (if id_results s = [] then True else False),
                  idm_stableUnitId := filter (\<lambda>e. fst e \<in> id_seen s) (idm_stableUnitId (id_manager s)),
                  idm_stableControllerId := filter (\<lambda>e. fst e \<in> id_seen s) (idm_stableControllerId (id_manager s))\<rparr>
           in (id_results s, m\<lparr>m_own := own'\<rparr>, dropSnapshot active (id_world s)))"

definition idm_afterClose :: "IdnManagerState \<Rightarrow> IdnManagerState" where
  "idm_afterClose m = m\<lparr>idm_opened := False, idm_controllerCount := 0, idm_emptyCountdown := 0, idm_reported := False,
     idm_stableUnitId := [], idm_stableControllerId := []\<rparr>"

section \<open>Ids are distinct\<close>

text \<open>The states of the manager: passes of discovery in any order with shutdowns, with whatever
  the network and the SDK answer, and with controllers connected and released in between.\<close>

inductive idn_reachable :: "IdnManagerState \<Rightarrow> bool" where
  created: "idn_reachable idm_construct"
| discovered: "idn_reachable (m_own m) \<Longrightarrow> idn_discover inp m w = (infos, m', w') \<Longrightarrow> idn_reachable (m_own m')"
| shut: "idn_reachable own \<Longrightarrow> idn_reachable (idm_afterClose own)"
| connected: "idn_reachable own \<Longrightarrow> idn_reachable (own\<lparr>idm_slotOf := f\<rparr>)"

definition service_id :: "string \<Rightarrow> bool" where
  "service_id c = (\<exists>bs sid. c = makeControllerIdFromServiceId (encodeUnitIdHex bs) sid)"

lemma fallback_inj: "makeFallbackControllerId i = makeFallbackControllerId j \<Longrightarrow> i = j"
  by (auto simp: makeFallbackControllerId_def makeFallbackUnitId_def intro: dec_string_inj)

lemma hex_digit_not_u: "d < 16 \<Longrightarrow> hex_digit False d \<noteq> CHR ''u''"
proof -
  have "\<forall>c\<in>set ''0123456789abcdef''. c \<noteq> CHR ''u''" by simp
  moreover assume "d < 16"
  then have "hex_digit False d \<in> set ''0123456789abcdef''" by (simp add: hex_digit_def del: set_simps)
  ultimately show ?thesis by blast
qed

lemma fallback_not_service: "\<not> service_id (makeFallbackControllerId i)"
proof
  assume "service_id (makeFallbackControllerId i)"
  then obtain bs sid where "makeFallbackControllerId i = makeControllerIdFromServiceId (encodeUnitIdHex bs) sid"
    by (auto simp: service_id_def)
  then have "CHR ''u'' # ''nknown-index-'' @ dec_string i = hex_bytes False bs @ ''-service-'' @ dec_string (unat sid)"
    by (simp add: makeFallbackControllerId_def makeFallbackUnitId_def makeControllerIdFromServiceId_def encodeUnitIdHex_def)
  then show False
  proof (cases bs)
    case (Cons b bs')
    with \<open>CHR ''u'' # _ = _\<close> have "hex_digit False (unat b div 16) = CHR ''u''"
      by (simp add: hex_bytes_def hex_byte_def)
    moreover have "unat b div 16 < 16" using unat_u8_less [of b] by linarith
    ultimately show ?thesis using hex_digit_not_u by blast
  qed (simp add: hex_bytes_def)
qed

definition services_ok :: "services \<Rightarrow> bool" where
  "services_ok m = (\<forall>k vs v. map_of m k = Some vs \<longrightarrow> v \<in> set vs \<longrightarrow> service_id (sv_controllerId v))"

lemma services_ok_push: "services_ok m \<Longrightarrow> service_id (sv_controllerId v) \<Longrightarrow> services_ok (pushService k v m)"
  by (auto simp: services_ok_def pushService_def update_conv' split: if_splits option.splits)

lemma serviceOf_ok: "service_id (sv_controllerId (serviceOf server endpoint sv))"
  by (auto simp: service_id_def serviceOf_def Let_def)

definition snap_ok :: "services \<times> services \<Rightarrow> bool" where
  "snap_ok snap = (services_ok (fst snap) \<and> services_ok (snd snap))"

lemma addService_ok: "snap_ok snap \<Longrightarrow> snap_ok (addService server endpoint sv snap)"
  by (simp add: snap_ok_def addService_def Let_def services_ok_push serviceOf_ok)

lemma fold_ok: "(\<And>x s. P s \<Longrightarrow> P (f x s)) \<Longrightarrow> P s \<Longrightarrow> P (fold f xs s)"
  by (induction xs arbitrary: s) simp_all

lemma addServer_ok: "snap_ok snap \<Longrightarrow> snap_ok (addServer port server snap)"
  by (auto simp: addServer_def intro: fold_ok addService_ok split: option.splits)

lemma discoverIdnServices_ok: "snap_ok (discoverIdnServices port servers)"
proof -
  have "snap_ok ([], [])" by (simp add: snap_ok_def services_ok_def)
  then show ?thesis by (cases servers) (simp_all add: discoverIdnServices_def fold_ok addServer_ok)
qed

lemma find_in: "List.find P xs = Some v \<Longrightarrow> v \<in> set xs"
  by (auto simp: find_Some_iff)

lemma matchDiscovered_ok: "services_ok m \<Longrightarrow> matchDiscoveredService m k p used = Some v \<Longrightarrow> service_id (sv_controllerId v)"
  by (auto simp: matchDiscoveredService_def services_ok_def Let_def split: option.splits dest!: find_in)

lemma matchSlot_ok:
  "snap_ok snap \<Longrightarrow> matchSlot snap l p used = Some v \<Longrightarrow> service_id (sv_controllerId v)"
  by (auto simp: snap_ok_def matchSlot_def split: option.splits if_splits intro: matchDiscovered_ok)

text \<open>A remembered id is that of a service or the fallback of its own slot.\<close>

definition stable_ok :: "IdnManagerState \<Rightarrow> bool" where
  "stable_ok m = (\<forall>i c. map_of (idm_stableControllerId m) i = Some c \<longrightarrow> service_id c \<or> c = makeFallbackControllerId i)"

definition idn_scan_ok :: "nat \<Rightarrow> IdnScan \<Rightarrow> bool" where
  "idn_scan_ok index s =
     (id_used s = set (map ci_id (id_results s)) \<and> distinct (map ci_id (id_results s)) \<and>
      (\<forall>c\<in>id_used s. service_id c \<or> (\<exists>i<index. c = makeFallbackControllerId i)) \<and> stable_ok (id_manager s))"

lemma slotIdentity_ok:
  assumes "\<And>v. matched = Some v \<Longrightarrow> service_id (sv_controllerId v)" "stable_ok m"
    and "\<forall>c\<in>used. service_id c \<or> (\<exists>i<index. c = makeFallbackControllerId i)"
    and "slotIdentity matched index m used = (u, c, sid)"
  shows "c \<notin> used \<and> (service_id c \<or> c = makeFallbackControllerId index)"
proof -
  have fresh: "makeFallbackControllerId index \<notin> used"
    using assms(3) fallback_not_service fallback_inj by blast
  obtain u0 c0 sid0 where c0: "knownIdentity matched index m = (u0, c0, sid0)" by (metis prod_cases3)
  then have kind: "service_id c0 \<or> c0 = makeFallbackControllerId index"
    using assms(1,2) by (auto simp: knownIdentity_def stable_ok_def split: option.splits)
  have "c = (if c0 \<in> used then makeFallbackControllerId index else c0)"
    using assms(4) by (simp add: slotIdentity_def c0 split: if_splits)
  with fresh kind show ?thesis by auto
qed

lemma noteActive_stable: "noteActive a c i n b m w = (m', w') \<Longrightarrow> idm_stableControllerId m' = idm_stableControllerId m"
  by (auto simp: noteActive_def Let_def split: option.splits if_splits)

lemma stable_ok_update:
  "stable_ok m \<Longrightarrow> service_id c \<or> c = makeFallbackControllerId i \<Longrightarrow>
   idm_stableControllerId m' = AList.update i c (idm_stableControllerId m) \<Longrightarrow> stable_ok m'"
  by (auto simp: stable_ok_def update_conv' split: if_splits)

lemma ci_id_newIdn [simp]: "ci_id (newIdnInfo i u sid l r x fw n h nm) = i"
  by (simp add: newIdnInfo_def newControllerInfo_def)

lemma idnSlot_ok:
  assumes snap: "snap_ok snap" and ok: "idn_scan_ok index s"
  shows "idn_scan_ok (Suc index) (idnSlot maxPps port snap active slots index s)"
proof (cases "0 < slot_closed (slots index) \<or> slot_usb (slots index) \<noteq> 0")
  case True
  then have "idnSlot maxPps port snap active slots index s = s" by (simp add: idnSlot_def Let_def)
  with ok show ?thesis by (auto simp: idn_scan_ok_def less_Suc_eq)
next
  case False
  define m where "m = id_manager s"
  define l where "l = (case slot_name (slots index) of Some n \<Rightarrow> n | None \<Rightarrow> makeFallbackLabel index)"
  define matched where "matched = matchSlot snap l (map_of (idm_stableControllerId m) index) (id_used s)"
  obtain u c sid where ident: "slotIdentity matched index m (id_used s) = (u, c, sid)" by (metis prod_cases3)
  define m1 where "m1 = m\<lparr>idm_stableUnitId := AList.update index u (idm_stableUnitId m),
                      idm_stableControllerId := AList.update index c (idm_stableControllerId m)\<rparr>"
  obtain m2 w2 where note2: "noteActive active c index (map_option sv_network matched) (matched \<noteq> None) m1 (id_world s) = (m2, w2)"
    by fastforce
  let ?s' = "idnSlot maxPps port snap active slots index s"
  have s': "id_used ?s' = insert c (id_used s)" "map ci_id (id_results ?s') = map ci_id (id_results s) @ [c]"
    "id_manager ?s' = m2"
    using False ident note2
    by (simp_all add: idnSlot_def Let_def m_def [symmetric] l_def [symmetric] matched_def [symmetric] m1_def [symmetric])
  have "service_id (sv_controllerId v)" if "matched = Some v" for v
    using that matchSlot_ok [OF snap] by (simp add: matched_def)
  from slotIdentity_ok [OF this _ _ ident] ok have c: "c \<notin> id_used s" "service_id c \<or> c = makeFallbackControllerId index"
    by (auto simp: idn_scan_ok_def m_def)
  have "stable_ok m2"
    using ok by (intro stable_ok_update [OF _ c(2), of m m2]) (simp_all add: idn_scan_ok_def m_def noteActive_stable [OF note2] m1_def)
  with ok c s' show ?thesis
    by (auto simp: idn_scan_ok_def less_Suc_eq)
qed

lemma idn_scan_runs:
  assumes "snap_ok snap" "idn_scan_ok 0 s"
  shows "idn_scan_ok n (fold (idnSlot maxPps port snap active slots) [0..<n] s)"
  by (induction n) (simp_all add: assms idnSlot_ok)

lemma liveControllers_own: "liveControllers m w = (active, m', w') \<Longrightarrow> m_own m' = m_own m"
  by (auto simp: liveControllers_def split: prod.splits)

lemma stable_ok_filter:
  assumes "stable_ok m" "idm_stableControllerId m' = filter (\<lambda>e. P (fst e)) (idm_stableControllerId m)"
  shows "stable_ok m'"
proof -
  have "map_of (filter (\<lambda>e. P (fst e)) xs) i = (if P i then map_of xs i else None)" for xs :: "(nat \<times> string) list" and i
    by (induction xs) auto
  with assms show ?thesis by (simp add: stable_ok_def)
qed

lemma refresh_stable: "refreshControllerCount b i j m = (n, m') \<Longrightarrow> idm_stableControllerId m' = idm_stableControllerId m"
  by (auto simp: refreshControllerCount_def openIfNeeded_def Let_def split: if_splits)

lemma idn_discover_ok:
  assumes "stable_ok (m_own m)" "idn_discover inp m w = (infos, m', w')"
  shows "distinct (map ci_id infos) \<and> stable_ok (m_own m')"
proof -
  obtain active m1 w1 where live: "liveControllers m w = (active, m1, w1)" by (metis prod_cases3)
  obtain count own where r: "refreshControllerCount (active = [] \<or> list_ex (\<lambda>(k, c). \<not> w_up w1 c) active)
      (in_opens inp) (in_rescans inp) (m_own m1) = (count, own)" by fastforce
  have own: "stable_ok own"
    using assms(1) refresh_stable [OF r] by (simp add: stable_ok_def liveControllers_own [OF live])
  show ?thesis
  proof (cases "count = 0")
    case True
    with assms(2) live r have "infos = []" "idm_stableControllerId (m_own m') = idm_stableControllerId own"
      by (auto simp: idn_discover_def split: if_splits)
    with own show ?thesis by (simp add: stable_ok_def)
  next
    case False
    define snap where "snap = discoverIdnServices (in_port inp) (in_servers inp)"
    define s where "s = fold (idnSlot (in_maxPps inp) (in_port inp) snap active (in_slots inp)) [0..<count]
        \<lparr>id_used = {}, id_seen = {}, id_results = [], id_manager = own\<lparr>idm_emptyCountdown := 0\<rparr>, id_world = w1\<rparr>"
    have "idn_scan_ok count s"
      unfolding s_def using own discoverIdnServices_ok
      by (intro idn_scan_runs) (simp_all add: snap_def idn_scan_ok_def stable_ok_def)
    moreover have "infos = id_results s" "idm_stableControllerId (m_own m') = filter (\<lambda>e. fst e \<in> id_seen s) (idm_stableControllerId (id_manager s))"
      using assms(2) live r False
      by (auto simp: idn_discover_def Let_def snap_def [symmetric] s_def [symmetric])
    ultimately show ?thesis
      using stable_ok_filter [of "id_manager s" "m_own m'" "\<lambda>i. i \<in> id_seen s"] by (simp add: idn_scan_ok_def)
  qed
qed

lemma idn_reachable_stable: "idn_reachable own \<Longrightarrow> stable_ok own"
proof (induction rule: idn_reachable.induct)
  case (discovered m inp w infos m' w')
  then show ?case using idn_discover_ok by blast
qed (simp_all add: stable_ok_def idm_construct_def idm_afterClose_def)

text \<open>
  C27. IDN discovery never merges two slots. In every state the manager reaches, through any
  sequence of rescans with any answers from the SDK and the network, the controllers a pass of
  discovery lists have distinct ids, although several services may share a host and a label
  and SDK slots are matched to them by name.
\<close>

theorem idn_discovery_distinct:
  assumes "idn_reachable (m_own m)" and "idn_discover inp m w = (infos, m', w')"
  shows "distinct (map ci_id infos) \<and> idn_reachable (m_own m')"
  using idn_discover_ok [OF idn_reachable_stable [OF assms(1)] assms(2)] discovered [OF assms] by blast

definition idn_example :: IdnInputs where
  "idn_example =
     \<lparr>in_opens = 2, in_rescans = 2,
      in_slots = (\<lambda>i. \<lparr>slot_closed = 0, slot_usb = 0, slot_name = Some ''stage - Main'', slot_firmware = 1\<rparr>),
      in_servers = Some [\<lparr>is_hostName = ''stage'', is_unitID = [1, 2], is_addresses = [\<lparr>ia_errorFlags = 0, ia_addr = 167772161\<rparr>],
                          is_services = [(1, ''Main''), (2, ''Main'')]\<rparr>],
      in_port = 7255, in_maxPps = 100000\<rparr>"

definition quiet_world :: world where
  "quiet_world = \<lparr>w_next = 0, w_refs = (\<lambda>c. 0), w_calls = [], w_identity = (\<lambda>c. ([], [])), w_up = (\<lambda>c. True),
     w_answers = (\<lambda>n. True), w_asked = 0\<rparr>"

theorem idn_discovery_distinct_witness:
  "distinct (map ci_id (fst (idn_discover idn_example \<lparr>m_type = ''IDN'', m_cache = [], m_own = idm_construct\<rparr> quiet_world)))"
proof -
  let ?m = "\<lparr>m_type = ''IDN'', m_cache = [], m_own = idm_construct\<rparr>"
  obtain infos m' w' where d: "idn_discover idn_example ?m quiet_world = (infos, m', w')" by (metis prod_cases3)
  have "idn_reachable (m_own ?m)" by (simp add: idn_reachable.created)
  from idn_discovery_distinct [OF this d] d show ?thesis by simp
qed

end
