(* ===== verification/Backend_Managers.thy ===== *)
theory Backend_Managers
  imports Manager_Lifecycle Discovery_Properties Helios_Discovery Idn_Discovery
begin

text \<open>
  The virtual functions of every manager derived from ControllerManagerBase, and the discovery
  of the managers that have no theory of their own (LaserCube over USB, the Libera protocol,
  plugins). Each is an interpretation of the contract of the base class, so the lifecycle
  facts hold for all of them. Connecting a controller may fail: the environment answers.
\<close>

section \<open>Calls the hooks share\<close>

definition newObject :: "'s \<Rightarrow> world \<Rightarrow> nat option \<times> 's \<times> world" where
  "newObject s w = (case make_shared w of (c, w') \<Rightarrow> (Some c, s, w'))"

definition callConnect :: "nat \<Rightarrow> world \<Rightarrow> bool \<times> world" where
  "callConnect c w = (case ask w of (ok, w') \<Rightarrow> (ok, called (ConnectCalled c ok) w'))"

definition callOpen :: "nat \<Rightarrow> world \<Rightarrow> bool \<times> world" where
  "callOpen c w = (case ask w of (ok, w') \<Rightarrow> (ok, called (OpenCalled c ok) w'))"

definition close_only :: "string \<Rightarrow> nat \<Rightarrow> 's \<Rightarrow> world \<Rightarrow> 's \<times> world" where
  "close_only key c s w = (s, called (CloseCalled c) w)"

section \<open>Ether Dream\<close>

definition ed_prepareNew :: "nat \<Rightarrow> info \<Rightarrow> 's \<Rightarrow> world \<Rightarrow> NewControllerDisposition \<times> 's \<times> world" where
  "ed_prepareNew c i s w = (case callConnect c w of (ok, w') \<Rightarrow> (KeepController, s, called (ThreadStarted c) w'))"

definition edm_beforeClose :: "EtherDreamManagerState \<Rightarrow> world \<Rightarrow> EtherDreamManagerState \<times> world" where
  "edm_beforeClose s w = (s\<lparr>edm_running := False, edm_socket := False\<rparr>, w)"

definition edm_afterClose :: "EtherDreamManagerState \<Rightarrow> world \<Rightarrow> EtherDreamManagerState \<times> world" where
  "edm_afterClose s w = (s\<lparr>edm_controllers := []\<rparr>, w)"

definition etherDreamHooks :: "(string \<Rightarrow> nat) \<Rightarrow> (derived, EtherDreamManagerState) Hooks" where
  "etherDreamHooks rank =
     \<lparr>h_isInfo = is_EtherDreamInfo, h_key = default_key, h_create = (\<lambda>i. newObject), h_reuse = default_reuse,
      h_prepareNew = ed_prepareNew, h_prepareExisting = default_prepareExisting,
      h_beforeClose = edm_beforeClose, h_afterClose = edm_afterClose, h_stop = default_stop,
      h_disconnect = default_disconnect close_only, h_close = close_only, h_rank = rank\<rparr>"

section \<open>LaserCube over the network\<close>

definition lcn_prepareNew :: "nat \<Rightarrow> info \<Rightarrow> 's \<Rightarrow> world \<Rightarrow> NewControllerDisposition \<times> 's \<times> world" where
  "lcn_prepareNew c i s w =
     (case callConnect c (called (StatusUpdated c) w) of (ok, w') \<Rightarrow> (KeepController, s, called (ThreadStarted c) w'))"

definition lcn_prepareExisting :: "nat \<Rightarrow> info \<Rightarrow> 's \<Rightarrow> world \<Rightarrow> 's \<times> world" where
  "lcn_prepareExisting c i s w = (s, called (StatusUpdated c) w)"

text \<open>The socket is closed; the object stays.\<close>

definition lcm_beforeClose :: "LaserCubeManagerState \<Rightarrow> world \<Rightarrow> LaserCubeManagerState \<times> world" where
  "lcm_beforeClose s w = (s\<lparr>lcm_running := False\<rparr>, w)"

definition lcm_afterClose :: "LaserCubeManagerState \<Rightarrow> world \<Rightarrow> LaserCubeManagerState \<times> world" where
  "lcm_afterClose s w = (s\<lparr>lcm_controllers := []\<rparr>, w)"

definition laserCubeNetHooks :: "(string \<Rightarrow> nat) \<Rightarrow> (derived, LaserCubeManagerState) Hooks" where
  "laserCubeNetHooks rank =
     \<lparr>h_isInfo = is_LaserCubeNetInfo, h_key = default_key, h_create = (\<lambda>i. newObject), h_reuse = default_reuse,
      h_prepareNew = lcn_prepareNew, h_prepareExisting = lcn_prepareExisting,
      h_beforeClose = lcm_beforeClose, h_afterClose = lcm_afterClose, h_stop = default_stop,
      h_disconnect = default_disconnect close_only, h_close = close_only, h_rank = rank\<rparr>"

section \<open>LaserCube over USB\<close>

datatype UsbResult = UsbSuccess | UsbBusy | UsbAccess | UsbOther

text \<open>What a device answers: its descriptor (vendor, product and the index of its serial), the
  serial it reads as, and the results of opening it, claiming its interfaces and choosing the
  alternate setting.\<close>

record LaserCubeUsbDevice =
  lu_descriptor :: "(u16 \<times> u16 \<times> u8) option"
  lu_opensForSerial :: bool
  lu_serial :: string
  lu_open :: UsbResult
  lu_claim0 :: bool
  lu_claim1 :: bool
  lu_altSetting :: bool

definition isLaserCubeUsb :: "u16 \<Rightarrow> u16 \<Rightarrow> bool" where
  "isLaserCubeUsb vendor product = (vendor = 0x1fc9 \<and> product = 0x04d8)"

definition readSerialNumber :: "LaserCubeUsbDevice \<Rightarrow> string option" where
  "readSerialNumber d =
     (case lu_descriptor d of
        None \<Rightarrow> None
      | Some (vendor, product, iSerial) \<Rightarrow>
          if \<not> isLaserCubeUsb vendor product then None
          else if iSerial = 0 then None
          else if \<not> lu_opensForSerial d then None
          else if lu_serial d = '''' then None
          else Some (lu_serial d))"

definition probeUsageState :: "LaserCubeUsbDevice \<Rightarrow> bool \<Rightarrow> ControllerUsageState" where
  "probeUsageState d owned =
     (if owned then UsageIdle
      else if lu_open d = UsbBusy \<or> lu_open d = UsbAccess then UsageBusyExclusive
      else if lu_open d \<noteq> UsbSuccess then UsageUnknown
      else if \<not> lu_claim0 d then UsageBusyExclusive
      else if \<not> lu_claim1 d then UsageBusyExclusive
      else if \<not> lu_altSetting d then UsageBusyExclusive
      else UsageIdle)"

record LaserCubeUsbState =
  lum_context :: bool

fun lum_infos :: "string set \<Rightarrow> LaserCubeUsbDevice list \<Rightarrow> info list" where
  "lum_infos owned [] = []"
| "lum_infos owned (d # ds) =
     (case readSerialNumber d of
        None \<Rightarrow> lum_infos owned ds
      | Some serial \<Rightarrow>
          setUsageState (probeUsageState d (serial \<in> owned))
            (newLaserCubeUsbInfo serial (if serial = '''' then ''LaserCube USB'' else ''LaserCube USB '' @ serial))
          # lum_infos owned ds)"

text \<open>\<open>healthy\<close>: the status of a controller in use is not Error.\<close>

definition lum_discover ::
  "(nat \<Rightarrow> bool) \<Rightarrow> LaserCubeUsbDevice list option \<Rightarrow> LaserCubeUsbState Manager \<Rightarrow> world
     \<Rightarrow> info list \<times> LaserCubeUsbState Manager \<times> world" where
  "lum_discover healthy deviceList m w =
     (if \<not> lum_context (m_own m) then ([], m, w)
      else case liveControllers m w of (active, m', w') \<Rightarrow>
        let owned = set (map fst (filter (\<lambda>(serial, c). healthy c) active))
        in (case deviceList of None \<Rightarrow> [] | Some ds \<Rightarrow> lum_infos owned ds, m', dropSnapshot active w'))"

definition lcu_create :: "info \<Rightarrow> LaserCubeUsbState \<Rightarrow> world \<Rightarrow> nat option \<times> LaserCubeUsbState \<times> world" where
  "lcu_create i s w = (if \<not> lum_context s then (None, s, w) else newObject s w)"

definition lcu_prepareNew :: "nat \<Rightarrow> info \<Rightarrow> 's \<Rightarrow> world \<Rightarrow> NewControllerDisposition \<times> 's \<times> world" where
  "lcu_prepareNew c i s w =
     (case callConnect c w of (ok, w') \<Rightarrow>
        if \<not> ok then (DropController, s, w') else (KeepController, s, called (ThreadStarted c) w'))"

definition laserCubeUsbHooks :: "(string \<Rightarrow> nat) \<Rightarrow> (derived, LaserCubeUsbState) Hooks" where
  "laserCubeUsbHooks rank =
     \<lparr>h_isInfo = is_LaserCubeUsbInfo, h_key = default_key, h_create = lcu_create, h_reuse = default_reuse,
      h_prepareNew = lcu_prepareNew, h_prepareExisting = default_prepareExisting,
      h_beforeClose = default_aroundClose, h_afterClose = default_aroundClose, h_stop = default_stop,
      h_disconnect = default_disconnect close_only, h_close = close_only, h_rank = rank\<rparr>"

section \<open>LightSpace\<close>

definition setPreferredRate :: "nat \<Rightarrow> info \<Rightarrow> world \<Rightarrow> world" where
  "setPreferredRate c i w =
     (case ci_derived i of
        LightSpaceInfo l \<Rightarrow> if 0 < ls_preferredPointRate l then called (PointRateSet c (ls_preferredPointRate l)) w else w
      | _ \<Rightarrow> w)"

definition lsn_prepareNew :: "nat \<Rightarrow> info \<Rightarrow> LightSpaceManagerState \<Rightarrow> world \<Rightarrow> NewControllerDisposition \<times> LightSpaceManagerState \<times> world" where
  "lsn_prepareNew c i s w =
     (case callConnect c (called (StatusUpdated c) (setPreferredRate c i w)) of (ok, w') \<Rightarrow>
        (KeepController, lsm_stopDiscoveryThread s, called (ThreadStarted c) w'))"

definition lsn_prepareExisting :: "nat \<Rightarrow> info \<Rightarrow> 's \<Rightarrow> world \<Rightarrow> 's \<times> world" where
  "lsn_prepareExisting c i s w = (s, called (StatusUpdated c) (setPreferredRate c i w))"

definition lsm_beforeClose :: "LightSpaceManagerState \<Rightarrow> world \<Rightarrow> LightSpaceManagerState \<times> world" where
  "lsm_beforeClose s w = (lsm_stopDiscoveryThread s, w)"

definition lsm_afterClose :: "LightSpaceManagerState \<Rightarrow> world \<Rightarrow> LightSpaceManagerState \<times> world" where
  "lsm_afterClose s w = (s\<lparr>lsm_controllers := []\<rparr>, w)"

definition lightSpaceHooks :: "(string \<Rightarrow> nat) \<Rightarrow> (derived, LightSpaceManagerState) Hooks" where
  "lightSpaceHooks rank =
     \<lparr>h_isInfo = is_LightSpaceInfo, h_key = default_key, h_create = (\<lambda>i. newObject), h_reuse = default_reuse,
      h_prepareNew = lsn_prepareNew, h_prepareExisting = lsn_prepareExisting,
      h_beforeClose = lsm_beforeClose, h_afterClose = lsm_afterClose, h_stop = default_stop,
      h_disconnect = default_disconnect close_only, h_close = close_only, h_rank = rank\<rparr>"

section \<open>Helios\<close>

definition hel_key :: "info \<Rightarrow> string" where
  "hel_key i = portPathOf i"

text \<open>\<open>HeliosController::connectUsb\<close> gives a connected controller or null.\<close>

definition hel_create :: "info \<Rightarrow> HeliosManagerState \<Rightarrow> world \<Rightarrow> nat option \<times> HeliosManagerState \<times> world" where
  "hel_create i s w =
     (case ci_derived i of
        HeliosInfo h \<Rightarrow>
          if \<not> hi_isUsb h \<or> hi_portPath h = '''' \<or> \<not> hm_usbContext s then (None, s, w)
          else (case ask w of (ok, w1) \<Rightarrow>
            if \<not> ok then (None, s, w1)
            else case make_shared w1 of (c, w2) \<Rightarrow> (Some c, s, w2\<lparr>w_up := (w_up w2)(c := True)\<rparr>))
      | _ \<Rightarrow> (None, s, w))"

definition hel_reuse :: "nat \<Rightarrow> info \<Rightarrow> 's \<Rightarrow> world \<Rightarrow> bool" where
  "hel_reuse c i s w = w_up w c"

definition hel_prepareNew :: "nat \<Rightarrow> info \<Rightarrow> 's \<Rightarrow> world \<Rightarrow> NewControllerDisposition \<times> 's \<times> world" where
  "hel_prepareNew c i s w = (KeepController, s, called (ThreadStarted c) w)"

definition hel_prepareExisting :: "nat \<Rightarrow> info \<Rightarrow> 's \<Rightarrow> world \<Rightarrow> 's \<times> world" where
  "hel_prepareExisting c i s w = (s, called (ThreadStarted c) w)"

definition hel_disconnect :: "string \<Rightarrow> nat \<Rightarrow> 's \<Rightarrow> world \<Rightarrow> 's \<times> world" where
  "hel_disconnect key c s w = (s, called (CloseCalled c) (called (ThreadStopped c) w))"

definition hel_close :: "string \<Rightarrow> nat \<Rightarrow> 's \<Rightarrow> world \<Rightarrow> 's \<times> world" where
  "hel_close key c s w = (s, called (CloseCalled c) (called (ShutdownPrepared c) w))"

definition hel_afterClose :: "HeliosManagerState \<Rightarrow> world \<Rightarrow> HeliosManagerState \<times> world" where
  "hel_afterClose s w = (s\<lparr>hm_stableLabels := []\<rparr>, w)"

definition heliosHooks :: "(string \<Rightarrow> nat) \<Rightarrow> (derived, HeliosManagerState) Hooks" where
  "heliosHooks rank =
     \<lparr>h_isInfo = is_HeliosInfo, h_key = hel_key, h_create = hel_create, h_reuse = hel_reuse,
      h_prepareNew = hel_prepareNew, h_prepareExisting = hel_prepareExisting,
      h_beforeClose = default_aroundClose, h_afterClose = hel_afterClose, h_stop = default_stop,
      h_disconnect = hel_disconnect, h_close = hel_close, h_rank = rank\<rparr>"

text \<open>The DACs this process owns, and the discovery around the scan.\<close>

definition hel_discover ::
  "u32 \<Rightarrow> UsbDevice list option \<Rightarrow> HeliosManagerState Manager \<Rightarrow> world \<Rightarrow> (nat \<Rightarrow> string)
     \<Rightarrow> (info list \<times> HeliosManagerState Manager \<times> world) option" where
  "hel_discover maxPps deviceList m w pathOf =
     (case liveControllers m w of (active, m', w') \<Rightarrow>
      case collectDiscoveredControllers maxPps (set (map (\<lambda>e. pathOf (snd e)) (filter (\<lambda>e. w_up w (snd e)) active)))
             deviceList (m_own m') of
        None \<Rightarrow> None
      | Some (infos, own) \<Rightarrow> Some (infos, m'\<lparr>m_own := own\<rparr>, dropSnapshot active w'))"

section \<open>IDN\<close>

definition idn_create :: "info \<Rightarrow> IdnManagerState \<Rightarrow> world \<Rightarrow> nat option \<times> IdnManagerState \<times> world" where
  "idn_create i s w =
     (case make_shared w of (c, w') \<Rightarrow>
        (Some c, s\<lparr>idm_slotOf := (idm_slotOf s)(c := (case ci_derived i of IdnInfo f \<Rightarrow> unat (ii_index f) | _ \<Rightarrow> 0))\<rparr>, w'))"

definition idn_notice :: "nat \<Rightarrow> info \<Rightarrow> world \<Rightarrow> world" where
  "idn_notice c i w =
     (let w1 = (if ci_network i \<noteq> None then called (DiscoveryNoted c) (called (HealthEndpointSet c) w) else w)
      in called (ThreadStarted c) (called (HealthStarted c) w1))"

definition idn_prepareNew :: "nat \<Rightarrow> info \<Rightarrow> 's \<Rightarrow> world \<Rightarrow> NewControllerDisposition \<times> 's \<times> world" where
  "idn_prepareNew c i s w = (KeepController, s, idn_notice c i w)"

definition idn_prepareExisting :: "nat \<Rightarrow> info \<Rightarrow> 's \<Rightarrow> world \<Rightarrow> 's \<times> world" where
  "idn_prepareExisting c i s w = (s, idn_notice c i w)"

definition idn_close :: "string \<Rightarrow> nat \<Rightarrow> 's \<Rightarrow> world \<Rightarrow> 's \<times> world" where
  "idn_close key c s w = (s, called (CloseCalled c) (called (HealthStopped c) w))"

definition idn_afterClose :: "IdnManagerState \<Rightarrow> world \<Rightarrow> IdnManagerState \<times> world" where
  "idn_afterClose s w = (idm_afterClose s, w)"

definition idnHooks :: "(string \<Rightarrow> nat) \<Rightarrow> (derived, IdnManagerState) Hooks" where
  "idnHooks rank =
     \<lparr>h_isInfo = is_IdnInfo, h_key = default_key, h_create = idn_create, h_reuse = default_reuse,
      h_prepareNew = idn_prepareNew, h_prepareExisting = idn_prepareExisting,
      h_beforeClose = default_aroundClose, h_afterClose = idn_afterClose, h_stop = default_stop,
      h_disconnect = default_disconnect idn_close, h_close = idn_close, h_rank = rank\<rparr>"

end
