(* ===== verification/Extension_Managers.thy ===== *)
theory Extension_Managers
  imports Backend_Managers
begin

text \<open>
  The managers whose devices are described by code outside the repository: the Libera protocol
  (its packet codec is a submodule, here the parameter \<open>decodeAdvertisement\<close>) and plugins
  (the functions of the plugin's C interface answer). Then the contract of the manager base
  class, discharged for every backend.
\<close>

section \<open>Libera protocol\<close>

text \<open>\<open>std::strtol(raw, &end, 10)\<close>: the number and whether any digit was read.\<close>

definition strtol :: "string \<Rightarrow> int option" where
  "strtol raw =
     (let s = dropWhile isspace raw;
          negative = (s \<noteq> [] \<and> hd s = CHR ''-'');
          t = (if s \<noteq> [] \<and> (hd s = CHR ''-'' \<or> hd s = CHR ''+'') then tl s else s);
          digits = takeWhile isdigit t;
          v = fold (\<lambda>c n. n * 10 + int (byte_of_char c - 48)) digits 0
      in if digits = [] then None else Some (if negative then - v else v))"

definition discoveryPortFromEnvironment :: "int \<Rightarrow> string option \<Rightarrow> int" where
  "discoveryPortFromEnvironment defaultPort raw =
     (case raw of
        None \<Rightarrow> defaultPort
      | Some r \<Rightarrow>
          if r = '''' then defaultPort
          else case strtol r of
                 None \<Rightarrow> defaultPort
               | Some parsed \<Rightarrow> if parsed \<le> 0 \<or> 65535 < parsed then defaultPort else parsed)"

text \<open>In milliseconds.\<close>

definition discoveryWindowFromEnvironment :: "string option \<Rightarrow> int" where
  "discoveryWindowFromEnvironment raw =
     (case raw of
        None \<Rightarrow> 750
      | Some r \<Rightarrow>
          if r = '''' then 750
          else case strtol r of
                 None \<Rightarrow> 750
               | Some parsed \<Rightarrow> if parsed \<le> 0 then 750 else min parsed 5000)"

definition discoveryKey :: "DiscoveryAdvertisement \<Rightarrow> string" where
  "discoveryKey a = adv_endpointId a @ ''@'' @ adv_address a @ '':'' @ dec_string (unat (adv_tcpPort a))"

definition completeAdvertisement :: "string \<Rightarrow> DiscoveryAdvertisement \<Rightarrow> DiscoveryAdvertisement" where
  "completeAdvertisement sender a0 =
     (let a1 = (if adv_address a0 = '''' then a0\<lparr>adv_address := sender\<rparr> else a0);
          a2 = (if adv_endpointId a1 = ''''
                then a1\<lparr>adv_endpointId := adv_address a1 @ '':'' @ dec_string (unat (adv_tcpPort a1))\<rparr> else a1)
      in if adv_displayName a2 = '''' then a2\<lparr>adv_displayName := ''Libera Protocol '' @ adv_endpointId a2\<rparr> else a2)"

text \<open>The listening window; each entry is the clock at the loop's test and what is then received.
  \<open>emplace\<close> keeps the first advertisement of a key.\<close>

fun lib_listen ::
  "(bytes \<Rightarrow> DiscoveryAdvertisement option) \<Rightarrow> time_point \<Rightarrow> (time_point \<times> receipt) list
     \<Rightarrow> (string \<times> info) list \<Rightarrow> (string \<times> info) list" where
  "lib_listen decodeAdvertisement deadline [] found = found"
| "lib_listen decodeAdvertisement deadline ((t, r) # rs) found =
     (if deadline \<le> t then found
      else case r of
        ReceiveTimedOut \<Rightarrow> lib_listen decodeAdvertisement deadline rs found
      | ReceiveAborted \<Rightarrow> lib_listen decodeAdvertisement deadline rs found
      | ReceiveFailed \<Rightarrow> found
      | Received sender data \<Rightarrow>
          (case decodeAdvertisement data of
             None \<Rightarrow> lib_listen decodeAdvertisement deadline rs found
           | Some a0 \<Rightarrow>
               let a = completeAdvertisement sender a0;
                   k = discoveryKey a
               in lib_listen decodeAdvertisement deadline rs
                    (if map_of found k = None then found @ [(k, newLiberaInfo a sender)] else found)))"

definition lib_discover ::
  "(bytes \<Rightarrow> DiscoveryAdvertisement option) \<Rightarrow> bool \<Rightarrow> bool \<Rightarrow> string option \<Rightarrow> time_point
     \<Rightarrow> (time_point \<times> receipt) list \<Rightarrow> info list" where
  "lib_discover decodeAdvertisement opened bound windowText start rs =
     (if \<not> opened then []
      else if \<not> bound then []
      else map snd (lib_listen decodeAdvertisement (start + discoveryWindowFromEnvironment windowText * 1000000) rs []))"

definition lib_prepareNew :: "nat \<Rightarrow> info \<Rightarrow> 's \<Rightarrow> world \<Rightarrow> NewControllerDisposition \<times> 's \<times> world" where
  "lib_prepareNew c i s w =
     (case ci_derived i of
        LiberaInfo l \<Rightarrow>
          if adv_availability (li_advertisement l) \<noteq> Available then (DropController, s, w)
          else (case callConnect c w of (ok, w') \<Rightarrow>
            if \<not> ok then (DropController, s, w') else (KeepController, s, called (ThreadStarted c) w'))
      | _ \<Rightarrow> (DropController, s, w))"

definition lib_prepareExisting :: "nat \<Rightarrow> info \<Rightarrow> 's \<Rightarrow> world \<Rightarrow> 's \<times> world" where
  "lib_prepareExisting c i s w = (s, called (StatusUpdated c) w)"

definition liberaHooks :: "(string \<Rightarrow> nat) \<Rightarrow> (derived, unit) Hooks" where
  "liberaHooks rank =
     \<lparr>h_isInfo = is_LiberaInfo, h_key = default_key, h_create = (\<lambda>i. newObject), h_reuse = default_reuse,
      h_prepareNew = lib_prepareNew, h_prepareExisting = lib_prepareExisting,
      h_beforeClose = default_aroundClose, h_afterClose = default_aroundClose, h_stop = default_stop,
      h_disconnect = default_disconnect close_only, h_close = close_only, h_rank = rank\<rparr>"

section \<open>Plugins\<close>

datatype backend_event = BackendCreated | BackendDestroyed | BackendRescanned

record PluginState =
  pg_present :: bool
  pg_type :: string
  pg_hasCreate :: bool
  pg_hasDestroy :: bool
  pg_hasRescan :: bool
  pg_backend :: bool
  pg_initialised :: bool
  pg_events :: "backend_event list"

definition pg_event :: "backend_event \<Rightarrow> PluginState \<Rightarrow> PluginState" where
  "pg_event e s = s\<lparr>pg_events := pg_events s @ [e]\<rparr>"

definition ensureBackend :: "PluginState \<Rightarrow> world \<Rightarrow> bool \<times> PluginState \<times> world" where
  "ensureBackend s w =
     (if \<not> pg_present s then (False, s, w)
      else if pg_initialised s then (True, s, w)
      else
        let (made, w1) = (if pg_hasCreate s then ask w else (True, w));
            s1 = (if pg_hasCreate s then (if made then (pg_event BackendCreated s)\<lparr>pg_backend := True\<rparr>
                                          else s\<lparr>pg_backend := False\<rparr>) else s)
        in if \<not> made then (False, s1, w1)
           else case ask w1 of (settingsApplied, w2) \<Rightarrow>
             if \<not> settingsApplied
             then (False, (if pg_hasDestroy s1 then pg_event BackendDestroyed s1 else s1)\<lparr>pg_backend := False\<rparr>, w2)
             else (True, s1\<lparr>pg_initialised := True\<rparr>, w2))"

definition toUsageState :: "nat \<Rightarrow> ControllerUsageState" where
  "toUsageState u = (if u = 1 then UsageIdle else if u = 2 then UsageActive else if u = 3 then UsageBusyExclusive else UsageUnknown)"

text \<open>A field of \<open>n\<close> characters with its last one set to NUL, read as a C string.\<close>

definition cString :: "nat \<Rightarrow> string \<Rightarrow> string" where
  "cString n v = takeWhile (\<lambda>c. byte_of_char c \<noteq> 0) (take (n - 1) v)"

definition emitted :: "PluginFields \<Rightarrow> PluginFields" where
  "emitted p = p\<lparr>pl_id := cString 128 (pl_id p), pl_label := cString 256 (pl_label p),
     pl_network := map_option (\<lambda>(ip, port). (cString 64 ip, port)) (pl_network p),
     pl_connect_cookie_size := min (pl_connect_cookie_size p) 64\<rparr>"

definition pg_discover ::
  "PluginFields list \<Rightarrow> PluginState Manager \<Rightarrow> world \<Rightarrow> info list \<times> PluginState Manager \<times> world" where
  "pg_discover found m w =
     (case ensureBackend (m_own m) w of (ok, s, w1) \<Rightarrow>
      if \<not> ok then ([], m\<lparr>m_own := s\<rparr>, w1)
      else case liveControllers (m\<lparr>m_own := s\<rparr>) w1 of (active, m2, w2) \<Rightarrow>
        let s' = (if pg_hasRescan s then pg_event BackendRescanned s else s);
            infos = map (\<lambda>p. let i = newPluginInfo (emitted p) (pg_type s)
                             in setUsageState (if map_of active (ci_id i) \<noteq> None then UsageActive
                                               else toUsageState (pl_usage_state p)) i) found
        in (infos, m2\<lparr>m_own := s'\<rparr>, dropSnapshot active w2))"

definition pg_create :: "info \<Rightarrow> PluginState \<Rightarrow> world \<Rightarrow> nat option \<times> PluginState \<times> world" where
  "pg_create i s w = (case ensureBackend s w of (ok, s1, w1) \<Rightarrow> if \<not> ok then (None, s1, w1) else newObject s1 w1)"

definition pg_prepareNew :: "nat \<Rightarrow> info \<Rightarrow> 's \<Rightarrow> world \<Rightarrow> NewControllerDisposition \<times> 's \<times> world" where
  "pg_prepareNew c i s w =
     (case callOpen c w of (opened, w1) \<Rightarrow>
      if \<not> opened then (DropController, s, w1)
      else case ask w1 of (applied, w2) \<Rightarrow>
        let w3 = called (SettingsApplied c applied) w2
        in if \<not> applied then (DropController, s, called (CloseCalled c) w3)
           else (KeepController, s, called (ThreadStarted c) (called (FrameQueueUsed c) (called (SettingsPublished c) w3))))"

definition pg_afterClose :: "PluginState \<Rightarrow> world \<Rightarrow> PluginState \<times> world" where
  "pg_afterClose s w =
     (if pg_present s \<and> pg_initialised s
      then ((if pg_hasDestroy s then pg_event BackendDestroyed s else s)\<lparr>pg_backend := False, pg_initialised := False\<rparr>, w)
      else (s, w))"

definition pluginHooks :: "(string \<Rightarrow> nat) \<Rightarrow> (derived, PluginState) Hooks" where
  "pluginHooks rank =
     \<lparr>h_isInfo = is_PluginInfo, h_key = default_key, h_create = pg_create, h_reuse = default_reuse,
      h_prepareNew = pg_prepareNew, h_prepareExisting = default_prepareExisting,
      h_beforeClose = default_aroundClose, h_afterClose = pg_afterClose, h_stop = default_stop,
      h_disconnect = default_disconnect close_only, h_close = close_only, h_rank = rank\<rparr>"

section \<open>The contract of the base class, for every backend\<close>

lemmas hook_defs =
  default_reuse_def default_prepareExisting_def default_aroundClose_def default_stop_def default_disconnect_def
  close_only_def ended_def calls_on_def same_objects_def ends_def

lemma calls_on_ask: "callConnect c w = (ok, w') \<Longrightarrow> calls_on c [ConnectCalled c ok] w w'"
  by (auto simp: callConnect_def ask_def called_def calls_on_def)

lemma calls_on_open: "callOpen c w = (ok, w') \<Longrightarrow> calls_on c [OpenCalled c ok] w w'"
  by (auto simp: callOpen_def ask_def called_def calls_on_def)

lemma newObject_made: "newObject s w = (r, s', w') \<Longrightarrow> \<exists>c. r = Some c \<and> made c [] w w'"
  by (auto simp: newObject_def dest: make_shared_made split: prod.splits)

lemma made_one: "newObject s w = (Some c, s', w') \<Longrightarrow> \<exists>l. made c l w w' \<and> ends l = []"
  by (auto dest!: newObject_made simp: ends_def)

lemma made_none: "newObject s w = (None, s', w') \<Longrightarrow> same_objects w w'"
  by (auto dest!: newObject_made)

interpretation etherDream: reusing_backend "etherDreamHooks rank" for rank
  by unfold_locales
     (auto simp: etherDreamHooks_def hook_defs ed_prepareNew_def edm_beforeClose_def edm_afterClose_def
        callConnect_def ask_def called_def intro: made_one [unfolded ends_def] dest: made_none [unfolded same_objects_def])

interpretation laserCubeNet: reusing_backend "laserCubeNetHooks rank" for rank
  by unfold_locales
     (auto simp: laserCubeNetHooks_def hook_defs lcn_prepareNew_def lcn_prepareExisting_def lcm_beforeClose_def
        lcm_afterClose_def callConnect_def ask_def called_def intro: made_one [unfolded ends_def] dest: made_none [unfolded same_objects_def])

interpretation laserCubeUsb: reusing_backend "laserCubeUsbHooks rank" for rank
  by unfold_locales
     (auto simp: laserCubeUsbHooks_def hook_defs lcu_prepareNew_def lcu_create_def
        callConnect_def ask_def called_def intro: made_one [unfolded ends_def] dest: made_none [unfolded same_objects_def] split: if_splits)

interpretation lightSpace: reusing_backend "lightSpaceHooks rank" for rank
  by unfold_locales
     (auto simp: lightSpaceHooks_def hook_defs lsn_prepareNew_def lsn_prepareExisting_def lsm_beforeClose_def
        lsm_afterClose_def setPreferredRate_def callConnect_def ask_def called_def
        intro: made_one [unfolded ends_def] dest: made_none [unfolded same_objects_def] split: derived.splits)

interpretation idn: reusing_backend "idnHooks rank" for rank
  by unfold_locales
     (auto simp: idnHooks_def hook_defs idn_create_def idn_prepareNew_def idn_prepareExisting_def idn_notice_def
        idn_close_def idn_afterClose_def called_def Let_def make_shared_def made_def)

interpretation libera: reusing_backend "liberaHooks rank" for rank
  by unfold_locales
     (auto simp: liberaHooks_def hook_defs lib_prepareNew_def lib_prepareExisting_def
        callConnect_def ask_def called_def intro: made_one [unfolded ends_def] dest: made_none [unfolded same_objects_def]
        split: derived.splits if_splits)

lemma ensureBackend_same: "ensureBackend s w = (ok, s', w') \<Longrightarrow> same_objects w w'"
  by (auto simp: ensureBackend_def Let_def ask_def same_objects_def split: if_splits prod.splits)

lemma made_after: "same_objects w w1 \<Longrightarrow> made c l w1 w' \<Longrightarrow> made c l w w'"
  by (auto simp: same_objects_def made_def)

lemma pg_create_made: "pg_create i s w = (Some c, s', w') \<Longrightarrow> \<exists>l. made c l w w' \<and> ends l = []"
  by (auto simp: pg_create_def split: prod.splits if_splits dest!: ensureBackend_same made_one intro: made_after)

lemma pg_create_none: "pg_create i s w = (None, s', w') \<Longrightarrow> same_objects w w'"
  by (auto simp: pg_create_def split: prod.splits if_splits dest!: ensureBackend_same newObject_made)

lemma pg_prepareNew_calls:
  "pg_prepareNew c i s w = (d, s', w') \<Longrightarrow> \<exists>l. calls_on c l w w' \<and> (d = KeepController \<longrightarrow> ends l = [])"
  by (auto simp: pg_prepareNew_def callOpen_def ask_def called_def calls_on_def ends_def Let_def split: if_splits)

interpretation plugin: reusing_backend "pluginHooks rank" for rank
proof
  show "h_create (pluginHooks rank) i s w = (None, s', w') \<Longrightarrow> same_objects w w'" for i s w s' w'
    using pg_create_none by (simp add: pluginHooks_def)
  show "h_create (pluginHooks rank) i s w = (Some c, s', w') \<Longrightarrow> \<exists>l. made c l w w' \<and> ends l = []" for i s w c s' w'
    using pg_create_made by (simp add: pluginHooks_def)
  show "h_prepareNew (pluginHooks rank) c i s w = (d, s', w') \<Longrightarrow>
      \<exists>l. calls_on c l w w' \<and> (d = KeepController \<longrightarrow> ends l = [])" for c i s w d s' w'
    using pg_prepareNew_calls by (simp add: pluginHooks_def)
qed (auto simp: pluginHooks_def hook_defs called_def pg_afterClose_def split: if_splits)

lemma hel_create_made: "hel_create i s w = (Some c, s', w') \<Longrightarrow> made c [] w w'"
  by (auto simp: hel_create_def ask_def make_shared_def made_def called_def split: derived.splits if_splits)

lemma hel_create_none: "hel_create i s w = (None, s', w') \<Longrightarrow> same_objects w w'"
  by (auto simp: hel_create_def ask_def make_shared_def same_objects_def split: derived.splits if_splits)

interpretation helios: backend "heliosHooks rank" for rank
proof
  show "h_create (heliosHooks rank) i s w = (None, s', w') \<Longrightarrow> same_objects w w'" for i s w s' w'
    using hel_create_none by (simp add: heliosHooks_def)
  show "h_create (heliosHooks rank) i s w = (Some c, s', w') \<Longrightarrow> \<exists>l. made c l w w' \<and> ends l = []" for i s w c s' w'
    using hel_create_made by (fastforce simp: heliosHooks_def ends_def)
qed (auto simp: heliosHooks_def hook_defs called_def hel_prepareNew_def hel_prepareExisting_def hel_disconnect_def
      hel_close_def hel_afterClose_def)

end
