(* ===== verification/Light_Space_Net.thy ===== *)
theory Light_Space_Net
  imports Controller Light_Space_Pattern Device_Status Extension_Managers
begin

text \<open>
  The LightSpace network controller (src/lightspacenet/LightSpaceNetController.cpp and its header):
  one TCP connection that carries complete patterns, control commands with adaptive
  acknowledgements, heartbeats, and the receive buffer in which the packets of the device are found.

  Outside the program are the socket (\<open>LsNetwork\<close>, streams of answers, about which nothing is
  assumed), the environment variables and \<open>strtof\<close> (\<open>LsEnvironment\<close>, read at every connect). Clock
  readings are successive elements of \<open>lsn_clock\<close>. What happened is recorded: the bytes handed to the
  socket (\<open>lsn_wire\<close>, newest first), and, for the current connection, the bytes received
  (\<open>lsn_received\<close>) and what was made of them (\<open>lsn_incoming\<close>, newest first). \<open>None\<close> is undefined or
  unspecified behaviour, or a wait that never ends.
\<close>

subsection \<open>Configuration\<close>

definition CMD_HEARTBEAT_RESPONSE :: u8 where "CMD_HEARTBEAT_RESPONSE = 0x04"
definition CMD_COMMAND_ACK :: u8 where "CMD_COMMAND_ACK = 0x01"
definition MAX_CURRENT_PATTERN_PACKET_BYTES :: nat where "MAX_CURRENT_PATTERN_PACKET_BYTES = 5120"
definition MAX_SOURCE_FRAME_POINTS :: nat where "MAX_SOURCE_FRAME_POINTS = 700"
definition DEFAULT_PATTERN_POINTS :: nat where "DEFAULT_PATTERN_POINTS = MAX_SOURCE_FRAME_POINTS"
definition COMMAND_ACK_ATTEMPTS :: nat where "COMMAND_ACK_ATTEMPTS = 3"

text \<open>Durations of the steady clock in nanoseconds.\<close>

definition COMMAND_ACK_TIMEOUT :: int where "COMMAND_ACK_TIMEOUT = 100000000"
definition HEARTBEAT_INTERVAL :: int where "HEARTBEAT_INTERVAL = 1000000000"
definition HEARTBEAT_DISCONNECT_AFTER :: int where "HEARTBEAT_DISCONNECT_AFTER = 3000000000"
definition INCOMING_POLL_INTERVAL :: int where "INCOMING_POLL_INTERVAL = 20000000"
definition commandRetryDelay :: int where "commandRetryDelay = 1000000000"
definition repeatedBlankPollInterval :: int where "repeatedBlankPollInterval = 5000000"
definition minimumPacketSize :: nat where "minimumPacketSize = 20"
definition maxReadsPerPoll :: nat where "maxReadsPerPoll = 8"

text \<open>\<open>duration_cast\<close> to a coarser unit.\<close>

definition duration_units :: "int \<Rightarrow> int \<Rightarrow> int" where
  "duration_units k d = (if d < 0 then - ((- d) div k) else d div k)"

subsection \<open>Environment variables\<close>

record LsEnvironment =
  getenv :: "string \<Rightarrow> string option"
  strtof :: "string \<Rightarrow> fp option"

definition normalizedEnvironmentValue :: "LsEnvironment \<Rightarrow> string \<Rightarrow> string" where
  "normalizedEnvironmentValue env name = (case getenv env name of None \<Rightarrow> '''' | Some raw \<Rightarrow> map tolower raw)"

definition environmentFlagEnabled :: "LsEnvironment \<Rightarrow> string \<Rightarrow> bool" where
  "environmentFlagEnabled env name =
     (let value = normalizedEnvironmentValue env name
      in value = ''1'' \<or> value = ''true'' \<or> value = ''yes'' \<or> value = ''on'')"

definition coordinateMode :: "string \<Rightarrow> CoordinateEncoding" where
  "coordinateMode mode =
     (if mode = ''unsigned'' \<or> mode = ''unsigned16'' then Unsigned16
      else if mode = ''signed15'' then Signed15
      else if mode = ''unsigned15'' then Unsigned15
      else if mode = ''signed12'' then Signed12
      else if mode = ''unsigned12'' then Unsigned12
      else if mode = ''signed'' \<or> mode = ''signed16'' then Signed16
      else Unsigned12)"

text \<open>A float variable that is set, not empty, parses and is finite is clamped, else the default stays.\<close>

definition clampedFloatFromEnvironment :: "LsEnvironment \<Rightarrow> string \<Rightarrow> fp \<Rightarrow> fp \<Rightarrow> fp \<Rightarrow> fp" where
  "clampedFloatFromEnvironment env name lo hi fallback =
     (case getenv env name of
        None \<Rightarrow> fallback
      | Some raw \<Rightarrow>
          if raw = '''' then fallback
          else (case strtof env raw of
                 None \<Rightarrow> fallback
               | Some parsed \<Rightarrow> if isfinite parsed then fclamp parsed lo hi else fallback))"

definition coordinateOptionsFromEnvironment :: "LsEnvironment \<Rightarrow> CoordinateOptions" where
  "coordinateOptionsFromEnvironment env =
     (let order = normalizedEnvironmentValue env ''LIBERA_LIGHTSPACENET_COORD_ENDIAN''
      in default_options
         \<lparr>encoding := coordinateMode (normalizedEnvironmentValue env ''LIBERA_LIGHTSPACENET_COORDS''),
          byteOrder := (if order = ''little'' \<or> order = ''le'' then LittleEndian
                        else if order = ''big'' \<or> order = ''be'' \<or> order = '''' then BigEndian
                        else byteOrder default_options),
          invertX := environmentFlagEnabled env ''LIBERA_LIGHTSPACENET_INVERT_X'',
          invertY := environmentFlagEnabled env ''LIBERA_LIGHTSPACENET_INVERT_Y'',
          swapXY := environmentFlagEnabled env ''LIBERA_LIGHTSPACENET_SWAP_XY'',
          scale := clampedFloatFromEnvironment env ''LIBERA_LIGHTSPACENET_SCALE'' (Fin 0) (Fin 4) (Fin 1),
          offsetX := clampedFloatFromEnvironment env ''LIBERA_LIGHTSPACENET_OFFSET_X'' (Fin (-1)) (Fin 1) (offsetX default_options),
          offsetY := clampedFloatFromEnvironment env ''LIBERA_LIGHTSPACENET_OFFSET_Y'' (Fin (-1)) (Fin 1) (offsetY default_options)\<rparr>)"

definition patternPointLimitFromEnvironment :: "LsEnvironment \<Rightarrow> nat" where
  "patternPointLimitFromEnvironment env =
     (case getenv env ''LIBERA_LIGHTSPACENET_PATTERN_POINTS'' of
        None \<Rightarrow> DEFAULT_PATTERN_POINTS
      | Some raw \<Rightarrow>
          if raw = '''' then DEFAULT_PATTERN_POINTS
          else (case strtol raw of
                 None \<Rightarrow> DEFAULT_PATTERN_POINTS
               | Some parsed \<Rightarrow> if parsed \<le> 0 then DEFAULT_PATTERN_POINTS
                                else nat (clamp_int parsed 1 (int MAX_SOURCE_FRAME_POINTS))))"

definition pointRateFromEnvironment :: "LsEnvironment \<Rightarrow> u32 \<Rightarrow> u32" where
  "pointRateFromEnvironment env fallback =
     (case getenv env ''LIBERA_LIGHTSPACENET_POINT_RATE'' of
        None \<Rightarrow> ls_clampPointRate fallback
      | Some raw \<Rightarrow>
          if raw = '''' then ls_clampPointRate fallback
          else (case strtol raw of
                 None \<Rightarrow> ls_clampPointRate fallback
               | Some parsed \<Rightarrow> if parsed \<le> 0 then ls_clampPointRate fallback
                                else word_of_int (clamp_int parsed LS_MIN_POINT_RATE LS_MAX_POINT_RATE)))"

text \<open>In milliseconds.\<close>

definition patternUpdateIntervalFromEnvironment :: "LsEnvironment \<Rightarrow> int" where
  "patternUpdateIntervalFromEnvironment env =
     (case getenv env ''LIBERA_LIGHTSPACENET_PATTERN_MS'' of
        None \<Rightarrow> 0
      | Some raw \<Rightarrow>
          if raw = '''' then 0
          else (case strtol raw of
                 None \<Rightarrow> 0
               | Some parsed \<Rightarrow> if parsed < 0 then 0 else clamp_int parsed 0 1000))"

subsection \<open>State\<close>

text \<open>One poll of the socket: \<open>available\<close> fails or gives nothing, or \<open>read_some\<close> fails or gives bytes.\<close>

datatype TcpRead = AvailableFailed | NoneAvailable | ReadFailed | Received bytes

record LsNetwork =
  lw_address :: "string \<Rightarrow> bool"
  lw_connects :: "nat \<Rightarrow> bool"
  lw_alive :: "nat \<Rightarrow> bool"
  lw_writes :: "nat \<Rightarrow> bool"
  lw_reads :: "nat \<Rightarrow> TcpRead"

datatype LsEvent = LsOpened | LsClosed | LsSent bytes

datatype LsIncoming = Heard LightSpaceNetPacket | Garbled

datatype CommandAckMode = Probe | Supported | Silent

datatype ControlCommandResult = CommandFailed | Acknowledged | SentWithoutAck

record LsNet =
  lsn_base :: Controller
  lsn_running :: "nat \<Rightarrow> bool"
  lsn_clock :: clock
  lsn_net :: LsNetwork
  lsn_wire :: "LsEvent list"
  lsn_incoming :: "LsIncoming list"
  lsn_received :: bytes
  lsn_slept :: "int list"
  tcpClient :: bool
  lsn_tcpOpen :: bool
  lsn_ipAddress :: string
  lsn_networkConnected :: bool
  lsn_reconnectRequested :: bool
  lsn_latestStatus :: "LightSpaceNetStatus option"
  lastHeartbeatSentTime :: time_point
  lastHeartbeatReplyTime :: time_point
  lsn_lastSentPointRate :: u32
  lsn_pointRatePushNeeded :: bool
  nextPointRateSyncTime :: time_point
  lastSentArmed :: bool
  laserStatePushNeeded :: bool
  nextLaserStateSyncTime :: time_point
  coordinateOptions :: CoordinateOptions
  strictHeartbeat :: bool
  timingLogEnabled :: bool
  heartbeatTimeoutLogged :: bool
  commandAckMode :: CommandAckMode
  patternUpdateInterval :: int
  nextPatternSendTime :: time_point
  lastIncomingPollTime :: time_point
  patternPointLimit :: nat
  lastSentPacketBytes :: nat
  lastSubmittedPatternPoints :: nat
  lastSentPatternWasBlank :: bool
  estimatedWriteLead :: int
  lsn_currentPointIndex :: u64
  tcpReceiveBuffer :: bytes
  timingLogWindowStart :: time_point
  timingLogPacketsSent :: u64
  timingLogPointsSent :: u64

subsection \<open>Base-class state, clock and socket\<close>

definition lsn_now :: "LsNet \<Rightarrow> time_point \<times> LsNet" where
  "lsn_now s = (now (lsn_clock s), s\<lparr>lsn_clock := later (lsn_clock s)\<rparr>)"

definition lsn_isRunning :: "LsNet \<Rightarrow> bool \<times> LsNet" where
  "lsn_isRunning s = (lsn_running s 0, s\<lparr>lsn_running := \<lambda>n. lsn_running s (Suc n)\<rparr>)"

definition lsn_sleep :: "int \<Rightarrow> LsNet \<Rightarrow> LsNet" where
  "lsn_sleep ms s = s\<lparr>lsn_slept := ms # lsn_slept s\<rparr>"

definition lsn_stream :: "(StreamState \<Rightarrow> StreamState) \<Rightarrow> LsNet \<Rightarrow> LsNet" where
  "lsn_stream f s = s\<lparr>lsn_base := (lsn_base s)\<lparr>stream := f (stream (lsn_base s))\<rparr>\<rparr>"

definition lsn_pointRate :: "LsNet \<Rightarrow> u32" where
  "lsn_pointRate s = getPointRate (stream (lsn_base s))"

definition lsn_isArmed :: "LsNet \<Rightarrow> bool" where
  "lsn_isArmed s = armed (pipe (stream (lsn_base s)))"

definition lsn_intermittentError :: "string \<Rightarrow> LsNet \<Rightarrow> LsNet" where
  "lsn_intermittentError code s =
     (let (t, s1) = lsn_now s
      in lsn_stream (\<lambda>st. st\<lparr>controllerEvents := recordIntermittentError code t (controllerEvents st)\<rparr>) s1)"

definition lsn_connectionError :: "string \<Rightarrow> LsNet \<Rightarrow> LsNet" where
  "lsn_connectionError code s =
     (let (t, s1) = lsn_now s
      in lsn_stream (\<lambda>st. st\<lparr>controllerEvents := recordConnectionError code t (controllerEvents st)\<rparr>) s1)"

definition lsn_connectionState :: "bool \<Rightarrow> LsNet \<Rightarrow> LsNet" where
  "lsn_connectionState up = lsn_stream (\<lambda>st. st\<lparr>controllerEvents := setConnectionState up (controllerEvents st)\<rparr>)"

definition lsn_latencySample :: "int \<Rightarrow> LsNet \<Rightarrow> LsNet" where
  "lsn_latencySample d = lsn_stream (\<lambda>st. st\<lparr>latencyRecord := recordLatencySample d (latencyRecord st)\<rparr>)"

definition lsn_startupBlank :: "LsNet \<Rightarrow> LsNet option" where
  "lsn_startupBlank s = do {
     p \<leftarrow> resetStartupBlank (pipe (stream (lsn_base s)));
     Some (lsn_stream (\<lambda>st. st\<lparr>pipe := p\<rparr>) s) }"

definition lsn_baseRate :: "u32 \<Rightarrow> LsNet \<Rightarrow> LsNet" where
  "lsn_baseRate rate = lsn_stream (\<lambda>st. st\<lparr>pipe := setPointRate rate (pipe st)\<rparr>)"

definition hasTcpConnection :: "LsNet \<Rightarrow> bool \<times> LsNet" where
  "hasTcpConnection s =
     (if \<not> tcpClient s \<or> \<not> lsn_tcpOpen s then (False, s)
      else (lw_alive (lsn_net s) 0, s\<lparr>lsn_net := (lsn_net s)\<lparr>lw_alive := \<lambda>n. lw_alive (lsn_net s) (Suc n)\<rparr>\<rparr>))"

definition lsn_tcpClose :: "LsNet \<Rightarrow> LsNet" where
  "lsn_tcpClose s = (if lsn_tcpOpen s then s\<lparr>lsn_tcpOpen := False, lsn_wire := LsClosed # lsn_wire s\<rparr> else s)"

definition lsn_tcpConnect :: "LsNet \<Rightarrow> bool \<times> LsNet" where
  "lsn_tcpConnect s =
     (let s1 = s\<lparr>lsn_net := (lsn_net s)\<lparr>lw_connects := \<lambda>n. lw_connects (lsn_net s) (Suc n)\<rparr>\<rparr>
      in if lw_connects (lsn_net s) 0 then (True, s1\<lparr>lsn_tcpOpen := True, lsn_wire := LsOpened # lsn_wire s1\<rparr>) else (False, s1))"

definition lsn_tcpWrite :: "LsNet \<Rightarrow> bool \<times> LsNet" where
  "lsn_tcpWrite s =
     (lw_writes (lsn_net s) 0, s\<lparr>lsn_net := (lsn_net s)\<lparr>lw_writes := \<lambda>n. lw_writes (lsn_net s) (Suc n)\<rparr>\<rparr>)"

definition lsn_tcpRead :: "LsNet \<Rightarrow> TcpRead \<times> LsNet" where
  "lsn_tcpRead s =
     (lw_reads (lsn_net s) 0, s\<lparr>lsn_net := (lsn_net s)\<lparr>lw_reads := \<lambda>n. lw_reads (lsn_net s) (Suc n)\<rparr>\<rparr>)"

subsection \<open>Patterns\<close>

definition nonNegativeMicros :: "int \<Rightarrow> int" where
  "nonNegativeMicros v = max 0 v"

definition smoothWriteLead :: "int \<Rightarrow> int \<Rightarrow> int" where
  "smoothWriteLead previous current =
     (let previousMicros = max 0 previous;
          currentMicros = max 0 (duration_units 1000 current)
      in if previousMicros = 0 then currentMicros else (previousMicros * 3 + currentMicros) div 4)"

definition pointPlaybackDuration :: "nat \<Rightarrow> u32 \<Rightarrow> int option" where
  "pointPlaybackDuration n rate =
     (if n = 0 \<or> rate = 0 then Some 0
      else ftrunc (fmul F64 (fdiv F64 (of_num F64 (int n)) (of_num F64 (uint rate))) (Fin 1000000000)))"

definition pointCountForDuration :: "int \<Rightarrow> u32 \<Rightarrow> nat" where
  "pointCountForDuration duration rate =
     (if duration \<le> 0 \<or> rate = 0 then 0
      else min ((nat duration * unat rate + 999) div 1000) (2 ^ 64 - 1))"

definition makeBlankPatternPoints :: "nat \<Rightarrow> LaserPoint list" where
  "makeBlankPatternPoints n = replicate n (default_point\<lparr>pt_i := Fin 0\<rparr>)"

definition makeBlankPatternAtPoint :: "LaserPoint \<Rightarrow> nat \<Rightarrow> LaserPoint list" where
  "makeBlankPatternAtPoint anchor n =
     replicate n (default_point\<lparr>pt_x := pt_x anchor, pt_y := pt_y anchor,
       pt_r := Fin 0, pt_g := Fin 0, pt_b := Fin 0, pt_i := Fin 0\<rparr>)"

definition patternPointsAreBlank :: "LaserPoint list \<Rightarrow> bool" where
  "patternPointsAreBlank points =
     list_all (\<lambda>p. \<not> (flt (rnd F32 (1 / 1000)) (pt_r p) \<or> flt (rnd F32 (1 / 1000)) (pt_g p) \<or> flt (rnd F32 (1 / 1000)) (pt_b p))) points"

definition padBlankPatternToPointLimit :: "LaserPoint list \<Rightarrow> nat \<Rightarrow> LaserPoint list" where
  "padBlankPatternToPointLimit points limit =
     (if points = [] \<or> limit \<le> length points \<or> \<not> patternPointsAreBlank points then points
      else makeBlankPatternAtPoint (last points) limit)"

subsection \<open>Sending and receiving\<close>

definition lsn_linkLost :: "string \<Rightarrow> LsNet \<Rightarrow> LsNet" where
  "lsn_linkLost code s = lsn_connectionState False
     ((lsn_connectionError code s)\<lparr>lsn_networkConnected := False, lsn_reconnectRequested := True\<rparr>)"

definition sendPacket :: "bytes \<Rightarrow> LsNet \<Rightarrow> bool \<times> LsNet" where
  "sendPacket packet s =
     (case hasTcpConnection s of (up, s1) \<Rightarrow>
        if \<not> up \<or> packet = []
        then (False, (lsn_connectionError net_sendFailed s1)\<lparr>lsn_networkConnected := False, lsn_reconnectRequested := True\<rparr>)
        else (case lsn_tcpWrite (s1\<lparr>lsn_wire := LsSent packet # lsn_wire s1\<rparr>) of
                (True, s2) \<Rightarrow> (True, s2)
              | (False, s2) \<Rightarrow> (False, lsn_linkLost net_sendFailed s2)))"

definition ackPayloadMatchesCommand :: "LightSpaceNetPacket \<Rightarrow> u8 \<Rightarrow> bool option" where
  "ackPayloadMatchesCommand packet commandWrd =
     (if packetType packet \<noteq> PACKET_TYPE_COMMAND \<or> commandWord packet \<noteq> CMD_COMMAND_ACK \<or> length (payload packet) < 2
      then Some False
      else map_option (\<lambda>acknowledged. acknowledged = ucast commandWrd \<or> ucast (acknowledged AND 0xFF) = commandWrd)
             (readBe16 (payload packet)))"

text \<open>The two flags are the result and \<open>ackMatched\<close>.\<close>

definition handleParsedIncomingPacket :: "LightSpaceNetPacket \<Rightarrow> u8 \<Rightarrow> LsNet \<Rightarrow> (bool \<times> bool \<times> LsNet) option" where
  "handleParsedIncomingPacket packet expected s0 =
     (let s = s0\<lparr>lsn_incoming := Heard packet # lsn_incoming s0\<rparr>
      in if packetType packet = PACKET_TYPE_BASIC \<and> commandWord packet = CMD_HEARTBEAT_RESPONSE
         then let (t, s1) = lsn_now s in Some (True, False, s1\<lparr>lastHeartbeatReplyTime := t, heartbeatTimeoutLogged := False\<rparr>)
         else if expected \<noteq> 0
         then map_option (\<lambda>matches. (True, matches, s)) (ackPayloadMatchesCommand packet expected)
         else Some (True, False, s))"

text \<open>\<open>std::search\<close> for the protocol header.\<close>

fun searchHeader :: "bytes \<Rightarrow> nat option" where
  "searchHeader [] = None"
| "searchHeader (b # bs) =
     (if take (length protocolHeader) (b # bs) = protocolHeader then Some 0 else map_option Suc (searchHeader bs))"

definition lsn_garbled :: "LsNet \<Rightarrow> LsNet" where
  "lsn_garbled s =
     (let s1 = lsn_intermittentError net_protocolError s
      in s1\<lparr>lsn_incoming := Garbled # lsn_incoming s1, tcpReceiveBuffer := drop 1 (tcpReceiveBuffer s1)\<rparr>)"

text \<open>One turn of the loop: the result with which it returns, or the state with which it goes on.\<close>

definition drainTurn :: "u8 \<Rightarrow> LsNet \<Rightarrow> ((bool \<times> bool \<times> LsNet) + LsNet) option" where
  "drainTurn expected s =
     (case searchHeader (tcpReceiveBuffer s) of
        None \<Rightarrow>
          let n = length (tcpReceiveBuffer s); h = length protocolHeader
          in Some (Inl (True, False,
               if h < n then s\<lparr>tcpReceiveBuffer := drop (n - (h - 1)) (tcpReceiveBuffer s)\<rparr> else s))
      | Some i \<Rightarrow>
          let s1 = s\<lparr>tcpReceiveBuffer := drop i (tcpReceiveBuffer s)\<rparr>; b = tcpReceiveBuffer s1
          in if length b < 12 then Some (Inl (True, False, s1))
          else do {
            w \<leftarrow> readBe16 (drop 10 b);
            let packetSize = unat w;
            (if packetSize < minimumPacketSize then Some (Inr (lsn_garbled s1))
             else if length b < packetSize then Some (Inl (True, False, s1))
             else do {
               parsed \<leftarrow> parsePacket (Some (take packetSize b));
               (case parsed of
                  None \<Rightarrow> Some (Inr (lsn_garbled s1))
                | Some packet \<Rightarrow> do {
                    (handled, matched, s2) \<leftarrow> handleParsedIncomingPacket packet expected s1;
                    let s3 = s2\<lparr>tcpReceiveBuffer := drop packetSize (tcpReceiveBuffer s2)\<rparr>;
                    Some (if \<not> handled then Inl (False, False, s3)
                          else if matched then Inl (True, True, s3)
                          else Inr s3) }) }) })"

lemma searchHeader_Some: "searchHeader b = Some i \<Longrightarrow> take (length protocolHeader) (drop i b) = protocolHeader"
  by (induction b arbitrary: i) (auto split: if_splits)

lemma drainTurn_shrinks:
  assumes "drainTurn expected s = Some (Inr s')"
  shows "length (tcpReceiveBuffer s') < length (tcpReceiveBuffer s)"
proof -
  from assms obtain i where i: "searchHeader (tcpReceiveBuffer s) = Some i"
    by (auto simp: drainTurn_def Let_def split: option.splits)
  let ?b = "drop i (tcpReceiveBuffer s)"
  have "?b \<noteq> []" using searchHeader_Some [OF i] by (auto simp: protocolHeader_def)
  then have len: "0 < length ?b" by simp
  have g: "tcpReceiveBuffer (lsn_garbled t) = drop 1 (tcpReceiveBuffer t)" for t
    by (simp add: lsn_garbled_def lsn_intermittentError_def lsn_now_def lsn_stream_def Let_def)
  have h: "tcpReceiveBuffer s2 = tcpReceiveBuffer t" if "handleParsedIncomingPacket p e t = Some (x, y, s2)" for p e t x y s2
    using that by (auto simp: handleParsedIncomingPacket_def lsn_now_def Let_def split: if_splits)
  from assms i len show ?thesis
    by (auto simp: drainTurn_def Let_def bind_eq_Some_conv g minimumPacketSize_def dest!: h split: if_splits option.splits)
qed

function drainTcpPacketBuffer :: "u8 \<Rightarrow> LsNet \<Rightarrow> (bool \<times> bool \<times> LsNet) option" where
  "drainTcpPacketBuffer expected s =
     (case drainTurn expected s of
        None \<Rightarrow> None
      | Some (Inl r) \<Rightarrow> Some r
      | Some (Inr s') \<Rightarrow> drainTcpPacketBuffer expected s')"
  by pat_completeness auto
termination
  by (relation "measure (\<lambda>(expected, s). length (tcpReceiveBuffer s))") (auto dest: drainTurn_shrinks)

text \<open>At most eight reads, each followed by a drain.\<close>

fun readLoop :: "nat \<Rightarrow> u8 \<Rightarrow> LsNet \<Rightarrow> (bool \<times> bool \<times> LsNet) option" where
  "readLoop 0 expected s = Some (True, False, s)"
| "readLoop (Suc n) expected s =
     (case lsn_tcpRead s of
        (AvailableFailed, s1) \<Rightarrow> Some (False, False, lsn_linkLost net_receiveFailed s1)
      | (NoneAvailable, s1) \<Rightarrow> Some (True, False, s1)
      | (ReadFailed, s1) \<Rightarrow> Some (False, False, lsn_linkLost net_receiveFailed s1)
      | (Received data, s1) \<Rightarrow>
          if data = [] then Some (True, False, s1)
          else (case drainTcpPacketBuffer expected (s1\<lparr>tcpReceiveBuffer := tcpReceiveBuffer s1 @ take 8192 data,
                       lsn_received := lsn_received s1 @ take 8192 data\<rparr>) of
                  None \<Rightarrow> None
                | Some (ok, matched, s2) \<Rightarrow>
                    if \<not> ok then Some (False, False, s2)
                    else if matched then Some (True, True, s2)
                    else readLoop n expected s2))"

definition pollTcpIncomingPackets :: "u8 \<Rightarrow> LsNet \<Rightarrow> (bool \<times> bool \<times> LsNet) option" where
  "pollTcpIncomingPackets expected s =
     (case hasTcpConnection s of (up, s1) \<Rightarrow>
        if \<not> up then Some (False, False, s1)
        else do {
          (ok, matched, s2) \<leftarrow> drainTcpPacketBuffer expected s1;
          (if \<not> ok then Some (False, False, s2)
           else if matched then Some (True, True, s2)
           else readLoop maxReadsPerPoll expected s2) })"

text \<open>The wait ends when the clock passes the deadline; its value is \<open>None\<close> if it never does.\<close>

partial_function (option) waitForCommandAck :: "u8 \<Rightarrow> time_point \<Rightarrow> LsNet \<Rightarrow> (bool \<times> LsNet) option" where
  "waitForCommandAck cmd deadline s =
     (case lsn_now s of (t, s1) \<Rightarrow>
        if t < deadline
        then do {
          (ok, matched, s2) \<leftarrow> pollTcpIncomingPackets cmd s1;
          (if \<not> ok then Some (False, s2)
           else if matched then Some (True, s2)
           else waitForCommandAck cmd deadline (lsn_sleep 2 s2)) }
        else Some (False, s1))"

fun sendAttempts :: "nat \<Rightarrow> u8 \<Rightarrow> bytes \<Rightarrow> bool \<Rightarrow> LsNet \<Rightarrow> (bool \<times> LsNet) option" where
  "sendAttempts 0 cmd packet recordTimeout s =
     Some (False, if recordTimeout then lsn_intermittentError net_timeout s else s)"
| "sendAttempts (Suc n) cmd packet recordTimeout s =
     (case sendPacket packet s of
        (False, s1) \<Rightarrow> Some (False, s1)
      | (True, s1) \<Rightarrow>
          (case lsn_now s1 of (t, s2) \<Rightarrow>
             (case waitForCommandAck cmd (t + COMMAND_ACK_TIMEOUT) s2 of
                None \<Rightarrow> None
              | Some (True, s3) \<Rightarrow> Some (True, s3)
              | Some (False, s3) \<Rightarrow> sendAttempts n cmd packet recordTimeout s3)))"

definition sendReliableCommand :: "u8 \<Rightarrow> bytes \<Rightarrow> bool \<Rightarrow> LsNet \<Rightarrow> (bool \<times> LsNet) option" where
  "sendReliableCommand cmd packet recordTimeout s = sendAttempts COMMAND_ACK_ATTEMPTS cmd packet recordTimeout s"

text \<open>\<open>networkConnected\<close> and, only if it is set, the state of the socket.\<close>

definition stillConnected :: "LsNet \<Rightarrow> bool \<times> LsNet" where
  "stillConnected s = (if \<not> lsn_networkConnected s then (False, s) else hasTcpConnection s)"

definition sendControlCommand :: "u8 \<Rightarrow> bytes \<Rightarrow> LsNet \<Rightarrow> (ControlCommandResult \<times> LsNet) option" where
  "sendControlCommand cmd packet s =
     (if commandAckMode s = Silent
      then (case sendPacket packet s of (ok, s1) \<Rightarrow> Some (if ok then SentWithoutAck else CommandFailed, s1))
      else do {
        (acked, s1) \<leftarrow> sendReliableCommand cmd packet (commandAckMode s = Supported) s;
        (if acked then Some (Acknowledged, s1\<lparr>commandAckMode := Supported\<rparr>)
         else (case stillConnected s1 of
                 (False, s2) \<Rightarrow> Some (CommandFailed, s2)
               | (True, s2) \<Rightarrow> Some (SentWithoutAck, s2\<lparr>commandAckMode := Silent\<rparr>))) })"

definition pollIncomingPackets :: "LsNet \<Rightarrow> LsNet option" where
  "pollIncomingPackets s = map_option (\<lambda>(ok, matched, s1). s1) (pollTcpIncomingPackets 0 s)"

subsection \<open>Heartbeat, rate and laser switch\<close>

definition sendHeartbeatIfDue :: "LsNet \<Rightarrow> LsNet" where
  "sendHeartbeatIfDue s =
     (let (t, s1) = lsn_now s;
          s2 = (if lastHeartbeatSentTime s1 = 0 \<or> HEARTBEAT_INTERVAL \<le> t - lastHeartbeatSentTime s1
                then let (t2, s2) = lsn_now s1
                     in case sendPacket (buildHeartbeatQueryPacket (word_of_int (duration_units 1000000 t2))) s2 of
                          (ok, s3) \<Rightarrow> if ok then s3\<lparr>lastHeartbeatSentTime := t\<rparr> else s3
                else s1)
      in if lastHeartbeatReplyTime s2 \<noteq> 0 \<and> HEARTBEAT_DISCONNECT_AFTER \<le> t - lastHeartbeatReplyTime s2
         then if \<not> strictHeartbeat s2 then s2\<lparr>heartbeatTimeoutLogged := True\<rparr>
              else lsn_linkLost net_connectionLost s2
         else s2)"

definition lsn_syncPointRate :: "LsNet \<Rightarrow> LsNet option" where
  "lsn_syncPointRate s0 =
     (case lsn_now s0 of (t, s) \<Rightarrow>
        if lsn_pointRatePushNeeded s \<and> nextPointRateSyncTime s \<noteq> 0 \<and> t < nextPointRateSyncTime s then Some s
        else let desired = lsn_pointRate s
        in if \<not> lsn_pointRatePushNeeded s \<and> desired = lsn_lastSentPointRate s then Some s
        else do {
          packet \<leftarrow> buildScanFrequencyPacket desired;
          (result, s1) \<leftarrow> sendControlCommand CMD_SET_SCAN_FREQUENCY packet s;
          Some (if result \<noteq> CommandFailed
                then s1\<lparr>lsn_lastSentPointRate := desired, lsn_pointRatePushNeeded := False, nextPointRateSyncTime := 0\<rparr>
                else s1\<lparr>lsn_pointRatePushNeeded := True, nextPointRateSyncTime := t + commandRetryDelay\<rparr>) })"

definition syncLaserState :: "LsNet \<Rightarrow> LsNet option" where
  "syncLaserState s0 =
     (case lsn_now s0 of (t, s) \<Rightarrow>
        if laserStatePushNeeded s \<and> nextLaserStateSyncTime s \<noteq> 0 \<and> t < nextLaserStateSyncTime s then Some s
        else let armedNow = lsn_isArmed s
        in if \<not> laserStatePushNeeded s \<and> armedNow = lastSentArmed s then Some s
        else do {
          (result, s1) \<leftarrow> sendControlCommand CMD_LASER_ON_OFF (buildLaserSwitchPacket armedNow) s;
          Some (if result \<noteq> CommandFailed
                then s1\<lparr>lastSentArmed := armedNow, laserStatePushNeeded := False, nextLaserStateSyncTime := 0\<rparr>
                else s1\<lparr>laserStatePushNeeded := True, nextLaserStateSyncTime := t + commandRetryDelay\<rparr>) })"

subsection \<open>Sending patterns\<close>

text \<open>\<open>setQueuedFramePointBudgetOverride(0)\<close> makes the override 0, not absent.\<close>

definition updateFrameReadinessBackpressure :: "LsNet \<Rightarrow> LsNet" where
  "updateFrameReadinessBackpressure s =
     s\<lparr>lsn_base := setQueuedFramePointBudgetOverride (Some 0)
        (setMinimumQueuedFramePointCountForReadiness
          (max (patternPointLimit s) (pointCountForDuration (patternUpdateInterval s) (lsn_pointRate s))) (lsn_base s))\<rparr>"

definition recordTimingSample :: "nat \<Rightarrow> LsNet \<Rightarrow> LsNet" where
  "recordTimingSample sentPointCount s =
     (if \<not> timingLogEnabled s then s
      else let (t, s1) = lsn_now s;
               s2 = (if timingLogWindowStart s1 = 0 then s1\<lparr>timingLogWindowStart := t\<rparr> else s1);
               s3 = (if 0 < sentPointCount
                     then s2\<lparr>timingLogPacketsSent := timingLogPacketsSent s2 + 1,
                             timingLogPointsSent := timingLogPointsSent s2 + of_nat sentPointCount\<rparr> else s2)
           in if t - timingLogWindowStart s3 < 1000000000 then s3
              else s3\<lparr>timingLogWindowStart := t, timingLogPacketsSent := 0, timingLogPointsSent := 0\<rparr>)"

definition patternRequest :: "time_point \<Rightarrow> LsNet \<Rightarrow> FrameFillRequest" where
  "patternRequest t s =
     \<lparr>ff_maximumPointsRequired = 2 ^ 64 - 1, ff_preferredPointCount = patternPointLimit s,
      ff_blankFramePointCount = patternPointLimit s, ff_estimatedFirstPointRenderTime = t,
      ff_currentPointIndex = lsn_currentPointIndex s, ff_advanceWhenAvailable = True, ff_repeatCurrentFrameWhenIdle = False\<rparr>"

text \<open>The points of a frame as they are sent: a dark frame fills the limit, a long one is fitted.\<close>

definition patternOf :: "LaserPoint list \<Rightarrow> nat \<Rightarrow> LaserPoint list option" where
  "patternOf framePoints limit =
     (let points = padBlankPatternToPointLimit framePoints limit
      in if limit < length points
         then map_option (\<lambda>fitted. padBlankPatternToPointLimit fitted limit) (fitCurrentPatternToPointLimit points limit)
         else Some points)"

definition skipPattern :: "time_point \<Rightarrow> LsNet \<Rightarrow> LsNet" where
  "skipPattern t s = s\<lparr>lastSentPacketBytes := 0, nextPatternSendTime := t + repeatedBlankPollInterval\<rparr>"

definition notePatternSent ::
    "Globals \<Rightarrow> u32 \<Rightarrow> time_point \<Rightarrow> nat \<Rightarrow> bool \<Rightarrow> nat \<Rightarrow> time_point \<Rightarrow> time_point \<Rightarrow> LsNet \<Rightarrow> LsNet option" where
  "notePatternSent g rate renderTime points blank packetBytes sendStart sendDone s =
     (let cost = (if blank then max points (minimumQueuedFramePointCountForReadiness (lsn_base s)) else points)
      in do {
        playback \<leftarrow> pointPlaybackDuration cost rate;
        let s1 = lsn_latencySample (sendDone - sendStart)
              (s\<lparr>lastSentPacketBytes := packetBytes,
                 nextPatternSendTime := sendDone + max playback (patternUpdateInterval s * 1000000),
                 lsn_currentPointIndex := lsn_currentPointIndex s + of_nat points\<rparr>);
        let s2 = s1\<lparr>estimatedWriteLead := smoothWriteLead (estimatedWriteLead s1) (sendDone - sendStart)\<rparr>;
        let (t, s3) = lsn_now s2;
        c \<leftarrow> noteFrameTransportSubmissionBounded g cost renderTime rate (lastSubmittedPatternPoints s3) t (lsn_base s3);
        Some (recordTimingSample points
          (s3\<lparr>lsn_base := c, lastSubmittedPatternPoints := cost, lastSentPatternWasBlank := blank\<rparr>)) })"

definition transmitPattern :: "Globals \<Rightarrow> u32 \<Rightarrow> time_point \<Rightarrow> time_point \<Rightarrow> LaserPoint list \<Rightarrow> LsNet \<Rightarrow> (bool \<times> LsNet) option" where
  "transmitPattern g rate t renderTime points s =
     (let blank = patternPointsAreBlank points
      in if blank \<and> lastSentPatternWasBlank s then Some (True, skipPattern t s)
      else do {
        packet \<leftarrow> buildPointStreamPacket points (coordinateOptions s);
        (if packet = [] \<or> MAX_CURRENT_PATTERN_PACKET_BYTES < length packet then Some (True, s)
         else case lsn_now s of (sendStart, s1) \<Rightarrow>
              case sendPacket packet s1 of (sent, s2) \<Rightarrow>
              case lsn_now s2 of (sendDone, s3) \<Rightarrow>
                if sent
                then map_option (\<lambda>s4. (True, s4)) (notePatternSent g rate renderTime (length points) blank (length packet) sendStart sendDone s3)
                else Some (False, s3)) })"

definition lsn_requestFrame :: "Globals \<Rightarrow> FrameFillRequest \<Rightarrow> LsNet \<Rightarrow> (bool \<times> Frame \<times> LsNet) option" where
  "lsn_requestFrame g req s = do {
     (ok, frame, c, clk) \<leftarrow> requestFrame g req (lsn_clock s) (lsn_base s);
     Some (ok, frame, s\<lparr>lsn_base := c, lsn_clock := clk\<rparr>) }"

definition sendFramePattern :: "Globals \<Rightarrow> LsNet \<Rightarrow> (bool \<times> LsNet) option" where
  "sendFramePattern g s0 =
     (let rate = lsn_pointRate s0
      in if rate = 0 then Some (False, s0)
      else case lsn_now s0 of (t, s) \<Rightarrow>
        if nextPatternSendTime s \<noteq> 0 \<and> t < nextPatternSendTime s then Some (True, s)
        else do {
          renderTime \<leftarrow> projectedNextWriteRenderTime t (nonNegativeMicros (estimatedWriteLead s) * 1000) (lsn_base s);
          (ok, frame, s1) \<leftarrow> lsn_requestFrame g (patternRequest renderTime s) s;
          (if \<not> ok then Some (False, s1)
           else if fr_points frame = [] then Some (True, skipPattern t s1)
           else if padBlankPatternToPointLimit (fr_points frame) (patternPointLimit s1) = [] then Some (True, skipPattern t s1)
           else do {
             points \<leftarrow> patternOf (fr_points frame) (patternPointLimit s1);
             transmitPattern g rate t renderTime points s1 }) })"

subsection \<open>Connecting and closing\<close>

definition lsn_setPointRate :: "u32 \<Rightarrow> LsNet \<Rightarrow> LsNet" where
  "lsn_setPointRate rate s =
     (let clamped = ls_clampPointRate rate;
          needsUpdate = (clamped \<noteq> lsn_pointRate s \<or> lsn_lastSentPointRate s \<noteq> clamped);
          s1 = updateFrameReadinessBackpressure (lsn_baseRate clamped s)
      in if \<not> needsUpdate then s1 else s1\<lparr>lsn_pointRatePushNeeded := True, nextPointRateSyncTime := 0\<rparr>)"

definition lsn_updateDiscoveredStatus :: "LightSpaceNetStatus \<Rightarrow> LsNet \<Rightarrow> LsNet" where
  "lsn_updateDiscoveredStatus found s =
     (let s1 = s\<lparr>lsn_latestStatus := Some found\<rparr>;
          s2 = (if lsn_ipAddress s1 \<noteq> ipAddress found
                then let s2 = s1\<lparr>lsn_ipAddress := ipAddress found\<rparr>
                     in if lsn_networkConnected s2 then s2\<lparr>lsn_reconnectRequested := True\<rparr> else s2
                else s1)
      in if \<not> lsn_networkConnected s2 then s2\<lparr>lsn_reconnectRequested := True\<rparr> else s2)"

text \<open>What a new connection resets.\<close>

definition lsn_resetSession :: "LsEnvironment \<Rightarrow> LsNet \<Rightarrow> LsNet" where
  "lsn_resetSession env s0 =
     (let (t, s) = lsn_now s0;
          s1 = s\<lparr>lastHeartbeatSentTime := 0, lastHeartbeatReplyTime := t, lsn_lastSentPointRate := 0,
                 lsn_pointRatePushNeeded := True, nextPointRateSyncTime := 0, lastSentArmed := \<not> lsn_isArmed s,
                 laserStatePushNeeded := True, nextLaserStateSyncTime := 0,
                 coordinateOptions := coordinateOptionsFromEnvironment env,
                 strictHeartbeat := environmentFlagEnabled env ''LIBERA_LIGHTSPACENET_REQUIRE_HEARTBEAT'',
                 timingLogEnabled := environmentFlagEnabled env ''LIBERA_LIGHTSPACENET_TIMING_LOG'',
                 heartbeatTimeoutLogged := False, commandAckMode := Probe,
                 patternUpdateInterval := patternUpdateIntervalFromEnvironment env, nextPatternSendTime := 0,
                 lastIncomingPollTime := 0, patternPointLimit := patternPointLimitFromEnvironment env\<rparr>;
          s2 = updateFrameReadinessBackpressure s1
      in s2\<lparr>lastSentPacketBytes := 0, lastSubmittedPatternPoints := 0, lastSentPatternWasBlank := False,
            estimatedWriteLead := 0, lsn_currentPointIndex := 0,
            lsn_base := clearFrameTransportSubmissionEstimate (lsn_base s2), tcpReceiveBuffer := [],
            lsn_received := [], lsn_incoming := [], timingLogWindowStart := 0, timingLogPacketsSent := 0, timingLogPointsSent := 0,
            lsn_networkConnected := True, lsn_reconnectRequested := False\<rparr>)"

definition lsn_connectToStatus :: "LsEnvironment \<Rightarrow> LightSpaceNetStatus \<Rightarrow> LsNet \<Rightarrow> (bool \<times> LsNet) option" where
  "lsn_connectToStatus env found s0 =
     (let s1 = s0\<lparr>lsn_ipAddress := ipAddress found\<rparr>;
          s2 = lsn_baseRate (pointRateFromEnvironment env (lsn_pointRate s1)) s1;
          s3 = (if tcpClient s2 then (lsn_tcpClose s2)\<lparr>tcpClient := False\<rparr> else s2)
      in if \<not> lw_address (lsn_net s3) (lsn_ipAddress s3) then Some (False, lsn_connectionError net_connectFailed s3)
      else case lsn_tcpConnect (s3\<lparr>tcpClient := True\<rparr>) of
          (False, s4) \<Rightarrow> Some (False, lsn_connectionError net_connectFailed s4)
        | (True, s4) \<Rightarrow>
            let s5 = lsn_connectionState True (lsn_resetSession env s4);
                s6 = lsn_stream (setEstimatedBufferCapacity (int (patternPointLimit s5))) s5;
                (t, s7) = lsn_now s6
            in map_option (\<lambda>s8. (True, s8))
                 (lsn_startupBlank (lsn_stream (updateEstimatedBufferSnapshotNow 0 (lsn_pointRate s7) t) s7)))"

definition lsn_connect :: "LsEnvironment \<Rightarrow> LightSpaceNetStatus \<Rightarrow> LsNet \<Rightarrow> (bool \<times> LsNet) option" where
  "lsn_connect env found s = lsn_connectToStatus env found (lsn_updateDiscoveredStatus found s)"

definition lsn_reconnectToLatestStatus :: "LsEnvironment \<Rightarrow> LsNet \<Rightarrow> (bool \<times> LsNet) option" where
  "lsn_reconnectToLatestStatus env s =
     (case lsn_latestStatus s of None \<Rightarrow> Some (False, s) | Some found \<Rightarrow> lsn_connectToStatus env found s)"

fun sendRepeatedly :: "nat \<Rightarrow> bytes \<Rightarrow> LsNet \<Rightarrow> LsNet" where
  "sendRepeatedly 0 packet s = s"
| "sendRepeatedly (Suc n) packet s = sendRepeatedly n packet (lsn_sleep 10 (snd (sendPacket packet s)))"

definition sendBlankPatternForShutdown :: "LsNet \<Rightarrow> LsNet option" where
  "sendBlankPatternForShutdown s =
     map_option (\<lambda>packet. sendRepeatedly 3 packet s)
       (buildPointStreamPacket (makeBlankPatternPoints (patternPointLimit s)) (coordinateOptions s))"

definition lsn_close :: "LsNet \<Rightarrow> LsNet option" where
  "lsn_close s0 =
     (case stillConnected s0 of (up, s1) \<Rightarrow> do {
        s2 \<leftarrow> (if up then map_option (\<lambda>s. snd (sendPacket (buildLaserSwitchPacket False) s)) (sendBlankPatternForShutdown s1)
              else Some s1);
        let s3 = lsn_connectionState False (s2\<lparr>lsn_networkConnected := False, lsn_reconnectRequested := False\<rparr>);
        let s4 = (lsn_stream clearEstimatedBufferState s3)\<lparr>lastSentPatternWasBlank := False\<rparr>;
        Some (if tcpClient s4 then lsn_tcpClose s4 else s4) })"

subsection \<open>The worker\<close>

definition sleepUntilNextPattern :: "LsNet \<Rightarrow> LsNet" where
  "sleepUntilNextPattern s =
     (let (sleepStart, s1) = lsn_now s
      in lsn_sleep (if nextPatternSendTime s1 \<noteq> 0 \<and> sleepStart < nextPatternSendTime s1
                    then clamp_int (cast_int (duration_units 1000000 (nextPatternSendTime s1 - sleepStart))) 1 5 else 1) s1)"

definition lsn_reconnectPass :: "LsEnvironment \<Rightarrow> LsNet \<Rightarrow> LsNet option" where
  "lsn_reconnectPass env s =
     (let s1 = (lsn_connectionState False s)\<lparr>lsn_networkConnected := False, lsn_reconnectRequested := False\<rparr>
      in do {
        (ok, s2) \<leftarrow> lsn_reconnectToLatestStatus env s1;
        Some (if \<not> ok then lsn_sleep 1000 (s2\<lparr>lsn_reconnectRequested := True\<rparr>) else lsn_sleep 100 s2) })"

definition lsn_pollIfDue :: "LsNet \<Rightarrow> LsNet option" where
  "lsn_pollIfDue s =
     (case lsn_now s of (t, s1) \<Rightarrow>
        if lastIncomingPollTime s1 = 0 \<or> INCOMING_POLL_INTERVAL \<le> t - lastIncomingPollTime s1
        then map_option (\<lambda>s2. s2\<lparr>lastIncomingPollTime := t\<rparr>) (pollIncomingPackets s1)
        else Some s1)"

text \<open>The rest of a pass is skipped when the connection was lost (\<open>continue\<close>).\<close>

definition whileConnected :: "(LsNet \<Rightarrow> LsNet option) \<Rightarrow> LsNet \<Rightarrow> LsNet option" where
  "whileConnected rest s = (case stillConnected s of (False, s1) \<Rightarrow> Some s1 | (True, s1) \<Rightarrow> rest s1)"

definition patternPass :: "Globals \<Rightarrow> LsNet \<Rightarrow> LsNet option" where
  "patternPass g s = do {
     (sent, s1) \<leftarrow> sendFramePattern g s;
     s2 \<leftarrow> lsn_pollIfDue s1;
     Some (sleepUntilNextPattern s2) }"

definition connectedPass :: "Globals \<Rightarrow> LsNet \<Rightarrow> LsNet option" where
  "connectedPass g s = do {
     s1 \<leftarrow> lsn_syncPointRate (lsn_connectionState True s);
     whileConnected (\<lambda>s2. do {
       s3 \<leftarrow> syncLaserState s2;
       whileConnected (\<lambda>s4. whileConnected (patternPass g) (sendHeartbeatIfDue s4)) s3 }) s1 }"

text \<open>One pass of the loop of \<open>run\<close>, without the test of \<open>running\<close>.\<close>

definition lsnPass :: "LsEnvironment \<Rightarrow> Globals \<Rightarrow> LsNet \<Rightarrow> LsNet option" where
  "lsnPass env g s =
     (if lsn_reconnectRequested s then lsn_reconnectPass env s
      else (case stillConnected s of
              (False, s1) \<Rightarrow> lsn_reconnectPass env s1
            | (True, s1) \<Rightarrow> connectedPass g s1))"

subsection \<open>Runs\<close>

definition lsn_init :: "string \<Rightarrow> LsNetwork \<Rightarrow> (nat \<Rightarrow> bool) \<Rightarrow> clock \<Rightarrow> LsNet" where
  "lsn_init ip net runs clk = updateFrameReadinessBackpressure
     \<lparr>lsn_base = controller_init, lsn_running = runs, lsn_clock = clk, lsn_net = net, lsn_wire = [], lsn_incoming = [], lsn_received = [],
      lsn_slept = [], tcpClient = False, lsn_tcpOpen = False, lsn_ipAddress = ip, lsn_networkConnected = False,
      lsn_reconnectRequested = False, lsn_latestStatus = None, lastHeartbeatSentTime = 0, lastHeartbeatReplyTime = 0,
      lsn_lastSentPointRate = 0, lsn_pointRatePushNeeded = True, nextPointRateSyncTime = 0, lastSentArmed = False,
      laserStatePushNeeded = True, nextLaserStateSyncTime = 0, coordinateOptions = default_options,
      strictHeartbeat = False, timingLogEnabled = False, heartbeatTimeoutLogged = False, commandAckMode = Probe,
      patternUpdateInterval = 0, nextPatternSendTime = 0, lastIncomingPollTime = 0,
      patternPointLimit = DEFAULT_PATTERN_POINTS, lastSentPacketBytes = 0, lastSubmittedPatternPoints = 0,
      lastSentPatternWasBlank = False, estimatedWriteLead = 0, lsn_currentPointIndex = 0, tcpReceiveBuffer = [],
      timingLogWindowStart = 0, timingLogPacketsSent = 0, timingLogPointsSent = 0\<rparr>"

datatype LsPhase = LsCreated | LsRunning | LsStopped

text \<open>The thread starts with the startup blank; the discovery thread and the application act between
  two passes, and the application may then replace the whole base-class state.\<close>

inductive lsn_step :: "LsPhase \<times> LsNet \<Rightarrow> LsPhase \<times> LsNet \<Rightarrow> bool" where
  connects: "lsn_connect env found s = Some (ok, s') \<Longrightarrow> lsn_step (p, s) (p, s')"
| begins: "lsn_startupBlank s = Some s' \<Longrightarrow> lsn_step (LsCreated, s) (LsRunning, s')"
| passes: "lsn_isRunning s = (True, s1) \<Longrightarrow> lsnPass env g s1 = Some s' \<Longrightarrow> lsn_step (LsRunning, s) (LsRunning, s')"
| stops: "lsn_isRunning s = (False, s') \<Longrightarrow> lsn_step (LsRunning, s) (LsStopped, s')"
| discovered: "lsn_step (p, s) (p, lsn_updateDiscoveredStatus found s)"
| setsRate: "lsn_step (p, s) (p, lsn_setPointRate rate s)"
| application: "lsn_step (p, s) (p, s\<lparr>lsn_base := c\<rparr>)"
| closes: "lsn_close s = Some s' \<Longrightarrow> lsn_step (p, s) (p, s')"

inductive lsn_reachable :: "LsPhase \<times> LsNet \<Rightarrow> bool" where
  created: "lsn_reachable (LsCreated, lsn_init ip net runs clk)"
| step: "lsn_reachable x \<Longrightarrow> lsn_step x y \<Longrightarrow> lsn_reachable y"

end
