(* ===== verification/Light_Space_Receive.thy ===== *)
theory Light_Space_Receive
  imports Light_Space_Net Clock_Advance
begin

text \<open>
  What the LightSpace controller makes of the bytes it receives, whatever the chunks in which TCP
  delivers them and whichever acknowledgement it waits for; the frame of the operations that only
  listen; and the wait for an acknowledgement, which ends.
\<close>

section \<open>The reference: every packet of a byte stream\<close>

text \<open>Position by position: a header that starts a packet not yet complete stops the scan, one that
  starts no packet is skipped by one byte and reported, a packet is reported and skipped.\<close>

function lsEvents :: "bytes \<Rightarrow> LsIncoming list" where
  "lsEvents [] = []"
| "lsEvents (b # bs) =
     (let d = b # bs; size = unat (the (readBe16 (drop 10 d))) in
      if take (length protocolHeader) d \<noteq> protocolHeader then lsEvents bs
      else if length d < 12 then []
      else if size < minimumPacketSize then Garbled # lsEvents bs
      else if length d < size then []
      else case the (parsePacket (Some (take size d))) of
             None \<Rightarrow> Garbled # lsEvents bs
           | Some p \<Rightarrow> Heard p # lsEvents (drop size d))"
  by pat_completeness auto
termination
  by (relation "measure length") (auto simp: minimumPacketSize_def)

declare lsEvents.simps(2) [simp del]

lemma lsEvents_skip: "take (length protocolHeader) (b # bs) \<noteq> protocolHeader \<Longrightarrow> lsEvents (b # bs) = lsEvents bs"
  by (simp add: lsEvents.simps(2) Let_def)

lemma lsEvents_skip_drop:
  "(\<And>j. j < i \<Longrightarrow> take (length protocolHeader) (drop j d) \<noteq> protocolHeader) \<Longrightarrow> i \<le> length d \<Longrightarrow> lsEvents (drop i d) = lsEvents d"
proof (induction i arbitrary: d)
  case (Suc i)
  then obtain b bs where d: "d = b # bs" by (cases d) auto
  from Suc.prems(1) [of 0] have "lsEvents d = lsEvents bs" unfolding d by (intro lsEvents_skip) simp
  moreover have "lsEvents (drop i bs) = lsEvents bs"
  proof (rule Suc.IH)
    show "take (length protocolHeader) (drop j bs) \<noteq> protocolHeader" if "j < i" for j
      using Suc.prems(1) [of "Suc j"] that by (simp add: d)
  qed (use Suc.prems(2) d in simp)
  ultimately show ?case by (simp add: d)
qed simp

lemma searchHeader_None: "searchHeader b = None \<Longrightarrow> j \<le> length b \<Longrightarrow> take (length protocolHeader) (drop j b) \<noteq> protocolHeader"
  by (induction b arbitrary: j) (auto simp: length_protocolHeader protocolHeader_def drop_Cons split: if_splits nat.splits)

lemma searchHeader_before: "searchHeader b = Some i \<Longrightarrow> j < i \<Longrightarrow> take (length protocolHeader) (drop j b) \<noteq> protocolHeader"
  by (induction b arbitrary: i j) (auto simp: drop_Cons split: if_splits nat.splits)

lemma searchHeader_room: "searchHeader b = Some i \<Longrightarrow> i + 10 \<le> length b"
  using searchHeader_Some [of b i] by (auto simp: length_protocolHeader dest: arg_cong [where f = length])

text \<open>What the drain drops before a header, or keeps when there is none, hides no packet of any
  continuation.\<close>

lemma lsEvents_at_header:
  assumes "searchHeader b = Some i"
  shows "lsEvents (drop i b @ f) = lsEvents (b @ f)"
proof -
  note room = searchHeader_room [OF assms]
  have "lsEvents (drop i (b @ f)) = lsEvents (b @ f)"
  proof (rule lsEvents_skip_drop)
    show "take (length protocolHeader) (drop j (b @ f)) \<noteq> protocolHeader" if "j < i" for j
      using searchHeader_before [OF assms that] room that by (simp add: length_protocolHeader)
  qed (use room in simp)
  with room show ?thesis by simp
qed

lemma lsEvents_keep_tail:
  assumes "searchHeader b = None"
  shows "lsEvents (drop (length b - 9) b @ f) = lsEvents (b @ f)"
proof -
  have "lsEvents (drop (length b - 9) (b @ f)) = lsEvents (b @ f)"
  proof (rule lsEvents_skip_drop)
    show "take (length protocolHeader) (drop j (b @ f)) \<noteq> protocolHeader" if "j < length b - 9" for j
      using searchHeader_None [OF assms, of j] that by (simp add: length_protocolHeader)
  qed simp
  then show ?thesis by simp
qed

text \<open>One step of the scan on a buffer that starts with a header.\<close>

lemma be16_append: "12 \<le> length b \<Longrightarrow> readBe16 (drop 10 (b @ f)) = readBe16 (drop 10 b)"
  by (simp add: readBe16_def rd8_def nth_append)

lemma lsEvents_header:
  assumes "take (length protocolHeader) b = protocolHeader" "12 \<le> length b" "readBe16 (drop 10 b) = Some w"
  shows "unat w < minimumPacketSize \<Longrightarrow> lsEvents (b @ f) = Garbled # lsEvents (drop 1 b @ f)"
    and "minimumPacketSize \<le> unat w \<Longrightarrow> unat w \<le> length b \<Longrightarrow> parsePacket (Some (take (unat w) b)) = Some None \<Longrightarrow>
      lsEvents (b @ f) = Garbled # lsEvents (drop 1 b @ f)"
    and "minimumPacketSize \<le> unat w \<Longrightarrow> unat w \<le> length b \<Longrightarrow> parsePacket (Some (take (unat w) b)) = Some (Some p) \<Longrightarrow>
      lsEvents (b @ f) = Heard p # lsEvents (drop (unat w) b @ f)"
proof -
  obtain x xs where b: "b = x # xs" using assms(2) by (cases b) auto
  have h: "take (length protocolHeader) (b @ f) = protocolHeader" using assms(1,2) by (simp add: length_protocolHeader)
  have r: "readBe16 (drop 10 (b @ f)) = Some w" using be16_append [OF assms(2)] assms(3) by simp
  have d: "drop 1 b = xs" by (simp add: b)
  note step = lsEvents.simps(2) [of x "xs @ f", folded append_Cons, folded b, unfolded Let_def r option.sel]
  show "unat w < minimumPacketSize \<Longrightarrow> lsEvents (b @ f) = Garbled # lsEvents (drop 1 b @ f)"
    using step h assms(2) by (simp add: d del: One_nat_def drop_Suc)
  show "lsEvents (b @ f) = Garbled # lsEvents (drop 1 b @ f)"
    if "minimumPacketSize \<le> unat w" "unat w \<le> length b" "parsePacket (Some (take (unat w) b)) = Some None"
    using step h assms(2) that by (simp add: d del: One_nat_def)
  show "lsEvents (b @ f) = Heard p # lsEvents (drop (unat w) b @ f)"
    if "minimumPacketSize \<le> unat w" "unat w \<le> length b" "parsePacket (Some (take (unat w) b)) = Some (Some p)"
    using step h assms(2) that by (simp add: d del: One_nat_def)
qed

section \<open>Listening\<close>

text \<open>Nothing of what was received is lost, whatever follows.\<close>

definition exact :: "LsNet \<Rightarrow> bool" where
  "exact s = (\<forall>f. rev (lsn_incoming s) @ lsEvents (tcpReceiveBuffer s @ f) = lsEvents (lsn_received s @ f))"

text \<open>An operation that sends nothing.\<close>

definition listening :: "LsNet \<Rightarrow> LsNet \<Rightarrow> bool" where
  "listening s s' =
     (lsn_wire s' = lsn_wire s \<and> patternPointLimit s' = patternPointLimit s \<and> commandAckMode s' = commandAckMode s \<and>
      suffix_clock (lsn_clock s) (lsn_clock s') \<and> (\<exists>i. lsn_incoming s' = i @ lsn_incoming s) \<and> (exact s \<longrightarrow> exact s'))"

lemma listening_refl [simp]: "listening s s"
  by (simp add: listening_def)

lemma listening_trans [trans]: "listening a b \<Longrightarrow> listening b c \<Longrightarrow> listening a c"
  unfolding listening_def by (metis append.assoc suffix_clock_trans)

lemmas lsn_frame = lsn_now_def lsn_stream_def lsn_intermittentError_def lsn_connectionError_def lsn_connectionState_def
  lsn_latencySample_def lsn_baseRate_def lsn_linkLost_def lsn_tcpRead_def lsn_tcpWrite_def lsn_sleep_def Let_def

lemma listening_frame [simp]:
  "listening s (snd (lsn_now s))" "listening s (lsn_stream f s)" "listening s (lsn_intermittentError code s)"
  "listening s (lsn_connectionError code s)" "listening s (lsn_connectionState up s)" "listening s (lsn_latencySample d s)"
  "listening s (lsn_baseRate r s)" "listening s (lsn_linkLost code s)" "listening s (snd (lsn_tcpRead s))"
  "listening s (snd (lsn_tcpWrite s))" "listening s (lsn_sleep ms s)" "listening s (snd (hasTcpConnection s))"
  "listening s (snd (stillConnected s))" "listening s (snd (lsn_isRunning s))"
  by (simp_all add: listening_def exact_def lsn_frame hasTcpConnection_def stillConnected_def lsn_isRunning_def)

lemma listening_startupBlank: "lsn_startupBlank s = Some s' \<Longrightarrow> listening s s'"
  by (auto simp: lsn_startupBlank_def bind_eq_Some_conv)

text \<open>An acknowledgement of the command was heard in between.\<close>

definition acked_since :: "u8 \<Rightarrow> LsNet \<Rightarrow> LsNet \<Rightarrow> bool" where
  "acked_since cmd s s' =
     (\<exists>i p. lsn_incoming s' = i @ lsn_incoming s \<and> Heard p \<in> set i \<and> ackPayloadMatchesCommand p cmd = Some True)"

lemma acked_since_later: "acked_since cmd a b \<Longrightarrow> lsn_incoming c = i @ lsn_incoming b \<Longrightarrow> acked_since cmd a c"
  unfolding acked_since_def by (metis Un_iff append.assoc set_append)

lemma acked_since_before: "lsn_incoming b = i @ lsn_incoming a \<Longrightarrow> acked_since cmd b c \<Longrightarrow> acked_since cmd a c"
  unfolding acked_since_def by (metis Un_iff append.assoc set_append)

lemma handle_ok:
  assumes "handleParsedIncomingPacket p e s = Some (ok, matched, s')"
  shows "ok" "lsn_incoming s' = Heard p # lsn_incoming s" "tcpReceiveBuffer s' = tcpReceiveBuffer s"
    "lsn_received s' = lsn_received s" "lsn_wire s' = lsn_wire s" "patternPointLimit s' = patternPointLimit s"
    "commandAckMode s' = commandAckMode s" "suffix_clock (lsn_clock s) (lsn_clock s')"
    "matched \<Longrightarrow> ackPayloadMatchesCommand p e = Some True"
  using assms by (auto simp: handleParsedIncomingPacket_def lsn_now_def Let_def split: if_splits)

lemma readBe16_some: "2 \<le> length d \<Longrightarrow> \<exists>w. readBe16 d = Some w"
  by (cases d) (auto simp: readBe16_def rd8_def)

lemma handle_total: "\<exists>r. handleParsedIncomingPacket p e s = Some r"
proof -
  have "\<exists>b. ackPayloadMatchesCommand p e = Some b"
    using readBe16_some [of "payload p"] by (auto simp: ackPayloadMatchesCommand_def not_less)
  then show ?thesis by (auto simp: handleParsedIncomingPacket_def lsn_now_def Let_def)
qed

lemma garbled_fields:
  "lsn_incoming (lsn_garbled s) = Garbled # lsn_incoming s" "tcpReceiveBuffer (lsn_garbled s) = drop 1 (tcpReceiveBuffer s)"
  "lsn_received (lsn_garbled s) = lsn_received s" "lsn_wire (lsn_garbled s) = lsn_wire s"
  "patternPointLimit (lsn_garbled s) = patternPointLimit s" "commandAckMode (lsn_garbled s) = commandAckMode s"
  "suffix_clock (lsn_clock s) (lsn_clock (lsn_garbled s))"
  by (simp_all add: lsn_garbled_def lsn_frame)

text \<open>One turn is total, and takes from the buffer exactly what it reports.\<close>

lemma drainTurn_cases:
  obtains (kept) t where "drainTurn e s = Some (Inl (True, False, s\<lparr>tcpReceiveBuffer := t\<rparr>))"
      "\<And>f. lsEvents (t @ f) = lsEvents (tcpReceiveBuffer s @ f)"
  | (garbled) t where "drainTurn e s = Some (Inr (lsn_garbled (s\<lparr>tcpReceiveBuffer := t\<rparr>)))"
      "\<And>f. lsEvents (tcpReceiveBuffer s @ f) = Garbled # lsEvents (drop 1 t @ f)"
  | (heard) t n p matched s2 where "handleParsedIncomingPacket p e (s\<lparr>tcpReceiveBuffer := t\<rparr>) = Some (True, matched, s2)"
      "drainTurn e s = Some (if matched then Inl (True, True, s2\<lparr>tcpReceiveBuffer := drop n t\<rparr>) else Inr (s2\<lparr>tcpReceiveBuffer := drop n t\<rparr>))"
      "\<And>f. lsEvents (tcpReceiveBuffer s @ f) = Heard p # lsEvents (drop n t @ f)"
proof (cases "searchHeader (tcpReceiveBuffer s)")
  case None
  let ?b = "tcpReceiveBuffer s"
  have "drainTurn e s = Some (Inl (True, False, s\<lparr>tcpReceiveBuffer := if 10 < length ?b then drop (length ?b - 9) ?b else ?b\<rparr>))"
    by (simp add: drainTurn_def None length_protocolHeader Let_def)
  then show thesis using kept lsEvents_keep_tail [OF None] by (auto split: if_splits)
next
  case (Some i)
  define t where "t = drop i (tcpReceiveBuffer s)"
  note at = lsEvents_at_header [OF Some, folded t_def]
  have h: "take (length protocolHeader) t = protocolHeader" using searchHeader_Some [OF Some] by (simp add: t_def)
  show thesis
  proof (cases "length t < 12")
    case True
    then show thesis using kept [of t] at by (simp add: drainTurn_def Some Let_def t_def)
  next
    case False
    then have len: "12 \<le> length t" by simp
    then have "2 \<le> length (drop 10 t)" by simp
    then obtain w where w: "readBe16 (drop 10 t) = Some w" using readBe16_some by blast
    note step = lsEvents_header [OF h len w]
    have turn: "drainTurn e s =
        (if unat w < minimumPacketSize then Some (Inr (lsn_garbled (s\<lparr>tcpReceiveBuffer := t\<rparr>)))
         else if length t < unat w then Some (Inl (True, False, s\<lparr>tcpReceiveBuffer := t\<rparr>))
         else case the (parsePacket (Some (take (unat w) t))) of
             None \<Rightarrow> Some (Inr (lsn_garbled (s\<lparr>tcpReceiveBuffer := t\<rparr>)))
           | Some packet \<Rightarrow> do {
               (handled, matched, s2) \<leftarrow> handleParsedIncomingPacket packet e (s\<lparr>tcpReceiveBuffer := t\<rparr>);
               let s3 = s2\<lparr>tcpReceiveBuffer := drop (unat w) (tcpReceiveBuffer s2)\<rparr>;
               Some (if \<not> handled then Inl (False, False, s3) else if matched then Inl (True, True, s3) else Inr s3) })"
      using len parse_total [of "Some (take (unat w) t)"]
      by (auto simp: drainTurn_def Some Let_def t_def [symmetric] w split: option.split cong: if_cong)
    consider "unat w < minimumPacketSize" | "minimumPacketSize \<le> unat w" "length t < unat w"
      | "minimumPacketSize \<le> unat w" "unat w \<le> length t" by linarith
    then show thesis
    proof cases
      case 1
      then show thesis using garbled [of t] turn step(1) at by simp
    next
      case 2
      then show thesis using kept [of t] turn at by simp
    next
      case 3
      obtain r where r: "parsePacket (Some (take (unat w) t)) = Some r" using parse_total by blast
      show thesis
      proof (cases r)
        case None
        then show thesis using garbled [of t] turn step(2) [OF 3] at 3 r by simp
      next
        case (Some p)
        obtain ok matched s2 where H: "handleParsedIncomingPacket p e (s\<lparr>tcpReceiveBuffer := t\<rparr>) = Some (ok, matched, s2)"
          using handle_total by (metis prod_cases3)
        then show thesis
          using heard [of p t matched s2 "unat w"] turn step(3) [OF 3] at 3 r Some handle_ok(1,3) [OF H] by simp
      qed
    qed
  qed
qed

text \<open>The drain always returns, keeps the account, and stops early only for the acknowledgement.\<close>

lemma drain_ok:
  "\<exists>matched s'. drainTcpPacketBuffer e s = Some (True, matched, s') \<and> listening s s' \<and> (matched \<longrightarrow> acked_since e s s')"
proof (induction e s rule: drainTcpPacketBuffer.induct)
  case (1 e s)
  show ?case
  proof (cases rule: drainTurn_cases [of e s])
    case (kept t)
    then have "listening s (s\<lparr>tcpReceiveBuffer := t\<rparr>)" by (simp add: listening_def exact_def)
    then show ?thesis using kept(1) by (simp add: ex_bool_eq)
  next
    case (garbled t)
    let ?s = "lsn_garbled (s\<lparr>tcpReceiveBuffer := t\<rparr>)"
    have "suffix_clock (lsn_clock s) (lsn_clock ?s)" using garbled_fields(7) [of "s\<lparr>tcpReceiveBuffer := t\<rparr>"] by simp
    then have l: "listening s ?s" using garbled(2) by (simp add: listening_def exact_def garbled_fields)
    have i: "lsn_incoming ?s = [Garbled] @ lsn_incoming s" by (simp add: garbled_fields)
    from "1.IH" [OF garbled(1) refl] obtain matched s' where
      "drainTcpPacketBuffer e ?s = Some (True, matched, s')" "listening ?s s'" "matched \<longrightarrow> acked_since e ?s s'" by blast
    then show ?thesis using l garbled(1) listening_trans acked_since_before [OF i] by (auto simp: drainTcpPacketBuffer.simps [of e s])
  next
    case (heard t n p matched s2)
    let ?s = "s2\<lparr>tcpReceiveBuffer := drop n t\<rparr>"
    note H = handle_ok [OF heard(1)]
    have l: "listening s ?s" using H heard(3) by (simp add: listening_def exact_def)
    have i: "lsn_incoming ?s = [Heard p] @ lsn_incoming s" using H(2) by simp
    show ?thesis
    proof (cases matched)
      case True
      then have "acked_since e s ?s" using H(9) i by (auto simp: acked_since_def)
      then show ?thesis using heard(2) True l by (simp add: drainTcpPacketBuffer.simps [of e s] ex_bool_eq)
    next
      case False
      then have turn: "drainTurn e s = Some (Inr ?s)" using heard(2) by simp
      from "1.IH" [OF turn refl] obtain m s' where
        "drainTcpPacketBuffer e ?s = Some (True, m, s')" "listening ?s s'" "m \<longrightarrow> acked_since e ?s s'" by blast
      then show ?thesis using l turn listening_trans acked_since_before [OF i] by (auto simp: drainTcpPacketBuffer.simps [of e s])
    qed
  qed
qed

lemma listening_received:
  assumes "listening s s'"
  shows "listening s (s'\<lparr>tcpReceiveBuffer := tcpReceiveBuffer s' @ d, lsn_received := lsn_received s' @ d\<rparr>)"
  using assms by (simp add: listening_def exact_def)

lemma acked_since_listening: "listening a b \<Longrightarrow> acked_since e b c \<Longrightarrow> acked_since e a c"
  using acked_since_before by (auto simp: listening_def)

lemma readLoop_ok:
  "\<exists>ok matched s'. readLoop n e s = Some (ok, matched, s') \<and> listening s s' \<and> (matched \<longrightarrow> acked_since e s s')"
proof (induction n arbitrary: s)
  case (Suc n)
  obtain r s1 where r: "lsn_tcpRead s = (r, s1)" by fastforce
  then have l1: "listening s s1" using listening_frame(9) [of s] by simp
  show ?case
  proof (cases r)
    case (Received data)
    let ?s = "s1\<lparr>tcpReceiveBuffer := tcpReceiveBuffer s1 @ take 8192 data, lsn_received := lsn_received s1 @ take 8192 data\<rparr>"
    obtain m s2 where d: "drainTcpPacketBuffer e ?s = Some (True, m, s2)" "listening ?s s2" "m \<longrightarrow> acked_since e ?s s2"
      using drain_ok by blast
    have l2: "listening s ?s" by (rule listening_received [OF l1])
    then have l3: "listening s s2" using d(2) by (rule listening_trans)
    obtain ok m' s' where rest: "readLoop n e s2 = Some (ok, m', s')" "listening s2 s'" "m' \<longrightarrow> acked_since e s2 s'"
      using Suc by blast
    show ?thesis
      using r Received l1 d l3 rest listening_trans [OF l3 rest(2)] acked_since_listening [OF l2] acked_since_listening [OF l3]
      by (cases m) auto
  next
    case AvailableFailed
    then show ?thesis using r l1 listening_trans [OF l1 listening_frame(8)] by (simp add: ex_bool_eq)
  next
    case ReadFailed
    then show ?thesis using r l1 listening_trans [OF l1 listening_frame(8)] by (simp add: ex_bool_eq)
  qed (use r l1 in \<open>simp add: ex_bool_eq\<close>)
qed (simp add: ex_bool_eq)

lemma poll_ok:
  "\<exists>ok matched s'. pollTcpIncomingPackets e s = Some (ok, matched, s') \<and> listening s s' \<and> (matched \<longrightarrow> acked_since e s s')"
proof -
  obtain up s1 where h: "hasTcpConnection s = (up, s1)" by fastforce
  then have l1: "listening s s1" using listening_frame(12) [of s] by simp
  obtain m s2 where d: "drainTcpPacketBuffer e s1 = Some (True, m, s2)" "listening s1 s2" "m \<longrightarrow> acked_since e s1 s2"
    using drain_ok by blast
  have l2: "listening s s2" using l1 d(2) by (rule listening_trans)
  obtain ok m' s' where rest: "readLoop maxReadsPerPoll e s2 = Some (ok, m', s')" "listening s2 s'" "m' \<longrightarrow> acked_since e s2 s'"
    using readLoop_ok by blast
  show ?thesis
    using h l1 d l2 rest listening_trans [OF l2 rest(2)] acked_since_listening [OF l1] acked_since_listening [OF l2]
    by (cases up; cases m) (auto simp: pollTcpIncomingPackets_def)
qed

section \<open>Waiting for an acknowledgement\<close>

lemma wait_ok: "waitForCommandAck cmd d s = Some r \<Longrightarrow> listening s (snd r) \<and> (fst r \<longrightarrow> acked_since cmd s (snd r))"
proof (induction rule: waitForCommandAck.raw_induct [rotated, consumes 1, case_names body])
  case (body loop cmd d s r)
  obtain t s1 where t: "lsn_now s = (t, s1)" by fastforce
  then have l1: "listening s s1" using listening_frame(1) [of s] by simp
  obtain ok1 m s2 where p: "pollTcpIncomingPackets cmd s1 = Some (ok1, m, s2)" "listening s1 s2" "m \<longrightarrow> acked_since cmd s1 s2"
    using poll_ok by blast
  have l2: "listening s s2" using l1 p(2) by (rule listening_trans)
  have a: "m \<Longrightarrow> acked_since cmd s s2" using p(3) acked_since_listening [OF l1] by simp
  show ?case
  proof (cases "t < d \<and> ok1 \<and> \<not> m")
    case True
    obtain ok s' where r: "r = (ok, s')" by fastforce
    have "loop cmd d (lsn_sleep 2 s2) = Some (ok, s')" using body(2) t p(1) True r by simp
    from body(1) [OF this] have "listening (lsn_sleep 2 s2) s'" "ok \<longrightarrow> acked_since cmd (lsn_sleep 2 s2) s'" by auto
    moreover have l3: "listening s (lsn_sleep 2 s2)" using l2 listening_frame(11) by (rule listening_trans)
    ultimately show ?thesis using r listening_trans [OF l3] acked_since_listening [OF l3] by auto
  next
    case False
    with body(2) t p(1) l1 l2 a show ?thesis by (auto split: if_splits)
  qed
qed

text \<open>A clock that never goes back and passes the deadline ends the wait.\<close>

lemma wait_returns: "mono (lsn_clock s) \<Longrightarrow> d \<le> lsn_clock s n \<Longrightarrow> \<exists>ok s'. waitForCommandAck cmd d s = Some (ok, s')"
proof (induction n arbitrary: s rule: less_induct)
  case (less n)
  have t: "lsn_now s = (lsn_clock s 0, snd (lsn_now s))" by (simp add: lsn_now_def now_def)
  let ?s1 = "snd (lsn_now s)"
  obtain ok m s2 where p: "pollTcpIncomingPackets cmd ?s1 = Some (ok, m, s2)" "listening ?s1 s2" using poll_ok by blast
  show ?case
  proof (cases "lsn_clock s 0 < d \<and> ok \<and> \<not> m")
    case True
    from p(2) have "suffix_clock (lsn_clock ?s1) (lsn_clock s2)" by (simp add: listening_def)
    then obtain k where k: "\<And>i. lsn_clock s2 i = lsn_clock s (Suc (i + k))"
      by (auto simp: suffix_clock_def lsn_now_def later_def)
    have "n \<noteq> 0" using True less.prems(2) by (cases n) auto
    have mono: "mono (lsn_clock (lsn_sleep 2 s2))"
      using less.prems(1) by (auto simp: lsn_sleep_def k mono_def)
    have "lsn_clock s n \<le> lsn_clock s (Suc (n - Suc k + k))" by (rule monoD [OF less.prems(1)]) simp
    then have "d \<le> lsn_clock (lsn_sleep 2 s2) (n - Suc k)" using less.prems(2) by (simp add: lsn_sleep_def k)
    moreover have "n - Suc k < n" using \<open>n \<noteq> 0\<close> by simp
    ultimately obtain ok' s' where "waitForCommandAck cmd d (lsn_sleep 2 s2) = Some (ok', s')" using less.IH mono by blast
    with True p(1) t show ?thesis by (subst waitForCommandAck.simps) (auto split: prod.splits)
  next
    case False
    with p(1) t show ?thesis by (subst waitForCommandAck.simps) (auto split: prod.splits)
  qed
qed

end
