(* ===== verification/Light_Space_Runs.thy ===== *)
theory Light_Space_Runs
  imports Light_Space_Receive
begin

text \<open>
  The control commands of the LightSpace controller, the packets it sends, and the invariant of its
  runs: the account of what was received is exact, every packet is legal, and the pattern limit is
  between 1 and 700 points.
\<close>

section \<open>Sending\<close>

text \<open>At most \<open>n\<close> copies of one packet are sent.\<close>

definition sends :: "nat \<Rightarrow> bytes \<Rightarrow> LsNet \<Rightarrow> LsNet \<Rightarrow> bool" where
  "sends n packet s s' = (\<exists>k\<le>n. listening (s\<lparr>lsn_wire := replicate k (LsSent packet) @ lsn_wire s\<rparr>) s')"

lemma listening_wire: "listening s s' \<Longrightarrow> listening (s\<lparr>lsn_wire := w\<rparr>) (s'\<lparr>lsn_wire := w\<rparr>)"
  by (simp add: listening_def exact_def)

lemma listening_wire_grown:
  assumes "listening s s'"
  shows "listening (s\<lparr>lsn_wire := w @ lsn_wire s\<rparr>) (s'\<lparr>lsn_wire := w @ lsn_wire s'\<rparr>)"
proof -
  have "lsn_wire s' = lsn_wire s" using assms by (simp add: listening_def)
  then show ?thesis using listening_wire [OF assms] by simp
qed

lemma sends_listening: "listening s s' \<Longrightarrow> sends n packet s s'"
  unfolding sends_def by (rule exI [of _ 0]) simp

lemma sends_refl [simp]: "sends n packet s s"
  by (rule sends_listening) simp

lemma sends_trans:
  assumes "sends n p a b" "sends m p b c"
  shows "sends (n + m) p a c"
proof -
  from assms obtain k l where k: "k \<le> n" "listening (a\<lparr>lsn_wire := replicate k (LsSent p) @ lsn_wire a\<rparr>) b"
    and l: "l \<le> m" "listening (b\<lparr>lsn_wire := replicate l (LsSent p) @ lsn_wire b\<rparr>) c" by (auto simp: sends_def)
  from listening_wire_grown [OF k(2), of "replicate l (LsSent p)"]
  have "listening (a\<lparr>lsn_wire := replicate (l + k) (LsSent p) @ lsn_wire a\<rparr>) (b\<lparr>lsn_wire := replicate l (LsSent p) @ lsn_wire b\<rparr>)"
    by (simp add: replicate_add)
  from listening_trans [OF this l(2)] k(1) l(1) show ?thesis
    unfolding sends_def by (intro exI [of _ "l + k"]) simp
qed

lemma sends_mono: "sends n p a b \<Longrightarrow> n \<le> m \<Longrightarrow> sends m p a b"
  by (auto simp: sends_def intro: order_trans)

lemma sends_then_listening: "sends n p a b \<Longrightarrow> listening b c \<Longrightarrow> sends n p a c"
  using sends_trans [of n p a b 0 c] sends_listening [of b c 0 p] by simp

lemma listening_then_sends: "listening a b \<Longrightarrow> sends n p b c \<Longrightarrow> sends n p a c"
  using sends_trans [of 0 p a b n c] sends_listening [of a b 0 p] by simp

lemma sendPacket_sends: "sendPacket packet s = (ok, s') \<Longrightarrow> sends 1 packet s s'"
proof -
  assume r: "sendPacket packet s = (ok, s')"
  obtain up s1 where h: "hasTcpConnection s = (up, s1)" by fastforce
  then have l1: "listening s s1" using listening_frame(12) [of s] by simp
  show ?thesis
  proof (cases "\<not> up \<or> packet = []")
    case True
    with r h have "s' = (lsn_connectionError net_sendFailed s1)\<lparr>lsn_networkConnected := False, lsn_reconnectRequested := True\<rparr>"
      by (auto simp: sendPacket_def)
    moreover have "listening s1 \<dots>" by (simp add: listening_def exact_def lsn_frame)
    ultimately show ?thesis using sends_listening listening_trans l1 by metis
  next
    case False
    let ?w = "\<lambda>t. t\<lparr>lsn_wire := replicate 1 (LsSent packet) @ lsn_wire t\<rparr>"
    obtain b s2 where w: "lsn_tcpWrite (?w s1) = (b, s2)" by fastforce
    then have "listening (?w s1) s2" using listening_frame(10) [of "?w s1"] by simp
    moreover have "s' = s2 \<or> s' = lsn_linkLost net_sendFailed s2" using r h False w by (cases b) (auto simp: sendPacket_def)
    ultimately have "listening (?w s1) s'" using listening_trans listening_frame(8) by blast
    with listening_wire_grown [OF l1, of "replicate 1 (LsSent packet)"] have "listening (?w s) s'" by (rule listening_trans)
    then show ?thesis unfolding sends_def by blast
  qed
qed

text \<open>What \<open>sends\<close> keeps.\<close>

lemma sends_incoming: "sends n p a b \<Longrightarrow> \<exists>i. lsn_incoming b = i @ lsn_incoming a"
  by (auto simp: sends_def listening_def)

lemma sends_mode: "sends n p a b \<Longrightarrow> commandAckMode b = commandAckMode a"
  by (auto simp: sends_def listening_def)

lemma sends_wire: "sends n p a b \<Longrightarrow> \<exists>k\<le>n. lsn_wire b = replicate k (LsSent p) @ lsn_wire a"
  by (auto simp: sends_def listening_def)

lemma sends_clock: "sends n p a b \<Longrightarrow> suffix_clock (lsn_clock a) (lsn_clock b)"
  by (auto simp: sends_def listening_def)

lemma acked_since_sends: "sends n p a b \<Longrightarrow> acked_since cmd b c \<Longrightarrow> acked_since cmd a c"
  using sends_incoming acked_since_before by blast

section \<open>Control commands\<close>

lemma sendAttempts_sends:
  "sendAttempts n cmd packet recordTimeout s = Some (ok, s') \<Longrightarrow> sends n packet s s' \<and> (ok \<longrightarrow> acked_since cmd s s')"
proof (induction n arbitrary: s)
  case 0
  then show ?case by (auto intro: sends_listening)
next
  case (Suc n)
  obtain b s1 where 1: "sendPacket packet s = (b, s1)" by fastforce
  note q1 = sendPacket_sends [OF 1]
  have up: "sends 1 packet s t \<Longrightarrow> sends (Suc n) packet s t" for t by (erule sends_mono) simp
  show ?case
  proof (cases b)
    case False
    with Suc.prems 1 q1 up show ?thesis by simp
  next
    case True
    obtain t s2 where 2: "lsn_now s1 = (t, s2)" by fastforce
    then have l2: "listening s1 s2" using listening_frame(1) [of s1] by simp
    from Suc.prems 1 2 True obtain w s3 where 3: "waitForCommandAck cmd (t + COMMAND_ACK_TIMEOUT) s2 = Some (w, s3)"
      and rest: "if w then ok \<and> s' = s3 else sendAttempts n cmd packet recordTimeout s3 = Some (ok, s')"
      by (auto split: option.splits bool.splits)
    from wait_ok [OF 3] have l3: "listening s2 s3" "w \<longrightarrow> acked_since cmd s2 s3" by auto
    have q3: "sends 1 packet s s3" by (rule sends_then_listening [OF q1 listening_trans [OF l2 l3(1)]])
    show ?thesis
    proof (cases w)
      case True
      have "acked_since cmd s s3"
        using l3(2) True acked_since_listening [OF l2] acked_since_sends [OF q1] by blast
      with rest True q3 up show ?thesis by simp
    next
      case False
      with rest Suc.IH [of s3] have "sends n packet s3 s'" "ok \<longrightarrow> acked_since cmd s3 s'" by auto
      with sends_trans [OF q3, of n s'] acked_since_sends [OF q3] show ?thesis by simp
    qed
  qed
qed

lemma sendAttempts_returns:
  assumes "mono (lsn_clock s)" "\<And>d. \<exists>n. d \<le> lsn_clock s n"
  shows "\<exists>ok s'. sendAttempts n cmd packet recordTimeout s = Some (ok, s')"
  using assms
proof (induction n arbitrary: s)
  case (Suc n)
  obtain b s1 where 1: "sendPacket packet s = (b, s1)" by fastforce
  obtain t s2 where 2: "lsn_now s1 = (t, s2)" by fastforce
  then have l2: "listening s1 s2" using listening_frame(1) [of s1] by simp
  have c2: "suffix_clock (lsn_clock s) (lsn_clock s2)"
    using sends_clock [OF sends_then_listening [OF sendPacket_sends [OF 1] l2]] .
  have going: "mono c \<and> (\<forall>d. \<exists>n. d \<le> c n)" if "suffix_clock (lsn_clock s) c" for c
  proof -
    from that obtain k where k: "\<And>i. c i = lsn_clock s (i + k)" by (auto simp: suffix_clock_def)
    have "mono c" using Suc.prems(1) by (auto simp: k mono_def)
    moreover have "\<exists>n. d \<le> c n" for d
    proof -
      obtain n where "d \<le> lsn_clock s n" using Suc.prems(2) by blast
      also have "\<dots> \<le> c n" unfolding k by (rule monoD [OF Suc.prems(1)]) simp
      finally show ?thesis by blast
    qed
    ultimately show ?thesis by blast
  qed
  from going [OF c2] obtain m where "t + COMMAND_ACK_TIMEOUT \<le> lsn_clock s2 m" by blast
  with wait_returns going [OF c2] obtain w s3 where 3: "waitForCommandAck cmd (t + COMMAND_ACK_TIMEOUT) s2 = Some (w, s3)" by blast
  from wait_ok [OF 3] have "suffix_clock (lsn_clock s2) (lsn_clock s3)" by (simp add: listening_def)
  from going [OF suffix_clock_trans [OF c2 this]] Suc.IH [of s3] 1 2 3 show ?case
    by (cases b; cases w) auto
qed (simp add: ex_bool_eq)

lemma stillConnected_fields:
  "stillConnected s = (up, s') \<Longrightarrow> listening s s' \<and> lsn_wire s' = lsn_wire s \<and> lsn_incoming s' = lsn_incoming s \<and> commandAckMode s' = commandAckMode s"
  using listening_frame(13) [of s] by (auto simp: stillConnected_def hasTcpConnection_def split: if_splits)

lemma sendControlCommand_cases:
  assumes "sendControlCommand cmd packet s = Some (r, s')"
  obtains (silent) "commandAckMode s = Silent" "sends 1 packet s s'" "r = SentWithoutAck \<or> r = CommandFailed"
  | (failed) "commandAckMode s \<noteq> Silent" "sends 3 packet s s'" "r = CommandFailed"
  | (acknowledged) s1 where "commandAckMode s \<noteq> Silent" "sends 3 packet s s1" "r = Acknowledged" "acked_since cmd s s1"
      "s' = s1\<lparr>commandAckMode := Supported\<rparr>"
  | (unanswered) s1 where "commandAckMode s \<noteq> Silent" "sends 3 packet s s1" "r = SentWithoutAck" "s' = s1\<lparr>commandAckMode := Silent\<rparr>"
proof (cases "commandAckMode s = Silent")
  case True
  with assms obtain ok where "sendPacket packet s = (ok, s')" "r = (if ok then SentWithoutAck else CommandFailed)"
    by (auto simp: sendControlCommand_def split: prod.splits)
  with True silent sendPacket_sends show thesis by (metis (full_types))
next
  case False
  with assms obtain w s1 where 1: "sendAttempts 3 cmd packet (commandAckMode s = Supported) s = Some (w, s1)"
    and rest: "(if w then Some (Acknowledged, s1\<lparr>commandAckMode := Supported\<rparr>)
         else (case stillConnected s1 of
                 (False, s2) \<Rightarrow> Some (CommandFailed, s2)
               | (True, s2) \<Rightarrow> Some (SentWithoutAck, s2\<lparr>commandAckMode := Silent\<rparr>))) = Some (r, s')"
    by (auto simp: sendControlCommand_def sendReliableCommand_def COMMAND_ACK_ATTEMPTS_def bind_eq_Some_conv cong: if_cong)
  from sendAttempts_sends [OF 1] have q: "sends 3 packet s s1" "w \<longrightarrow> acked_since cmd s s1" by auto
  show thesis
  proof (cases w)
    case True
    with rest q acknowledged [OF False q(1)] show thesis by auto
  next
    case w: False
    obtain up s2 where 2: "stillConnected s1 = (up, s2)" by fastforce
    then have q2: "sends 3 packet s s2" using stillConnected_fields sends_then_listening [OF q(1)] by blast
    with rest w 2 failed [OF False] unanswered [OF False q2] show thesis by (cases up) auto
  qed
qed

lemma sendControlCommand_returns:
  assumes "mono (lsn_clock s)" "\<And>d. \<exists>n. d \<le> lsn_clock s n"
  shows "\<exists>r s'. sendControlCommand cmd packet s = Some (r, s')"
proof -
  obtain ok s1 where "sendAttempts 3 cmd packet (commandAckMode s = Supported) s = Some (ok, s1)"
    using sendAttempts_returns [OF assms] by blast
  then show ?thesis
    by (simp add: sendControlCommand_def sendReliableCommand_def COMMAND_ACK_ATTEMPTS_def split: prod.split bool.split cong: if_cong)
qed

section \<open>A session\<close>

definition session :: "(bytes \<Rightarrow> bool) \<Rightarrow> LsNet \<Rightarrow> LsNet \<Rightarrow> bool" where
  "session P s s' =
     ((\<exists>w. lsn_wire s' = w @ lsn_wire s \<and> (\<forall>e\<in>set w. \<exists>b. e = LsSent b \<and> P b)) \<and>
      patternPointLimit s' = patternPointLimit s \<and> (exact s \<longrightarrow> exact s'))"

lemma session_refl [simp]: "session P s s"
  by (simp add: session_def)

lemma session_trans [trans]: "session P a b \<Longrightarrow> session P b c \<Longrightarrow> session P a c"
proof -
  assume "session P a b" "session P b c"
  then obtain v w where "lsn_wire b = v @ lsn_wire a" "\<forall>e\<in>set v. \<exists>b. e = LsSent b \<and> P b"
    "lsn_wire c = w @ lsn_wire b" "\<forall>e\<in>set w. \<exists>b. e = LsSent b \<and> P b"
    and rest: "patternPointLimit c = patternPointLimit a" "exact a \<longrightarrow> exact c" by (auto simp: session_def)
  then have "lsn_wire c = (w @ v) @ lsn_wire a" "\<forall>e\<in>set (w @ v). \<exists>b. e = LsSent b \<and> P b" by auto
  with rest show "session P a c" unfolding session_def by blast
qed

lemma session_sends: "sends n p a b \<Longrightarrow> P p \<Longrightarrow> session P a b"
  by (auto simp: sends_def listening_def session_def exact_def)

lemma session_listening: "listening a b \<Longrightarrow> session P a b"
  by (simp add: listening_def session_def)

lemma session_same:
  "lsn_wire b = lsn_wire a \<Longrightarrow> patternPointLimit b = patternPointLimit a \<Longrightarrow> lsn_incoming b = lsn_incoming a \<Longrightarrow>
   tcpReceiveBuffer b = tcpReceiveBuffer a \<Longrightarrow> lsn_received b = lsn_received a \<Longrightarrow> session P a b"
  by (simp add: session_def exact_def)

lemma session_command:
  assumes "sendControlCommand cmd packet s = Some (r, s')" "P packet"
  shows "session P s s'"
  using assms(1)
proof (cases rule: sendControlCommand_cases)
  case (acknowledged s1)
  then have "session P s1 s'" by (simp add: session_same)
  with session_sends [where P = P, OF acknowledged(2)] assms(2) show ?thesis by (blast intro: session_trans)
next
  case (unanswered s1)
  then have "session P s1 s'" by (simp add: session_same)
  with session_sends [where P = P, OF unanswered(2)] assms(2) show ?thesis by (blast intro: session_trans)
qed (use assms(2) session_sends [where P = P] in blast)+

section \<open>Legal packets\<close>

text \<open>What the parser of the device must accept: a heartbeat, a laser switch, a scan frequency of 1 to 30
  kHz, or a pattern of 1 to 700 points that announces them and fits the transport.\<close>

definition legal_pattern :: "LightSpaceNetPacket \<Rightarrow> bool" where
  "legal_pattern p =
     (packetType p = PACKET_TYPE_BASIC \<and> commandWord p = CMD_POINT_STREAM \<and>
      (\<exists>n\<in>{1..MAX_SOURCE_FRAME_POINTS}. length (payload p) = 2 + 7 * n \<and> readBe16 (payload p) = Some (of_nat n)))"

definition legal_content :: "LightSpaceNetPacket \<Rightarrow> bool" where
  "legal_content p =
     (packetType p = PACKET_TYPE_BASIC \<and> commandWord p = CMD_HEARTBEAT_QUERY \<and> length (payload p) = 8 \<or>
      packetType p = PACKET_TYPE_COMMAND \<and> commandWord p = CMD_LASER_ON_OFF \<and> payload p \<in> {[1], [2]} \<or>
      packetType p = PACKET_TYPE_COMMAND \<and> commandWord p = CMD_SET_SCAN_FREQUENCY \<and> (\<exists>k\<in>{1..30}. payload p = [of_nat k]) \<or>
      legal_pattern p)"

definition legal_bytes :: "bytes \<Rightarrow> bool" where
  "legal_bytes b = (length b \<le> MAX_CURRENT_PATTERN_PACKET_BYTES \<and> (\<exists>p. parsePacket (Some b) = Some (Some p) \<and> legal_content p))"

lemma legal_build:
  assumes "20 + length p \<le> MAX_CURRENT_PATTERN_PACKET_BYTES"
    "legal_content \<lparr>version = PROTOCOL_VERSION, packetType = t, commandWord = c, payload = p\<rparr>"
  shows "legal_bytes (buildPacket t c p)"
proof -
  have le: "20 + length p \<le> 0xFFFF" using assms(1) by (simp add: MAX_CURRENT_PATTERN_PACKET_BYTES_def)
  then show ?thesis using parse_build [OF le] length_buildPacket [OF le] assms by (auto simp: legal_bytes_def)
qed

lemma legal_heartbeat: "legal_bytes (buildHeartbeatQueryPacket t)"
  unfolding buildHeartbeatQueryPacket_def
  by (rule legal_build) (simp_all add: legal_content_def appendBe64_def appendBe32_def length_wire MAX_CURRENT_PATTERN_PACKET_BYTES_def)

lemma legal_switch: "legal_bytes (buildLaserSwitchPacket on)"
  unfolding buildLaserSwitchPacket_def
  by (rule legal_build) (simp_all add: legal_content_def MAX_CURRENT_PATTERN_PACKET_BYTES_def)

lemma scanFrequency_range: "scanFrequencyKilohertz rate = Some k \<Longrightarrow> \<exists>n\<in>{1..30}. k = of_nat n"
proof -
  assume "scanFrequencyKilohertz rate = Some k"
  then obtain r where k: "k = word_of_int (clamp_int r 1 30)" by (auto simp: scanFrequencyKilohertz_def Let_def bind_eq_Some_conv)
  have "1 \<le> clamp_int r 1 30 \<and> clamp_int r 1 30 \<le> 30" by (simp add: clamp_int_def)
  then show ?thesis using k by (intro bexI [of _ "nat (clamp_int r 1 30)"]) auto
qed

lemma legal_scan: "buildScanFrequencyPacket rate = Some b \<Longrightarrow> legal_bytes b"
  using scanFrequency_range [of rate]
  by (auto simp: buildScanFrequencyPacket_def bind_eq_Some_conv legal_content_def MAX_CURRENT_PATTERN_PACKET_BYTES_def intro!: legal_build)

lemma legal_points:
  assumes "buildPointStreamPacket points opts = Some b" "1 \<le> length points" "length points \<le> MAX_SOURCE_FRAME_POINTS"
  shows "legal_bytes b" "b \<noteq> []" "length b = 22 + 7 * length points"
proof -
  have "length points \<le> 9359" using assms(3) by (simp add: MAX_SOURCE_FRAME_POINTS_def)
  with point_stream_packet [of points opts] assms(1) obtain q where q: "length b = 22 + 7 * length points"
    "parsePacket (Some b) = Some (Some q)" "packetType q = PACKET_TYPE_BASIC" "commandWord q = CMD_POINT_STREAM"
    "length (payload q) = 2 + 7 * length points" "readBe16 (payload q) = Some (of_nat (length points))" by auto
  then have "legal_content q" using assms(2,3) unfolding legal_content_def legal_pattern_def by force
  then show "legal_bytes b" "length b = 22 + 7 * length points"
    using q(1,2) assms(3) by (auto simp: legal_bytes_def MAX_SOURCE_FRAME_POINTS_def MAX_CURRENT_PATTERN_PACKET_BYTES_def)
  then show "b \<noteq> []" by auto
qed

text \<open>A pattern has at least one point and at most the limit.\<close>

lemma length_pad: "points \<noteq> [] \<Longrightarrow> 1 \<le> limit \<Longrightarrow> length (padBlankPatternToPointLimit points limit) = length points \<or>
    length (padBlankPatternToPointLimit points limit) = limit"
  by (simp add: padBlankPatternToPointLimit_def makeBlankPatternAtPoint_def)

lemma length_fit:
  assumes "fitCurrentPatternToPointLimit points m = Some out" "m < length points" "1 \<le> m"
  shows "length out = m"
proof (cases "m = 1")
  case True
  with assms show ?thesis by (auto simp: fitCurrentPatternToPointLimit_def split: if_splits)
next
  case False
  with assms obtain k t where k: "blankTravelPointCount (points ! (m - 2)) (last points) = Some k"
    and t: "settleBlankTail 8 points m (min k (m - 1)) = Some t"
    and out: "out = appendBlankTravelPoints (take (m - t) points) (last (take (m - t) points)) (last points) t"
    by (auto simp: fitCurrentPatternToPointLimit_def Let_def bind_eq_Some_conv split: if_splits)
  from k blankTravelPointCount_total [of "points ! (m - 2)" "last points"] have "2 \<le> k" "k \<le> 128" by auto
  with settleBlankTail_bounds [of "min k (m - 1)" m 8 points] t False assms(3) have "t \<le> m - 1" by auto
  with out assms(2,3) show ?thesis by (simp add: appendBlankTravelPoints_def)
qed

lemma length_patternOf:
  assumes "patternOf framePoints limit = Some points" "framePoints \<noteq> []" "1 \<le> limit"
  shows "1 \<le> length points" "length points \<le> limit"
proof -
  let ?p = "padBlankPatternToPointLimit framePoints limit"
  have p: "1 \<le> length ?p" using length_pad [OF assms(2,3)] assms(2,3) by (cases framePoints) auto
  have "1 \<le> length points \<and> length points \<le> limit"
  proof (cases "limit < length ?p")
    case True
    with assms(1) obtain f where f: "fitCurrentPatternToPointLimit ?p limit = Some f" "points = padBlankPatternToPointLimit f limit"
      by (auto simp: patternOf_def Let_def)
    have "length f = limit" by (rule length_fit [OF f(1) True assms(3)])
    moreover from this have "f \<noteq> []" using assms(3) by auto
    ultimately show ?thesis using f(2) length_pad [of f limit] assms(3) by auto
  next
    case False
    with assms(1) p show ?thesis by (simp add: patternOf_def Let_def)
  qed
  then show "1 \<le> length points" "length points \<le> limit" by auto
qed

section \<open>Every operation of a session\<close>

lemma session_sendPacket: "sendPacket packet s = (ok, s') \<Longrightarrow> P packet \<Longrightarrow> session P s s'"
  using sendPacket_sends session_sends by blast

lemma session_heartbeat: "session legal_bytes s (sendHeartbeatIfDue s)"
proof -
  obtain t s1 where 1: "lsn_now s = (t, s1)" by fastforce
  obtain t2 s2 where 2: "lsn_now s1 = (t2, s2)" by fastforce
  let ?packet = "buildHeartbeatQueryPacket (word_of_int (duration_units 1000000 t2))"
  obtain ok s3 where 3: "sendPacket ?packet s2 = (ok, s3)" by fastforce
  define s4 where "s4 = (if lastHeartbeatSentTime s1 = 0 \<or> HEARTBEAT_INTERVAL \<le> t - lastHeartbeatSentTime s1
      then if ok then s3\<lparr>lastHeartbeatSentTime := t\<rparr> else s3 else s1)"
  have l: "session legal_bytes s s1" "session legal_bytes s1 s2"
    using 1 2 session_listening [OF listening_frame(1)] by (metis snd_conv)+
  moreover have "session legal_bytes s2 s3" by (rule session_sendPacket [where P = legal_bytes, OF 3]) (rule legal_heartbeat)
  moreover have "session legal_bytes s3 (s3\<lparr>lastHeartbeatSentTime := t\<rparr>)" by (rule session_same) simp_all
  ultimately have "session legal_bytes s s4" unfolding s4_def by (auto intro: session_trans)
  moreover have "sendHeartbeatIfDue s =
      (if lastHeartbeatReplyTime s4 \<noteq> 0 \<and> HEARTBEAT_DISCONNECT_AFTER \<le> t - lastHeartbeatReplyTime s4
       then if \<not> strictHeartbeat s4 then s4\<lparr>heartbeatTimeoutLogged := True\<rparr> else lsn_linkLost net_connectionLost s4 else s4)"
    unfolding sendHeartbeatIfDue_def s4_def by (simp add: 1 2 3 Let_def split del: if_split cong: if_cong)
  moreover have "session legal_bytes s4 (s4\<lparr>heartbeatTimeoutLogged := True\<rparr>)" by (rule session_same) simp_all
  moreover have "session legal_bytes s4 (lsn_linkLost net_connectionLost s4)" by (rule session_listening) simp
  ultimately show ?thesis by (auto intro: session_trans)
qed

lemma session_after_command:
  assumes "sendControlCommand cmd packet s = Some (r, s1)" "legal_bytes packet" "session legal_bytes s0 s" "session legal_bytes s1 s'"
  shows "session legal_bytes s0 s'"
proof -
  have "session legal_bytes s s1" by (rule session_command [where P = legal_bytes, OF assms(1,2)])
  then show ?thesis using assms(3,4) by (blast intro: session_trans)
qed

lemma session_syncPointRate:
  assumes "lsn_syncPointRate s0 = Some s'"
  shows "session legal_bytes s0 s'"
proof -
  obtain t s where t: "lsn_now s0 = (t, s)" by fastforce
  then have l: "session legal_bytes s0 s" using session_listening [OF listening_frame(1)] by (metis snd_conv)
  note run = assms [unfolded lsn_syncPointRate_def t prod.case Let_def]
  show ?thesis
  proof (cases "lsn_pointRatePushNeeded s \<and> nextPointRateSyncTime s \<noteq> 0 \<and> t < nextPointRateSyncTime s \<or>
      \<not> lsn_pointRatePushNeeded s \<and> lsn_pointRate s = lsn_lastSentPointRate s")
    case True
    with run have "s' = s" by auto
    with l show ?thesis by simp
  next
    case False
    with run have "do {
          packet \<leftarrow> buildScanFrequencyPacket (lsn_pointRate s);
          (result, s1) \<leftarrow> sendControlCommand CMD_SET_SCAN_FREQUENCY packet s;
          Some (if result \<noteq> CommandFailed
                then s1\<lparr>lsn_lastSentPointRate := lsn_pointRate s, lsn_pointRatePushNeeded := False, nextPointRateSyncTime := 0\<rparr>
                else s1\<lparr>lsn_pointRatePushNeeded := True, nextPointRateSyncTime := t + commandRetryDelay\<rparr>) } = Some s'"
      by (simp only: if_False de_Morgan_disj)
    then obtain packet r s1 where c: "buildScanFrequencyPacket (lsn_pointRate s) = Some packet"
      "sendControlCommand CMD_SET_SCAN_FREQUENCY packet s = Some (r, s1)"
      "s' = (if r \<noteq> CommandFailed
                then s1\<lparr>lsn_lastSentPointRate := lsn_pointRate s, lsn_pointRatePushNeeded := False, nextPointRateSyncTime := 0\<rparr>
                else s1\<lparr>lsn_pointRatePushNeeded := True, nextPointRateSyncTime := t + commandRetryDelay\<rparr>)"
      by (auto simp only: bind_eq_Some_conv split_beta option.inject fst_conv snd_conv prod.collapse)
    have "session legal_bytes s1 s'" using c(3) by (intro session_same) simp_all
    then show ?thesis by (rule session_after_command [OF c(2) legal_scan [OF c(1)] l])
  qed
qed

lemma session_syncLaserState:
  assumes "syncLaserState s0 = Some s'"
  shows "session legal_bytes s0 s'"
proof -
  obtain t s where t: "lsn_now s0 = (t, s)" by fastforce
  then have l: "session legal_bytes s0 s" using session_listening [OF listening_frame(1)] by (metis snd_conv)
  note run = assms [unfolded syncLaserState_def t prod.case Let_def]
  show ?thesis
  proof (cases "laserStatePushNeeded s \<and> nextLaserStateSyncTime s \<noteq> 0 \<and> t < nextLaserStateSyncTime s \<or>
      \<not> laserStatePushNeeded s \<and> lsn_isArmed s = lastSentArmed s")
    case True
    with run have "s' = s" by auto
    with l show ?thesis by simp
  next
    case False
    with run have "do {
          (result, s1) \<leftarrow> sendControlCommand CMD_LASER_ON_OFF (buildLaserSwitchPacket (lsn_isArmed s)) s;
          Some (if result \<noteq> CommandFailed
                then s1\<lparr>lastSentArmed := lsn_isArmed s, laserStatePushNeeded := False, nextLaserStateSyncTime := 0\<rparr>
                else s1\<lparr>laserStatePushNeeded := True, nextLaserStateSyncTime := t + commandRetryDelay\<rparr>) } = Some s'"
      by (simp only: if_False de_Morgan_disj)
    then obtain r s1 where c: "sendControlCommand CMD_LASER_ON_OFF (buildLaserSwitchPacket (lsn_isArmed s)) s = Some (r, s1)"
      "s' = (if r \<noteq> CommandFailed
                then s1\<lparr>lastSentArmed := lsn_isArmed s, laserStatePushNeeded := False, nextLaserStateSyncTime := 0\<rparr>
                else s1\<lparr>laserStatePushNeeded := True, nextLaserStateSyncTime := t + commandRetryDelay\<rparr>)"
      by (auto simp only: bind_eq_Some_conv split_beta option.inject fst_conv snd_conv prod.collapse)
    have "session legal_bytes s1 s'" using c(2) by (intro session_same) simp_all
    then show ?thesis by (rule session_after_command [OF c(1) legal_switch l])
  qed
qed

lemma session_skip: "session P s (skipPattern t s)"
  by (rule session_same) (simp_all add: skipPattern_def)

lemma session_note:
  assumes "notePatternSent g rate renderTime n blank packetBytes t1 t2 s = Some s'"
  shows "session P s s'"
proof -
  have timing: "session P t (recordTimingSample n t)" for t
    by (rule session_same) (simp_all add: recordTimingSample_def lsn_now_def Let_def)
  from assms obtain c s3 u where "s' = recordTimingSample n (s3\<lparr>lsn_base := c, lastSubmittedPatternPoints := u, lastSentPatternWasBlank := blank\<rparr>)"
    "lsn_wire s3 = lsn_wire s" "patternPointLimit s3 = patternPointLimit s" "lsn_incoming s3 = lsn_incoming s"
    "tcpReceiveBuffer s3 = tcpReceiveBuffer s" "lsn_received s3 = lsn_received s"
    by (clarsimp simp: notePatternSent_def bind_eq_Some_conv lsn_frame)
  moreover from this have "session P s (s3\<lparr>lsn_base := c, lastSubmittedPatternPoints := u, lastSentPatternWasBlank := blank\<rparr>)"
    by (intro session_same) simp_all
  ultimately show ?thesis using timing session_trans by blast
qed

lemma session_transmit:
  assumes "transmitPattern g rate t renderTime points s = Some (ok, s')" "1 \<le> length points" "length points \<le> MAX_SOURCE_FRAME_POINTS"
  shows "session legal_bytes s s'"
proof (cases "patternPointsAreBlank points \<and> lastSentPatternWasBlank s")
  case True
  with assms(1) have "s' = skipPattern t s" by (auto simp: transmitPattern_def)
  then show ?thesis by (simp add: session_skip)
next
  case False
  with assms(1) obtain packet where b: "buildPointStreamPacket points (coordinateOptions s) = Some packet"
    by (auto simp: transmitPattern_def Let_def bind_eq_Some_conv)
  note legal = legal_points [OF b assms(2,3)]
  obtain t1 s1 where 1: "lsn_now s = (t1, s1)" by fastforce
  obtain sent s2 where 2: "sendPacket packet s1 = (sent, s2)" by fastforce
  obtain t2 s3 where 3: "lsn_now s2 = (t2, s3)" by fastforce
  have "session legal_bytes s s1" "session legal_bytes s2 s3"
    using 1 3 session_listening [OF listening_frame(1)] by (metis snd_conv)+
  with session_sendPacket [where P = legal_bytes, OF 2] legal(1) have q: "session legal_bytes s s3" by (blast intro: session_trans)
  have "length packet \<le> MAX_CURRENT_PATTERN_PACKET_BYTES" using legal(1) by (simp add: legal_bytes_def)
  with assms(1) False b legal(2) 1 2 3 have
    "if sent then notePatternSent g rate renderTime (length points) (patternPointsAreBlank points) (length packet) t1 t2 s3 = Some s'
     else s' = s3"
    by (auto simp: transmitPattern_def Let_def split: if_splits)
  with q session_note show ?thesis by (auto split: if_splits intro: session_trans)
qed

lemma session_requestFrame: "lsn_requestFrame g req s = Some (ok, frame, s') \<Longrightarrow> session P s s'"
  by (auto simp: lsn_requestFrame_def bind_eq_Some_conv intro!: session_same)

lemma session_sendFramePattern:
  assumes "sendFramePattern g s0 = Some (ok, s')" "1 \<le> patternPointLimit s0" "patternPointLimit s0 \<le> MAX_SOURCE_FRAME_POINTS"
  shows "session legal_bytes s0 s'"
proof (cases "lsn_pointRate s0 = 0")
  case True
  with assms(1) show ?thesis by (simp add: sendFramePattern_def)
next
  case rate: False
  obtain t s where t: "lsn_now s0 = (t, s)" by fastforce
  then have l: "session legal_bytes s0 s" using session_listening [OF listening_frame(1)] by (metis snd_conv)
  show ?thesis
  proof (cases "nextPatternSendTime s \<noteq> 0 \<and> t < nextPatternSendTime s")
    case True
    with assms(1) rate t l show ?thesis by (simp add: sendFramePattern_def)
  next
    case False
    with assms(1) rate t obtain renderTime got frame s1 where f: "lsn_requestFrame g (patternRequest renderTime s) s = Some (got, frame, s1)"
      and rest: "(if \<not> got then Some (False, s1)
           else if fr_points frame = [] then Some (True, skipPattern t s1)
           else if padBlankPatternToPointLimit (fr_points frame) (patternPointLimit s1) = [] then Some (True, skipPattern t s1)
           else do {
             points \<leftarrow> patternOf (fr_points frame) (patternPointLimit s1);
             transmitPattern g (lsn_pointRate s0) t renderTime points s1 }) = Some (ok, s')"
      by (auto simp: sendFramePattern_def Let_def bind_eq_Some_conv cong: if_cong)
    have q: "session legal_bytes s0 s1" by (rule session_trans [OF l session_requestFrame [OF f]])
    then have limit: "patternPointLimit s1 = patternPointLimit s0" by (simp add: session_def)
    consider "s' = s1" | "s' = skipPattern t s1" | points where "fr_points frame \<noteq> []"
        "patternOf (fr_points frame) (patternPointLimit s1) = Some points"
        "transmitPattern g (lsn_pointRate s0) t renderTime points s1 = Some (ok, s')"
      using rest by (auto simp: bind_eq_Some_conv split: if_splits)
    then show ?thesis
    proof cases
      case 3
      note len = length_patternOf [OF 3(2,1)]
      have "session legal_bytes s1 s'" by (rule session_transmit [OF 3(3)]) (use len limit assms(2,3) in auto)
      with q show ?thesis by (rule session_trans)
    qed (use q session_skip session_trans in blast)+
  qed
qed

section \<open>Every step\<close>

definition lsn_ok :: "LsNet \<Rightarrow> bool" where
  "lsn_ok s =
     (exact s \<and> (\<forall>b. LsSent b \<in> set (lsn_wire s) \<longrightarrow> legal_bytes b) \<and>
      1 \<le> patternPointLimit s \<and> patternPointLimit s \<le> MAX_SOURCE_FRAME_POINTS)"

lemma lsn_ok_session: "session legal_bytes s s' \<Longrightarrow> lsn_ok s \<Longrightarrow> lsn_ok s'"
  by (fastforce simp: lsn_ok_def session_def)

lemma lsn_ok_listening: "listening s s' \<Longrightarrow> lsn_ok s \<Longrightarrow> lsn_ok s'"
  using lsn_ok_session session_listening by blast

lemma patternPointLimit_range: "1 \<le> patternPointLimitFromEnvironment env \<and> patternPointLimitFromEnvironment env \<le> MAX_SOURCE_FRAME_POINTS"
  by (auto simp: patternPointLimitFromEnvironment_def DEFAULT_PATTERN_POINTS_def MAX_SOURCE_FRAME_POINTS_def clamp_int_def split: option.split)

lemma lsn_ok_backpressure: "lsn_ok (updateFrameReadinessBackpressure s) = lsn_ok s"
  by (simp add: lsn_ok_def exact_def updateFrameReadinessBackpressure_def)

lemma lsn_ok_resetSession: "lsn_ok s \<Longrightarrow> lsn_ok (lsn_resetSession env s)"
  using patternPointLimit_range [of env]
  by (simp add: lsn_ok_def exact_def lsn_resetSession_def updateFrameReadinessBackpressure_def lsn_now_def Let_def)

lemma lsn_ok_tcp: "lsn_ok s \<Longrightarrow> lsn_ok (lsn_tcpClose s)" "lsn_ok s \<Longrightarrow> lsn_ok (snd (lsn_tcpConnect s))"
  by (simp_all add: lsn_ok_def exact_def lsn_tcpClose_def lsn_tcpConnect_def Let_def)

lemma lsn_ok_fields:
  "lsn_ok (s\<lparr>lsn_ipAddress := a\<rparr>) = lsn_ok s" "lsn_ok (s\<lparr>tcpClient := b\<rparr>) = lsn_ok s"
  "lsn_ok (s\<lparr>lsn_networkConnected := b\<rparr>) = lsn_ok s" "lsn_ok (s\<lparr>lsn_reconnectRequested := c\<rparr>) = lsn_ok s"
  "lsn_ok (s\<lparr>lsn_latestStatus := l\<rparr>) = lsn_ok s" "lsn_ok (s\<lparr>lsn_base := d\<rparr>) = lsn_ok s"
  "lsn_ok (s\<lparr>lastSentPatternWasBlank := b\<rparr>) = lsn_ok s" "lsn_ok (s\<lparr>lastIncomingPollTime := t\<rparr>) = lsn_ok s"
  "lsn_ok (s\<lparr>lsn_pointRatePushNeeded := b\<rparr>) = lsn_ok s" "lsn_ok (s\<lparr>nextPointRateSyncTime := t\<rparr>) = lsn_ok s"
  by (simp_all add: lsn_ok_def exact_def)

lemma lsn_ok_frame:
  "lsn_ok s \<Longrightarrow> lsn_ok (snd (lsn_now s))" "lsn_ok s \<Longrightarrow> lsn_ok (lsn_stream f s)" "lsn_ok s \<Longrightarrow> lsn_ok (lsn_connectionError code s)"
  "lsn_ok s \<Longrightarrow> lsn_ok (lsn_connectionState up s)" "lsn_ok s \<Longrightarrow> lsn_ok (lsn_baseRate r s)" "lsn_ok s \<Longrightarrow> lsn_ok (lsn_sleep ms s)"
  "lsn_ok s \<Longrightarrow> lsn_ok (snd (stillConnected s))" "lsn_ok s \<Longrightarrow> lsn_ok (snd (lsn_isRunning s))"
  by (erule lsn_ok_listening [rotated], rule listening_frame)+

lemmas lsn_ok_steps = lsn_ok_frame lsn_ok_fields lsn_ok_backpressure lsn_ok_resetSession lsn_ok_tcp

lemma connectToStatus_ok:
  assumes "lsn_connectToStatus env found s0 = Some (ok, s')" "lsn_ok s0"
  shows "lsn_ok s'"
proof -
  let ?s1 = "s0\<lparr>lsn_ipAddress := ipAddress found\<rparr>"
  let ?s2 = "lsn_baseRate (pointRateFromEnvironment env (lsn_pointRate ?s1)) ?s1"
  define s3 where "s3 = (if tcpClient ?s2 then (lsn_tcpClose ?s2)\<lparr>tcpClient := False\<rparr> else ?s2)"
  have s3: "lsn_ok s3" using assms(2) by (simp add: s3_def lsn_ok_steps)
  obtain up s4 where 4: "lsn_tcpConnect (s3\<lparr>tcpClient := True\<rparr>) = (up, s4)" by fastforce
  have "lsn_ok (snd (lsn_tcpConnect (s3\<lparr>tcpClient := True\<rparr>)))" by (intro lsn_ok_tcp) (simp add: lsn_ok_fields s3)
  then have s4: "lsn_ok s4" by (simp add: 4)
  define s5 where "s5 = lsn_connectionState True (lsn_resetSession env s4)"
  define s6 where "s6 = lsn_stream (setEstimatedBufferCapacity (int (patternPointLimit s5))) s5"
  have s6: "lsn_ok s6" using s4 by (simp add: s5_def s6_def lsn_ok_steps)
  obtain t s7 where 7: "lsn_now s6 = (t, s7)" by fastforce
  with s6 have "lsn_ok (lsn_stream (updateEstimatedBufferSnapshotNow 0 (lsn_pointRate s7) t) s7)"
    using lsn_ok_frame(1) [OF s6] by (simp add: lsn_ok_frame)
  moreover have "s' = lsn_connectionError net_connectFailed s3 \<or> s' = lsn_connectionError net_connectFailed s4 \<or>
      lsn_startupBlank (lsn_stream (updateEstimatedBufferSnapshotNow 0 (lsn_pointRate s7) t) s7) = Some s'"
    using assms(1) unfolding lsn_connectToStatus_def Let_def s3_def [symmetric] 4 prod.case
    by (cases up) (auto simp: s5_def [symmetric] s6_def [symmetric] 7 split: if_splits)
  ultimately show ?thesis using s3 s4 lsn_ok_frame(3) lsn_ok_listening [OF listening_startupBlank] by blast
qed

lemma poll_ok_state: "pollIncomingPackets s = Some s' \<Longrightarrow> lsn_ok s \<Longrightarrow> lsn_ok s'"
  using poll_ok [of 0 s] lsn_ok_listening by (auto simp: pollIncomingPackets_def)

lemma pollIfDue_ok: "lsn_pollIfDue s = Some s' \<Longrightarrow> lsn_ok s \<Longrightarrow> lsn_ok s'"
proof -
  assume a: "lsn_pollIfDue s = Some s'" "lsn_ok s"
  obtain t s1 where t: "lsn_now s = (t, s1)" by fastforce
  with lsn_ok_frame(1) [OF a(2)] have "lsn_ok s1" by simp
  with a(1) poll_ok_state [of s1] show "lsn_ok s'" by (auto simp: lsn_pollIfDue_def t lsn_ok_fields split: if_splits)
qed

lemma whileConnected_ok:
  assumes "whileConnected rest s = Some s'" "lsn_ok s" "\<And>t t'. rest t = Some t' \<Longrightarrow> lsn_ok t \<Longrightarrow> lsn_ok t'"
  shows "lsn_ok s'"
proof -
  obtain up s1 where u: "stillConnected s = (up, s1)" by fastforce
  with lsn_ok_frame(7) [OF assms(2)] have "lsn_ok s1" by simp
  with assms(1,3) u show ?thesis by (cases up) (auto simp: whileConnected_def)
qed

lemma patternPass_ok: "patternPass g s = Some s' \<Longrightarrow> lsn_ok s \<Longrightarrow> lsn_ok s'"
proof -
  assume a: "patternPass g s = Some s'" "lsn_ok s"
  then obtain sent s1 s2 where s1: "sendFramePattern g s = Some (sent, s1)" and s2: "lsn_pollIfDue s1 = Some s2"
    and s': "s' = sleepUntilNextPattern s2" by (auto simp: patternPass_def bind_eq_Some_conv)
  from session_sendFramePattern [OF s1] a(2) have "lsn_ok s1" using lsn_ok_session by (auto simp: lsn_ok_def)
  with s2 have "lsn_ok s2" by (rule pollIfDue_ok)
  then show "lsn_ok s'" by (simp add: s' sleepUntilNextPattern_def split_beta Let_def lsn_ok_frame)
qed

lemma connectedPass_ok:
  assumes "connectedPass g s = Some s'" "lsn_ok s"
  shows "lsn_ok s'"
proof -
  let ?last = "\<lambda>s4. whileConnected (patternPass g) (sendHeartbeatIfDue s4)"
  have last: "lsn_ok t'" if "?last t = Some t'" "lsn_ok t" for t t'
    by (rule whileConnected_ok [OF that(1) lsn_ok_session [OF session_heartbeat that(2)]]) (rule patternPass_ok)
  let ?laser = "\<lambda>s2. do { s3 \<leftarrow> syncLaserState s2; whileConnected ?last s3 }"
  have laser: "lsn_ok t'" if "?laser t = Some t'" "lsn_ok t" for t t'
  proof -
    from that(1) obtain s3 where s3: "syncLaserState t = Some s3" "whileConnected ?last s3 = Some t'" by (auto simp: bind_eq_Some_conv)
    have "lsn_ok s3" by (rule lsn_ok_session [OF session_syncLaserState [OF s3(1)] that(2)])
    with s3(2) show ?thesis by (rule whileConnected_ok) (rule last)
  qed
  from assms(1) obtain s1 where s1: "lsn_syncPointRate (lsn_connectionState True s) = Some s1" "whileConnected ?laser s1 = Some s'"
    by (auto simp: connectedPass_def bind_eq_Some_conv)
  have "lsn_ok s1" by (rule lsn_ok_session [OF session_syncPointRate [OF s1(1)] lsn_ok_frame(4) [OF assms(2)]])
  with s1(2) show ?thesis by (rule whileConnected_ok) (rule laser)
qed

lemma reconnectPass_ok: "lsn_reconnectPass env s = Some s' \<Longrightarrow> lsn_ok s \<Longrightarrow> lsn_ok s'"
proof -
  assume a: "lsn_reconnectPass env s = Some s'" "lsn_ok s"
  let ?s1 = "(lsn_connectionState False s)\<lparr>lsn_networkConnected := False, lsn_reconnectRequested := False\<rparr>"
  have s1: "lsn_ok ?s1" using a(2) by (simp add: lsn_ok_steps)
  from a(1) obtain ok s2 where s2: "lsn_reconnectToLatestStatus env ?s1 = Some (ok, s2)"
    "s' = (if \<not> ok then lsn_sleep 1000 (s2\<lparr>lsn_reconnectRequested := True\<rparr>) else lsn_sleep 100 s2)"
    by (auto simp: lsn_reconnectPass_def bind_eq_Some_conv Let_def)
  then have "lsn_ok s2" using s1 connectToStatus_ok by (auto simp: lsn_reconnectToLatestStatus_def split: option.splits)
  with s2(2) show "lsn_ok s'" by (simp add: lsn_ok_steps)
qed

lemma lsnPass_ok: "lsnPass env g s = Some s' \<Longrightarrow> lsn_ok s \<Longrightarrow> lsn_ok s'"
proof -
  assume a: "lsnPass env g s = Some s'" "lsn_ok s"
  obtain up s1 where u: "stillConnected s = (up, s1)" by fastforce
  with lsn_ok_frame(7) [OF a(2)] have "lsn_ok s1" by simp
  with a u reconnectPass_ok connectedPass_ok show "lsn_ok s'" by (cases up) (auto simp: lsnPass_def split: if_splits)
qed

lemma sendRepeatedly_ok: "legal_bytes packet \<Longrightarrow> lsn_ok s \<Longrightarrow> lsn_ok (sendRepeatedly n packet s)"
proof (induction n arbitrary: s)
  case (Suc n)
  obtain ok s1 where 1: "sendPacket packet s = (ok, s1)" by fastforce
  have "lsn_ok s1" by (rule lsn_ok_session [OF session_sendPacket [where P = legal_bytes, OF 1 Suc.prems(1)] Suc.prems(2)])
  with Suc 1 show ?case by (simp add: lsn_ok_frame(6))
qed simp

lemma close_ok:
  assumes "lsn_close s0 = Some s'" "lsn_ok s0"
  shows "lsn_ok s'"
proof -
  obtain up s1 where u: "stillConnected s0 = (up, s1)" by fastforce
  with lsn_ok_frame(7) [OF assms(2)] have s1: "lsn_ok s1" by simp
  from assms(1) u obtain s2 where s2: "(if up then map_option (\<lambda>s. snd (sendPacket (buildLaserSwitchPacket False) s)) (sendBlankPatternForShutdown s1)
       else Some s1) = Some s2"
    and s': "s' = (let s3 = lsn_connectionState False (s2\<lparr>lsn_networkConnected := False, lsn_reconnectRequested := False\<rparr>);
        s4 = (lsn_stream clearEstimatedBufferState s3)\<lparr>lastSentPatternWasBlank := False\<rparr>
        in if tcpClient s4 then lsn_tcpClose s4 else s4)"
    by (auto simp: lsn_close_def bind_eq_Some_conv Let_def)
  have "lsn_ok s2"
  proof (cases up)
    case True
    with s2 obtain packet where p: "buildPointStreamPacket (makeBlankPatternPoints (patternPointLimit s1)) (coordinateOptions s1) = Some packet"
      "s2 = snd (sendPacket (buildLaserSwitchPacket False) (sendRepeatedly 3 packet s1))"
      by (auto simp: sendBlankPatternForShutdown_def)
    have "legal_bytes packet" using s1 by (intro legal_points [OF p(1)]) (auto simp: lsn_ok_def makeBlankPatternPoints_def)
    then have "lsn_ok (sendRepeatedly 3 packet s1)" using s1 by (rule sendRepeatedly_ok)
    with p(2) session_sendPacket [where P = legal_bytes] legal_switch lsn_ok_session show ?thesis by (metis prod.collapse)
  qed (use s1 s2 in simp)
  then show ?thesis by (simp add: s' Let_def lsn_ok_steps)
qed

lemma lsn_step_ok: "lsn_step x y \<Longrightarrow> lsn_ok (snd x) \<Longrightarrow> lsn_ok (snd y)"
proof (induction rule: lsn_step.induct)
  case (connects env found s ok s' p)
  have "lsn_ok (lsn_updateDiscoveredStatus found s)"
    using connects(2) by (simp add: lsn_updateDiscoveredStatus_def Let_def lsn_ok_steps)
  with connects(1) connectToStatus_ok show ?case by (auto simp: lsn_connect_def)
next
  case (begins s s')
  then show ?case using lsn_ok_listening [OF listening_startupBlank] by auto
next
  case (passes s s1 env g s')
  then show ?case using lsnPass_ok lsn_ok_frame(8) [of s] by auto
next
  case (stops s s')
  then show ?case using lsn_ok_frame(8) [of s] by auto
next
  case (closes s s' p)
  then show ?case using close_ok by auto
qed (simp_all add: lsn_updateDiscoveredStatus_def lsn_setPointRate_def Let_def lsn_ok_steps)

lemma lsn_reachable_ok: "lsn_reachable x \<Longrightarrow> lsn_ok (snd x)"
proof (induction rule: lsn_reachable.induct)
  case (created ip net runs clk)
  then show ?case
    by (simp add: lsn_init_def lsn_ok_backpressure) (simp add: lsn_ok_def exact_def DEFAULT_PATTERN_POINTS_def MAX_SOURCE_FRAME_POINTS_def)
qed (rule lsn_step_ok)

end
