(* ===== verification/Light_Space_Properties.thy ===== *)
theory Light_Space_Properties
  imports Light_Space_Runs
begin

text \<open>
  The properties of the LightSpace network controller over its reachable states, and a run that
  connects and closes, for their witnesses.
\<close>

section \<open>Connecting and closing\<close>

lemma startupBlank_total: "\<exists>s'. lsn_startupBlank s = Some s'"
  using millisToPoints_total [of 1 "PipelineState.pointRate (pipe (stream (lsn_base s)))"]
  by (auto simp: lsn_startupBlank_def resetStartupBlank_def)

lemma connect_runs:
  assumes "lw_address (lsn_net s) (ipAddress found)" "lw_connects (lsn_net s) 0"
  obtains s' where "lsn_connect env found s = Some (True, s')" "lsn_networkConnected s'" "tcpClient s'" "lsn_tcpOpen s'"
    "lw_alive (lsn_net s') = lw_alive (lsn_net s)"
proof -
  let ?s0 = "lsn_updateDiscoveredStatus found s"
  let ?s1 = "?s0\<lparr>lsn_ipAddress := ipAddress found\<rparr>"
  let ?s2 = "lsn_baseRate (pointRateFromEnvironment env (lsn_pointRate ?s1)) ?s1"
  define s3 where "s3 = (if tcpClient ?s2 then (lsn_tcpClose ?s2)\<lparr>tcpClient := False\<rparr> else ?s2)"
  have s3: "lsn_net s3 = lsn_net s" "lsn_ipAddress s3 = ipAddress found"
    by (simp_all add: s3_def lsn_tcpClose_def lsn_updateDiscoveredStatus_def lsn_frame)
  let ?n = "(lsn_net s)\<lparr>lw_connects := \<lambda>n. lw_connects (lsn_net s) (Suc n)\<rparr>"
  define s4 where "s4 = s3\<lparr>tcpClient := True, lsn_net := ?n, lsn_tcpOpen := True, lsn_wire := LsOpened # lsn_wire s3\<rparr>"
  have c: "lsn_tcpConnect (s3\<lparr>tcpClient := True\<rparr>) = (True, s4)"
    using assms(2) by (simp add: lsn_tcpConnect_def s3 s4_def Let_def)
  define s5 where "s5 = lsn_connectionState True (lsn_resetSession env s4)"
  define s6 where "s6 = lsn_stream (setEstimatedBufferCapacity (int (patternPointLimit s5))) s5"
  obtain t s7 where 7: "lsn_now s6 = (t, s7)" by fastforce
  define s8 where "s8 = lsn_stream (updateEstimatedBufferSnapshotNow 0 (lsn_pointRate s7) t) s7"
  obtain s' where s': "lsn_startupBlank s8 = Some s'" using startupBlank_total by blast
  have "lsn_connectToStatus env found ?s0 = Some (True, s')"
    using assms(1) s3 by (simp add: lsn_connectToStatus_def Let_def s3_def [symmetric] c s5_def [symmetric] s6_def [symmetric] 7
        s8_def [symmetric] s')
  moreover have s7: "s7 = snd (lsn_now s6)" by (simp add: 7)
  have "lsn_networkConnected s8" "tcpClient s8" "lsn_tcpOpen s8" "lsn_net s8 = ?n"
    by (simp_all add: s8_def s7 s6_def s5_def s4_def lsn_resetSession_def updateFrameReadinessBackpressure_def lsn_frame)
  ultimately show thesis
    using that [of s'] s' by (auto simp: lsn_connect_def lsn_startupBlank_def lsn_stream_def bind_eq_Some_conv)
qed

text \<open>On a socket that stays up every packet is handed to it, whatever the writes answer.\<close>

definition link_up :: "LsNet \<Rightarrow> bool" where
  "link_up s = (tcpClient s \<and> lsn_tcpOpen s \<and> (\<forall>n. lw_alive (lsn_net s) n))"

lemma sendPacket_up:
  assumes "link_up s" "packet \<noteq> []"
  shows "link_up (snd (sendPacket packet s)) \<and> lsn_wire (snd (sendPacket packet s)) = LsSent packet # lsn_wire s"
proof -
  have "hasTcpConnection s = (True, s\<lparr>lsn_net := (lsn_net s)\<lparr>lw_alive := \<lambda>n. lw_alive (lsn_net s) (Suc n)\<rparr>\<rparr>)"
    using assms(1) by (simp add: hasTcpConnection_def link_up_def)
  then show ?thesis
    using assms by (cases "lw_writes (lsn_net s) 0") (simp_all add: sendPacket_def link_up_def lsn_frame)
qed

lemma sendRepeatedly_up:
  assumes "link_up s" "packet \<noteq> []"
  shows "link_up (sendRepeatedly n packet s) \<and> lsn_wire (sendRepeatedly n packet s) = replicate n (LsSent packet) @ lsn_wire s"
  using assms(1)
proof (induction n arbitrary: s)
  case (Suc n)
  let ?s = "lsn_sleep 10 (snd (sendPacket packet s))"
  from sendPacket_up [OF Suc.prems assms(2)] have "link_up ?s" "lsn_wire ?s = LsSent packet # lsn_wire s"
    by (simp_all add: link_up_def lsn_sleep_def)
  with Suc.IH [of ?s] show ?case by (simp add: replicate_append_same)
qed simp

lemma length_switch: "buildLaserSwitchPacket on \<noteq> []"
  by (simp add: buildLaserSwitchPacket_def buildPacket_def appendBe16_def Let_def)

lemma close_up:
  assumes "lsn_networkConnected s" "link_up s" "1 \<le> patternPointLimit s" "patternPointLimit s \<le> MAX_SOURCE_FRAME_POINTS"
  obtains d s' where "lsn_close s = Some s'"
    "buildPointStreamPacket (replicate (patternPointLimit s) (default_point\<lparr>pt_i := Fin 0\<rparr>)) (coordinateOptions s) = Some d"
    "lsn_wire s' = [LsClosed, LsSent (buildLaserSwitchPacket False), LsSent d, LsSent d, LsSent d] @ lsn_wire s"
    "\<not> lsn_networkConnected s'" "\<not> lsn_tcpOpen s'"
proof -
  obtain s1 where 1: "stillConnected s = (True, s1)" and s1: "link_up s1" "lsn_wire s1 = lsn_wire s"
      "patternPointLimit s1 = patternPointLimit s" "coordinateOptions s1 = coordinateOptions s"
    using assms(1,2) by (simp add: stillConnected_def hasTcpConnection_def link_up_def)
  let ?dark = "replicate (patternPointLimit s) (default_point\<lparr>pt_i := Fin 0\<rparr>)"
  obtain d where d: "buildPointStreamPacket ?dark (coordinateOptions s) = Some d" using point_stream_packet by blast
  have "d \<noteq> []" using assms(3,4) by (intro legal_points(2) [OF d]) auto
  define s2 where "s2 = snd (sendPacket (buildLaserSwitchPacket False) (sendRepeatedly 3 d s1))"
  from sendRepeatedly_up [OF s1(1) \<open>d \<noteq> []\<close>, of 3] sendPacket_up length_switch
  have s2: "link_up s2" "lsn_wire s2 = [LsSent (buildLaserSwitchPacket False), LsSent d, LsSent d, LsSent d] @ lsn_wire s"
    by (simp_all add: s2_def s1 numeral_3_eq_3)
  have b: "sendBlankPatternForShutdown s1 = Some (sendRepeatedly 3 d s1)"
    by (simp add: sendBlankPatternForShutdown_def makeBlankPatternPoints_def s1 d)
  let ?s4 = "(lsn_stream clearEstimatedBufferState (lsn_connectionState False
      (s2\<lparr>lsn_networkConnected := False, lsn_reconnectRequested := False\<rparr>)))\<lparr>lastSentPatternWasBlank := False\<rparr>"
  have up: "tcpClient ?s4" "lsn_tcpOpen ?s4" using s2(1) by (simp_all add: link_up_def lsn_frame)
  then have "lsn_close s = Some (lsn_tcpClose ?s4)"
    by (simp add: lsn_close_def 1 b s2_def [symmetric] Let_def)
  then show thesis
    using that [OF _ d] up s2(2) by (simp add: lsn_tcpClose_def lsn_frame)
qed

section \<open>A run\<close>

definition ls_sample_found :: LightSpaceNetStatus where
  "ls_sample_found = \<lparr>deviceId = 1, firmwareVersion = 1, hardwareVersion = 1, ipAddress = ''10.0.0.4'', macAddress = [],
     macAddressString = '''', deviceName = ''ls'', lastSeen = 0\<rparr>"

definition ls_sample_env :: LsEnvironment where
  "ls_sample_env = \<lparr>getenv = \<lambda>_. None, strtof = \<lambda>_. None\<rparr>"

definition ls_sample_net :: LsNetwork where
  "ls_sample_net = \<lparr>lw_address = \<lambda>_. True, lw_connects = \<lambda>_. True, lw_alive = \<lambda>_. True, lw_writes = \<lambda>_. True,
     lw_reads = \<lambda>_. NoneAvailable\<rparr>"

definition ls_sample_start :: LsNet where
  "ls_sample_start = lsn_init ''10.0.0.4'' ls_sample_net (\<lambda>_. True) (\<lambda>n. int n + 1)"

definition ls_sample_ack :: bytes where
  "ls_sample_ack = buildPacket PACKET_TYPE_COMMAND CMD_COMMAND_ACK [0, 3]"

lemma ls_sample_reachable: "lsn_reachable (LsCreated, ls_sample_start)"
  unfolding ls_sample_start_def by (rule lsn_reachable.created)

lemma ls_sample_fields: "lsn_net ls_sample_start = ls_sample_net" "lsn_clock ls_sample_start = (\<lambda>n. int n + 1)"
  "lsn_incoming ls_sample_start = []" "tcpReceiveBuffer ls_sample_start = []" "lsn_received ls_sample_start = []"
  "lsn_wire ls_sample_start = []" "commandAckMode ls_sample_start = Probe"
  by (simp_all add: ls_sample_start_def lsn_init_def updateFrameReadinessBackpressure_def)

lemma ls_sample_up:
  obtains u where "lsn_reachable (LsCreated, u)" "lsn_networkConnected u" "link_up u" "1 \<le> patternPointLimit u"
    "patternPointLimit u \<le> MAX_SOURCE_FRAME_POINTS"
proof -
  obtain u where u: "lsn_connect ls_sample_env ls_sample_found ls_sample_start = Some (True, u)" "lsn_networkConnected u"
    "tcpClient u" "lsn_tcpOpen u" "lw_alive (lsn_net u) = lw_alive ls_sample_net"
    using connect_runs [of ls_sample_start ls_sample_found ls_sample_env] by (auto simp: ls_sample_fields ls_sample_net_def)
  have r: "lsn_reachable (LsCreated, u)"
    by (rule lsn_reachable.step [OF ls_sample_reachable lsn_step.connects [OF u(1)]])
  from lsn_reachable_ok [OF r] u that [OF r] show thesis by (simp add: lsn_ok_def link_up_def ls_sample_net_def)
qed

lemma ls_sample_ack_events: "\<exists>p. lsEvents (7 # ls_sample_ack) = [Heard p] \<and> ackPayloadMatchesCommand p CMD_SET_SCAN_FREQUENCY = Some True"
proof -
  have len: "20 + length [0, 3 :: u8] \<le> 0xFFFF" by simp
  note a = parse_build [OF len, of PACKET_TYPE_COMMAND CMD_COMMAND_ACK, folded ls_sample_ack_def]
  have l: "length ls_sample_ack = 22" unfolding ls_sample_ack_def by (subst length_buildPacket [OF len]) simp
  have b: "ls_sample_ack = protocolHeader @ be16 22 @ drop 12 ls_sample_ack"
    unfolding ls_sample_ack_def buildPacket_eq [OF len] Let_def by (simp add: length_protocolHeader length_wire)
  have h: "take (length protocolHeader) ls_sample_ack = protocolHeader" by (subst b) simp
  have r: "readBe16 (drop 10 ls_sample_ack) = Some 22" by (subst b) (simp add: length_protocolHeader be16_get_put)
  let ?p = "\<lparr>version = PROTOCOL_VERSION, packetType = PACKET_TYPE_COMMAND, commandWord = CMD_COMMAND_ACK, payload = [0, 3]\<rparr>"
  have "take (length protocolHeader) (7 # ls_sample_ack) \<noteq> protocolHeader" by (simp add: protocolHeader_def)
  then have "lsEvents (7 # ls_sample_ack) = lsEvents (ls_sample_ack @ [])" by (simp add: lsEvents_skip)
  also have "\<dots> = Heard ?p # lsEvents (drop (unat (22 :: u16)) ls_sample_ack @ [])"
    by (rule lsEvents_header(3) [OF h _ r]) (use l a in \<open>simp_all add: minimumPacketSize_def\<close>)
  finally have "lsEvents (7 # ls_sample_ack) = [Heard ?p]" using l by simp
  moreover have "ackPayloadMatchesCommand ?p CMD_SET_SCAN_FREQUENCY = Some True"
    by (simp add: ackPayloadMatchesCommand_def readBe16_def rd8_def CMD_SET_SCAN_FREQUENCY_def)
  ultimately show ?thesis by blast
qed

section \<open>Properties\<close>

text \<open>
  C15. Nothing received is lost, repeated or reordered. In every reachable state, however TCP cut the
  bytes, whatever garbage lies between the packets, whichever acknowledgements were awaited (a wait
  stops in the middle of the buffer) and whatever the buffer threw away, the packets handled on this
  connection followed by those a plain scan finds in the buffer and any continuation are exactly those
  the scan finds in all the bytes of the connection and that continuation.
\<close>

theorem ls_receive_exact:
  assumes "lsn_reachable (phase, s)"
  shows "rev (lsn_incoming s) @ lsEvents (tcpReceiveBuffer s @ future) = lsEvents (lsn_received s @ future)"
  using lsn_reachable_ok [OF assms] by (simp add: lsn_ok_def exact_def)

theorem ls_receive_exact_witness:
  "\<exists>s p. lsn_reachable (LsCreated, s) \<and> rev (lsn_incoming s) @ lsEvents (tcpReceiveBuffer s @ 7 # ls_sample_ack) = [Heard p]"
  using ls_receive_exact [OF ls_sample_reachable, of "7 # ls_sample_ack"] ls_sample_ack_events ls_sample_reachable
  by (auto simp: ls_sample_fields)

text \<open>
  C17. What the device is sent. Every byte string the controller ever hands to the socket, whatever the
  application, the environment variables and the device do, is at most 5120 bytes long, passes the
  parser and its checksum, and is a heartbeat, a laser switch, a scan frequency of 1 to 30 kHz, or a
  pattern that announces its 1 to 700 points and carries 7 bytes for each.
\<close>

theorem ls_packets_legal:
  assumes "lsn_reachable (phase, s)" and "LsSent b \<in> set (lsn_wire s)"
  shows "length b \<le> 5120 \<and> (\<exists>p. parsePacket (Some b) = Some (Some p) \<and> legal_content p)"
  using lsn_reachable_ok [OF assms(1)] assms(2) by (auto simp: lsn_ok_def legal_bytes_def MAX_CURRENT_PATTERN_PACKET_BYTES_def)

theorem ls_packets_legal_witness:
  "\<exists>s. lsn_reachable (LsCreated, s) \<and> LsSent (buildLaserSwitchPacket False) \<in> set (lsn_wire s) \<and>
     length (buildLaserSwitchPacket False) \<le> 5120"
proof -
  obtain u where u: "lsn_reachable (LsCreated, u)" "lsn_networkConnected u" "link_up u" "1 \<le> patternPointLimit u"
    "patternPointLimit u \<le> MAX_SOURCE_FRAME_POINTS" by (rule ls_sample_up)
  obtain s d where s: "lsn_close u = Some s"
    "lsn_wire s = [LsClosed, LsSent (buildLaserSwitchPacket False), LsSent d, LsSent d, LsSent d] @ lsn_wire u"
    using close_up [OF u(2-5)] by metis
  have r: "lsn_reachable (LsCreated, s)" by (rule lsn_reachable.step [OF u(1) lsn_step.closes [OF s(1)]])
  have w: "LsSent (buildLaserSwitchPacket False) \<in> set (lsn_wire s)" by (simp add: s(2))
  from ls_packets_legal [OF r w] r w show ?thesis by blast
qed

text \<open>
  C16. The command exchange ends and is counted right. On a clock that never goes back and passes every
  deadline, a control command always returns, whatever the device sends; it hands at most three copies
  of its packet to the socket, one in silent mode, and nothing else; it reports an acknowledgement only
  if one that names the command was received during the call, and acknowledgements are then expected
  from now on; after a command sent without one they are no longer waited for; a failure leaves the
  mode as it was.
\<close>

theorem ls_command_contract:
  assumes "mono (lsn_clock s)" and "\<And>d. \<exists>n. d \<le> lsn_clock s n"
  shows "\<exists>r s' k. sendControlCommand cmd packet s = Some (r, s') \<and>
    lsn_wire s' = replicate k (LsSent packet) @ lsn_wire s \<and> k \<le> (if commandAckMode s = Silent then 1 else 3) \<and>
    (r = Acknowledged \<longrightarrow> commandAckMode s \<noteq> Silent \<and> commandAckMode s' = Supported \<and> acked_since cmd s s') \<and>
    (r = SentWithoutAck \<longrightarrow> commandAckMode s' = Silent) \<and>
    (r = CommandFailed \<longrightarrow> commandAckMode s' = commandAckMode s)"
proof -
  obtain r s' where c: "sendControlCommand cmd packet s = Some (r, s')" using sendControlCommand_returns [OF assms] by blast
  from c show ?thesis
  proof (cases rule: sendControlCommand_cases)
    case silent
    from sends_wire [OF silent(2)] sends_mode [OF silent(2)] silent c show ?thesis by auto
  next
    case failed
    from sends_wire [OF failed(2)] sends_mode [OF failed(2)] failed c show ?thesis by auto
  next
    case (acknowledged s1)
    from sends_wire [OF acknowledged(2)] acknowledged c show ?thesis by (auto simp: acked_since_def)
  next
    case (unanswered s1)
    from sends_wire [OF unanswered(2)] unanswered c show ?thesis by auto
  qed
qed

theorem ls_command_contract_witness:
  "\<exists>r s' k. sendControlCommand CMD_LASER_ON_OFF (buildLaserSwitchPacket True) ls_sample_start = Some (r, s') \<and>
     lsn_wire s' = replicate k (LsSent (buildLaserSwitchPacket True)) \<and> k \<le> 3"
proof -
  have "mono (lsn_clock ls_sample_start)" "\<exists>n. d \<le> lsn_clock ls_sample_start n" for d
    by (auto simp: ls_sample_fields mono_def intro!: exI [of _ "nat d"])
  from ls_command_contract [OF this, of CMD_LASER_ON_OFF "buildLaserSwitchPacket True"] show ?thesis
    by (auto simp: ls_sample_fields)
qed

text \<open>
  C18. Closing leaves the device dark. A connected controller whose socket stays up hands to it, whatever
  the writes answer, exactly three dark patterns of as many points as the limit and then the laser-off
  command, closes the socket and is no longer connected; it does so from every reachable state.
\<close>

theorem ls_close_darkens:
  assumes "lsn_reachable (phase, s)" and "lsn_networkConnected s" and "link_up s"
  shows "\<exists>d s'. lsn_close s = Some s' \<and>
    buildPointStreamPacket (replicate (patternPointLimit s) (default_point\<lparr>pt_i := Fin 0\<rparr>)) (coordinateOptions s) = Some d \<and>
    lsn_wire s' = [LsClosed, LsSent (buildLaserSwitchPacket False), LsSent d, LsSent d, LsSent d] @ lsn_wire s \<and>
    \<not> lsn_networkConnected s' \<and> \<not> lsn_tcpOpen s'"
proof -
  from lsn_reachable_ok [OF assms(1)] have "1 \<le> patternPointLimit s" "patternPointLimit s \<le> MAX_SOURCE_FRAME_POINTS"
    by (simp_all add: lsn_ok_def)
  from close_up [OF assms(2,3) this] show ?thesis by metis
qed

theorem ls_close_darkens_witness:
  "\<exists>u d s'. lsn_reachable (LsCreated, u) \<and> lsn_close u = Some s' \<and>
     lsn_wire s' = [LsClosed, LsSent (buildLaserSwitchPacket False), LsSent d, LsSent d, LsSent d] @ lsn_wire u"
proof -
  obtain u where u: "lsn_reachable (LsCreated, u)" "lsn_networkConnected u" "link_up u" by (rule ls_sample_up)
  from ls_close_darkens [OF u] u(1) show ?thesis by blast
qed

end
