(* ===== verification/System_Core.thy ===== *)
theory System_Core
  imports Controller_Manager "HOL-Library.Char_ord" "HOL-Library.List_Lexorder" "HOL-Library.Monad_Syntax"
begin

text \<open>
  core/System.cpp: the registry of drivers and the \<open>System\<close> that chooses, constructs, routes to
  and shuts down one manager per controller family. A manager is known to it only by its
  virtual functions, the record \<open>ManagerOps\<close>; a registration's factory constructs one in the
  world. The pointers of \<open>managerByDriverId\<close> are positions in the vector of managers. Where the
  code iterates an unordered map the position of each key is the parameter \<open>rank\<close>. The order in
  which \<open>vector::clear\<close> destroys the managers is unspecified, here that of the vector. A discovery is
  \<open>None\<close> where a driver's own discovery overflows an \<open>int\<close>.
\<close>

section \<open>Registrations\<close>

record ControllerManagerInfo =
  cmi_driverId :: string
  cmi_type :: string
  cmi_displayName :: string
  cmi_description :: string
  cmi_builtIn :: bool

record 'm Registration =
  reg_info :: ControllerManagerInfo
  reg_factory :: "(world \<Rightarrow> 'm option \<times> world) option"

definition normalizeRegistration :: "'m Registration \<Rightarrow> 'm Registration" where
  "normalizeRegistration r =
     (if cmi_displayName (reg_info r) = ''''
      then r\<lparr>reg_info := (reg_info r)\<lparr>cmi_displayName := cmi_type (reg_info r)\<rparr>\<rparr> else r)"

definition hasRegisteredDriverId :: "'m Registration list \<Rightarrow> string \<Rightarrow> bool" where
  "hasRegisteredDriverId regs driverId =
     (if driverId = '''' then False else list_ex (\<lambda>r. cmi_driverId (reg_info r) = driverId) regs)"

definition AddControllerManager :: "'m Registration \<Rightarrow> 'm Registration list \<Rightarrow> 'm Registration list" where
  "AddControllerManager r0 regs =
     (let r = normalizeRegistration r0
      in if reg_factory r = None then regs
         else if cmi_driverId (reg_info r) = '''' \<or> cmi_type (reg_info r) = '''' then regs
         else if hasRegisteredDriverId regs (cmi_driverId (reg_info r)) then regs
         else regs @ [r])"

text \<open>\<open>std::sort\<close> by display name; the order of equal names is unspecified, here that of registration.\<close>

definition registeredControllerManagers :: "'m Registration list \<Rightarrow> ControllerManagerInfo list" where
  "registeredControllerManagers regs =
     sort_key cmi_displayName (filter (\<lambda>i. cmi_type i \<noteq> '''') (map reg_info regs))"

section \<open>Plugin directories\<close>

text \<open>\<open>defaultUserPluginDirectory\<close> where neither \<open>_WIN32\<close> nor \<open>__APPLE__\<close> is defined, from the
  environment's \<open>XDG_DATA_HOME\<close> and \<open>HOME\<close> (empty when unset) and the current directory.\<close>

definition defaultUserPluginDirectory :: "string \<Rightarrow> string \<Rightarrow> string \<Rightarrow> string" where
  "defaultUserPluginDirectory xdgDataHome home currentPath =
     (let base = (if xdgDataHome \<noteq> '''' then xdgDataHome
                  else if home \<noteq> '''' then home @ ''/.local/share'' else '''')
      in (if base = '''' then currentPath else base) @ ''/libera/plugins'')"

definition setPluginDirectory :: "string \<Rightarrow> string list \<Rightarrow> string list" where
  "setPluginDirectory path dirs = (if path \<noteq> '''' then [path] else [])"

definition pluginDirectory :: "string list \<Rightarrow> string" where
  "pluginDirectory dirs = (if dirs = [] then '''' else hd dirs)"

definition addPluginDirectory :: "string \<Rightarrow> string list \<Rightarrow> string list" where
  "addPluginDirectory path dirs = (if path = '''' then dirs else dirs @ [path])"

text \<open>The directories loaded now and those ever attempted; \<open>resolve\<close> is the canonical path.\<close>

fun loadConfiguredPluginDirectories :: "(string \<Rightarrow> string) \<Rightarrow> string list \<Rightarrow> string list \<Rightarrow> string list \<times> string list" where
  "loadConfiguredPluginDirectories resolve [] attempted = ([], attempted)"
| "loadConfiguredPluginDirectories resolve (dir # dirs) attempted =
     (if dir = '''' then loadConfiguredPluginDirectories resolve dirs attempted
      else let resolved = resolve dir
           in if resolved \<in> set attempted then loadConfiguredPluginDirectories resolve dirs attempted
              else case loadConfiguredPluginDirectories resolve dirs (attempted @ [resolved]) of
                     (loaded, attempted') \<Rightarrow> (resolved # loaded, attempted'))"

section \<open>System\<close>

record ('m, 'p) ManagerOps =
  v_managedType :: "'m \<Rightarrow> string"
  v_discover :: "'m \<Rightarrow> world \<Rightarrow> ('p ControllerInfo option list \<times> 'm \<times> world) option"
  v_connect :: "'p ControllerInfo \<Rightarrow> 'm \<Rightarrow> world \<Rightarrow> nat option \<times> 'm \<times> world"
  v_disconnect :: "string \<Rightarrow> 'm \<Rightarrow> world \<Rightarrow> bool \<times> 'm \<times> world"
  v_closeAll :: "'m \<Rightarrow> world \<Rightarrow> 'm \<times> world"
  v_destroy :: "'m \<Rightarrow> world \<Rightarrow> world"

record SystemOptions =
  opt_disabledTypes :: "string set"
  opt_selectedDrivers :: "(string \<times> string) list"

record 'm System =
  sys_managers :: "(string \<times> 'm) list"
  sys_byDriverId :: "(string \<times> nat) list"
  sys_shutdownComplete :: bool

text \<open>The saved choices of driver, overridden by those of the options.\<close>

definition selectedDrivers :: "(string \<times> string) list \<Rightarrow> SystemOptions \<Rightarrow> (string \<times> string) list" where
  "selectedDrivers saved opts = fold (\<lambda>(t, d). AList.update t d) (opt_selectedDrivers opts) saved"

definition controllerTypeEnabled :: "SystemOptions \<Rightarrow> string \<Rightarrow> bool" where
  "controllerTypeEnabled opts t = (t = '''' \<or> t \<notin> opt_disabledTypes opts)"

definition groupRegistration ::
  "SystemOptions \<Rightarrow> 'm Registration \<Rightarrow> (string \<times> 'm Registration list) list \<Rightarrow> (string \<times> 'm Registration list) list" where
  "groupRegistration opts r groups =
     (let t = cmi_type (reg_info r)
      in if reg_factory r = None \<or> \<not> controllerTypeEnabled opts t then groups
         else AList.update t (case map_of groups t of None \<Rightarrow> [r] | Some rs \<Rightarrow> rs @ [r]) groups)"

definition registrationsByType :: "SystemOptions \<Rightarrow> 'm Registration list \<Rightarrow> (string \<times> 'm Registration list) list" where
  "registrationsByType opts regs = fold (groupRegistration opts) regs []"

definition selectDriver :: "string option \<Rightarrow> 'm Registration list \<Rightarrow> 'm Registration option" where
  "selectDriver requested rs =
     (let s1 = (case requested of None \<Rightarrow> None | Some d \<Rightarrow> List.find (\<lambda>r. cmi_driverId (reg_info r) = d) rs);
          s2 = (if s1 = None then List.find (\<lambda>r. cmi_builtIn (reg_info r)) rs else s1)
      in if s2 = None \<and> length rs = 1 then Some (hd rs) else s2)"

definition constructManager ::
  "('m, 'p) ManagerOps \<Rightarrow> (string \<times> string) list \<Rightarrow> string \<times> 'm Registration list \<Rightarrow> 'm System \<times> world \<Rightarrow> 'm System \<times> world" where
  "constructManager V selected grp sw =
     (case (grp, sw) of ((t, rs), (s, w)) \<Rightarrow>
      case selectDriver (map_of selected t) rs of
        None \<Rightarrow> (s, w)
      | Some r \<Rightarrow>
          (case reg_factory r of
             None \<Rightarrow> (s, w)
           | Some factory \<Rightarrow>
               (case factory w of
                  (None, w1) \<Rightarrow> (s, w1)
                | (Some m, w1) \<Rightarrow>
                    if v_managedType V m \<noteq> t
                    then (case v_closeAll V m w1 of (m1, w2) \<Rightarrow> (s, v_destroy V m1 w2))
                    else (s\<lparr>sys_byDriverId := AList.update (cmi_driverId (reg_info r)) (length (sys_managers s)) (sys_byDriverId s),
                            sys_managers := sys_managers s @ [(cmi_driverId (reg_info r), m)]\<rparr>, w1))))"

definition newSystem ::
  "('m, 'p) ManagerOps \<Rightarrow> (string \<Rightarrow> nat) \<Rightarrow> 'm Registration list \<Rightarrow> (string \<times> string) list \<Rightarrow> SystemOptions \<Rightarrow> world
     \<Rightarrow> 'm System \<times> world" where
  "newSystem V rank regs saved opts w =
     fold (constructManager V (selectedDrivers saved opts)) (iterated rank (registrationsByType opts regs))
       (\<lparr>sys_managers = [], sys_byDriverId = [], sys_shutdownComplete = False\<rparr>, w)"

fun discoverAll ::
  "('m, 'p) ManagerOps \<Rightarrow> (string \<times> 'm) list \<Rightarrow> world \<Rightarrow> ('p ControllerInfo option list \<times> (string \<times> 'm) list \<times> world) option" where
  "discoverAll V [] w = Some ([], [], w)"
| "discoverAll V ((d, m) # ms) w = do {
     (found, m', w1) \<leftarrow> v_discover V m w;
     (rest, ms', w2) \<leftarrow> discoverAll V ms w1;
     Some (map (map_option (setDriverId d)) found @ rest, (d, m') # ms', w2) }"

definition sys_discoverControllers ::
  "('m, 'p) ManagerOps \<Rightarrow> 'm System \<Rightarrow> world \<Rightarrow> ('p ControllerInfo option list \<times> 'm System \<times> world) option" where
  "sys_discoverControllers V s w =
     (case discoverAll V (sys_managers s) w of
        None \<Rightarrow> None | Some (infos, ms, w') \<Rightarrow> Some (infos, s\<lparr>sys_managers := ms\<rparr>, w'))"

definition managerFor :: "'m System \<Rightarrow> string \<Rightarrow> nat option" where
  "managerFor s driverId =
     (case map_of (sys_byDriverId s) driverId of
        None \<Rightarrow> None | Some n \<Rightarrow> if n < length (sys_managers s) then Some n else None)"

definition replaceManager :: "nat \<Rightarrow> 'm \<Rightarrow> 'm System \<Rightarrow> 'm System" where
  "replaceManager n m s = s\<lparr>sys_managers := (sys_managers s)[n := (fst (sys_managers s ! n), m)]\<rparr>"

definition sys_connectController ::
  "('m, 'p) ManagerOps \<Rightarrow> 'p ControllerInfo \<Rightarrow> 'm System \<Rightarrow> world \<Rightarrow> nat option \<times> 'm System \<times> world" where
  "sys_connectController V i s w =
     (case managerFor s (driverIdString i) of
        None \<Rightarrow> (None, s, w)
      | Some n \<Rightarrow>
          (case v_connect V i (snd (sys_managers s ! n)) w of
             (r, m, w1) \<Rightarrow>
               (r, replaceManager n m s, case r of None \<Rightarrow> w1 | Some c \<Rightarrow> setControllerIdentity c (ci_id i) (ci_label i) w1)))"

definition sys_disconnectController ::
  "('m, 'p) ManagerOps \<Rightarrow> string \<Rightarrow> string \<Rightarrow> 'm System \<Rightarrow> world \<Rightarrow> bool \<times> 'm System \<times> world" where
  "sys_disconnectController V driverId k s w =
     (case managerFor s driverId of
        None \<Rightarrow> (False, s, w)
      | Some n \<Rightarrow>
          (case v_disconnect V k (snd (sys_managers s ! n)) w of (b, m, w1) \<Rightarrow> (b, replaceManager n m s, w1)))"

fun closeEach :: "('m, 'p) ManagerOps \<Rightarrow> (string \<times> 'm) list \<Rightarrow> world \<Rightarrow> (string \<times> 'm) list \<times> world" where
  "closeEach V [] w = ([], w)"
| "closeEach V ((d, m) # ms) w =
     (case v_closeAll V m w of (m', w1) \<Rightarrow> case closeEach V ms w1 of (ms', w2) \<Rightarrow> ((d, m') # ms', w2))"

text \<open>Closing every manager in reverse order, then destroying them (\<open>managers.clear()\<close>).\<close>

definition sys_shutdown :: "('m, 'p) ManagerOps \<Rightarrow> 'm System \<Rightarrow> world \<Rightarrow> 'm System \<times> world" where
  "sys_shutdown V s w =
     (if sys_shutdownComplete s then (s, w)
      else case closeEach V (rev (sys_managers s)) w of (closed, w1) \<Rightarrow>
        (s\<lparr>sys_byDriverId := [], sys_managers := [], sys_shutdownComplete := True\<rparr>,
         fold (\<lambda>(d, m). v_destroy V m) (rev closed) w1))"

end
