(* ===== verification/System_Drivers.thy ===== *)
theory System_Drivers
  imports Extension_Managers System_Core
begin

text \<open>
  The drivers \<open>System\<close> is given: the registrars in the headers of the built-in managers and the
  registration of a loaded plugin (plugin/PluginManager.cpp), and the virtual functions of the
  managers they construct.
\<close>

section \<open>Managers of every family\<close>

datatype driver_manager =
    EtherDreamM "EtherDreamManagerState Manager"
  | LaserCubeNetM "LaserCubeManagerState Manager"
  | LaserCubeUsbM "LaserCubeUsbState Manager"
  | LightSpaceM "LightSpaceManagerState Manager"
  | HeliosM "HeliosManagerState Manager"
  | IdnM "IdnManagerState Manager"
  | LiberaM "unit Manager"
  | PluginM "PluginState Manager"

primrec driver_type :: "driver_manager \<Rightarrow> string" where
  "driver_type (EtherDreamM m) = m_type m"
| "driver_type (LaserCubeNetM m) = m_type m"
| "driver_type (LaserCubeUsbM m) = m_type m"
| "driver_type (LightSpaceM m) = m_type m"
| "driver_type (HeliosM m) = m_type m"
| "driver_type (IdnM m) = m_type m"
| "driver_type (LiberaM m) = m_type m"
| "driver_type (PluginM m) = m_type m"

primrec driver_cache :: "driver_manager \<Rightarrow> cache" where
  "driver_cache (EtherDreamM m) = m_cache m"
| "driver_cache (LaserCubeNetM m) = m_cache m"
| "driver_cache (LaserCubeUsbM m) = m_cache m"
| "driver_cache (LightSpaceM m) = m_cache m"
| "driver_cache (HeliosM m) = m_cache m"
| "driver_cache (IdnM m) = m_cache m"
| "driver_cache (LiberaM m) = m_cache m"
| "driver_cache (PluginM m) = m_cache m"

text \<open>What the environment answers to one call of \<open>System\<close>: the clock, the devices on the buses,
  the packets heard, the controllers a plugin emits, and the order of hash tables.\<close>

record Surroundings =
  su_rank :: "string \<Rightarrow> nat"
  su_now :: time_point
  su_laserCubes :: "LaserCubeUsbDevice list option"
  su_healthy :: "nat \<Rightarrow> bool"
  su_helioses :: "UsbDevice list option"
  su_heliosMaxPps :: u32
  su_heliosPath :: "nat \<Rightarrow> string"
  su_idn :: IdnInputs
  su_advertised :: "bytes \<Rightarrow> DiscoveryAdvertisement option"
  su_liberaSocket :: "bool \<times> bool"
  su_liberaWindow :: "string option"
  su_liberaPackets :: "(time_point \<times> receipt) list"
  su_emitted :: "string \<Rightarrow> PluginFields list"

definition rewrap :: "('s \<Rightarrow> driver_manager) \<Rightarrow> 'r \<times> 's \<times> world \<Rightarrow> 'r \<times> driver_manager \<times> world" where
  "rewrap C x = (case x of (r, m, w) \<Rightarrow> (r, C m, w))"

definition unasked :: "(info list \<times> 's) \<Rightarrow> world \<Rightarrow> 's Manager \<Rightarrow> info list \<times> 's Manager \<times> world" where
  "unasked x w m = (case x of (infos, own) \<Rightarrow> (infos, m\<lparr>m_own := own\<rparr>, w))"

definition driver_discover ::
  "Surroundings \<Rightarrow> driver_manager \<Rightarrow> world \<Rightarrow> (info option list \<times> driver_manager \<times> world) option" where
  "driver_discover E dm w =
     map_option (\<lambda>(infos, dm', w'). (map Some infos, dm', w'))
      (case dm of
         EtherDreamM m \<Rightarrow> Some (rewrap EtherDreamM (unasked (edm_discover (su_now E) (m_own m)) w m))
       | LaserCubeNetM m \<Rightarrow> Some (lcm_discover (m_own m), LaserCubeNetM m, w)
       | LaserCubeUsbM m \<Rightarrow> Some (rewrap LaserCubeUsbM (lum_discover (su_healthy E) (su_laserCubes E) m w))
       | LightSpaceM m \<Rightarrow> Some (rewrap LightSpaceM (unasked (lsm_discover (m_own m)) w m))
       | HeliosM m \<Rightarrow> map_option (rewrap HeliosM) (hel_discover (su_heliosMaxPps E) (su_helioses E) m w (su_heliosPath E))
       | IdnM m \<Rightarrow> Some (rewrap IdnM (idn_discover (su_idn E) m w))
       | LiberaM m \<Rightarrow>
           Some (lib_discover (su_advertised E) (fst (su_liberaSocket E)) (snd (su_liberaSocket E)) (su_liberaWindow E)
                   (su_now E) (su_liberaPackets E), LiberaM m, w)
       | PluginM m \<Rightarrow> Some (rewrap PluginM (pg_discover (su_emitted E (m_type m)) m w)))"

definition driver_connect :: "Surroundings \<Rightarrow> info \<Rightarrow> driver_manager \<Rightarrow> world \<Rightarrow> nat option \<times> driver_manager \<times> world" where
  "driver_connect E i dm w =
     (case dm of
        EtherDreamM m \<Rightarrow> rewrap EtherDreamM (mgr_connect (etherDreamHooks (su_rank E)) i m w)
      | LaserCubeNetM m \<Rightarrow> rewrap LaserCubeNetM (mgr_connect (laserCubeNetHooks (su_rank E)) i m w)
      | LaserCubeUsbM m \<Rightarrow> rewrap LaserCubeUsbM (mgr_connect (laserCubeUsbHooks (su_rank E)) i m w)
      | LightSpaceM m \<Rightarrow> rewrap LightSpaceM (mgr_connect (lightSpaceHooks (su_rank E)) i m w)
      | HeliosM m \<Rightarrow> rewrap HeliosM (mgr_connect (heliosHooks (su_rank E)) i m w)
      | IdnM m \<Rightarrow> rewrap IdnM (mgr_connect (idnHooks (su_rank E)) i m w)
      | LiberaM m \<Rightarrow> rewrap LiberaM (mgr_connect (liberaHooks (su_rank E)) i m w)
      | PluginM m \<Rightarrow> rewrap PluginM (mgr_connect (pluginHooks (su_rank E)) i m w))"

definition driver_disconnect :: "Surroundings \<Rightarrow> string \<Rightarrow> driver_manager \<Rightarrow> world \<Rightarrow> bool \<times> driver_manager \<times> world" where
  "driver_disconnect E k dm w =
     (case dm of
        EtherDreamM m \<Rightarrow> rewrap EtherDreamM (mgr_disconnect (etherDreamHooks (su_rank E)) k m w)
      | LaserCubeNetM m \<Rightarrow> rewrap LaserCubeNetM (mgr_disconnect (laserCubeNetHooks (su_rank E)) k m w)
      | LaserCubeUsbM m \<Rightarrow> rewrap LaserCubeUsbM (mgr_disconnect (laserCubeUsbHooks (su_rank E)) k m w)
      | LightSpaceM m \<Rightarrow> rewrap LightSpaceM (mgr_disconnect (lightSpaceHooks (su_rank E)) k m w)
      | HeliosM m \<Rightarrow> rewrap HeliosM (mgr_disconnect (heliosHooks (su_rank E)) k m w)
      | IdnM m \<Rightarrow> rewrap IdnM (mgr_disconnect (idnHooks (su_rank E)) k m w)
      | LiberaM m \<Rightarrow> rewrap LiberaM (mgr_disconnect (liberaHooks (su_rank E)) k m w)
      | PluginM m \<Rightarrow> rewrap PluginM (mgr_disconnect (pluginHooks (su_rank E)) k m w))"

definition driver_closeAll :: "Surroundings \<Rightarrow> driver_manager \<Rightarrow> world \<Rightarrow> driver_manager \<times> world" where
  "driver_closeAll E dm w =
     (case dm of
        EtherDreamM m \<Rightarrow> map_prod EtherDreamM id (mgr_closeAll (etherDreamHooks (su_rank E)) m w)
      | LaserCubeNetM m \<Rightarrow> map_prod LaserCubeNetM id (mgr_closeAll (laserCubeNetHooks (su_rank E)) m w)
      | LaserCubeUsbM m \<Rightarrow> map_prod LaserCubeUsbM id (mgr_closeAll (laserCubeUsbHooks (su_rank E)) m w)
      | LightSpaceM m \<Rightarrow> map_prod LightSpaceM id (mgr_closeAll (lightSpaceHooks (su_rank E)) m w)
      | HeliosM m \<Rightarrow> map_prod HeliosM id (mgr_closeAll (heliosHooks (su_rank E)) m w)
      | IdnM m \<Rightarrow> map_prod IdnM id (mgr_closeAll (idnHooks (su_rank E)) m w)
      | LiberaM m \<Rightarrow> map_prod LiberaM id (mgr_closeAll (liberaHooks (su_rank E)) m w)
      | PluginM m \<Rightarrow> map_prod PluginM id (mgr_closeAll (pluginHooks (su_rank E)) m w))"

text \<open>Every destructor calls \<open>closeAll\<close>; what is left then holds no controller.\<close>

definition driver_destroy :: "Surroundings \<Rightarrow> driver_manager \<Rightarrow> world \<Rightarrow> world" where
  "driver_destroy E dm w = snd (driver_closeAll E dm w)"

definition driverOps :: "Surroundings \<Rightarrow> (driver_manager, derived) ManagerOps" where
  "driverOps E =
     \<lparr>v_managedType = driver_type, v_discover = driver_discover E, v_connect = driver_connect E,
      v_disconnect = driver_disconnect E, v_closeAll = driver_closeAll E, v_destroy = driver_destroy E\<rparr>"

section \<open>Discovery threads\<close>

text \<open>What the discovery thread of a manager does with one packet, or between two.\<close>

datatype thread_event = Hears receipt time_point | Prunes clock

definition driver_listen :: "thread_event \<Rightarrow> driver_manager \<Rightarrow> world \<Rightarrow> (driver_manager \<times> world) option" where
  "driver_listen e dm w =
     (case e of
        Hears r t \<Rightarrow>
          (case dm of
             EtherDreamM m \<Rightarrow>
               if edm_socket (m_own m)
               then map_option (\<lambda>(goesOn, own). (EtherDreamM (m\<lparr>m_own := own\<rparr>), w)) (edm_receive r t (m_own m))
               else Some (dm, w)
           | LaserCubeNetM m \<Rightarrow>
               if lcm_running (m_own m)
               then map_option (\<lambda>(goesOn, m', w'). (LaserCubeNetM m', w')) (lcm_receive r t m w)
               else Some (dm, w)
           | LightSpaceM m \<Rightarrow>
               if lsm_running (m_own m)
               then map_option (\<lambda>(goesOn, m', w'). (LightSpaceM m', w')) (lsm_receive r t m w)
               else Some (dm, w)
           | _ \<Rightarrow> Some (dm, w))
      | Prunes clk \<Rightarrow>
          (case dm of
             LaserCubeNetM m \<Rightarrow>
               Some (LaserCubeNetM (m\<lparr>m_own := (m_own m)\<lparr>lcm_controllers := lcm_prune clk (lcm_controllers (m_own m))\<rparr>\<rparr>), w)
           | LightSpaceM m \<Rightarrow> Some (LightSpaceM (m\<lparr>m_own := lsm_pruneStaleControllers clk (m_own m)\<rparr>), w)
           | _ \<Rightarrow> Some (dm, w)))"

section \<open>Registrations\<close>

text \<open>A plugin as \<open>loadPlugin\<close> gives it, with what its interface offers.\<close>

record LoadedPlugin =
  lp_pluginId :: string
  lp_controllerType :: string
  lp_displayName :: string
  lp_vendor :: string
  lp_description :: string
  lp_hasCreate :: bool
  lp_hasDestroy :: bool
  lp_hasRescan :: bool

text \<open>The drivers, with what their constructors find: whether the Ether Dream socket opens and
  binds, and whether libusb starts.\<close>

datatype driver =
    EtherDreamDriver bool bool
  | LaserCubeNetDriver
  | LaserCubeUsbDriver bool
  | LightSpaceDriver
  | HeliosDriver bool
  | IdnDriver
  | LiberaDriver
  | PluginDriver LoadedPlugin

definition builtIn :: "string \<Rightarrow> string \<Rightarrow> string \<Rightarrow> string \<Rightarrow> ControllerManagerInfo" where
  "builtIn i t n d = \<lparr>cmi_driverId = i, cmi_type = t, cmi_displayName = n, cmi_description = d, cmi_builtIn = True\<rparr>"

primrec driver_info :: "driver \<Rightarrow> ControllerManagerInfo" where
  "driver_info (EtherDreamDriver opens binds) =
     builtIn ''libera.builtin.etherdream'' ''EtherDream'' ''Ether Dream''
       ''Network DACs discovered from Ether Dream broadcasts.''"
| "driver_info LaserCubeNetDriver =
     builtIn ''libera.builtin.lasercube-net'' ''LaserCubeNet'' ''LaserCube Net''
       ''Network LaserCube controllers discovered by broadcast.''"
| "driver_info (LaserCubeUsbDriver libusb) =
     builtIn ''libera.builtin.lasercube-usb'' ''LaserCubeUSB'' ''LaserCube USB''
       ''LaserCube controllers connected by USB.''"
| "driver_info LightSpaceDriver =
     builtIn ''libera.builtin.lightspace-net'' ''LightSpaceNet'' ''LightSpace Net''
       ''LS-Net network controllers discovered by LightSpace broadcast.''"
| "driver_info (HeliosDriver libusb) = builtIn ''libera.builtin.helios'' ''Helios'' ''Helios'' ''Helios USB controllers.''"
| "driver_info IdnDriver = builtIn ''libera.builtin.idn'' ''IDN'' ''IDN'' ''Helios IDN network controllers.''"
| "driver_info LiberaDriver =
     builtIn ''libera.builtin.libera-protocol'' ''LiberaProtocol'' ''Libera Protocol''
       ''Libera protocol receivers discovered by UDP advertisement.''"
| "driver_info (PluginDriver p) =
     \<lparr>cmi_driverId = lp_pluginId p, cmi_type = lp_controllerType p, cmi_displayName = lp_displayName p,
      cmi_description = (if lp_description p = '''' then ''Unsigned native plugin from '' @ lp_vendor p else lp_description p),
      cmi_builtIn = False\<rparr>"

definition newManager :: "string \<Rightarrow> 's \<Rightarrow> 's Manager" where
  "newManager t own = \<lparr>m_type = t, m_cache = [], m_own = own\<rparr>"

primrec driver_make :: "driver \<Rightarrow> driver_manager" where
  "driver_make (EtherDreamDriver opens binds) = EtherDreamM (newManager ''EtherDream'' (edm_construct opens binds))"
| "driver_make LaserCubeNetDriver = LaserCubeNetM (newManager ''LaserCubeNet'' lcm_construct)"
| "driver_make (LaserCubeUsbDriver libusb) = LaserCubeUsbM (newManager ''LaserCubeUSB'' \<lparr>lum_context = libusb\<rparr>)"
| "driver_make LightSpaceDriver = LightSpaceM (newManager ''LightSpaceNet'' lsm_construct)"
| "driver_make (HeliosDriver libusb) = HeliosM (newManager ''Helios'' \<lparr>hm_usbContext = libusb, hm_stableLabels = []\<rparr>)"
| "driver_make IdnDriver = IdnM (newManager ''IDN'' idm_construct)"
| "driver_make LiberaDriver = LiberaM (newManager ''LiberaProtocol'' ())"
| "driver_make (PluginDriver p) = PluginM (newManager (lp_controllerType p)
     \<lparr>pg_present = True, pg_type = lp_controllerType p, pg_hasCreate = lp_hasCreate p, pg_hasDestroy = lp_hasDestroy p,
      pg_hasRescan = lp_hasRescan p, pg_backend = False, pg_initialised = False, pg_events = []\<rparr>)"

definition registrationOf :: "driver \<Rightarrow> driver_manager Registration" where
  "registrationOf d = \<lparr>reg_info = driver_info d, reg_factory = Some (\<lambda>w. (Some (driver_make d), w))\<rparr>"

text \<open>The registry after these drivers registered, in this order.\<close>

definition registry :: "driver list \<Rightarrow> driver_manager Registration list" where
  "registry ds = fold (\<lambda>d. AddControllerManager (registrationOf d)) ds []"

end
