(* ===== verification/System_Lifecycle.thy ===== *)
theory System_Lifecycle
  imports Manager_Lifecycle System_Core "HOL-Library.Multiset"
begin

text \<open>
  What core/System.cpp keeps of its managers, whatever they are. The locale \<open>drivers\<close> states what
  \<open>System\<close> may expect of the virtual functions of a manager and of its discovery thread; the steps
  of a run are the calls of the application and everything that happens between them.
\<close>

section \<open>Quiet steps\<close>

text \<open>Calls that neither end nor begin the life of an object.\<close>

definition chatter :: "world \<Rightarrow> world \<Rightarrow> bool" where
  "chatter w w' =
     (w_next w' = w_next w \<and> w_refs w' = w_refs w \<and>
      (\<exists>l. w_calls w' = w_calls w @ l \<and> ends l = [] \<and> list_all (\<lambda>x. subject x < w_next w \<and> \<not> is_life x) l))"

text \<open>Entries of dead objects may leave the cache.\<close>

definition shrinks :: "world \<Rightarrow> cache \<Rightarrow> cache \<Rightarrow> bool" where
  "shrinks w cs cs' =
     (\<exists>P. cs' = filter P cs \<and> list_all (\<lambda>e. P e \<or> w_refs w (snd e) = 0) cs)"

lemma chatterI [intro]: "same_objects w w' \<Longrightarrow> chatter w w'"
  by (simp add: chatter_def same_objects_def ends_def)

lemma chatter_trans: "chatter u v \<Longrightarrow> chatter v w \<Longrightarrow> chatter u w"
  unfolding chatter_def by (auto simp: ends_def)

lemma chatter_called: "subject x < w_next w \<Longrightarrow> \<not> is_life x \<Longrightarrow> \<not> is_end x \<Longrightarrow> chatter w (called x w)"
  by (auto simp: chatter_def object_simps)

lemma chatter_refs: "chatter w w' \<Longrightarrow> w_next w' = w_next w \<and> w_refs w' = w_refs w"
  by (simp add: chatter_def)

lemma shrinks_refl [intro]: "shrinks w cs cs"
  by (auto simp: shrinks_def list_all_iff intro!: exI [of _ "\<lambda>e. True"])

lemma shrinks_live [intro]: "shrinks w cs (liveEntries cs w)"
  by (auto simp: shrinks_def liveEntries_def list_all_iff weak_lock_def intro!: exI [of _ "\<lambda>(k, c). weak_lock w c"])

lemma shrinks_delete:
  assumes "distinct (map fst cs)" "map_of cs k = Some c" "w_refs w c = 0"
  shows "shrinks w cs (AList.delete k cs)"
proof -
  have "snd e = c" if "e \<in> set cs" "fst e = k" for e
    using assms(1,2) that by (metis option.inject map_of_is_SomeI prod.collapse)
  then show ?thesis
    using assms(3) by (auto simp: shrinks_def delete_as_filter list_all_iff intro!: exI [of _ "\<lambda>e. fst e \<noteq> k"])
qed

lemma world_ok_chatter:
  assumes "chatter w w'" "world_ok C w"
  shows "world_ok C w'"
proof -
  from assms(1) obtain l where l: "w_next w' = w_next w" "w_refs w' = w_refs w" "w_calls w' = w_calls w @ l" "ends l = []"
    "list_all (\<lambda>x. subject x < w_next w \<and> \<not> is_life x) l" by (auto simp: chatter_def)
  from not_closed_in [OF l(4)] assms(2) l show ?thesis by (auto simp: world_ok_def list_all_iff)
qed

lemma no_orphans_chatter: "chatter w w' \<Longrightarrow> no_orphans C w \<Longrightarrow> no_orphans C w'"
  by (auto simp: chatter_def no_orphans_def)

lemma mgr_ok_quiet_step:
  assumes "mgr_ok R cs w" "shrinks w cs cs'" "chatter w w'"
  shows "mgr_ok R cs' w'" and "no_orphans (addresses cs \<union> R) w \<Longrightarrow> no_orphans (addresses cs' \<union> R) w'"
proof -
  from assms(2) obtain P where P: "cs' = filter P cs" "list_all (\<lambda>e. P e \<or> w_refs w (snd e) = 0) cs"
    by (auto simp: shrinks_def)
  have sub: "addresses cs' \<subseteq> addresses cs" by (auto simp: P(1) addresses_def)
  then have "world_ok (addresses cs' \<union> R) w" using assms(1) by (auto simp: mgr_ok_def elim: world_ok_mono)
  then have "world_ok (addresses cs' \<union> R) w'" by (rule world_ok_chatter [OF assms(3)])
  moreover have "cache_ok R cs'"
    using assms(1) sub by (auto simp: mgr_ok_def cache_ok_def P(1) distinct_map_filter)
  ultimately show "mgr_ok R cs' w'" by (simp add: mgr_ok_def)
  assume o: "no_orphans (addresses cs \<union> R) w"
  have "no_orphans (addresses cs' \<union> R) w"
    unfolding no_orphans_def
  proof (intro allI impI)
    fix c assume c: "0 < w_refs w c" "CloseCalled c \<notin> set (w_calls w)"
    with o have "c \<in> addresses cs \<union> R" by (simp add: no_orphans_def)
    moreover have "c \<in> addresses cs'" if "c \<in> addresses cs"
      using that c(1) P by (force simp: addresses_def list_all_iff)
    ultimately show "c \<in> addresses cs' \<union> R" by blast
  qed
  then show "no_orphans (addresses cs' \<union> R) w'" by (rule no_orphans_chatter [OF assms(3)])
qed

section \<open>All the caches together\<close>

definition all_entries :: "('m \<Rightarrow> cache) \<Rightarrow> (string \<times> 'm) list \<Rightarrow> cache" where
  "all_entries cache_of ms = concat (map (\<lambda>dm. cache_of (snd dm)) ms)"

definition caches_ok :: "('m \<Rightarrow> cache) \<Rightarrow> (string \<times> 'm) list \<Rightarrow> world \<Rightarrow> bool" where
  "caches_ok cache_of ms w =
     (list_all (\<lambda>dm. distinct (map fst (cache_of (snd dm)))) ms \<and> distinct (map snd (all_entries cache_of ms)) \<and>
      world_ok (addresses (all_entries cache_of ms)) w)"

definition caches_complete :: "('m \<Rightarrow> cache) \<Rightarrow> (string \<times> 'm) list \<Rightarrow> world \<Rightarrow> bool" where
  "caches_complete cache_of ms w = no_orphans (addresses (all_entries cache_of ms)) w"

lemma all_entries_simps [simp]:
  "all_entries f [] = []"
  "all_entries f (dm # ms) = f (snd dm) @ all_entries f ms"
  "all_entries f (xs @ ys) = all_entries f xs @ all_entries f ys"
  by (simp_all add: all_entries_def)

lemma addresses_append [simp]: "addresses (xs @ ys) = addresses xs \<union> addresses ys"
  by (auto simp: addresses_def)

text \<open>One manager among the others.\<close>

lemma caches_ok_focus:
  "caches_ok f (xs @ (d, m) # ys) w \<longleftrightarrow>
     mgr_ok (addresses (all_entries f (xs @ ys))) (f m) w \<and>
     list_all (\<lambda>dm. distinct (map fst (f (snd dm)))) (xs @ ys) \<and> distinct (map snd (all_entries f (xs @ ys)))"
  by (auto simp: caches_ok_def mgr_ok_def cache_ok_def addresses_def image_Un Un_ac)

lemma caches_complete_focus:
  "caches_complete f (xs @ (d, m) # ys) w \<longleftrightarrow> no_orphans (addresses (f m) \<union> addresses (all_entries f (xs @ ys))) w"
  by (simp add: caches_complete_def Un_ac)

lemma caches_ok_world: "caches_ok f ms w \<Longrightarrow> (\<And>C. world_ok C w \<Longrightarrow> world_ok C w') \<Longrightarrow> caches_ok f ms w'"
  by (auto simp: caches_ok_def)

lemma caches_ok_bound: "caches_ok f ms w \<Longrightarrow> weak_lock w c \<Longrightarrow> c < w_next w"
  by (auto simp: caches_ok_def world_ok_def weak_lock_def not_less [symmetric])

lemma caches_step:
  assumes "caches_ok f ms w" "n < length ms" "ms ! n = (d, m)"
    and "\<And>R. mgr_ok R (f m) w \<Longrightarrow> mgr_ok R (f m') w'"
  shows "caches_ok f (ms[n := (d, m')]) w'"
    and "(\<And>R. mgr_ok R (f m) w \<Longrightarrow> no_orphans (addresses (f m) \<union> R) w \<Longrightarrow> no_orphans (addresses (f m') \<union> R) w') \<Longrightarrow>
         caches_complete f ms w \<Longrightarrow> caches_complete f (ms[n := (d, m')]) w'"
proof -
  define xs ys where "xs = take n ms" and "ys = drop (Suc n) ms"
  have old: "ms = xs @ (d, m) # ys" using assms(2,3) id_take_nth_drop [of n ms] by (simp add: xs_def ys_def)
  have new: "ms[n := (d, m')] = xs @ (d, m') # ys"
    using assms(2) by (simp add: xs_def ys_def upd_conv_take_nth_drop)
  let ?R = "addresses (all_entries f (xs @ ys))"
  have ok: "mgr_ok ?R (f m) w" using assms(1) by (simp only: old caches_ok_focus)
  from assms(4) [OF this] assms(1) show "caches_ok f (ms[n := (d, m')]) w'"
    unfolding new unfolding old caches_ok_focus by blast
  assume "\<And>R. mgr_ok R (f m) w \<Longrightarrow> no_orphans (addresses (f m) \<union> R) w \<Longrightarrow> no_orphans (addresses (f m') \<union> R) w'"
    "caches_complete f ms w"
  with ok show "caches_complete f (ms[n := (d, m')]) w'"
    unfolding new unfolding old caches_complete_focus by blast
qed

text \<open>What is fixed of the managers: their driver ids and types, and whether they reuse.\<close>

definition driver_kinds :: "('m, 'p) ManagerOps \<Rightarrow> ('m \<Rightarrow> bool) \<Rightarrow> (string \<times> 'm) list \<Rightarrow> (string \<times> string \<times> bool) list" where
  "driver_kinds V reuses ms = map (\<lambda>dm. (fst dm, v_managedType V (snd dm), reuses (snd dm))) ms"

lemma driver_kinds_step:
  assumes "n < length ms" "ms ! n = (d, m)" "v_managedType V m' = v_managedType V m" "reuses m' = reuses m"
  shows "driver_kinds V reuses (ms[n := (d, m')]) = driver_kinds V reuses ms"
  using assms by (auto simp: driver_kinds_def map_update intro!: list_update_same_conv [THEN iffD2])

section \<open>A run\<close>

text \<open>The application's calls; a packet reaching the discovery thread of a manager; what the
  application does with the pointers it holds; a device's link going up or down.\<close>

datatype ('p, 'ev) sys_op =
    Discover
  | ConnectTo "'p ControllerInfo"
  | DisconnectFrom string string
  | Shutdown
  | ThreadHears nat 'ev
  | AppCopies nat
  | AppDrops nat
  | LinkMoves nat bool

definition sys_step ::
  "('m, 'p) ManagerOps \<Rightarrow> ('ev \<Rightarrow> 'm \<Rightarrow> world \<Rightarrow> ('m \<times> world) option) \<Rightarrow> ('p, 'ev) sys_op \<Rightarrow> 'm System \<times> world
     \<Rightarrow> ('m System \<times> world) option" where
  "sys_step V listen x sw =
     (case sw of (s, w) \<Rightarrow>
      case x of
        Discover \<Rightarrow> map_option snd (sys_discoverControllers V s w)
      | ConnectTo i \<Rightarrow> Some (snd (sys_connectController V i s w))
      | DisconnectFrom d k \<Rightarrow> Some (snd (sys_disconnectController V d k s w))
      | Shutdown \<Rightarrow> Some (sys_shutdown V s w)
      | ThreadHears n e \<Rightarrow>
          if n < length (sys_managers s)
          then (case listen e (snd (sys_managers s ! n)) w of
                  None \<Rightarrow> None | Some (m, w') \<Rightarrow> Some (replaceManager n m s, w'))
          else Some (s, w)
      | AppCopies c \<Rightarrow> Some (s, if weak_lock w c then retain c w else w)
      | AppDrops c \<Rightarrow> Some (s, if weak_lock w c then release c w else w)
      | LinkMoves c b \<Rightarrow> Some (s, w\<lparr>w_up := (w_up w)(c := b)\<rparr>))"

section \<open>The contract of a driver\<close>

locale drivers =
  fixes V :: "('m, 'p) ManagerOps"
    and listen :: "'ev \<Rightarrow> 'm \<Rightarrow> world \<Rightarrow> ('m \<times> world) option"
    and cache_of :: "'m \<Rightarrow> cache"
    and reuses :: "'m \<Rightarrow> bool"
  assumes discover: "mgr_ok R (cache_of m) w \<Longrightarrow> v_discover V m w = Some (infos, m', w') \<Longrightarrow>
        shrinks w (cache_of m) (cache_of m') \<and> chatter w w' \<and>
        v_managedType V m' = v_managedType V m \<and> reuses m' = reuses m"
    and listen: "mgr_ok R (cache_of m) w \<Longrightarrow> listen e m w = Some (m', w') \<Longrightarrow>
        shrinks w (cache_of m) (cache_of m') \<and> chatter w w' \<and>
        v_managedType V m' = v_managedType V m \<and> reuses m' = reuses m"
    and connect: "mgr_ok R (cache_of m) w \<Longrightarrow> v_connect V i m w = (r, m', w') \<Longrightarrow>
        mgr_ok R (cache_of m') w' \<and>
        (reuses m \<longrightarrow> no_orphans (addresses (cache_of m) \<union> R) w \<longrightarrow> no_orphans (addresses (cache_of m') \<union> R) w') \<and>
        v_managedType V m' = v_managedType V m \<and> reuses m' = reuses m"
    and connected: "mgr_ok R (cache_of m) w \<Longrightarrow> v_connect V i m w = (Some c, m', w') \<Longrightarrow>
        c \<in> addresses (cache_of m') \<and> 0 < w_refs w' c"
    and disconnect: "mgr_ok R (cache_of m) w \<Longrightarrow> v_disconnect V k m w = (b, m', w') \<Longrightarrow>
        mgr_ok R (cache_of m') w' \<and>
        (no_orphans (addresses (cache_of m) \<union> R) w \<longrightarrow> no_orphans (addresses (cache_of m') \<union> R) w') \<and>
        v_managedType V m' = v_managedType V m \<and> reuses m' = reuses m"
    and closeAll: "distinct (map snd (cache_of m)) \<Longrightarrow> v_closeAll V m w = (m', w') \<Longrightarrow>
        cache_of m' = [] \<and> w_next w' = w_next w \<and> w_refs w' = w_refs w \<and>
        (\<exists>l es. w_calls w' = w_calls w @ l \<and> mset es = mset (map snd (liveEntries (cache_of m) w)) \<and>
              ends l = concat (map ended es) \<and> list_all (\<lambda>x. subject x \<in> addresses (cache_of m)) l)"
    and destroy: "v_destroy V m w = snd (v_closeAll V m w)"
begin

lemma destroy_empty: "cache_of m = [] \<Longrightarrow> same_objects w (v_destroy V m w)"
  using closeAll [of m w "fst (v_closeAll V m w)" "snd (v_closeAll V m w)"]
  by (auto simp: destroy same_objects_def addresses_def list_all_iff)

lemma destroy_all:
  "list_all (\<lambda>dm. cache_of (snd dm) = []) ms \<Longrightarrow> same_objects w (fold (\<lambda>(d, m). v_destroy V m) ms w)"
proof (induction ms arbitrary: w)
  case (Cons dm ms)
  then show ?case
    using destroy_empty [of "snd dm" w] by (auto simp: case_prod_beta intro: same_objects_trans)
qed auto

text \<open>Closing every manager stops and closes each live cached controller once.\<close>

lemma closeEach_effect:
  "distinct (map snd (all_entries cache_of ms)) \<Longrightarrow> closeEach V ms w = (ms', w') \<Longrightarrow>
     list_all (\<lambda>dm. cache_of (snd dm) = []) ms' \<and> w_next w' = w_next w \<and> w_refs w' = w_refs w \<and>
     (\<exists>l es. w_calls w' = w_calls w @ l \<and> mset es = mset (map snd (liveEntries (all_entries cache_of ms) w)) \<and>
             ends l = concat (map ended es) \<and> list_all (\<lambda>x. subject x \<in> addresses (all_entries cache_of ms)) l)"
proof (induction ms arbitrary: w ms' w')
  case Nil
  then show ?case by (auto simp: liveEntries_def ends_def)
next
  case (Cons dm ms)
  obtain d m where dm: "dm = (d, m)" by fastforce
  obtain m1 w1 where 1: "v_closeAll V m w = (m1, w1)" by fastforce
  obtain ms1 w2 where 2: "closeEach V ms w1 = (ms1, w2)" by fastforce
  have r: "ms' = (d, m1) # ms1" "w' = w2" using Cons.prems(2) 1 2 by (auto simp: dm)
  have dist: "distinct (map snd (cache_of m))" "distinct (map snd (all_entries cache_of ms))"
    using Cons.prems(1) by (auto simp: dm)
  from closeAll [OF dist(1) 1] obtain l es where a: "cache_of m1 = []" "w_next w1 = w_next w" "w_refs w1 = w_refs w"
    "w_calls w1 = w_calls w @ l" "mset es = mset (map snd (liveEntries (cache_of m) w))" "ends l = concat (map ended es)"
    "list_all (\<lambda>x. subject x \<in> addresses (cache_of m)) l" by blast
  from Cons.IH [OF dist(2) 2] obtain l' es' where b: "list_all (\<lambda>dm. cache_of (snd dm) = []) ms1"
    "w_next w2 = w_next w1" "w_refs w2 = w_refs w1" "w_calls w2 = w_calls w1 @ l'"
    "mset es' = mset (map snd (liveEntries (all_entries cache_of ms) w1))" "ends l' = concat (map ended es')"
    "list_all (\<lambda>x. subject x \<in> addresses (all_entries cache_of ms)) l'" by blast
  have live: "liveEntries cs w1 = liveEntries cs w" for cs
    using a(3) by (simp add: liveEntries_def weak_lock_def)
  have split: "liveEntries (xs @ ys) w = liveEntries xs w @ liveEntries ys w" for xs ys
    by (simp add: liveEntries_def)
  have "w_calls w2 = w_calls w @ (l @ l')" "mset (es @ es') = mset (map snd (liveEntries (all_entries cache_of (dm # ms)) w))"
    "ends (l @ l') = concat (map ended (es @ es'))"
    "list_all (\<lambda>x. subject x \<in> addresses (all_entries cache_of (dm # ms))) (l @ l')"
    using a b by (auto simp: dm live split object_simps list_all_iff)
  moreover have "list_all (\<lambda>dm. cache_of (snd dm) = []) ((d, m1) # ms1)" "w_next w2 = w_next w" "w_refs w2 = w_refs w"
    using a(1-3) b(1-3) by simp_all
  ultimately show ?case unfolding r by blast
qed

lemma shutdown_effect:
  assumes "caches_ok cache_of (sys_managers s) w" "\<not> sys_shutdownComplete s" "sys_shutdown V s w = (s', w')"
  shows "sys_managers s' = [] \<and> sys_byDriverId s' = [] \<and> sys_shutdownComplete s' \<and> w_next w' = w_next w \<and> w_refs w' = w_refs w \<and>
     (\<exists>l es. w_calls w' = w_calls w @ l \<and>
             mset es = mset (map snd (liveEntries (all_entries cache_of (sys_managers s)) w)) \<and>
             ends l = concat (map ended es) \<and>
             list_all (\<lambda>x. subject x \<in> addresses (all_entries cache_of (sys_managers s))) l)"
proof -
  obtain cl w1 where 1: "closeEach V (rev (sys_managers s)) w = (cl, w1)" by fastforce
  have r: "s' = s\<lparr>sys_byDriverId := [], sys_managers := [], sys_shutdownComplete := True\<rparr>"
    "w' = fold (\<lambda>(d, m). v_destroy V m) (rev cl) w1"
    using assms(2,3) 1 by (auto simp: sys_shutdown_def)
  have flat: "mset (all_entries cache_of (rev ms)) = mset (all_entries cache_of ms)" for ms
    by (induction ms) auto
  have live: "mset (map snd (liveEntries xs w)) = mset (map snd (liveEntries ys w))" if "mset xs = mset ys" for xs ys
    using that by (simp add: liveEntries_def mset_filter)
  have addr: "addresses xs = addresses ys" if "mset xs = mset ys" for xs ys
    using mset_eq_setD [OF that] by (simp add: addresses_def)
  have "distinct (map snd (all_entries cache_of (rev (sys_managers s))))"
    using assms(1) flat [of "sys_managers s"] by (metis caches_ok_def mset_eq_imp_distinct_iff mset_map)
  from closeEach_effect [OF this 1]
  have e: "list_all (\<lambda>dm. cache_of (snd dm) = []) (rev cl)" "w_next w1 = w_next w" "w_refs w1 = w_refs w"
    "\<exists>l es. w_calls w1 = w_calls w @ l \<and> mset es = mset (map snd (liveEntries (all_entries cache_of (sys_managers s)) w)) \<and>
       ends l = concat (map ended es) \<and> list_all (\<lambda>x. subject x \<in> addresses (all_entries cache_of (sys_managers s))) l"
    using live [OF flat [of "sys_managers s"]] addr [OF flat [of "sys_managers s"]] by auto
  from destroy_all [OF e(1), of w1] have "same_objects w1 w'" by (simp add: r)
  with e show ?thesis by (simp add: r same_objects_def)
qed

text \<open>The steps of a run.\<close>

lemma discoverAll_ok:
  "caches_ok cache_of (xs @ ms) w \<Longrightarrow> discoverAll V ms w = Some (infos, ms', w') \<Longrightarrow>
     caches_ok cache_of (xs @ ms') w' \<and>
     (caches_complete cache_of (xs @ ms) w \<longrightarrow> caches_complete cache_of (xs @ ms') w') \<and>
     driver_kinds V reuses ms' = driver_kinds V reuses ms"
proof (induction ms arbitrary: xs w infos ms' w')
  case Nil
  then show ?case by simp
next
  case (Cons dm ms)
  obtain d m where dm: "dm = (d, m)" by fastforce
  from Cons.prems(2) obtain a m1 w1 b ms1 where 1: "v_discover V m w = Some (a, m1, w1)"
    and 2: "discoverAll V ms w1 = Some (b, ms1, w')" and ms': "ms' = (d, m1) # ms1"
    by (auto simp: dm split: bind_splits)
  have n: "length xs < length (xs @ dm # ms)" "(xs @ dm # ms) ! length xs = (d, m)" by (simp_all add: dm)
  have D: "shrinks w (cache_of m) (cache_of m1) \<and> chatter w w1 \<and> v_managedType V m1 = v_managedType V m \<and> reuses m1 = reuses m"
    if "mgr_ok R (cache_of m) w" for R using discover [OF that 1] .
  have R: "mgr_ok (addresses (all_entries cache_of (xs @ ms))) (cache_of m) w"
    using Cons.prems(1) by (simp add: dm caches_ok_focus)
  have ok: "caches_ok cache_of ((xs @ [(d, m1)]) @ ms) w1"
    using caches_step(1) [OF Cons.prems(1) n] D mgr_ok_quiet_step(1) by (fastforce simp: dm)
  have complete: "caches_complete cache_of ((xs @ [(d, m1)]) @ ms) w1" if "caches_complete cache_of (xs @ dm # ms) w"
    using caches_step(2) [OF Cons.prems(1) n _ _ that, of m1 w1] D mgr_ok_quiet_step by (fastforce simp: dm)
  from Cons.IH [OF ok 2] complete D [OF R] show ?case by (simp add: ms' dm driver_kinds_def)
qed

lemma reusing_nth: "list_all (\<lambda>dm. reuses (snd dm)) ms \<Longrightarrow> n < length ms \<Longrightarrow> reuses (snd (ms ! n))"
  by (simp add: list_all_length)

lemma connect_step:
  assumes ok: "caches_ok cache_of (sys_managers s) w" and run: "sys_connectController V i s w = (r, s', w')"
  shows "caches_ok cache_of (sys_managers s') w' \<and>
     (list_all (\<lambda>dm. reuses (snd dm)) (sys_managers s) \<longrightarrow> caches_complete cache_of (sys_managers s) w \<longrightarrow>
        caches_complete cache_of (sys_managers s') w') \<and>
     driver_kinds V reuses (sys_managers s') = driver_kinds V reuses (sys_managers s) \<and>
     sys_byDriverId s' = sys_byDriverId s \<and>
     (\<forall>c. r = Some c \<longrightarrow> c \<in> addresses (all_entries cache_of (sys_managers s')) \<and> 0 < w_refs w' c \<and>
        w_identity w' c = (ci_id i, ci_label i))"
proof (cases "managerFor s (driverIdString i)")
  case None
  with ok run show ?thesis by (auto simp: sys_connectController_def)
next
  case (Some n)
  then have n: "n < length (sys_managers s)" by (auto simp: managerFor_def split: option.splits if_splits)
  obtain d m where dm: "sys_managers s ! n = (d, m)" by fastforce
  obtain r1 m1 w1 where 1: "v_connect V i m w = (r1, m1, w1)" using prod_cases3 by blast
  define w2 where "w2 = (case r1 of None \<Rightarrow> w1 | Some c \<Rightarrow> setControllerIdentity c (ci_id i) (ci_label i) w1)"
  have res: "r = r1" "sys_managers s' = (sys_managers s)[n := (d, m1)]" "sys_byDriverId s' = sys_byDriverId s" "w' = w2"
    using run Some dm 1 by (auto simp: sys_connectController_def replaceManager_def w2_def)
  have same: "same_objects w1 w2" by (auto simp: w2_def setControllerIdentity_def same_objects_def split: option.splits)
  note C = connect [OF _ 1]
  have "caches_ok cache_of (sys_managers s') w1" using caches_step(1) [OF ok n dm] C by (simp add: res)
  then have A: "caches_ok cache_of (sys_managers s') w'"
    using world_ok_same [OF same] by (auto simp: res caches_ok_def)
  have B: "caches_complete cache_of (sys_managers s') w'"
    if "list_all (\<lambda>dm. reuses (snd dm)) (sys_managers s)" "caches_complete cache_of (sys_managers s) w"
  proof -
    have "reuses m" using reusing_nth [OF that(1) n] by (simp add: dm)
    then have "caches_complete cache_of (sys_managers s') w1"
      unfolding res(2) using C by (intro caches_step(2) [OF ok n dm _ _ that(2)]) blast+
    then show ?thesis using no_orphans_same [OF same] by (simp add: res caches_complete_def)
  qed
  obtain R where R: "mgr_ok R (cache_of m) w"
    using ok id_take_nth_drop [OF n] by (metis caches_ok_focus dm)
  have E: "driver_kinds V reuses (sys_managers s') = driver_kinds V reuses (sys_managers s)"
    unfolding res(2) using C [OF R] by (intro driver_kinds_step [OF n dm]) auto
  have F: "c \<in> addresses (all_entries cache_of (sys_managers s')) \<and> 0 < w_refs w' c \<and> w_identity w' c = (ci_id i, ci_label i)"
    if "r = Some c" for c
  proof -
    have "c \<in> addresses (cache_of m1)" "0 < w_refs w1 c" using connected [OF R, of i c m1 w1] 1 that by (auto simp: res)
    moreover have "(d, m1) \<in> set (sys_managers s')" using n by (simp add: res set_update_memI)
    ultimately show ?thesis
      using that same by (force simp: addresses_def all_entries_def res w2_def setControllerIdentity_def same_objects_def)
  qed
  from A B E F res(3) show ?thesis by blast
qed

lemma disconnect_step:
  assumes ok: "caches_ok cache_of (sys_managers s) w" and run: "sys_disconnectController V d0 k s w = (b, s', w')"
  shows "caches_ok cache_of (sys_managers s') w' \<and>
     (caches_complete cache_of (sys_managers s) w \<longrightarrow> caches_complete cache_of (sys_managers s') w') \<and>
     driver_kinds V reuses (sys_managers s') = driver_kinds V reuses (sys_managers s) \<and> sys_byDriverId s' = sys_byDriverId s"
proof (cases "managerFor s d0")
  case None
  with ok run show ?thesis by (auto simp: sys_disconnectController_def)
next
  case (Some n)
  then have n: "n < length (sys_managers s)" by (auto simp: managerFor_def split: option.splits if_splits)
  obtain d m where dm: "sys_managers s ! n = (d, m)" by fastforce
  obtain b1 m1 w1 where 1: "v_disconnect V k m w = (b1, m1, w1)" using prod_cases3 by blast
  have res: "sys_managers s' = (sys_managers s)[n := (d, m1)]" "sys_byDriverId s' = sys_byDriverId s" "w' = w1"
    using run Some dm 1 by (auto simp: sys_disconnectController_def replaceManager_def)
  note C = disconnect [OF _ 1]
  obtain R where R: "mgr_ok R (cache_of m) w"
    using ok id_take_nth_drop [OF n] by (metis caches_ok_focus dm)
  show ?thesis
    using caches_step [OF ok n dm, of m1 w1] driver_kinds_step [OF n dm, of V m1 reuses] C C [OF R]
    by (auto simp: res)
qed

lemma listen_step:
  assumes ok: "caches_ok cache_of (sys_managers s) w" and n: "n < length (sys_managers s)"
    and run: "listen e (snd (sys_managers s ! n)) w = Some (m1, w')"
  shows "caches_ok cache_of (sys_managers (replaceManager n m1 s)) w' \<and>
     (caches_complete cache_of (sys_managers s) w \<longrightarrow> caches_complete cache_of (sys_managers (replaceManager n m1 s)) w') \<and>
     driver_kinds V reuses (sys_managers (replaceManager n m1 s)) = driver_kinds V reuses (sys_managers s)"
proof -
  obtain d m where dm: "sys_managers s ! n = (d, m)" by fastforce
  note L = listen [OF _ run [unfolded dm snd_conv]]
  obtain R where R: "mgr_ok R (cache_of m) w"
    using ok id_take_nth_drop [OF n] by (metis caches_ok_focus dm)
  have 1: "mgr_ok R (cache_of m) w \<Longrightarrow> mgr_ok R (cache_of m1) w'" for R
    using L [of R] mgr_ok_quiet_step(1) by blast
  have 2: "mgr_ok R (cache_of m) w \<Longrightarrow> no_orphans (addresses (cache_of m) \<union> R) w \<Longrightarrow> no_orphans (addresses (cache_of m1) \<union> R) w'" for R
    using L [of R] mgr_ok_quiet_step(2) by blast
  show ?thesis
    using caches_step [OF ok n dm 1] 2 driver_kinds_step [OF n dm, of V m1 reuses] L [OF R]
    by (auto simp: replaceManager_def dm)
qed

lemma shutdown_step:
  assumes ok: "caches_ok cache_of (sys_managers s) w" and run: "sys_shutdown V s w = (s', w')" and open_: "\<not> sys_shutdownComplete s"
  shows "caches_ok cache_of (sys_managers s') w' \<and>
     (caches_complete cache_of (sys_managers s) w \<longrightarrow> caches_complete cache_of (sys_managers s') w')"
proof -
  from shutdown_effect [OF ok open_ run] obtain l es where e: "sys_managers s' = []" "w_next w' = w_next w" "w_refs w' = w_refs w"
    "w_calls w' = w_calls w @ l" "mset es = mset (map snd (liveEntries (all_entries cache_of (sys_managers s)) w))"
    "ends l = concat (map ended es)" "list_all (\<lambda>x. subject x \<in> addresses (all_entries cache_of (sys_managers s))) l" by blast
  have "world_ok {} w'" using ok e by (force simp: caches_ok_def world_ok_def list_all_iff)
  moreover have "no_orphans {} w'" if "no_orphans (addresses (all_entries cache_of (sys_managers s))) w"
    unfolding no_orphans_def
  proof (intro allI impI)
    fix c assume c: "0 < w_refs w' c" "CloseCalled c \<notin> set (w_calls w')"
    then have "c \<in> addresses (all_entries cache_of (sys_managers s))"
      using that e(3,4) by (auto simp: no_orphans_def)
    then have "c \<in> set (map snd (liveEntries (all_entries cache_of (sys_managers s)) w))"
      using c(1) e(3) by (force simp: addresses_def liveEntries_def weak_lock_def)
    then have "c \<in> set es" using mset_eq_setD [OF e(5)] by simp
    then have "CloseCalled c \<in> set (ends l)" by (auto simp: e(6) ended_def)
    with c(2) show "c \<in> {}" by (auto simp: e(4) ends_def)
  qed
  ultimately show ?thesis by (simp add: e(1) caches_ok_def caches_complete_def addresses_def)
qed

lemma sys_step_ok:
  assumes ok: "caches_ok cache_of (sys_managers s) w" and run: "sys_step V listen x (s, w) = Some (s', w')"
  shows "caches_ok cache_of (sys_managers s') w' \<and>
     (list_all (\<lambda>dm. reuses (snd dm)) (sys_managers s) \<longrightarrow> caches_complete cache_of (sys_managers s) w \<longrightarrow>
        caches_complete cache_of (sys_managers s') w') \<and>
     (driver_kinds V reuses (sys_managers s') = driver_kinds V reuses (sys_managers s) \<and> sys_byDriverId s' = sys_byDriverId s \<or>
      sys_managers s' = [] \<and> sys_byDriverId s' = [])"
proof (cases x)
  case Discover
  with run obtain infos ms where d: "discoverAll V (sys_managers s) w = Some (infos, ms, w')" "s' = s\<lparr>sys_managers := ms\<rparr>"
    by (auto simp: sys_step_def sys_discoverControllers_def split: option.splits)
  from discoverAll_ok [of "[]", OF _ d(1)] ok d(2) show ?thesis by simp
next
  case (ConnectTo i)
  obtain r where "sys_connectController V i s w = (r, s', w')"
    using run ConnectTo by (cases "sys_connectController V i s w") (auto simp: sys_step_def)
  from connect_step [OF ok this] show ?thesis by blast
next
  case (DisconnectFrom d k)
  obtain b where "sys_disconnectController V d k s w = (b, s', w')"
    using run DisconnectFrom by (cases "sys_disconnectController V d k s w") (auto simp: sys_step_def)
  from disconnect_step [OF ok this] show ?thesis by blast
next
  case Shutdown
  with run have r: "sys_shutdown V s w = (s', w')" by (simp add: sys_step_def)
  show ?thesis
  proof (cases "sys_shutdownComplete s")
    case True
    with r ok show ?thesis by (auto simp: sys_shutdown_def)
  next
    case False
    from shutdown_step [OF ok r False] shutdown_effect [OF ok False r] show ?thesis by blast
  qed
next
  case (ThreadHears n e)
  show ?thesis
  proof (cases "n < length (sys_managers s)")
    case True
    with run ThreadHears obtain m1 where r: "listen e (snd (sys_managers s ! n)) w = Some (m1, w')" "s' = replaceManager n m1 s"
      by (auto simp: sys_step_def split: option.splits)
    from listen_step [OF ok True r(1)] r(2) show ?thesis by (simp add: replaceManager_def)
  next
    case False
    with run ThreadHears ok show ?thesis by (simp add: sys_step_def)
  qed
next
  case (AppCopies c)
  with run ok caches_ok_bound [OF ok, of c] show ?thesis
    by (auto simp: sys_step_def caches_complete_def world_ok_retain no_orphans_retain elim!: caches_ok_world)
next
  case (AppDrops c)
  with run ok caches_ok_bound [OF ok, of c] show ?thesis
    by (auto simp: sys_step_def caches_complete_def world_ok_release no_orphans_release elim!: caches_ok_world)
next
  case (LinkMoves c b)
  with run have "s' = s" "same_objects w w'" by (auto simp: sys_step_def same_objects_def)
  with ok show ?thesis by (auto simp: caches_complete_def elim: caches_ok_world world_ok_same no_orphans_same)
qed

end

end
