(* ===== verification/System_Families.thy ===== *)
theory System_Families
  imports System_Lifecycle System_Drivers
begin

text \<open>
  Every driver keeps the contract of \<open>drivers\<close>: what discovery, the discovery threads, connecting,
  disconnecting and closing do to the objects, for each family of managers.
\<close>

primrec driver_reuses :: "driver_manager \<Rightarrow> bool" where
  "driver_reuses (EtherDreamM m) = True"
| "driver_reuses (LaserCubeNetM m) = True"
| "driver_reuses (LaserCubeUsbM m) = True"
| "driver_reuses (LightSpaceM m) = True"
| "driver_reuses (HeliosM m) = False"
| "driver_reuses (IdnM m) = True"
| "driver_reuses (LiberaM m) = True"
| "driver_reuses (PluginM m) = True"

section \<open>The base class keeps its type\<close>

lemma mgr_connect_type: "mgr_connect H i m w = (r, m', w') \<Longrightarrow> m_type m' = m_type m"
  by (auto simp: mgr_connect_def split: if_splits prod.splits option.splits NewControllerDisposition.splits)

lemma mgr_disconnect_type: "mgr_disconnect H k m w = (b, m', w') \<Longrightarrow> m_type m' = m_type m"
  by (auto simp: mgr_disconnect_def split: prod.splits option.splits)

lemma mset_iterated: "mset (iterated rank es) = mset es"
  by (simp add: iterated_def)

section \<open>Snapshots and lookups\<close>

lemma liveControllers_quiet:
  assumes "mgr_ok R (m_cache m) w" "liveControllers m w = (live, m', w')"
  shows "live = liveEntries (m_cache m) w \<and> m' = m\<lparr>m_cache := live\<rparr> \<and> w' = fold (\<lambda>(k, c). retain c) live w"
  using assms(2) by (auto simp: liveControllers_def snapshotLocked_def Let_def)

text \<open>A pass over a snapshot that makes only calls on its controllers.\<close>

lemma snapshot_pass:
  assumes ok: "mgr_ok R (m_cache m) w" and live: "liveControllers m w = (live, m', w')"
    and pass: "chatter w' v"
  shows "shrinks w (m_cache m) (m_cache m') \<and> chatter w (dropSnapshot live v)"
proof -
  note L = liveControllers_quiet [OF ok live]
  have addr: "distinct (map snd (m_cache m))" using ok by (simp add: mgr_ok_def cache_ok_def)
  have refs: "w_refs v = w_refs (fold (\<lambda>(k, c). retain c) live w)" using pass L by (simp add: chatter_def)
  from snapshot_released [OF addr conjunct1 [OF L] refs] pass L
  have "chatter w (dropSnapshot live v)" by (auto simp: chatter_def hold_snapshot)
  then show ?thesis using L by auto
qed

lemma snapshot_only: "mgr_ok R (m_cache m) w \<Longrightarrow> liveControllers m w = (live, m', w') \<Longrightarrow>
    shrinks w (m_cache m) (m_cache m') \<and> chatter w (dropSnapshot live w')"
  by (rule snapshot_pass) auto

lemma tellActive_quiet:
  assumes ok: "mgr_ok R (m_cache m) w" and run: "tellActive k m w = (m', w')"
  shows "shrinks w (m_cache m) (m_cache m') \<and> chatter w w' \<and> m_type m' = m_type m"
proof (cases "map_of (m_cache m) k")
  case None
  with run show ?thesis by (auto simp: tellActive_def findLiveController_def findLiveLocked_def)
next
  case (Some c)
  have c: "c < w_next w" using ok map_of_in [OF Some] by (auto simp: mgr_ok_def world_ok_def addresses_def)
  have keys: "distinct (map fst (m_cache m))" using ok by (simp add: mgr_ok_def cache_ok_def)
  show ?thesis
  proof (cases "weak_lock w c")
    case True
    with run Some have r: "m' = m" "w' = release c (called (StatusUpdated c) (retain c w))"
      by (auto simp: tellActive_def findLiveController_def findLiveLocked_def)
    have "w_refs w' = w_refs w" "w_next w' = w_next w" "w_calls w' = w_calls w @ [StatusUpdated c]"
      using True by (auto simp: r object_simps weak_lock_def fun_eq_iff)
    with c r(1) show ?thesis by (auto simp: chatter_def ends_def)
  next
    case False
    with run Some have "m' = m\<lparr>m_cache := AList.delete k (m_cache m)\<rparr>" "w' = w"
      by (auto simp: tellActive_def findLiveController_def findLiveLocked_def)
    with False show ?thesis using shrinks_delete [OF keys Some] by (auto simp: weak_lock_def)
  qed
qed

section \<open>Discovery\<close>

lemma noteActive_quiet:
  assumes "list_all (\<lambda>e. snd e < w_next w) active" "noteActive active cid index network matched m w = (m', w')"
  shows "chatter w w'"
proof (cases "map_of active cid")
  case None
  with assms(2) show ?thesis by (auto simp: noteActive_def)
next
  case (Some c)
  then have c: "c < w_next w" using assms(1) by (auto simp: list_all_iff dest!: map_of_SomeD)
  define w1 where "w1 = (if idm_slotOf m c \<noteq> index then called (IndexUpdated c (of_nat index)) w else w)"
  define w2 where "w2 = (if network \<noteq> None then called (HealthEndpointSet c) w1 else w1)"
  have n: "w_next w1 = w_next w" "w_next w2 = w_next w" by (auto simp: w1_def w2_def object_simps)
  have "w' = (if matched then called (DiscoveryNoted c) w2 else w2)"
    using assms(2) Some by (auto simp: noteActive_def w1_def w2_def Let_def split: if_splits)
  moreover have "chatter w w1" "chatter w1 w2" using c n by (auto simp: w1_def w2_def intro: chatter_called)
  moreover have "chatter w2 (called (DiscoveryNoted c) w2)" using c n by (auto intro: chatter_called)
  ultimately show ?thesis by (auto intro: chatter_trans)
qed

lemma idnSlot_quiet:
  assumes "list_all (\<lambda>e. snd e < w_next (id_world s)) active"
  shows "chatter (id_world s) (id_world (idnSlot maxPps port snap active slots index s))"
proof (cases "0 < slot_closed (slots index) \<or> slot_usb (slots index) \<noteq> 0")
  case True
  then show ?thesis by (auto simp: idnSlot_def)
next
  case False
  then show ?thesis
    using noteActive_quiet [OF assms] by (auto simp: idnSlot_def Let_def split: prod.splits)
qed

lemma idnSlots_quiet:
  "list_all (\<lambda>e. snd e < w_next (id_world s)) active \<Longrightarrow>
     chatter (id_world s) (id_world (fold (idnSlot maxPps port snap active slots) is s))"
proof (induction "is" arbitrary: s)
  case (Cons i "is")
  let ?s = "idnSlot maxPps port snap active slots i s"
  have 1: "chatter (id_world s) (id_world ?s)" by (rule idnSlot_quiet [OF Cons.prems])
  then have "list_all (\<lambda>e. snd e < w_next (id_world ?s)) active" using Cons.prems by (simp add: chatter_def)
  from chatter_trans [OF 1 Cons.IH [OF this]] show ?case by simp
qed auto

lemma live_bound: "mgr_ok R (m_cache m) w \<Longrightarrow> liveControllers m w = (live, m', w') \<Longrightarrow>
    list_all (\<lambda>e. snd e < w_next w') live"
  using liveControllers_quiet [of R m w live m' w']
  by (auto simp: hold_snapshot list_all_iff liveEntries_def mgr_ok_def world_ok_def addresses_def)

lemma idn_discover_quiet:
  assumes ok: "mgr_ok R (m_cache m) w" and run: "idn_discover inp m w = (infos, m', w')"
  shows "shrinks w (m_cache m) (m_cache m') \<and> chatter w w' \<and> m_type m' = m_type m"
proof -
  obtain live m1 w1 where l: "liveControllers m w = (live, m1, w1)" using prod_cases3 by blast
  obtain count own where c: "refreshControllerCount (live = [] \<or> list_ex (\<lambda>(k, c). \<not> w_up w1 c) live)
      (in_opens inp) (in_rescans inp) (m_own m1) = (count, own)" by fastforce
  have ty: "m_type m1 = m_type m" using liveControllers_quiet [OF ok l] by simp
  define s where "s = fold (idnSlot (in_maxPps inp) (in_port inp) (discoverIdnServices (in_port inp) (in_servers inp)) live (in_slots inp)) [0..<count]
                     \<lparr>id_used = {}, id_seen = {}, id_results = [], id_manager = own\<lparr>idm_emptyCountdown := 0\<rparr>, id_world = w1\<rparr>"
  have s: "chatter w1 (id_world s)"
    using idnSlots_quiet [of "\<lparr>id_used = {}, id_seen = {}, id_results = [], id_manager = own\<lparr>idm_emptyCountdown := 0\<rparr>, id_world = w1\<rparr>"]
      live_bound [OF ok l] by (simp add: s_def)
  show ?thesis
  proof (cases "count = 0")
    case True
    with run l c have "m_cache m' = m_cache m1" "m_type m' = m_type m1" "w' = dropSnapshot live w1"
      by (auto simp: idn_discover_def Let_def)
    with snapshot_only [OF ok l] ty show ?thesis by simp
  next
    case False
    with run l c have "m_cache m' = m_cache m1" "m_type m' = m_type m1" "w' = dropSnapshot live (id_world s)"
      by (auto simp: idn_discover_def Let_def s_def)
    with snapshot_pass [OF ok l s] ty show ?thesis by simp
  qed
qed

lemma lum_discover_quiet:
  assumes "mgr_ok R (m_cache m) w" "lum_discover healthy ds m w = (infos, m', w')"
  shows "shrinks w (m_cache m) (m_cache m') \<and> chatter w w' \<and> m_type m' = m_type m"
proof (cases "lum_context (m_own m)")
  case False
  with assms(2) show ?thesis by (auto simp: lum_discover_def)
next
  case True
  obtain live m1 w1 where l: "liveControllers m w = (live, m1, w1)" using prod_cases3 by blast
  with assms(2) True have "m' = m1" "w' = dropSnapshot live w1" by (auto simp: lum_discover_def Let_def)
  with snapshot_only [OF assms(1) l] liveControllers_quiet [OF assms(1) l] show ?thesis by simp
qed

lemma hel_discover_quiet:
  assumes "mgr_ok R (m_cache m) w" "hel_discover maxPps ds m w pathOf = Some (infos, m', w')"
  shows "shrinks w (m_cache m) (m_cache m') \<and> chatter w w' \<and> m_type m' = m_type m"
proof -
  obtain live m1 w1 where l: "liveControllers m w = (live, m1, w1)" using prod_cases3 by blast
  with assms(2) have "m_cache m' = m_cache m1" "m_type m' = m_type m1" "w' = dropSnapshot live w1"
    by (auto simp: hel_discover_def split: option.splits)
  with snapshot_only [OF assms(1) l] liveControllers_quiet [OF assms(1) l] show ?thesis by simp
qed

lemma pg_discover_quiet:
  assumes "mgr_ok R (m_cache m) w" "pg_discover found m w = (infos, m', w')"
  shows "shrinks w (m_cache m) (m_cache m') \<and> chatter w w' \<and> m_type m' = m_type m"
proof -
  obtain ok s w1 where e: "ensureBackend (m_own m) w = (ok, s, w1)" using prod_cases3 by blast
  note same = ensureBackend_same [OF e]
  let ?m = "m\<lparr>m_own := s\<rparr>"
  have ok1: "mgr_ok R (m_cache ?m) w1" using assms(1) same by (auto simp: mgr_ok_def elim: world_ok_same)
  obtain live m2 w2 where l: "liveControllers ?m w1 = (live, m2, w2)" using prod_cases3 by blast
  have sh: "shrinks w1 cs cs' \<longleftrightarrow> shrinks w cs cs'" for cs cs'
    using same by (simp add: shrinks_def same_objects_def)
  show ?thesis
  proof (cases ok)
    case False
    with assms(2) e have "m' = ?m" "w' = w1" by (auto simp: pg_discover_def)
    with same show ?thesis by auto
  next
    case True
    with assms(2) e l have "m_cache m' = m_cache m2" "m_type m' = m_type m2" "w' = dropSnapshot live w2"
      by (auto simp: pg_discover_def Let_def)
    with snapshot_only [OF ok1 l] liveControllers_quiet [OF ok1 l] sh chatter_trans [OF chatterI [OF same]]
    show ?thesis by auto
  qed
qed

lemma driver_discover_quiet:
  assumes ok: "mgr_ok R (driver_cache m) w" and run: "driver_discover E m w = Some (infos, m', w')"
  shows "shrinks w (driver_cache m) (driver_cache m') \<and> chatter w w' \<and>
     driver_type m' = driver_type m \<and> driver_reuses m' = driver_reuses m"
proof (cases m)
  case (LaserCubeUsbM n)
  with run obtain x n' where "lum_discover (su_healthy E) (su_laserCubes E) n w = (x, n', w')" "m' = LaserCubeUsbM n'"
    by (auto simp: driver_discover_def rewrap_def split: prod.splits)
  with lum_discover_quiet [OF _ this(1)] ok LaserCubeUsbM show ?thesis by simp
next
  case (HeliosM n)
  with run obtain x n' where
    "hel_discover (su_heliosMaxPps E) (su_helioses E) n w (su_heliosPath E) = Some (x, n', w')" "m' = HeliosM n'"
    by (auto simp: driver_discover_def rewrap_def split: prod.splits)
  with hel_discover_quiet [OF _ this(1)] ok HeliosM show ?thesis by simp
next
  case (IdnM n)
  with run obtain x n' where "idn_discover (su_idn E) n w = (x, n', w')" "m' = IdnM n'"
    by (auto simp: driver_discover_def rewrap_def split: prod.splits)
  with idn_discover_quiet [OF _ this(1)] ok IdnM show ?thesis by simp
next
  case (PluginM n)
  with run obtain x n' where "pg_discover (su_emitted E (m_type n)) n w = (x, n', w')" "m' = PluginM n'"
    by (auto simp: driver_discover_def rewrap_def split: prod.splits)
  with pg_discover_quiet [OF _ this(1)] ok PluginM show ?thesis by simp
qed (use run in \<open>auto simp: driver_discover_def rewrap_def unasked_def split: prod.splits\<close>)

section \<open>Listening\<close>

lemma lcm_receive_quiet:
  assumes ok: "mgr_ok R (m_cache m) w" and run: "lcm_receive r t m w = Some (goesOn, m', w')"
  shows "shrinks w (m_cache m) (m_cache m') \<and> chatter w w' \<and> m_type m' = m_type m"
proof (cases r)
  case (Received ip data)
  have T: "shrinks w (m_cache m) (m_cache m2) \<and> chatter w w2 \<and> m_type m2 = m_type m"
    if "tellActive k (m\<lparr>m_own := s\<rparr>) w = (m2, w2)" for k s m2 w2
    using tellActive_quiet [of R "m\<lparr>m_own := s\<rparr>", OF _ that] ok by simp
  with run Received show ?thesis
    by (auto simp: lcm_receive_def Let_def split: option.splits prod.splits)
qed (use run in \<open>auto simp: lcm_receive_def\<close>)

lemma lsm_receive_quiet:
  assumes ok: "mgr_ok R (m_cache m) w" and run: "lsm_receive r t m w = Some (goesOn, m', w')"
  shows "shrinks w (m_cache m) (m_cache m') \<and> chatter w w' \<and> m_type m' = m_type m"
proof (cases r)
  case (Received ip data)
  have T: "shrinks w (m_cache m) (m_cache m2) \<and> chatter w w2 \<and> m_type m2 = m_type m"
    if "tellActive k (m\<lparr>m_own := s\<rparr>) w = (m2, w2)" for k s m2 w2
    using tellActive_quiet [of R "m\<lparr>m_own := s\<rparr>", OF _ that] ok by simp
  with run Received show ?thesis
    by (auto simp: lsm_receive_def Let_def split: option.splits prod.splits)
qed (use run in \<open>auto simp: lsm_receive_def\<close>)

lemma driver_listen_quiet:
  assumes ok: "mgr_ok R (driver_cache m) w" and run: "driver_listen e m w = Some (m', w')"
  shows "shrinks w (driver_cache m) (driver_cache m') \<and> chatter w w' \<and>
     driver_type m' = driver_type m \<and> driver_reuses m' = driver_reuses m"
proof (cases e)
  case (Hears r t)
  show ?thesis
  proof (cases m)
    case (LaserCubeNetM n)
    then have n: "mgr_ok R (m_cache n) w" using ok by simp
    from LaserCubeNetM run Hears lcm_receive_quiet [OF n, of r t] show ?thesis
      by (auto simp: driver_listen_def split: if_splits)
  next
    case (LightSpaceM n)
    then have n: "mgr_ok R (m_cache n) w" using ok by simp
    from LightSpaceM run Hears lsm_receive_quiet [OF n, of r t] show ?thesis
      by (auto simp: driver_listen_def split: if_splits)
  qed (use run Hears in \<open>auto simp: driver_listen_def split: if_splits\<close>)
next
  case (Prunes clk)
  with run show ?thesis by (cases m) (auto simp: driver_listen_def)
qed

section \<open>Connecting and closing\<close>

lemma mgr_closeAll_type: "mgr_closeAll H m w = (m', w') \<Longrightarrow> m_type m' = m_type m"
  by (auto simp: mgr_closeAll_def split: prod.splits)

lemma map_of_address: "map_of cs k = Some c \<Longrightarrow> c \<in> addresses cs"
  by (auto simp: addresses_def dest: map_of_in)

text \<open>The conclusions of the base class about one call, as one predicate of its outcome.\<close>

definition kept :: "bool \<Rightarrow> nat set \<Rightarrow> cache \<Rightarrow> world \<Rightarrow> cache \<Rightarrow> world \<Rightarrow> bool" where
  "kept reuse R cs w cs' w' =
     (mgr_ok R cs' w' \<and> (reuse \<longrightarrow> no_orphans (addresses cs \<union> R) w \<longrightarrow> no_orphans (addresses cs' \<union> R) w'))"

definition closed_out :: "cache \<Rightarrow> world \<Rightarrow> cache \<Rightarrow> world \<Rightarrow> bool" where
  "closed_out cs w cs' w' =
     (cs' = [] \<and> w_next w' = w_next w \<and> w_refs w' = w_refs w \<and>
      (\<exists>l es. w_calls w' = w_calls w @ l \<and> mset es = mset (map snd (liveEntries cs w)) \<and>
            ends l = concat (map ended es) \<and> list_all (\<lambda>x. subject x \<in> addresses cs) l))"

context backend
begin

lemma connect_kept:
  assumes "mgr_ok R (m_cache m) w"
  shows "case mgr_connect H i m w of (r, m', w') \<Rightarrow>
     mgr_ok R (m_cache m') w' \<and> m_type m' = m_type m \<and> (\<forall>c. r = Some c \<longrightarrow> c \<in> addresses (m_cache m') \<and> 0 < w_refs w' c)"
proof -
  obtain r m' w' where 1: "mgr_connect H i m w = (r, m', w')" using prod_cases3 by blast
  from connect_ok [OF assms 1] mgr_connect_type [OF 1] show ?thesis by (auto simp: 1 map_of_address)
qed

lemma disconnect_kept:
  assumes "mgr_ok R (m_cache m) w"
  shows "case mgr_disconnect H k m w of (b, m', w') \<Rightarrow> kept True R (m_cache m) w (m_cache m') w' \<and> m_type m' = m_type m"
proof -
  obtain b m' w' where 1: "mgr_disconnect H k m w = (b, m', w')" using prod_cases3 by blast
  from disconnect_ok [OF assms 1] mgr_disconnect_type [OF 1] show ?thesis by (auto simp: 1 kept_def)
qed

lemma closeAll_kept:
  assumes "distinct (map snd (m_cache m))"
  shows "case mgr_closeAll H m w of (m', w') \<Rightarrow> closed_out (m_cache m) w (m_cache m') w' \<and> m_type m' = m_type m"
proof -
  obtain m' w' where 1: "mgr_closeAll H m w = (m', w')" by fastforce
  let ?es = "map snd (iterated (h_rank H) (liveEntries (m_cache m) w))"
  have "mset ?es = mset (map snd (liveEntries (m_cache m) w))" by (simp add: mset_iterated)
  moreover from closeAll_effect [OF assms 1] obtain l where
    "m_cache m' = []" "w_next w' = w_next w" "w_refs w' = w_refs w" "w_calls w' = w_calls w @ l"
    "ends l = concat (map ended ?es)" "list_all (\<lambda>x. subject x \<in> addresses (m_cache m)) l"
    by (auto simp: list_all_iff comp_def)
  ultimately have "closed_out (m_cache m) w (m_cache m') w'" unfolding closed_out_def by blast
  with mgr_closeAll_type [OF 1] show ?thesis by (simp add: 1)
qed

end

context reusing_backend
begin

lemma connect_reusing_kept:
  assumes "mgr_ok R (m_cache m) w"
  shows "case mgr_connect H i m w of (r, m', w') \<Rightarrow> kept True R (m_cache m) w (m_cache m') w'"
proof -
  obtain r m' w' where 1: "mgr_connect H i m w = (r, m', w')" using prod_cases3 by blast
  from connect_ok [OF assms 1] reuse show ?thesis by (auto simp: 1 kept_def)
qed

end

lemmas connect_facts =
  etherDream.connect_kept laserCubeNet.connect_kept laserCubeUsb.connect_kept lightSpace.connect_kept helios.connect_kept
  idn.connect_kept libera.connect_kept plugin.connect_kept

lemmas reusing_facts =
  etherDream.connect_reusing_kept laserCubeNet.connect_reusing_kept laserCubeUsb.connect_reusing_kept
  lightSpace.connect_reusing_kept idn.connect_reusing_kept libera.connect_reusing_kept plugin.connect_reusing_kept

lemmas disconnect_facts =
  etherDream.disconnect_kept laserCubeNet.disconnect_kept laserCubeUsb.disconnect_kept lightSpace.disconnect_kept
  helios.disconnect_kept idn.disconnect_kept libera.disconnect_kept plugin.disconnect_kept

lemmas closeAll_facts =
  etherDream.closeAll_kept laserCubeNet.closeAll_kept laserCubeUsb.closeAll_kept lightSpace.closeAll_kept
  helios.closeAll_kept idn.closeAll_kept libera.closeAll_kept plugin.closeAll_kept

lemma rewrap_split:
  "(case rewrap C x of (r, m, w) \<Rightarrow> P r m w) \<longleftrightarrow> (case x of (r, m, w) \<Rightarrow> P r (C m) w)"
  by (simp add: rewrap_def case_prod_beta)

lemma driver_connect_kept:
  assumes "mgr_ok R (driver_cache m) w"
  shows "case driver_connect E i m w of (r, m', w') \<Rightarrow>
     mgr_ok R (driver_cache m') w' \<and> driver_type m' = driver_type m \<and> (\<forall>c. r = Some c \<longrightarrow> c \<in> addresses (driver_cache m') \<and> 0 < w_refs w' c)"
  and "case driver_connect E i m w of (r, m', w') \<Rightarrow> driver_reuses m' = driver_reuses m"
  and "driver_reuses m \<Longrightarrow> case driver_connect E i m w of (r, m', w') \<Rightarrow> kept True R (driver_cache m) w (driver_cache m') w'"
  using assms connect_facts [of R _ w "su_rank E" i] reusing_facts [of R _ w "su_rank E" i]
  by (cases m; simp add: driver_connect_def rewrap_split)+

lemma driver_disconnect_kept:
  assumes "mgr_ok R (driver_cache m) w"
  shows "case driver_disconnect E k m w of (b, m', w') \<Rightarrow>
     kept True R (driver_cache m) w (driver_cache m') w' \<and> driver_type m' = driver_type m"
  and "case driver_disconnect E k m w of (b, m', w') \<Rightarrow> driver_reuses m' = driver_reuses m"
  using assms disconnect_facts [where R = R and w = w and rank = "su_rank E" and k = k]
  by (cases m; simp add: driver_disconnect_def rewrap_split)+

lemma map_prod_split: "(case map_prod C id x of (m, w) \<Rightarrow> P m w) \<longleftrightarrow> (case x of (m, w) \<Rightarrow> P (C m) w)"
  by (simp add: case_prod_beta)

lemma driver_closeAll_kept:
  assumes "distinct (map snd (driver_cache m))"
  shows "case driver_closeAll E m w of (m', w') \<Rightarrow> closed_out (driver_cache m) w (driver_cache m') w' \<and> driver_type m' = driver_type m"
  using assms closeAll_facts [where rank = "su_rank E" and w = w]
  by (cases m; simp add: driver_closeAll_def map_prod_split)

interpretation sys: drivers "driverOps E" driver_listen driver_cache driver_reuses for E
proof
  fix R m w
  assume ok: "mgr_ok R (driver_cache m) w"
  show "shrinks w (driver_cache m) (driver_cache m') \<and> chatter w w' \<and>
      v_managedType (driverOps E) m' = v_managedType (driverOps E) m \<and> driver_reuses m' = driver_reuses m"
    if "v_discover (driverOps E) m w = Some (infos, m', w')" for infos m' w'
    using driver_discover_quiet [OF ok, of E infos m' w'] that by (simp add: driverOps_def)
  show "shrinks w (driver_cache m) (driver_cache m') \<and> chatter w w' \<and>
      v_managedType (driverOps E) m' = v_managedType (driverOps E) m \<and> driver_reuses m' = driver_reuses m"
    if "driver_listen e m w = Some (m', w')" for e m' w'
    using driver_listen_quiet [OF ok that] by (simp add: driverOps_def)
  show "mgr_ok R (driver_cache m') w' \<and>
      (driver_reuses m \<longrightarrow> no_orphans (addresses (driver_cache m) \<union> R) w \<longrightarrow> no_orphans (addresses (driver_cache m') \<union> R) w') \<and>
      v_managedType (driverOps E) m' = v_managedType (driverOps E) m \<and> driver_reuses m' = driver_reuses m"
    if "v_connect (driverOps E) i m w = (r, m', w')" for i r m' w'
    using driver_connect_kept [OF ok, of E i] that by (auto simp: driverOps_def kept_def)
  show "c \<in> addresses (driver_cache m') \<and> 0 < w_refs w' c" if "v_connect (driverOps E) i m w = (Some c, m', w')" for i c m' w'
    using driver_connect_kept(1) [OF ok, of E i] that by (auto simp: driverOps_def)
  show "mgr_ok R (driver_cache m') w' \<and>
      (no_orphans (addresses (driver_cache m) \<union> R) w \<longrightarrow> no_orphans (addresses (driver_cache m') \<union> R) w') \<and>
      v_managedType (driverOps E) m' = v_managedType (driverOps E) m \<and> driver_reuses m' = driver_reuses m"
    if "v_disconnect (driverOps E) k m w = (b, m', w')" for k b m' w'
    using driver_disconnect_kept [OF ok, where E = E and k = k] that by (auto simp: driverOps_def kept_def)
next
  show "driver_cache m' = [] \<and> w_next w' = w_next w \<and> w_refs w' = w_refs w \<and>
      (\<exists>l es. w_calls w' = w_calls w @ l \<and> mset es = mset (map snd (liveEntries (driver_cache m) w)) \<and>
            ends l = concat (map ended es) \<and> list_all (\<lambda>x. subject x \<in> addresses (driver_cache m)) l)"
    if "distinct (map snd (driver_cache m))" "v_closeAll (driverOps E) m w = (m', w')" for m w m' w'
    using driver_closeAll_kept [OF that(1), where E = E and w = w] that(2) by (auto simp: driverOps_def closed_out_def)
  show "v_destroy (driverOps E) m w = snd (v_closeAll (driverOps E) m w)" for m w
    by (simp add: driverOps_def driver_destroy_def)
qed

section \<open>Constructing the managers\<close>

lemma driver_make_fresh [simp]:
  "driver_cache (driver_make d) = []"
  "driver_type (driver_make d) = cmi_type (driver_info d)"
  by (cases d; simp add: newManager_def builtIn_def)+

end
