(* ===== verification/System_Choice.thy ===== *)
theory System_Choice
  imports System_Families
begin

text \<open>
  The choice of drivers when a \<open>System\<close> is constructed: a reference definition of the driver of a
  controller type, and the proof that the grouping, selection and construction of core/System.cpp
  give exactly these managers, one per type, each reached by its driver id.
\<close>

section \<open>The reference\<close>

definition wishedDriver :: "(string \<times> string) list \<Rightarrow> SystemOptions \<Rightarrow> string \<Rightarrow> string option" where
  "wishedDriver saved opts t =
     (case map_of (opt_selectedDrivers opts) t of Some d \<Rightarrow> Some d | None \<Rightarrow> map_of saved t)"

definition preferredDriver :: "string option \<Rightarrow> ControllerManagerInfo list \<Rightarrow> string option" where
  "preferredDriver wish candidates =
     (if wish \<in> Some ` cmi_driverId ` set candidates then wish
      else if \<exists>i\<in>set candidates. cmi_builtIn i then Some (cmi_driverId (hd (filter cmi_builtIn candidates)))
      else case candidates of [i] \<Rightarrow> Some (cmi_driverId i) | _ \<Rightarrow> None)"

definition driverForType :: "(string \<times> string) list \<Rightarrow> SystemOptions \<Rightarrow> ControllerManagerInfo list \<Rightarrow> string \<Rightarrow> string option" where
  "driverForType saved opts available t =
     (if t \<in> opt_disabledTypes opts then None
      else preferredDriver (wishedDriver saved opts t) (filter (\<lambda>i. cmi_type i = t) available))"

section \<open>The registry\<close>

lemma registry_snoc: "registry (ds @ [d]) = AddControllerManager (registrationOf d) (registry ds)"
  by (simp add: registry_def)

lemma registry_entry:
  "r \<in> set (registry ds) \<Longrightarrow>
     \<exists>d\<in>set ds. reg_factory r = Some (\<lambda>w. (Some (driver_make d), w)) \<and> cmi_type (reg_info r) = cmi_type (driver_info d) \<and>
       cmi_type (reg_info r) \<noteq> ''''"
proof (induction ds rule: rev_induct)
  case Nil
  then show ?case by (simp add: registry_def)
next
  case (snoc d ds)
  then show ?case
    by (auto simp: registry_snoc AddControllerManager_def Let_def normalizeRegistration_def registrationOf_def
        split: if_splits)
qed

lemma registry_ids_distinct: "distinct (map (\<lambda>r. cmi_driverId (reg_info r)) (registry ds))"
proof (induction ds rule: rev_induct)
  case Nil
  then show ?case by (simp add: registry_def)
next
  case (snoc d ds)
  then show ?case
    by (auto simp: registry_snoc AddControllerManager_def Let_def hasRegisteredDriverId_def list_ex_iff split: if_splits)
qed

section \<open>Grouping\<close>

lemma registrationsByType_snoc:
  "registrationsByType opts (regs @ [r]) = groupRegistration opts r (registrationsByType opts regs)"
  by (simp add: registrationsByType_def)

definition usable :: "SystemOptions \<Rightarrow> 'm Registration \<Rightarrow> bool" where
  "usable opts r = (reg_factory r \<noteq> None \<and> controllerTypeEnabled opts (cmi_type (reg_info r)))"

definition candidates :: "SystemOptions \<Rightarrow> 'm Registration list \<Rightarrow> string \<Rightarrow> 'm Registration list" where
  "candidates opts regs t = filter (\<lambda>r. usable opts r \<and> cmi_type (reg_info r) = t) regs"

lemma grouped:
  "distinct (map fst (registrationsByType opts regs)) \<and>
   map_of (registrationsByType opts regs) t = (if candidates opts regs t = [] then None else Some (candidates opts regs t))"
proof (induction regs arbitrary: t rule: rev_induct)
  case Nil
  then show ?case by (simp add: registrationsByType_def candidates_def)
next
  case (snoc r regs)
  have keys: "distinct (map fst (registrationsByType opts regs))" using snoc by blast
  show ?case
  proof (cases "usable opts r")
    case False
    with snoc show ?thesis
      by (auto simp: registrationsByType_snoc groupRegistration_def candidates_def usable_def Let_def)
  next
    case True
    then have "registrationsByType opts (regs @ [r]) =
        AList.update (cmi_type (reg_info r))
          (case map_of (registrationsByType opts regs) (cmi_type (reg_info r)) of None \<Rightarrow> [r] | Some rs \<Rightarrow> rs @ [r])
          (registrationsByType opts regs)"
      by (auto simp: registrationsByType_snoc groupRegistration_def usable_def Let_def)
    with keys snoc [of t] snoc [of "cmi_type (reg_info r)"] True show ?thesis
      by (auto simp: candidates_def distinct_update update_conv)
  qed
qed

lemma groups_exact:
  "(t, rs) \<in> set (iterated rank (registrationsByType opts regs)) \<longleftrightarrow> rs = candidates opts regs t \<and> rs \<noteq> []"
proof -
  have "(t, rs) \<in> set (registrationsByType opts regs) \<longleftrightarrow> map_of (registrationsByType opts regs) t = Some rs"
    using conjunct1 [OF grouped [of opts regs t]] by (metis map_of_eq_Some_iff)
  then show ?thesis using grouped [of opts regs t] by (auto simp: iterated_def)
qed

lemma groups_distinct: "distinct (map fst (iterated rank (registrationsByType opts regs)))"
proof -
  have "mset (map fst (iterated rank (registrationsByType opts regs))) = mset (map fst (registrationsByType opts regs))"
    by (simp add: mset_iterated)
  then show ?thesis using grouped [of opts regs] by (metis mset_eq_imp_distinct_iff)
qed

section \<open>Selecting\<close>

lemma selectDriver_in: "selectDriver wish rs = Some r \<Longrightarrow> r \<in> set rs"
  by (cases rs) (auto simp: selectDriver_def Let_def find_Some_iff split: option.splits if_splits)

lemma find_hd_filter: "List.find P xs = (if filter P xs = [] then None else Some (hd (filter P xs)))"
  by (induction xs) auto

lemma selectDriver_preferred:
  "map_option (\<lambda>r. cmi_driverId (reg_info r)) (selectDriver wish rs) = preferredDriver wish (map reg_info rs)"
proof -
  define asked where "asked = (case wish of None \<Rightarrow> None | Some d \<Rightarrow> List.find (\<lambda>r. cmi_driverId (reg_info r) = d) rs)"
  have wished: "wish \<in> Some ` cmi_driverId ` set (map reg_info rs) \<longleftrightarrow> asked \<noteq> None"
    by (cases wish) (auto simp: asked_def find_hd_filter filter_empty_conv image_iff)
  have own: "Some (cmi_driverId (reg_info r)) = wish" if "asked = Some r" for r
    using that by (auto simp: asked_def find_Some_iff split: option.splits)
  show ?thesis
  proof (cases asked)
    case (Some r)
    then have "selectDriver wish rs = Some r" by (simp add: selectDriver_def asked_def)
    with Some wished own show ?thesis by (auto simp: preferredDriver_def)
  next
    case None
    then have s: "selectDriver wish rs = (case List.find (\<lambda>r. cmi_builtIn (reg_info r)) rs of
        None \<Rightarrow> (if length rs = 1 then Some (hd rs) else None) | Some r \<Rightarrow> Some r)"
      by (auto simp: selectDriver_def asked_def Let_def split: option.splits)
    let ?B = "\<lambda>r. cmi_builtIn (reg_info r)"
    from wished None have unwished: "wish \<notin> Some ` cmi_driverId ` set (map reg_info rs)" by simp
    show ?thesis
    proof (cases "filter ?B rs = []")
      case True
      then have no: "\<not> (\<exists>i\<in>set (map reg_info rs). cmi_builtIn i)" by (auto simp: filter_empty_conv)
      have "preferredDriver wish (map reg_info rs) = (case map reg_info rs of [i] \<Rightarrow> Some (cmi_driverId i) | _ \<Rightarrow> None)"
        unfolding preferredDriver_def using unwished no by (simp only: if_False)
      also have "\<dots> = map_option (\<lambda>r. cmi_driverId (reg_info r)) (if length rs = 1 then Some (hd rs) else None)"
        by (cases rs; cases "tl rs") auto
      finally show ?thesis using s True by (simp add: find_hd_filter)
    next
      case False
      then have yes: "\<exists>i\<in>set (map reg_info rs). cmi_builtIn i" by (auto simp: filter_empty_conv)
      have "preferredDriver wish (map reg_info rs) = Some (cmi_driverId (hd (filter cmi_builtIn (map reg_info rs))))"
        unfolding preferredDriver_def using unwished yes by (simp only: if_False if_True)
      also have "\<dots> = Some (cmi_driverId (reg_info (hd (filter ?B rs))))"
        using False by (simp add: filter_map hd_map comp_def)
      finally show ?thesis using s False by (simp add: find_hd_filter)
    qed
  qed
qed

section \<open>Constructing\<close>

definition routes :: "'m System \<Rightarrow> bool" where
  "routes s = (\<forall>d n. map_of (sys_byDriverId s) d = Some n \<longleftrightarrow> n < length (sys_managers s) \<and> fst (sys_managers s ! n) = d)"

lemma routes_managerFor: "routes s \<Longrightarrow> managerFor s d = Some n \<longleftrightarrow> n < length (sys_managers s) \<and> fst (sys_managers s ! n) = d"
proof -
  assume r: "routes s"
  then have *: "map_of (sys_byDriverId s) d = Some n \<longleftrightarrow> n < length (sys_managers s) \<and> fst (sys_managers s ! n) = d"
    by (simp add: routes_def)
  show "managerFor s d = Some n \<longleftrightarrow> n < length (sys_managers s) \<and> fst (sys_managers s ! n) = d"
  proof (cases "map_of (sys_byDriverId s) d")
    case None
    with * show ?thesis by (simp add: managerFor_def)
  next
    case (Some a)
    then have "a < length (sys_managers s)" using r by (simp add: routes_def)
    with Some * show ?thesis by (simp add: managerFor_def)
  qed
qed

definition built :: "(string \<times> string) list \<Rightarrow> string \<times> driver_manager Registration list \<Rightarrow> (string \<times> driver_manager) list" where
  "built sel g =
     (case selectDriver (map_of sel (fst g)) (snd g) of
        None \<Rightarrow> []
      | Some r \<Rightarrow> (case reg_factory r of None \<Rightarrow> []
                 | Some f \<Rightarrow> (case fst (f undefined) of None \<Rightarrow> [] | Some m \<Rightarrow> [(cmi_driverId (reg_info r), m)])))"

lemma construct_one:
  assumes "\<And>r. r \<in> set (snd g) \<Longrightarrow> \<exists>d. reg_factory r = Some (\<lambda>w. (Some (driver_make d), w)) \<and> cmi_type (driver_info d) = fst g"
    and "\<And>r. r \<in> set (snd g) \<Longrightarrow> cmi_driverId (reg_info r) \<notin> fst ` set (sys_managers s)"
    and "routes s" "constructManager (driverOps E) sel g (s, w) = (s', w')"
  shows "w' = w \<and> sys_managers s' = sys_managers s @ built sel g \<and> routes s' \<and> sys_shutdownComplete s' = sys_shutdownComplete s"
proof (cases "selectDriver (map_of sel (fst g)) (snd g)")
  case None
  with assms(3,4) show ?thesis by (cases g) (auto simp: constructManager_def built_def)
next
  case (Some r)
  then have r: "r \<in> set (snd g)" by (rule selectDriver_in)
  from assms(1) [OF r] obtain d where
    d: "reg_factory r = Some (\<lambda>w. (Some (driver_make d), w))" "cmi_type (driver_info d) = fst g" by blast
  have s': "w' = w" "s' = s\<lparr>sys_byDriverId := AList.update (cmi_driverId (reg_info r)) (length (sys_managers s)) (sys_byDriverId s),
                            sys_managers := sys_managers s @ [(cmi_driverId (reg_info r), driver_make d)]\<rparr>"
    using assms(4) Some d by (cases g; simp add: constructManager_def driverOps_def)+
  have "built sel g = [(cmi_driverId (reg_info r), driver_make d)]" using Some d by (simp add: built_def)
  moreover have "routes s'"
  proof -
    have "n < length (sys_managers s) \<Longrightarrow> fst (sys_managers s ! n) \<noteq> cmi_driverId (reg_info r)" for n
      using assms(2) [OF r] by (metis imageI nth_mem)
    then show ?thesis
      using assms(3) by (auto simp: routes_def s' update_conv nth_append less_Suc_eq)
  qed
  ultimately show ?thesis by (simp add: s')
qed

lemma built_id: "dm \<in> set (built sel g) \<Longrightarrow> \<exists>r\<in>set (snd g). fst dm = cmi_driverId (reg_info r)"
proof -
  assume dm: "dm \<in> set (built sel g)"
  show "\<exists>r\<in>set (snd g). fst dm = cmi_driverId (reg_info r)"
  proof (cases "selectDriver (map_of sel (fst g)) (snd g)")
    case None
    with dm show ?thesis by (simp add: built_def)
  next
    case (Some r)
    with dm have "fst dm = cmi_driverId (reg_info r)" by (auto simp: built_def split: option.splits)
    with selectDriver_in [OF Some] show ?thesis by blast
  qed
qed

lemma construct_all:
  assumes "\<And>t rs r. (t, rs) \<in> set gs \<Longrightarrow> r \<in> set rs \<Longrightarrow>
      cmi_type (reg_info r) = t \<and> (\<exists>d. reg_factory r = Some (\<lambda>w. (Some (driver_make d), w)) \<and> cmi_type (driver_info d) = t)"
    and "\<And>t rs t' rs' r r'. (t, rs) \<in> set gs \<Longrightarrow> (t', rs') \<in> set gs \<Longrightarrow> r \<in> set rs \<Longrightarrow> r' \<in> set rs' \<Longrightarrow>
      cmi_driverId (reg_info r) = cmi_driverId (reg_info r') \<Longrightarrow> t = t'"
    and "distinct (map fst gs)"
    and "fold (constructManager (driverOps E) sel) gs (\<lparr>sys_managers = [], sys_byDriverId = [], sys_shutdownComplete = False\<rparr>, w) = (s', w')"
  shows "w' = w \<and> sys_managers s' = concat (map (built sel) gs) \<and> routes s' \<and> \<not> sys_shutdownComplete s'"
  using assms
proof (induction gs arbitrary: s' w' rule: rev_induct)
  case Nil
  then show ?case by (auto simp: routes_def)
next
  case (snoc g gs)
  obtain s1 w1 where 1: "fold (constructManager (driverOps E) sel) gs
      (\<lparr>sys_managers = [], sys_byDriverId = [], sys_shutdownComplete = False\<rparr>, w) = (s1, w1)" by fastforce
  have IH: "w1 = w \<and> sys_managers s1 = concat (map (built sel) gs) \<and> routes s1 \<and> \<not> sys_shutdownComplete s1"
  proof (rule snoc.IH [OF _ _ _ 1])
    show "distinct (map fst gs)" using snoc.prems(3) by simp
  qed (use snoc.prems(1,2) in \<open>(simp; blast)+\<close>)
  have 2: "constructManager (driverOps E) sel g (s1, w1) = (s', w')" using snoc.prems(4) 1 by simp
  have g: "(fst g, snd g) \<in> set (gs @ [g])" by simp
  have fresh: "cmi_driverId (reg_info r) \<notin> fst ` set (sys_managers s1)" if r: "r \<in> set (snd g)" for r
  proof
    assume "cmi_driverId (reg_info r) \<in> fst ` set (sys_managers s1)"
    then obtain h r' where h: "h \<in> set gs" "r' \<in> set (snd h)" "cmi_driverId (reg_info r) = cmi_driverId (reg_info r')"
      using IH built_id by fastforce
    have "(fst h, snd h) \<in> set (gs @ [g])" using h(1) by simp
    from snoc.prems(2) [OF g this r h(2,3)] have "fst g = fst h" .
    with h(1) snoc.prems(3) show False by force
  qed
  have "\<exists>d. reg_factory r = Some (\<lambda>w. (Some (driver_make d), w)) \<and> cmi_type (driver_info d) = fst g" if "r \<in> set (snd g)" for r
    using snoc.prems(1) [OF g that] by blast
  from construct_one [OF this fresh _ 2] IH show ?case by auto
qed

section \<open>The system that is constructed\<close>

lemma candidates_infos:
  assumes "controllerTypeEnabled opts t"
  shows "map reg_info (candidates opts (registry ds) t) = filter (\<lambda>i. cmi_type i = t) (map reg_info (registry ds))"
proof -
  have "filter (\<lambda>r. usable opts r \<and> cmi_type (reg_info r) = t) (registry ds) =
        filter (\<lambda>r. cmi_type (reg_info r) = t) (registry ds)"
    using assms registry_entry by (fastforce simp: usable_def intro: filter_cong)
  then show ?thesis by (simp add: candidates_def filter_map comp_def)
qed

lemma map_of_selected:
  assumes "distinct (map fst (opt_selectedDrivers opts))"
  shows "map_of (selectedDrivers saved opts) t = wishedDriver saved opts t"
proof -
  have "map_of (fold (\<lambda>(t, d). AList.update t d) us saved) t = (case map_of us t of Some d \<Rightarrow> Some d | None \<Rightarrow> map_of saved t)"
    if "distinct (map fst us)" for us :: "(string \<times> string) list"
    using that
  proof (induction us arbitrary: saved)
    case (Cons u us)
    obtain t' d where u: "u = (t', d)" by fastforce
    show ?case
    proof (cases "t' = t")
      case True
      with Cons.prems u have "map_of us t = None" by (auto simp: map_of_eq_None_iff)
      with Cons u True show ?thesis by (simp add: update_conv)
    next
      case False
      with Cons u show ?thesis by (auto simp: update_conv split: option.splits)
    qed
  qed simp
  with assms show ?thesis by (simp add: selectedDrivers_def wishedDriver_def)
qed

lemma newSystem_managers:
  assumes "newSystem (driverOps E) rank (registry ds) saved opts w = (s, w')"
  shows "w' = w" and "routes s" and "\<not> sys_shutdownComplete s"
    and "sys_managers s = concat (map (built (selectedDrivers saved opts)) (iterated rank (registrationsByType opts (registry ds))))"
proof -
  let ?gs = "iterated rank (registrationsByType opts (registry ds))"
  have member: "r \<in> set (registry ds) \<and> cmi_type (reg_info r) = t" if "(t, rs) \<in> set ?gs" "r \<in> set rs" for t rs r
    using that by (auto simp: groups_exact candidates_def)
  have "fold (constructManager (driverOps E) (selectedDrivers saved opts)) ?gs
      (\<lparr>sys_managers = [], sys_byDriverId = [], sys_shutdownComplete = False\<rparr>, w) = (s, w')"
    using assms by (simp add: newSystem_def)
  from construct_all [OF _ _ groups_distinct this]
  have "w' = w \<and> sys_managers s = concat (map (built (selectedDrivers saved opts)) ?gs) \<and> routes s \<and> \<not> sys_shutdownComplete s"
  proof
    show "cmi_type (reg_info r) = t \<and>
        (\<exists>d. reg_factory r = Some (\<lambda>w. (Some (driver_make d), w)) \<and> cmi_type (driver_info d) = t)"
      if "(t, rs) \<in> set ?gs" "r \<in> set rs" for t rs r
      using member [OF that] registry_entry [of r ds] by auto
    show "t = t'"
      if "(t, rs) \<in> set ?gs" "(t', rs') \<in> set ?gs" "r \<in> set rs" "r' \<in> set rs'"
        "cmi_driverId (reg_info r) = cmi_driverId (reg_info r')" for t rs t' rs' r r'
      using member [OF that(1,3)] member [OF that(2,4)] that(5) registry_ids_distinct [of ds]
      by (auto simp: distinct_map inj_on_def)
  qed auto
  then show "w' = w" "routes s" "\<not> sys_shutdownComplete s"
    "sys_managers s = concat (map (built (selectedDrivers saved opts)) ?gs)" by auto
qed

text \<open>A group gives the preferred driver of its type, if there is one.\<close>

lemma built_registry:
  assumes "rs = candidates opts (registry ds) t"
  shows "map (\<lambda>dm. (fst dm, driver_type (snd dm))) (built sel (t, rs)) =
     (case preferredDriver (map_of sel t) (map reg_info rs) of None \<Rightarrow> [] | Some d \<Rightarrow> [(d, t)])"
    and "\<forall>dm\<in>set (built sel (t, rs)). \<exists>d\<in>set ds. snd dm = driver_make d"
proof -
  have "map (\<lambda>dm. (fst dm, driver_type (snd dm))) (built sel (t, rs)) =
      (case preferredDriver (map_of sel t) (map reg_info rs) of None \<Rightarrow> [] | Some d \<Rightarrow> [(d, t)]) \<and>
      (\<forall>dm\<in>set (built sel (t, rs)). \<exists>d\<in>set ds. snd dm = driver_make d)"
  proof (cases "selectDriver (map_of sel t) rs")
    case None
    with selectDriver_preferred [of "map_of sel t" rs] show ?thesis by (simp add: built_def)
  next
    case (Some r)
    with selectDriver_in [OF Some] assms have "r \<in> set (registry ds)" "cmi_type (reg_info r) = t"
      by (auto simp: candidates_def)
    with registry_entry [of r ds] obtain d where d: "d \<in> set ds" "reg_factory r = Some (\<lambda>w. (Some (driver_make d), w))"
      "cmi_type (driver_info d) = t" by auto
    with Some selectDriver_preferred [of "map_of sel t" rs, symmetric] show ?thesis by (auto simp: built_def)
  qed
  then show "map (\<lambda>dm. (fst dm, driver_type (snd dm))) (built sel (t, rs)) =
      (case preferredDriver (map_of sel t) (map reg_info rs) of None \<Rightarrow> [] | Some d \<Rightarrow> [(d, t)])"
    "\<forall>dm\<in>set (built sel (t, rs)). \<exists>d\<in>set ds. snd dm = driver_make d" by auto
qed

text \<open>The managers as pairs of driver id and type.\<close>

definition chosen :: "(string \<times> string) list \<Rightarrow> string \<times> driver_manager Registration list \<Rightarrow> (string \<times> string) list" where
  "chosen sel g = (case preferredDriver (map_of sel (fst g)) (map reg_info (snd g)) of None \<Rightarrow> [] | Some d \<Rightarrow> [(d, fst g)])"

lemma chosen_member:
  "(d, t) \<in> set (chosen sel g) \<longleftrightarrow> fst g = t \<and> preferredDriver (map_of sel t) (map reg_info (snd g)) = Some d"
  by (auto simp: chosen_def split: option.splits)

lemma chosen_types: "distinct (map fst gs) \<Longrightarrow> distinct (map snd (concat (map (chosen sel) gs)))"
proof (induction gs)
  case (Cons g gs)
  have "snd ` set (concat (map (chosen sel) gs)) \<subseteq> fst ` set gs"
    by (fastforce simp: chosen_def split: option.splits)
  with Cons show ?case by (auto simp: chosen_def split: option.splits)
qed simp

lemma managers_chosen:
  assumes "newSystem (driverOps E) rank (registry ds) saved opts w = (s, w')"
  shows "map (\<lambda>dm. (fst dm, driver_type (snd dm))) (sys_managers s) =
     concat (map (chosen (selectedDrivers saved opts)) (iterated rank (registrationsByType opts (registry ds))))"
    and "\<forall>dm\<in>set (sys_managers s). \<exists>d\<in>set ds. snd dm = driver_make d"
proof -
  let ?gs = "iterated rank (registrationsByType opts (registry ds))" and ?sel = "selectedDrivers saved opts"
  have b: "map (\<lambda>dm. (fst dm, driver_type (snd dm))) (built ?sel g) = chosen ?sel g \<and>
      (\<forall>dm\<in>set (built ?sel g). \<exists>d\<in>set ds. snd dm = driver_make d)" if "g \<in> set ?gs" for g
  proof -
    obtain t rs where g: "g = (t, rs)" by fastforce
    with that have "rs = candidates opts (registry ds) t" by (simp add: groups_exact)
    from built_registry [OF this, of ?sel] show ?thesis by (auto simp: g chosen_def split: option.splits)
  qed
  then have "map (\<lambda>g. map (\<lambda>dm. (fst dm, driver_type (snd dm))) (built ?sel g)) ?gs = map (chosen ?sel) ?gs"
    by (intro map_cong) auto
  then show "map (\<lambda>dm. (fst dm, driver_type (snd dm))) (sys_managers s) = concat (map (chosen ?sel) ?gs)"
    by (simp only: newSystem_managers(4) [OF assms] map_concat map_map comp_def)
  show "\<forall>dm\<in>set (sys_managers s). \<exists>d\<in>set ds. snd dm = driver_make d"
    using b by (auto simp: newSystem_managers(4) [OF assms])
qed

lemma chosen_exact:
  assumes "distinct (map fst (opt_selectedDrivers opts))"
  shows "(d, t) \<in> set (concat (map (chosen (selectedDrivers saved opts)) (iterated rank (registrationsByType opts (registry ds))))) \<longleftrightarrow>
     driverForType saved opts (map reg_info (registry ds)) t = Some d"
proof -
  let ?c = "candidates opts (registry ds) t"
  have "(d, t) \<in> set (concat (map (chosen (selectedDrivers saved opts)) (iterated rank (registrationsByType opts (registry ds))))) \<longleftrightarrow>
      (\<exists>g\<in>set (iterated rank (registrationsByType opts (registry ds))). (d, t) \<in> set (chosen (selectedDrivers saved opts) g))"
    by simp
  also have "\<dots> \<longleftrightarrow> (\<exists>rs. (t, rs) \<in> set (iterated rank (registrationsByType opts (registry ds))) \<and>
      preferredDriver (map_of (selectedDrivers saved opts) t) (map reg_info rs) = Some d)"
    unfolding chosen_member by force
  also have "\<dots> \<longleftrightarrow> ?c \<noteq> [] \<and> preferredDriver (wishedDriver saved opts t) (map reg_info ?c) = Some d"
    unfolding groups_exact map_of_selected [OF assms] by blast
  also have "\<dots> \<longleftrightarrow> driverForType saved opts (map reg_info (registry ds)) t = Some d"
  proof (cases "controllerTypeEnabled opts t")
    case True
    show ?thesis
    proof (cases "t = ''''")
      case empty: True
      then have "filter (\<lambda>i. cmi_type i = t) (map reg_info (registry ds)) = []"
        using registry_entry by (auto simp: filter_empty_conv)
      with candidates_infos [OF True, of ds] show ?thesis by (simp add: driverForType_def preferredDriver_def)
    next
      case False
      with True have "t \<notin> opt_disabledTypes opts" by (simp add: controllerTypeEnabled_def)
      then have "driverForType saved opts (map reg_info (registry ds)) t = preferredDriver (wishedDriver saved opts t) (map reg_info ?c)"
        by (simp add: driverForType_def candidates_infos [OF True])
      then show ?thesis by (cases "?c = []") (simp_all add: preferredDriver_def)
    qed
  next
    case False
    then have "?c = []" "t \<in> opt_disabledTypes opts"
      by (auto simp: candidates_def usable_def filter_empty_conv controllerTypeEnabled_def)
    then show ?thesis by (simp add: driverForType_def)
  qed
  finally show ?thesis .
qed

text \<open>
  C8. For every set of registered drivers (built-in or plugin), saved choices, options and hash
  order, constructing a \<open>System\<close> gives exactly one manager for each controller type that the
  reference \<open>driverForType\<close> gives a driver, and none for the others: the driver the options ask for
  (else the saved choice) when it is registered for the type, else the first built-in one, else
  the only plugin, and nothing for a disabled type or an ambiguous one. The managers are reached
  by exactly their driver ids.
\<close>

theorem system_one_driver_per_type:
  assumes "distinct (map fst (opt_selectedDrivers opts))"
    and "newSystem (driverOps E) rank (registry ds) saved opts w = (s, w')"
  shows "w' = w \<and> distinct (map (\<lambda>dm. driver_type (snd dm)) (sys_managers s)) \<and>
     (\<forall>t d. (\<exists>m. (d, m) \<in> set (sys_managers s) \<and> driver_type m = t) \<longleftrightarrow>
            driverForType saved opts (map reg_info (registry ds)) t = Some d) \<and>
     (\<forall>d n. managerFor s d = Some n \<longleftrightarrow> n < length (sys_managers s) \<and> fst (sys_managers s ! n) = d)"
proof -
  note N = newSystem_managers [OF assms(2)] and M = managers_chosen(1) [OF assms(2)]
  have "map (\<lambda>dm. driver_type (snd dm)) (sys_managers s) = map snd (map (\<lambda>dm. (fst dm, driver_type (snd dm))) (sys_managers s))"
    by simp
  then have "distinct (map (\<lambda>dm. driver_type (snd dm)) (sys_managers s))"
    unfolding M using chosen_types [OF groups_distinct] by metis
  moreover have "(\<exists>m. (d, m) \<in> set (sys_managers s) \<and> driver_type m = t) \<longleftrightarrow>
      driverForType saved opts (map reg_info (registry ds)) t = Some d" for t d
  proof -
    have "(\<exists>m. (d, m) \<in> set (sys_managers s) \<and> driver_type m = t) \<longleftrightarrow>
        (d, t) \<in> set (map (\<lambda>dm. (fst dm, driver_type (snd dm))) (sys_managers s))" by force
    then show ?thesis unfolding M using chosen_exact [OF assms(1)] by blast
  qed
  ultimately show ?thesis using N(1) routes_managerFor [OF N(2)] by blast
qed

text \<open>A plugin for the Helios type does not replace the built-in driver; asked for, it does.\<close>

definition example_plugin :: LoadedPlugin where
  "example_plugin = \<lparr>lp_pluginId = ''org.example'', lp_controllerType = ''Helios'', lp_displayName = ''X'', lp_vendor = ''V'',
     lp_description = '''', lp_hasCreate = True, lp_hasDestroy = True, lp_hasRescan = False\<rparr>"

definition example_options :: "(string \<times> string) list \<Rightarrow> SystemOptions" where
  "example_options asks = \<lparr>opt_disabledTypes = {''IDN''}, opt_selectedDrivers = asks\<rparr>"

definition example_world :: world where
  "example_world = \<lparr>w_next = 0, w_refs = (\<lambda>c. 0), w_calls = [], w_identity = (\<lambda>c. ('''', '''')), w_up = (\<lambda>c. False),
     w_answers = (\<lambda>n. True), w_asked = 0\<rparr>"

definition example_surroundings :: Surroundings where
  "example_surroundings = \<lparr>su_rank = length, su_now = 0, su_laserCubes = None, su_healthy = (\<lambda>c. True), su_helioses = None,
     su_heliosMaxPps = 0, su_heliosPath = (\<lambda>c. ''''), su_idn = \<lparr>in_opens = 0, in_rescans = 0,
       in_slots = (\<lambda>n. \<lparr>slot_closed = 1, slot_usb = 0, slot_name = None, slot_firmware = 0\<rparr>), in_servers = None,
       in_port = 7255, in_maxPps = 0\<rparr>, su_advertised = (\<lambda>b. None), su_liberaSocket = (False, False), su_liberaWindow = None,
     su_liberaPackets = [], su_emitted = (\<lambda>t. [])\<rparr>"

definition example_drivers :: "driver list" where
  "example_drivers = [HeliosDriver True, IdnDriver, PluginDriver example_plugin, LaserCubeUsbDriver True]"

definition example_system :: "(string \<times> string) list \<Rightarrow> driver_manager System" where
  "example_system asks = fst (newSystem (driverOps example_surroundings) length (registry example_drivers) [] (example_options asks) example_world)"

lemma example_registry:
  "registry example_drivers =
     map (\<lambda>d. normalizeRegistration (registrationOf d)) example_drivers"
  by (simp add: registry_def example_drivers_def AddControllerManager_def hasRegisteredDriverId_def normalizeRegistration_def
      registrationOf_def builtIn_def example_plugin_def Let_def)

lemma example_infos: "map reg_info (registry example_drivers) = map driver_info example_drivers"
  unfolding example_registry
  by (simp add: example_drivers_def normalizeRegistration_def registrationOf_def builtIn_def example_plugin_def)

lemma example_choice:
  "driverForType [] (example_options []) (map reg_info (registry example_drivers)) ''Helios'' = Some ''libera.builtin.helios''"
  "driverForType [] (example_options [(''Helios'', ''org.example'')]) (map reg_info (registry example_drivers)) ''Helios''
     = Some ''org.example''"
  "driverForType [] (example_options []) (map reg_info (registry example_drivers)) ''IDN'' = None"
  unfolding example_infos
  by (simp_all add: example_drivers_def driverForType_def preferredDriver_def wishedDriver_def
      example_options_def builtIn_def example_plugin_def)

lemma system_one_driver_per_type_witness:
  "(\<exists>m. (''libera.builtin.helios'', m) \<in> set (sys_managers (example_system [])) \<and> driver_type m = ''Helios'') \<and>
   (\<exists>m. (''org.example'', m) \<in> set (sys_managers (example_system [(''Helios'', ''org.example'')])) \<and> driver_type m = ''Helios'') \<and>
   \<not> (\<exists>d m. (d, m) \<in> set (sys_managers (example_system [])) \<and> driver_type m = ''IDN'')"
proof -
  have e: "newSystem (driverOps example_surroundings) length (registry example_drivers) [] (example_options asks) example_world =
      (example_system asks, snd (newSystem (driverOps example_surroundings) length (registry example_drivers) [] (example_options asks) example_world))"
    for asks by (simp add: example_system_def)
  have d: "distinct (map fst (opt_selectedDrivers (example_options [])))"
    "distinct (map fst (opt_selectedDrivers (example_options [(''Helios'', ''org.example'')])))"
    by (simp_all add: example_options_def)
  show ?thesis
    using system_one_driver_per_type [OF d(1) e] system_one_driver_per_type [OF d(2) e] example_choice by auto
qed

end
