(* ===== verification/System_Typing.thy ===== *)
theory System_Typing
  imports System_Choice
begin

text \<open>
  Typing of the discovery records: a manager of a family only ever lists records of its own class,
  tagged with its own type, so the \<open>dynamic_cast\<close> of \<open>connectController\<close> succeeds on the manager
  that the record's driver id routes to.
\<close>

primrec driver_accepts :: "driver_manager \<Rightarrow> info \<Rightarrow> bool" where
  "driver_accepts (EtherDreamM m) i = is_EtherDreamInfo (ci_derived i)"
| "driver_accepts (LaserCubeNetM m) i = is_LaserCubeNetInfo (ci_derived i)"
| "driver_accepts (LaserCubeUsbM m) i = is_LaserCubeUsbInfo (ci_derived i)"
| "driver_accepts (LightSpaceM m) i = is_LightSpaceInfo (ci_derived i)"
| "driver_accepts (HeliosM m) i = is_HeliosInfo (ci_derived i)"
| "driver_accepts (IdnM m) i = is_IdnInfo (ci_derived i)"
| "driver_accepts (LiberaM m) i = is_LiberaInfo (ci_derived i)"
| "driver_accepts (PluginM m) i = is_PluginInfo (ci_derived i)"

definition etherDreamTyped :: "EtherDreamManagerState \<Rightarrow> bool" where
  "etherDreamTyped s =
     list_all (\<lambda>e. typeString (fst (snd e)) = ''EtherDream'' \<and> is_EtherDreamInfo (ci_derived (fst (snd e)))) (edm_controllers s)"

primrec driver_typed :: "driver_manager \<Rightarrow> bool" where
  "driver_typed (EtherDreamM m) = (m_type m = ''EtherDream'' \<and> etherDreamTyped (m_own m))"
| "driver_typed (LaserCubeNetM m) = (m_type m = ''LaserCubeNet'')"
| "driver_typed (LaserCubeUsbM m) = (m_type m = ''LaserCubeUSB'')"
| "driver_typed (LightSpaceM m) = (m_type m = ''LightSpaceNet'')"
| "driver_typed (HeliosM m) = (m_type m = ''Helios'')"
| "driver_typed (IdnM m) = (m_type m = ''IDN'')"
| "driver_typed (LiberaM m) = (m_type m = ''LiberaProtocol'')"
| "driver_typed (PluginM m) = (pg_type (m_own m) = m_type m)"

section \<open>Invariants of a manager's own state\<close>

locale own_invariant =
  fixes H :: "('p, 's) Hooks" and P :: "'s \<Rightarrow> bool"
  assumes create: "P s \<Longrightarrow> P (fst (snd (h_create H i s w)))"
    and prepareNew: "P s \<Longrightarrow> P (fst (snd (h_prepareNew H c i s w)))"
    and prepareExisting: "P s \<Longrightarrow> P (fst (h_prepareExisting H c i s w))"
    and beforeClose: "P s \<Longrightarrow> P (fst (h_beforeClose H s w))"
    and afterClose: "P s \<Longrightarrow> P (fst (h_afterClose H s w))"
    and stop: "P s \<Longrightarrow> P (fst (h_stop H c s w))"
    and disconnect: "P s \<Longrightarrow> P (fst (h_disconnect H k c s w))"
    and close: "P s \<Longrightarrow> P (fst (h_close H k c s w))"
begin

lemma make_own: "P s \<Longrightarrow> makeController (h_create H i) k cs s w = (r, cs', s', w') \<Longrightarrow> P s'"
  using create [of s i w] by (auto simp: makeController_def split: prod.splits option.splits)

lemma acquire_own: "P s \<Longrightarrow> getOrCreateIf reuse (h_create H i) k cs s w = (r, cs', s', w') \<Longrightarrow> P s'"
  by (auto simp: getOrCreateIf_def intro: make_own split: option.splits if_splits)

lemma connect_own:
  assumes "P (m_own m)"
  shows "case mgr_connect H i m w of (r, m', w') \<Rightarrow> P (m_own m')"
proof -
  obtain r m' w' where 1: "mgr_connect H i m w = (r, m', w')" using prod_cases3 by blast
  obtain a cs s w1 where 2: "getOrCreateIf (\<lambda>c. h_reuse H c i) (h_create H i) (h_key H i) (m_cache m) (m_own m) w = (a, cs, s, w1)"
    using prod_cases4 by blast
  from acquire_own [OF assms 2] have s: "P s" .
  have "P (m_own m')"
  proof (cases "h_isInfo H (ci_derived i)")
    case False
    with 1 assms show ?thesis by (auto simp: mgr_connect_def)
  next
    case True
    show ?thesis
    proof (cases a)
      case None
      with 1 2 s True show ?thesis by (auto simp: mgr_connect_def)
    next
      case (Some cb)
      obtain c b where cb: "cb = (c, b)" by fastforce
      obtain d s2 w2 where n: "h_prepareNew H c i s w1 = (d, s2, w2)" using prod_cases3 by blast
      obtain s3 w3 where e: "h_prepareExisting H c i s w1 = (s3, w3)" by fastforce
      have "P s2" "P s3" using prepareNew [OF s, of c i w1] prepareExisting [OF s, of c i w1] by (simp_all add: n e)
      moreover have "m_own m' = (if b then s2 else s3)"
        using 1 2 True Some cb n e by (auto simp: mgr_connect_def split: NewControllerDisposition.splits)
      ultimately show ?thesis by simp
    qed
  qed
  then show ?thesis by (simp add: 1)
qed

lemma disconnect_own:
  assumes "P (m_own m)"
  shows "case mgr_disconnect H k m w of (r, m', w') \<Rightarrow> P (m_own m')"
proof -
  obtain r cs w1 where 1: "cache_take k (m_cache m) w = (r, cs, w1)" using prod_cases3 by blast
  show ?thesis
  proof (cases r)
    case None
    with 1 assms show ?thesis by (simp add: mgr_disconnect_def)
  next
    case (Some c)
    obtain s2 w2 where 2: "h_disconnect H k c (m_own m) w1 = (s2, w2)" by fastforce
    have "P s2" using disconnect [OF assms, of k c w1] by (simp add: 2)
    with 1 2 Some show ?thesis by (simp add: mgr_disconnect_def)
  qed
qed

lemma closing_own: "P s \<Longrightarrow> P (fst (fold (stopAndClose H) es (s, w)))"
proof (induction es arbitrary: s w)
  case (Cons e es)
  obtain s1 w1 where 1: "h_stop H (snd e) s w = (s1, w1)" by fastforce
  obtain s2 w2 where 2: "h_close H (fst e) (snd e) s1 w1 = (s2, w2)" by fastforce
  have "P s2" using stop [OF Cons.prems, of "snd e" w] close [of s1 "fst e" "snd e" w1] by (simp add: 1 2)
  from Cons.IH [OF this] show ?case by (simp add: stopAndClose_def 1 2)
qed simp

lemma closeAll_own:
  assumes "P (m_own m)"
  shows "case mgr_closeAll H m w of (m', w') \<Rightarrow> P (m_own m')"
proof -
  obtain s1 w1 where 1: "h_beforeClose H (m_own m) w = (s1, w1)" by fastforce
  obtain live cs w2 where 2: "snapshotLocked True (m_cache m) w1 = (live, cs, w2)" using prod_cases3 by blast
  obtain s3 w3 where 3: "fold (stopAndClose H) (iterated (h_rank H) live) (s1, w2) = (s3, w3)" by fastforce
  obtain s4 w4 where 4: "h_afterClose H s3 (dropSnapshot live w3) = (s4, w4)" by fastforce
  have "P s1" using beforeClose [OF assms, of w] by (simp add: 1)
  from closing_own [OF this, of "iterated (h_rank H) live" w2] have "P s3" by (simp add: 3)
  from afterClose [OF this, of "dropSnapshot live w3"] have "P s4" by (simp add: 4)
  then show ?thesis by (simp add: mgr_closeAll_def 1 2 3 4)
qed

end

interpretation edOwn: own_invariant "etherDreamHooks rank" etherDreamTyped for rank
  by unfold_locales
     (auto simp: etherDreamHooks_def hook_defs ed_prepareNew_def edm_beforeClose_def edm_afterClose_def newObject_def
        make_shared_def callConnect_def ask_def called_def etherDreamTyped_def)

lemma ensureBackend_type: "pg_type (fst (snd (ensureBackend s w))) = pg_type s"
  by (auto simp: ensureBackend_def Let_def pg_event_def split: prod.splits)

interpretation pgOwn: own_invariant "pluginHooks rank" "\<lambda>s. pg_type s = t" for rank t
proof
  show "pg_type s = t \<Longrightarrow> pg_type (fst (snd (h_create (pluginHooks rank) i s w))) = t" for s i w
    using ensureBackend_type [of s w] by (auto simp: pluginHooks_def pg_create_def newObject_def make_shared_def split: prod.splits)
qed (auto simp: pluginHooks_def hook_defs pg_prepareNew_def pg_afterClose_def pg_event_def callOpen_def ask_def called_def Let_def)

section \<open>What discovery lists\<close>

lemma typed_infos:
  "typeString (newHeliosInfo a b c pp usb fw) = ''Helios''" "is_HeliosInfo (ci_derived (newHeliosInfo a b c pp usb fw))"
  "typeString (newIdnInfo a b sid lb rr idx fw n host name) = ''IDN''" "is_IdnInfo (ci_derived (newIdnInfo a b sid lb rr idx fw n host name))"
  "typeString (newLaserCubeNetInfo st) = ''LaserCubeNet''" "is_LaserCubeNetInfo (ci_derived (newLaserCubeNetInfo st))"
  "typeString (newLaserCubeUsbInfo a b) = ''LaserCubeUSB''" "is_LaserCubeUsbInfo (ci_derived (newLaserCubeUsbInfo a b))"
  "typeString (newLightSpaceInfo ls) = ''LightSpaceNet''" "is_LightSpaceInfo (ci_derived (newLightSpaceInfo ls))"
  "typeString (newLiberaInfo adv b) = ''LiberaProtocol''" "is_LiberaInfo (ci_derived (newLiberaInfo adv b))"
  "typeString (newPluginInfo p b) = b" "is_PluginInfo (ci_derived (newPluginInfo p b))"
  "typeString (newEtherDreamInfo a b ed) = ''EtherDream''" "is_EtherDreamInfo (ci_derived (newEtherDreamInfo a b ed))"
  "typeString (setUsageState u i) = typeString i" "ci_derived (setUsageState u i) = ci_derived i"
  "typeString (setDriverId v i) = typeString i" "ci_derived (setDriverId v i) = ci_derived i"
  "driverIdString (setDriverId v i) = v"
  by (auto simp: newHeliosInfo_def newIdnInfo_def newLaserCubeNetInfo_def newLaserCubeUsbInfo_def newLightSpaceInfo_def
      newLiberaInfo_def newPluginInfo_def newEtherDreamInfo_def newControllerInfo_def setUsageState_def setDriverId_def Let_def
      split: EndpointAvailability.splits)

lemma lum_infos_typed: "i \<in> set (lum_infos owned ds) \<Longrightarrow> typeString i = ''LaserCubeUSB'' \<and> is_LaserCubeUsbInfo (ci_derived i)"
  by (induction ds) (auto simp: typed_infos split: option.splits)

definition helios_typed :: "info list \<Rightarrow> bool" where
  "helios_typed is = list_all (\<lambda>i. typeString i = ''Helios'' \<and> is_HeliosInfo (ci_derived i)) is"

lemma freeStep_typed: "freeStep mx i p s = Some s' \<Longrightarrow> helios_typed (hs_results s) \<Longrightarrow> helios_typed (hs_results s')"
  by (auto simp: freeStep_def helios_typed_def typed_infos split: bind_splits)

lemma busyStep_typed: "busyStep mx i p s = Some s' \<Longrightarrow> helios_typed (hs_results s) \<Longrightarrow> helios_typed (hs_results s')"
  by (auto simp: busyStep_def helios_typed_def typed_infos split: bind_splits option.splits if_splits)

lemma scanAll_typed:
  assumes "\<And>i p s s'. step i p s = Some s' \<Longrightarrow> helios_typed (hs_results s) \<Longrightarrow> helios_typed (hs_results s')"
  shows "scanAll step i ps s = Some s' \<Longrightarrow> helios_typed (hs_results s) \<Longrightarrow> helios_typed (hs_results s')"
proof (induction ps arbitrary: i s)
  case (Cons p ps)
  from Cons.prems(1) obtain s1 where s1: "step i p s = Some s1" "scanAll step (Suc i) ps s1 = Some s'"
    by (auto split: option.splits)
  from Cons.IH [OF s1(2) assms [OF s1(1) Cons.prems(2)]] show ?case .
qed simp

lemma collect_typed:
  assumes "collectDiscoveredControllers mx owned ds m = Some (infos, m')"
  shows "helios_typed infos"
proof (cases "hm_usbContext m \<and> ds \<noteq> None")
  case False
  with assms show ?thesis by (auto simp: collectDiscoveredControllers_def helios_typed_def split: if_splits option.splits)
next
  case True
  then obtain l where l: "ds = Some l" "hm_usbContext m" by auto
  obtain free0 busy0 where p: "probeDevices owned l = (free0, busy0)" by fastforce
  from assms l p obtain n free busy s1 s2 where
    1: "scanAll (freeStep mx) 0 free \<lparr>hs_usedIds = {}, hs_usedLabels = {}, hs_stable = hm_stableLabels m, hs_results = []\<rparr> = Some s1"
    and 2: "scanAll (busyStep mx) n busy s1 = Some s2" and 3: "infos = hs_results s2"
    by (auto simp: collectDiscoveredControllers_def Let_def split: bind_splits)
  have "helios_typed (hs_results s1)"
    by (rule scanAll_typed [OF _ 1]) (auto intro: freeStep_typed simp: helios_typed_def [of "[]"])
  from scanAll_typed [OF _ 2 this] show ?thesis using busyStep_typed by (auto simp: 3)
qed

lemma idnSlot_typed:
  assumes "list_all (\<lambda>i. typeString i = ''IDN'' \<and> is_IdnInfo (ci_derived i)) (id_results s)"
  shows "list_all (\<lambda>i. typeString i = ''IDN'' \<and> is_IdnInfo (ci_derived i)) (id_results (idnSlot mx port snap active slots k s))"
  using assms by (auto simp: idnSlot_def Let_def typed_infos split: prod.splits)

lemma idnSlots_typed:
  "list_all (\<lambda>i. typeString i = ''IDN'' \<and> is_IdnInfo (ci_derived i)) (id_results s) \<Longrightarrow>
   list_all (\<lambda>i. typeString i = ''IDN'' \<and> is_IdnInfo (ci_derived i)) (id_results (fold (idnSlot mx port snap active slots) ks s))"
  by (induction ks arbitrary: s) (auto intro: idnSlot_typed)

lemma idn_discover_typed:
  assumes "idn_discover inp m w = (infos, m', w')"
  shows "list_all (\<lambda>i. typeString i = ''IDN'' \<and> is_IdnInfo (ci_derived i)) infos"
proof -
  obtain live m1 w1 where l: "liveControllers m w = (live, m1, w1)" using prod_cases3 by blast
  obtain count own where c: "refreshControllerCount (live = [] \<or> list_ex (\<lambda>(k, c). \<not> w_up w1 c) live)
      (in_opens inp) (in_rescans inp) (m_own m1) = (count, own)" by fastforce
  show ?thesis
    using assms l c by (cases "count = 0") (auto simp: idn_discover_def Let_def intro!: idnSlots_typed)
qed

lemma lib_listen_typed:
  "list_all (\<lambda>e. typeString (snd e) = ''LiberaProtocol'' \<and> is_LiberaInfo (ci_derived (snd e))) found \<Longrightarrow>
   list_all (\<lambda>e. typeString (snd e) = ''LiberaProtocol'' \<and> is_LiberaInfo (ci_derived (snd e))) (lib_listen dec deadline rs found)"
  by (induction dec deadline rs found rule: lib_listen.induct)
     (auto simp: typed_infos Let_def split: receipt.splits option.splits)

lemma lib_discover_typed:
  "i \<in> set (lib_discover dec opened bound txt start rs) \<Longrightarrow> typeString i = ''LiberaProtocol'' \<and> is_LiberaInfo (ci_derived i)"
  using lib_listen_typed [of "[]"] by (auto simp: lib_discover_def list_all_iff split: if_splits)

section \<open>Drivers stay typed\<close>

lemma etherDreamTyped_prune: "etherDreamTyped s \<Longrightarrow> etherDreamTyped (s\<lparr>edm_controllers := edm_pruneStale t (edm_controllers s)\<rparr>)"
  by (auto simp: etherDreamTyped_def edm_pruneStale_def list_all_iff)

lemma etherDreamDatagram_typed:
  "etherDreamDatagram ip data = Some (Some i) \<Longrightarrow> typeString i = ''EtherDream'' \<and> is_EtherDreamInfo (ci_derived i)"
  by (auto simp: etherDreamDatagram_def Let_def typed_infos split: bind_splits if_splits)

lemma list_all_update: "list_all Q cs \<Longrightarrow> Q (k, v) \<Longrightarrow> list_all Q (AList.update k v cs)"
  by (induction cs) auto

lemma etherDreamTyped_heard:
  "etherDreamTyped s \<Longrightarrow> typeString i = ''EtherDream'' \<Longrightarrow> is_EtherDreamInfo (ci_derived i) \<Longrightarrow>
     etherDreamTyped (s\<lparr>edm_controllers := heard k i t (edm_controllers s)\<rparr>)"
  by (simp add: etherDreamTyped_def heard_def list_all_update)

lemma edm_receive_typed: "edm_receive r t s = Some (b, s') \<Longrightarrow> etherDreamTyped s \<Longrightarrow> etherDreamTyped s'"
proof (cases r)
  case (Received ip data)
  assume run: "edm_receive r t s = Some (b, s')" and typed: "etherDreamTyped s"
  show ?thesis
  proof (cases "edm_running s \<and> (\<exists>i. etherDreamDatagram ip data = Some (Some i))")
    case True
    then obtain i where i: "etherDreamDatagram ip data = Some (Some i)" by blast
    from etherDreamTyped_heard [OF typed, of i "ci_id i" t] etherDreamDatagram_typed [OF i]
      etherDreamTyped_prune [of "s\<lparr>edm_controllers := heard (ci_id i) i t (edm_controllers s)\<rparr>" t]
    show ?thesis using run True i Received by (auto simp: edm_receive_def)
  next
    case False
    with run typed Received show ?thesis by (auto simp: edm_receive_def split: if_splits option.splits)
  qed
qed (auto simp: edm_receive_def etherDreamTyped_prune split: if_splits)

lemma lcm_receive_type: "lcm_receive r t m w = Some (b, m', w') \<Longrightarrow> m_type m' = m_type m"
  by (auto simp: lcm_receive_def tellActive_def findLiveController_def Let_def split: receipt.splits option.splits prod.splits)

lemma lsm_receive_type: "lsm_receive r t m w = Some (b, m', w') \<Longrightarrow> m_type m' = m_type m"
  by (auto simp: lsm_receive_def tellActive_def findLiveController_def Let_def split: receipt.splits option.splits prod.splits)

lemma driver_listen_typed: "driver_listen e m w = Some (m', w') \<Longrightarrow> driver_typed m \<Longrightarrow> driver_typed m'"
proof (cases e)
  case (Hears r t)
  assume "driver_listen e m w = Some (m', w')" "driver_typed m"
  with Hears show ?thesis
    by (cases m) (auto simp: driver_listen_def split: if_splits
        dest: edm_receive_typed lcm_receive_type lsm_receive_type)
next
  case (Prunes clk)
  assume "driver_listen e m w = Some (m', w')" "driver_typed m"
  with Prunes show ?thesis by (cases m) (auto simp: driver_listen_def)
qed

lemma driver_make_typed: "driver_typed (driver_make d)"
  by (cases d) (simp_all add: newManager_def etherDreamTyped_def edm_construct_def)

text \<open>Connecting, disconnecting and closing keep the type, and the table or the plugin's type.\<close>

lemma types_kept:
  "m_type m = t \<Longrightarrow> case mgr_connect H i m w of (r, m', w') \<Rightarrow> m_type m' = t"
  "m_type m = t \<Longrightarrow> case mgr_disconnect H k m w of (b, m', w') \<Rightarrow> m_type m' = t"
  "m_type m = t \<Longrightarrow> case mgr_closeAll H m w of (m', w') \<Rightarrow> m_type m' = t"
  by (auto split: prod.splits dest: mgr_connect_type mgr_disconnect_type mgr_closeAll_type)

context own_invariant
begin

lemma connect_typed: "P (m_own m) \<Longrightarrow> m_type m = t \<Longrightarrow> case mgr_connect H i m w of (r, m', w') \<Rightarrow> m_type m' = t \<and> P (m_own m')"
  using connect_own [of m i w] types_kept(1) [of m t H i w] by auto

lemma disconnect_typed: "P (m_own m) \<Longrightarrow> m_type m = t \<Longrightarrow> case mgr_disconnect H k m w of (r, m', w') \<Rightarrow> m_type m' = t \<and> P (m_own m')"
  using disconnect_own [of m k w] types_kept(2) [of m t H k w] by auto

lemma closeAll_typed: "P (m_own m) \<Longrightarrow> m_type m = t \<Longrightarrow> case mgr_closeAll H m w of (m', w') \<Rightarrow> m_type m' = t \<and> P (m_own m')"
  using closeAll_own [of m w] types_kept(3) [of m t H w] by auto

end

lemma pg_typed:
  "pg_type (m_own m) = m_type m \<Longrightarrow> case mgr_connect (pluginHooks rank) i m w of (r, m', w') \<Rightarrow> pg_type (m_own m') = m_type m'"
  "pg_type (m_own m) = m_type m \<Longrightarrow> case mgr_disconnect (pluginHooks rank) k m w of (b, m', w') \<Rightarrow> pg_type (m_own m') = m_type m'"
  "pg_type (m_own m) = m_type m \<Longrightarrow> case mgr_closeAll (pluginHooks rank) m w of (m', w') \<Rightarrow> pg_type (m_own m') = m_type m'"
  using pgOwn.connect_typed [of m "m_type m" "m_type m" rank i w] pgOwn.disconnect_typed [of m "m_type m" "m_type m" rank k w]
    pgOwn.closeAll_typed [of m "m_type m" "m_type m" rank w] by auto

lemma driver_connect_typed: "driver_typed m \<Longrightarrow> case driver_connect E i m w of (r, m', w') \<Rightarrow> driver_typed m'"
  using edOwn.connect_typed pg_typed(1) types_kept(1) by (cases m; simp add: driver_connect_def rewrap_split)

lemma driver_disconnect_typed: "driver_typed m \<Longrightarrow> case driver_disconnect E k m w of (r, m', w') \<Rightarrow> driver_typed m'"
  using edOwn.disconnect_typed pg_typed(2) types_kept(2) by (cases m; simp add: driver_disconnect_def rewrap_split)

lemma driver_closeAll_typed: "driver_typed m \<Longrightarrow> case driver_closeAll E m w of (m', w') \<Rightarrow> driver_typed m'"
  using edOwn.closeAll_typed pg_typed(3) types_kept(3) by (cases m; simp add: driver_closeAll_def map_prod_split)

section \<open>What a driver lists\<close>

definition well_listed :: "driver_manager \<Rightarrow> info option \<Rightarrow> bool" where
  "well_listed m i = (case i of None \<Rightarrow> False | Some i \<Rightarrow> typeString i = driver_type m \<and> driver_accepts m i)"

lemma pg_discover_typed:
  assumes "pg_discover found m w = (infos, m', w')" "pg_type (m_own m) = m_type m"
  shows "m_type m' = m_type m \<and> pg_type (m_own m') = m_type m \<and>
     list_all (\<lambda>i. typeString i = m_type m \<and> is_PluginInfo (ci_derived i)) infos"
proof -
  obtain ok s w1 where e: "ensureBackend (m_own m) w = (ok, s, w1)" using prod_cases3 by blast
  obtain live m2 w2 where l: "liveControllers (m\<lparr>m_own := s\<rparr>) w1 = (live, m2, w2)" using prod_cases3 by blast
  have s: "pg_type s = m_type m" using ensureBackend_type [of "m_own m" w] assms(2) by (simp add: e)
  have m2: "m_type m2 = m_type m" using l by (auto simp: liveControllers_def snapshotLocked_def Let_def)
  show ?thesis
  proof (cases ok)
    case False
    with assms e s show ?thesis by (auto simp: pg_discover_def)
  next
    case True
    with assms e l s m2 show ?thesis
      by (auto simp: pg_discover_def Let_def typed_infos pg_event_def list_all_iff)
  qed
qed

lemma edm_discover_typed:
  assumes "etherDreamTyped s" "edm_discover t s = (infos, s')"
  shows "etherDreamTyped s' \<and> list_all (\<lambda>i. typeString i = ''EtherDream'' \<and> is_EtherDreamInfo (ci_derived i)) infos"
  using assms etherDreamTyped_prune [OF assms(1), of t]
  by (fastforce simp: edm_discover_def Let_def etherDreamTyped_def listed_def list_all_iff edm_pruneStale_def)

lemma liveControllers_keeps_own: "liveControllers m w = (live, m', w') \<Longrightarrow> m_type m' = m_type m \<and> m_own m' = m_own m"
  by (auto simp: liveControllers_def snapshotLocked_def Let_def)

lemma driver_discover_typed:
  assumes typed: "driver_typed m" and run: "driver_discover E m w = Some (infos, m', w')"
  shows "driver_typed m' \<and> driver_type m' = driver_type m \<and> list_all (well_listed m') infos"
proof (cases m)
  case (EtherDreamM n)
  obtain x s where x: "edm_discover (su_now E) (m_own n) = (x, s)" by fastforce
  from edm_discover_typed [OF _ x] typed run EtherDreamM x show ?thesis
    by (auto simp: driver_discover_def rewrap_def unasked_def well_listed_def list_all_iff)
next
  case (LaserCubeNetM n)
  with typed run show ?thesis
    by (auto simp: driver_discover_def lcm_discover_def well_listed_def list_all_iff typed_infos)
next
  case (LaserCubeUsbM n)
  with run obtain x n' where x: "lum_discover (su_healthy E) (su_laserCubes E) n w = (x, n', w')" "m' = LaserCubeUsbM n'" "infos = map Some x"
    by (auto simp: driver_discover_def rewrap_def split: prod.splits)
  obtain live n1 w1 where l: "liveControllers n w = (live, n1, w1)" using prod_cases3 by blast
  from x(1) l liveControllers_keeps_own [OF l] have "m_type n' = m_type n \<and>
      list_all (\<lambda>i. typeString i = ''LaserCubeUSB'' \<and> is_LaserCubeUsbInfo (ci_derived i)) x"
    by (auto simp: lum_discover_def Let_def list_all_iff dest: lum_infos_typed split: if_splits option.splits)
  with typed LaserCubeUsbM x(2,3) show ?thesis by (auto simp: well_listed_def list_all_iff)
next
  case (LightSpaceM n)
  with typed run show ?thesis
    by (auto simp: driver_discover_def rewrap_def unasked_def lsm_discover_def well_listed_def list_all_iff typed_infos)
next
  case (HeliosM n)
  with run obtain x n' where x:
    "hel_discover (su_heliosMaxPps E) (su_helioses E) n w (su_heliosPath E) = Some (x, n', w')" "m' = HeliosM n'" "infos = map Some x"
    by (auto simp: driver_discover_def rewrap_def split: prod.splits)
  obtain live n1 w1 where l: "liveControllers n w = (live, n1, w1)" using prod_cases3 by blast
  from x(1) l liveControllers_keeps_own [OF l] have "m_type n' = m_type n \<and> helios_typed x"
    by (auto simp: hel_discover_def dest: collect_typed split: option.splits)
  with typed HeliosM x(2,3) show ?thesis by (auto simp: well_listed_def list_all_iff helios_typed_def)
next
  case (IdnM n)
  with run obtain x n' where x: "idn_discover (su_idn E) n w = (x, n', w')" "m' = IdnM n'" "infos = map Some x"
    by (auto simp: driver_discover_def rewrap_def split: prod.splits)
  obtain live n1 w1 where l: "liveControllers n w = (live, n1, w1)" using prod_cases3 by blast
  obtain count own where c: "refreshControllerCount (live = [] \<or> list_ex (\<lambda>(k, c). \<not> w_up w1 c) live)
      (in_opens (su_idn E)) (in_rescans (su_idn E)) (m_own n1) = (count, own)" by fastforce
  from x(1) l c liveControllers_keeps_own [OF l] have "m_type n' = m_type n"
    by (cases "count = 0") (auto simp: idn_discover_def Let_def)
  with idn_discover_typed [OF x(1)] typed IdnM x(2,3) show ?thesis by (auto simp: well_listed_def list_all_iff)
next
  case (LiberaM n)
  let ?x = "lib_discover (su_advertised E) (fst (su_liberaSocket E)) (snd (su_liberaSocket E)) (su_liberaWindow E) (su_now E)
    (su_liberaPackets E)"
  have x: "infos = map Some ?x" "m' = LiberaM n" using run LiberaM by (auto simp: driver_discover_def)
  have "\<forall>i\<in>set ?x. typeString i = driver_type m \<and> driver_accepts m i"
    using typed LiberaM lib_discover_typed by simp
  then show ?thesis using typed LiberaM x by (simp add: well_listed_def list_all_iff)
next
  case (PluginM n)
  with run obtain x n' where x: "pg_discover (su_emitted E (m_type n)) n w = (x, n', w')" "m' = PluginM n'" "infos = map Some x"
    by (auto simp: driver_discover_def rewrap_def split: prod.splits)
  from pg_discover_typed [OF x(1)] typed PluginM x(2,3) show ?thesis by (auto simp: well_listed_def list_all_iff)
qed

end
