(* ===== verification/System_Runs.thy ===== *)
theory System_Runs
  imports System_Typing
begin

text \<open>
  Runs of a \<open>System\<close> with the drivers of the repository: constructed from any registry and options,
  then any sequence of calls, packets, pointer copies and link changes, each with its own answers
  of the environment. The properties hold in every state such a run reaches.
\<close>

inductive sys_reachable :: "driver list \<Rightarrow> driver_manager System \<Rightarrow> world \<Rightarrow> bool" for ds where
  started: "world_ok {} w \<Longrightarrow> no_orphans {} w \<Longrightarrow>
      newSystem (driverOps E) rank (registry ds) saved opts w = (s, w') \<Longrightarrow> sys_reachable ds s w'"
| stepped: "sys_reachable ds s w \<Longrightarrow> sys_step (driverOps E) driver_listen x (s, w) = Some (s', w') \<Longrightarrow>
      sys_reachable ds s' w'"

primrec is_helios_driver :: "driver \<Rightarrow> bool" where
  "is_helios_driver (EtherDreamDriver a b) = False"
| "is_helios_driver LaserCubeNetDriver = False"
| "is_helios_driver (LaserCubeUsbDriver a) = False"
| "is_helios_driver LightSpaceDriver = False"
| "is_helios_driver (HeliosDriver a) = True"
| "is_helios_driver IdnDriver = False"
| "is_helios_driver LiberaDriver = False"
| "is_helios_driver (PluginDriver p) = False"

lemma driver_make_reuses: "driver_reuses (driver_make d) = (\<not> is_helios_driver d)"
  by (cases d) simp_all

section \<open>The invariant of a run\<close>

definition sys_inv :: "driver list \<Rightarrow> driver_manager System \<Rightarrow> world \<Rightarrow> bool" where
  "sys_inv ds s w =
     (caches_ok driver_cache (sys_managers s) w \<and> routes s \<and>
      distinct (map (\<lambda>dm. driver_type (snd dm)) (sys_managers s)) \<and>
      list_all (\<lambda>dm. driver_typed (snd dm)) (sys_managers s) \<and>
      (list_all (\<lambda>d. \<not> is_helios_driver d) ds \<longrightarrow>
         list_all (\<lambda>dm. driver_reuses (snd dm)) (sys_managers s) \<and> caches_complete driver_cache (sys_managers s) w))"

lemma sys_inv_started:
  assumes "world_ok {} w" "no_orphans {} w" "newSystem (driverOps E) rank (registry ds) saved opts w = (s, w')"
  shows "sys_inv ds s w'"
proof -
  note N = newSystem_managers [OF assms(3)] and M = managers_chosen [OF assms(3)]
  have made: "\<exists>d\<in>set ds. snd dm = driver_make d" if "dm \<in> set (sys_managers s)" for dm using M(2) that by blast
  have empty: "all_entries driver_cache (sys_managers s) = []"
    using made by (fastforce simp: all_entries_def)
  have "map (\<lambda>dm. driver_type (snd dm)) (sys_managers s) = map snd (map (\<lambda>dm. (fst dm, driver_type (snd dm))) (sys_managers s))"
    by simp
  then have "distinct (map (\<lambda>dm. driver_type (snd dm)) (sys_managers s))"
    unfolding M(1) using chosen_types [OF groups_distinct] by metis
  moreover have "list_all (\<lambda>dm. driver_typed (snd dm)) (sys_managers s)"
    "list_all (\<lambda>dm. distinct (map fst (driver_cache (snd dm)))) (sys_managers s)"
    using made driver_make_typed by (fastforce simp: list_all_iff)+
  moreover have "list_all (\<lambda>dm. driver_reuses (snd dm)) (sys_managers s)" if "list_all (\<lambda>d. \<not> is_helios_driver d) ds"
    using made that by (fastforce simp: list_all_iff driver_make_reuses)
  ultimately show ?thesis
    using assms(1,2) N(1,2) by (simp add: sys_inv_def caches_ok_def caches_complete_def empty addresses_def)
qed

text \<open>Typing is kept by the steps of \<open>System\<close>.\<close>

lemma typed_update: "list_all (\<lambda>dm. driver_typed (snd dm)) ms \<Longrightarrow> driver_typed m \<Longrightarrow> list_all (\<lambda>dm. driver_typed (snd dm)) (ms[n := (d, m)])"
  using set_update_subset_insert [of ms n "(d, m)"] by (auto simp: list_all_iff)

lemma typed_nth: "list_all (\<lambda>dm. driver_typed (snd dm)) ms \<Longrightarrow> n < length ms \<Longrightarrow> driver_typed (snd (ms ! n))"
  by (simp add: list_all_length)

lemma discoverAll_typed:
  "list_all (\<lambda>dm. driver_typed (snd dm)) ms \<Longrightarrow> discoverAll (driverOps E) ms w = Some (infos, ms', w') \<Longrightarrow>
     list_all (\<lambda>dm. driver_typed (snd dm)) ms' \<and> map fst ms' = map fst ms \<and>
     list_all (\<lambda>i. \<exists>dm\<in>set ms'. well_listed (snd dm) i \<and> map_option driverIdString i = Some (fst dm)) infos"
proof (induction ms arbitrary: w infos ms' w')
  case Nil
  then show ?case by simp
next
  case (Cons dm ms)
  obtain d m where dm: "dm = (d, m)" by fastforce
  from Cons.prems(2) obtain a m1 w1 b ms1 where 1: "driver_discover E m w = Some (a, m1, w1)"
    and 2: "discoverAll (driverOps E) ms w1 = Some (b, ms1, w')" and ms': "ms' = (d, m1) # ms1"
    and infos: "infos = map (map_option (setDriverId d)) a @ b"
    by (auto simp: dm driverOps_def split: bind_splits)
  from driver_discover_typed [OF _ 1] Cons.prems(1) have m1: "driver_typed m1" "list_all (well_listed m1) a" by (auto simp: dm)
  have "well_listed m1 (map_option (setDriverId d) i) \<and> map_option driverIdString (map_option (setDriverId d) i) = Some d"
    if "well_listed m1 i" for i
    using that by (cases m1; cases i; simp add: well_listed_def typed_infos)
  with m1(2) have "list_all (\<lambda>i. well_listed m1 i \<and> map_option driverIdString i = Some d) (map (map_option (setDriverId d)) a)"
    by (auto simp: list_all_iff)
  with Cons.IH [OF _ 2] Cons.prems(1) m1(1) show ?case
    by (auto simp: ms' infos dm list_all_iff)
qed

lemma closeEach_typed:
  "list_all (\<lambda>dm. driver_typed (snd dm)) ms \<Longrightarrow> closeEach (driverOps E) ms w = (ms', w') \<Longrightarrow> list_all (\<lambda>dm. driver_typed (snd dm)) ms'"
  using driver_closeAll_typed [where E = E]
  by (induction ms arbitrary: w ms' w') (fastforce simp: driverOps_def split: prod.splits)+

lemma sys_step_typed:
  assumes t: "list_all (\<lambda>dm. driver_typed (snd dm)) (sys_managers s)"
    and run: "sys_step (driverOps E) driver_listen x (s, w) = Some (s', w')"
  shows "list_all (\<lambda>dm. driver_typed (snd dm)) (sys_managers s')"
proof (cases x)
  case Discover
  with run obtain infos ms where "discoverAll (driverOps E) (sys_managers s) w = Some (infos, ms, w')" "s' = s\<lparr>sys_managers := ms\<rparr>"
    by (auto simp: sys_step_def sys_discoverControllers_def split: option.splits)
  with discoverAll_typed [OF t this(1)] show ?thesis by simp
next
  case (ConnectTo i)
  show ?thesis
  proof (cases "managerFor s (driverIdString i)")
    case None
    with run ConnectTo t show ?thesis by (auto simp: sys_step_def sys_connectController_def)
  next
    case (Some n)
    then have n: "n < length (sys_managers s)" by (auto simp: managerFor_def split: option.splits if_splits)
    obtain r m1 w1 where c: "driver_connect E i (snd (sys_managers s ! n)) w = (r, m1, w1)" using prod_cases3 by blast
    have "driver_typed m1" using driver_connect_typed [OF typed_nth [OF t n], of E i w] by (simp add: c)
    moreover have "sys_managers s' = (sys_managers s)[n := (fst (sys_managers s ! n), m1)]"
      using run ConnectTo Some c by (auto simp: sys_step_def sys_connectController_def driverOps_def replaceManager_def)
    ultimately show ?thesis using t by (simp add: typed_update)
  qed
next
  case (DisconnectFrom d k)
  show ?thesis
  proof (cases "managerFor s d")
    case None
    with run DisconnectFrom t show ?thesis by (auto simp: sys_step_def sys_disconnectController_def)
  next
    case (Some n)
    then have n: "n < length (sys_managers s)" by (auto simp: managerFor_def split: option.splits if_splits)
    obtain r m1 w1 where c: "driver_disconnect E k (snd (sys_managers s ! n)) w = (r, m1, w1)" using prod_cases3 by blast
    have "driver_typed m1" using driver_disconnect_typed [OF typed_nth [OF t n], of E k w] by (simp add: c)
    moreover have "sys_managers s' = (sys_managers s)[n := (fst (sys_managers s ! n), m1)]"
      using run DisconnectFrom Some c by (auto simp: sys_step_def sys_disconnectController_def driverOps_def replaceManager_def)
    ultimately show ?thesis using t by (simp add: typed_update)
  qed
next
  case Shutdown
  with run t show ?thesis by (auto simp: sys_step_def sys_shutdown_def split: if_splits prod.splits)
next
  case (ThreadHears n e)
  show ?thesis
  proof (cases "n < length (sys_managers s)")
    case True
    with run ThreadHears obtain m1 where r: "driver_listen e (snd (sys_managers s ! n)) w = Some (m1, w')" "s' = replaceManager n m1 s"
      by (auto simp: sys_step_def split: option.splits)
    from driver_listen_typed [OF r(1) typed_nth [OF t True]] t r(2) show ?thesis by (simp add: replaceManager_def typed_update)
  next
    case False
    with run ThreadHears t show ?thesis by (simp add: sys_step_def)
  qed
qed (use run t in \<open>auto simp: sys_step_def\<close>)

lemma kinds_same:
  assumes "driver_kinds (driverOps E) driver_reuses ms' = driver_kinds (driverOps E) driver_reuses ms"
  shows "map fst ms' = map fst ms" "map (\<lambda>dm. driver_type (snd dm)) ms' = map (\<lambda>dm. driver_type (snd dm)) ms"
    "list_all (\<lambda>dm. driver_reuses (snd dm)) ms' = list_all (\<lambda>dm. driver_reuses (snd dm)) ms"
proof -
  from arg_cong [OF assms, of "map fst"] show "map fst ms' = map fst ms" by (simp add: driver_kinds_def comp_def)
  from arg_cong [OF assms, of "map (\<lambda>k. fst (snd k))"]
  show "map (\<lambda>dm. driver_type (snd dm)) ms' = map (\<lambda>dm. driver_type (snd dm)) ms"
    by (simp add: driver_kinds_def driverOps_def comp_def)
  from arg_cong [OF assms, of "list_all (\<lambda>k. snd (snd k))"]
  show "list_all (\<lambda>dm. driver_reuses (snd dm)) ms' = list_all (\<lambda>dm. driver_reuses (snd dm)) ms"
    by (simp add: driver_kinds_def list.pred_map comp_def)
qed

lemma routes_kept: "routes s \<Longrightarrow> map fst (sys_managers s') = map fst (sys_managers s) \<Longrightarrow> sys_byDriverId s' = sys_byDriverId s \<Longrightarrow> routes s'"
  unfolding routes_def by (metis length_map nth_map)

lemma sys_inv_stepped:
  assumes inv: "sys_inv ds s w" and run: "sys_step (driverOps E) driver_listen x (s, w) = Some (s', w')"
  shows "sys_inv ds s' w'"
proof -
  have ok: "caches_ok driver_cache (sys_managers s) w" and t: "list_all (\<lambda>dm. driver_typed (snd dm)) (sys_managers s)"
    using inv by (simp_all add: sys_inv_def)
  from sys.sys_step_ok [OF ok run] have S: "caches_ok driver_cache (sys_managers s') w'"
    "list_all (\<lambda>dm. driver_reuses (snd dm)) (sys_managers s) \<Longrightarrow> caches_complete driver_cache (sys_managers s) w \<Longrightarrow>
       caches_complete driver_cache (sys_managers s') w'"
    "driver_kinds (driverOps E) driver_reuses (sys_managers s') = driver_kinds (driverOps E) driver_reuses (sys_managers s) \<and>
       sys_byDriverId s' = sys_byDriverId s \<or> sys_managers s' = [] \<and> sys_byDriverId s' = []"
    by auto
  from S(3) show ?thesis
  proof
    assume k: "driver_kinds (driverOps E) driver_reuses (sys_managers s') = driver_kinds (driverOps E) driver_reuses (sys_managers s) \<and>
       sys_byDriverId s' = sys_byDriverId s"
    with kinds_same [OF conjunct1 [OF k]] show ?thesis
      using inv S(1,2) sys_step_typed [OF t run] by (auto simp: sys_inv_def intro: routes_kept)
  next
    assume "sys_managers s' = [] \<and> sys_byDriverId s' = []"
    then show ?thesis using inv S(1,2) by (auto simp: sys_inv_def routes_def)
  qed
qed

lemma sys_reachable_inv: "sys_reachable ds s w \<Longrightarrow> sys_inv ds s w"
proof (induction rule: sys_reachable.induct)
  case (started w E rank saved opts s w')
  then show ?case by (rule sys_inv_started)
next
  case (stepped s w E x s' w')
  from stepped.IH stepped.hyps(2) show ?case by (rule sys_inv_stepped)
qed

end
