(* ===== verification/System_Properties.thy ===== *)
theory System_Properties
  imports System_Runs
begin

text \<open>What holds in every run of a \<open>System\<close>: typing of the records, ownership of the controllers,
  what connecting gives, and what a shutdown does.\<close>

section \<open>A concrete run\<close>

definition usb_info :: info where
  "usb_info = setDriverId ''libera.builtin.lasercube-usb'' (newLaserCubeUsbInfo ''S1'' ''LaserCube USB S1'')"

definition usb_cube :: LaserCubeUsbDevice where
  "usb_cube = \<lparr>lu_descriptor = Some (0x1fc9, 0x04d8, 3), lu_opensForSerial = True, lu_serial = ''S1'', lu_open = UsbSuccess,
     lu_claim0 = True, lu_claim1 = True, lu_altSetting = True\<rparr>"

definition usb_surroundings :: Surroundings where
  "usb_surroundings = example_surroundings\<lparr>su_laserCubes := Some [usb_cube]\<rparr>"

definition no_options :: SystemOptions where
  "no_options = \<lparr>opt_disabledTypes = {}, opt_selectedDrivers = []\<rparr>"

definition usb_manager :: "cache \<Rightarrow> driver_manager" where
  "usb_manager cs = LaserCubeUsbM \<lparr>m_type = ''LaserCubeUSB'', m_cache = cs, m_own = \<lparr>lum_context = True\<rparr>\<rparr>"

definition usb_system :: "cache \<Rightarrow> driver_manager System" where
  "usb_system cs = \<lparr>sys_managers = [(''libera.builtin.lasercube-usb'', usb_manager cs)],
     sys_byDriverId = [(''libera.builtin.lasercube-usb'', 0)], sys_shutdownComplete = False\<rparr>"

lemma usb_registry: "registry [LaserCubeUsbDriver True] = [registrationOf (LaserCubeUsbDriver True)]"
  by (simp add: registry_def AddControllerManager_def hasRegisteredDriverId_def normalizeRegistration_def
      registrationOf_def builtIn_def)

lemma usb_started:
  "newSystem (driverOps E) rank (registry [LaserCubeUsbDriver True]) [] no_options w = (usb_system [], w)"
  unfolding usb_registry
  by (simp add: newSystem_def registrationsByType_def groupRegistration_def registrationOf_def builtIn_def
      no_options_def controllerTypeEnabled_def iterated_def selectedDrivers_def constructManager_def selectDriver_def
      driverOps_def newManager_def usb_system_def usb_manager_def Let_def)

lemma usb_reachable: "sys_reachable [LaserCubeUsbDriver True] (usb_system []) example_world"
  by (rule sys_reachable.started [OF _ _ usb_started])
     (simp_all add: world_ok_def no_orphans_def example_world_def)

section \<open>Typing\<close>

text \<open>
  C9. In every reachable state, every record a discovery returns is present (never null), carries
  the driver id of an active manager whose type is the record's type, and that manager accepts
  records of this class: a record handed back to \<open>connectController\<close> reaches a manager that can
  read it.
\<close>

theorem system_records_typed:
  assumes "sys_reachable ds s w"
    and "sys_discoverControllers (driverOps E) s w = Some (infos, s', w')"
    and "i \<in> set infos"
  shows "\<exists>r n. i = Some r \<and> managerFor s' (driverIdString r) = Some n \<and>
     driver_type (snd (sys_managers s' ! n)) = typeString r \<and> driver_accepts (snd (sys_managers s' ! n)) r"
proof -
  have inv: "routes s" "list_all (\<lambda>dm. driver_typed (snd dm)) (sys_managers s)"
    using sys_reachable_inv [OF assms(1)] by (simp_all add: sys_inv_def)
  from assms(2) obtain ms where d: "discoverAll (driverOps E) (sys_managers s) w = Some (infos, ms, w')" "s' = s\<lparr>sys_managers := ms\<rparr>"
    by (auto simp: sys_discoverControllers_def split: option.splits)
  note D = discoverAll_typed [OF inv(2) d(1)]
  from D assms(3) obtain dm where dm: "dm \<in> set ms" "well_listed (snd dm) i" "map_option driverIdString i = Some (fst dm)"
    by (auto simp: list_all_iff)
  then obtain r where r: "i = Some r" "driverIdString r = fst dm" "typeString r = driver_type (snd dm)" "driver_accepts (snd dm) r"
    by (cases i) (auto simp: well_listed_def)
  obtain n where n: "n < length ms" "ms ! n = dm" using dm(1) by (auto simp: in_set_conv_nth)
  have "routes s'" using D by (intro routes_kept [OF inv(1)]) (simp_all add: d(2))
  with n d(2) r(2) have "managerFor s' (driverIdString r) = Some n" by (simp add: routes_managerFor)
  with r n d(2) show ?thesis by auto
qed

lemma usb_discovers:
  "sys_discoverControllers (driverOps usb_surroundings) (usb_system []) example_world =
     Some ([Some (setUsageState UsageIdle usb_info)], usb_system [], example_world)"
  by (simp add: sys_discoverControllers_def usb_system_def usb_manager_def driverOps_def driver_discover_def rewrap_def
      lum_discover_def liveControllers_def snapshotLocked_def liveEntries_def dropSnapshot_def usb_surroundings_def
      usb_cube_def readSerialNumber_def isLaserCubeUsb_def probeUsageState_def usb_info_def setUsageState_def setDriverId_def
      newLaserCubeUsbInfo_def newControllerInfo_def Let_def)

lemma system_records_typed_witness:
  "\<exists>n. managerFor (usb_system []) (driverIdString (setUsageState UsageIdle usb_info)) = Some n \<and>
     driver_accepts (snd (sys_managers (usb_system []) ! n)) (setUsageState UsageIdle usb_info)"
  using system_records_typed [OF usb_reachable usb_discovers, of "Some (setUsageState UsageIdle usb_info)"] by auto

section \<open>Ownership\<close>

text \<open>
  C6. In every reachable state the caches of the managers together hold each controller at most
  once, and at most one per key of a manager; no live cached controller has been closed, so none
  is handed out closed; and without the Helios driver every live controller that was not closed
  is in a cache, so that a shutdown reaches it.
\<close>

theorem system_controllers_owned:
  assumes "sys_reachable ds s w"
  shows "distinct (map snd (all_entries driver_cache (sys_managers s))) \<and>
     (\<forall>d m. (d, m) \<in> set (sys_managers s) \<longrightarrow> distinct (map fst (driver_cache m))) \<and>
     (\<forall>c\<in>addresses (all_entries driver_cache (sys_managers s)). 0 < w_refs w c \<longrightarrow> CloseCalled c \<notin> set (w_calls w)) \<and>
     (list_all (\<lambda>d. \<not> is_helios_driver d) ds \<longrightarrow>
        (\<forall>c. 0 < w_refs w c \<longrightarrow> CloseCalled c \<notin> set (w_calls w) \<longrightarrow>
             c \<in> addresses (all_entries driver_cache (sys_managers s))))"
  using sys_reachable_inv [OF assms]
  by (auto simp: sys_inv_def caches_ok_def caches_complete_def world_ok_def no_orphans_def list_all_iff)

definition usb_world :: "nat \<Rightarrow> world" where
  "usb_world refs = example_world\<lparr>w_next := 1, w_refs := (\<lambda>c. 0)(0 := refs), w_asked := 1,
     w_calls := [Constructed 0, ConnectCalled 0 True, ThreadStarted 0],
     w_identity := (\<lambda>c. ('''', ''''))(0 := (''S1'', ''LaserCube USB S1''))\<rparr>"

lemma usb_connects:
  "sys_connectController (driverOps usb_surroundings) usb_info (usb_system []) example_world =
     (Some 0, usb_system [(''S1'', 0)], usb_world 1)"
  by (simp add: sys_connectController_def usb_system_def usb_manager_def driverOps_def driver_connect_def rewrap_def usb_info_def
      setDriverId_def newLaserCubeUsbInfo_def newControllerInfo_def managerFor_def mgr_connect_def laserCubeUsbHooks_def
      default_key_def getOrCreateIf_def makeController_def lcu_create_def newObject_def make_shared_def called_def
      lcu_prepareNew_def callConnect_def ask_def example_world_def replaceManager_def setControllerIdentity_def usb_world_def)

lemma usb_connected: "sys_reachable [LaserCubeUsbDriver True] (usb_system [(''S1'', 0)]) (usb_world 1)"
  by (rule sys_reachable.stepped [OF usb_reachable, of usb_surroundings "ConnectTo usb_info"])
     (simp add: sys_step_def usb_connects)

lemma system_controllers_owned_witness:
  "CloseCalled 0 \<notin> set (w_calls (usb_world 1)) \<and> 0 \<in> addresses (all_entries driver_cache (sys_managers (usb_system [(''S1'', 0)])))"
  using system_controllers_owned [OF usb_connected]
  by (simp add: usb_world_def usb_system_def usb_manager_def addresses_def)

section \<open>Connecting\<close>

lemma hook_keys:
  "h_isInfo (etherDreamHooks rank) = is_EtherDreamInfo" "h_key (etherDreamHooks rank) = ci_id"
  "h_isInfo (laserCubeNetHooks rank) = is_LaserCubeNetInfo" "h_key (laserCubeNetHooks rank) = ci_id"
  "h_isInfo (laserCubeUsbHooks rank) = is_LaserCubeUsbInfo" "h_key (laserCubeUsbHooks rank) = ci_id"
  "h_isInfo (lightSpaceHooks rank) = is_LightSpaceInfo" "h_key (lightSpaceHooks rank) = ci_id"
  "h_isInfo (idnHooks rank) = is_IdnInfo" "h_key (idnHooks rank) = ci_id"
  "h_isInfo (liberaHooks rank) = is_LiberaInfo" "h_key (liberaHooks rank) = ci_id"
  "h_isInfo (pluginHooks rank) = is_PluginInfo" "h_key (pluginHooks rank) = ci_id"
  by (simp_all add: etherDreamHooks_def laserCubeNetHooks_def laserCubeUsbHooks_def lightSpaceHooks_def idnHooks_def
      liberaHooks_def pluginHooks_def default_key_def fun_eq_iff)

lemma driver_connect_cached:
  assumes "mgr_ok R (driver_cache m) w" "driver_reuses m"
  shows "case driver_connect E i m w of (r, m', w') \<Rightarrow>
     (\<forall>c. r = Some c \<longrightarrow> driver_accepts m' i \<and> map_of (driver_cache m') (ci_id i) = Some c)"
proof -
  have key: "case mgr_connect H i n w of (r, n', w') \<Rightarrow>
      (\<forall>c. r = Some c \<longrightarrow> h_isInfo H (ci_derived i) \<and> map_of (m_cache n') (h_key H i) = Some c)"
    if "backend H" "mgr_ok R (m_cache n) w" for H :: "(derived, 's) Hooks" and n
  proof -
    obtain r n' w' where 1: "mgr_connect H i n w = (r, n', w')" using prod_cases3 by blast
    have "h_isInfo H (ci_derived i)" if "r = Some c" for c using 1 that by (auto simp: mgr_connect_def split: if_splits)
    with backend.connect_ok [OF \<open>backend H\<close> that(2) 1] show ?thesis by (auto simp: 1)
  qed
  show ?thesis
    using assms key [OF etherDream.backend_axioms [of "su_rank E"]] key [OF laserCubeNet.backend_axioms [of "su_rank E"]]
      key [OF laserCubeUsb.backend_axioms [of "su_rank E"]] key [OF lightSpace.backend_axioms [of "su_rank E"]]
      key [OF idn.backend_axioms [of "su_rank E"]] key [OF libera.backend_axioms [of "su_rank E"]]
      key [OF plugin.backend_axioms [of "su_rank E"]]
    by (cases m; simp add: driver_connect_def rewrap_split hook_keys)
qed

lemma driver_reconnects:
  assumes "driver_reuses m" "driver_accepts m i" "map_of (driver_cache m) (ci_id i) = Some c" "weak_lock v c"
  shows "case driver_connect E i m v of (r, m', v') \<Rightarrow> r = Some c \<and> w_next v' = w_next v"
proof -
  have again: "case mgr_connect H i n v of (r, n', v') \<Rightarrow> r = Some c \<and> w_next v' = w_next v"
    if "reusing_backend H" "h_isInfo H (ci_derived i)" "map_of (m_cache n) (h_key H i) = Some c"
    for H :: "(derived, 's) Hooks" and n
    using reusing_backend.connect_reuses [OF that assms(4)] by auto
  show ?thesis
    using assms again [OF etherDream.reusing_backend_axioms [of "su_rank E"]] again [OF laserCubeNet.reusing_backend_axioms [of "su_rank E"]]
      again [OF laserCubeUsb.reusing_backend_axioms [of "su_rank E"]] again [OF lightSpace.reusing_backend_axioms [of "su_rank E"]]
      again [OF idn.reusing_backend_axioms [of "su_rank E"]] again [OF libera.reusing_backend_axioms [of "su_rank E"]]
      again [OF plugin.reusing_backend_axioms [of "su_rank E"]]
    by (cases m; simp add: driver_connect_def rewrap_def case_prod_beta hook_keys)
qed



section \<open>Shutdown\<close>

text \<open>
  C5. In every reachable state that is not yet shut down, \<open>shutdown\<close> stops the worker of each live
  cached controller and then closes it, each exactly once although \<open>closeAll\<close> runs again in the
  destructors, destroys no object the application still holds, and leaves no manager. Without
  the Helios driver no live controller is left unclosed. Afterwards a second shutdown does
  nothing and connecting gives null.
\<close>

theorem system_shutdown_closes_once:
  assumes "sys_reachable ds s w" and "\<not> sys_shutdownComplete s" and "sys_shutdown (driverOps E) s w = (s', w')"
  shows "sys_managers s' = [] \<and> w_refs w' = w_refs w \<and>
     (\<exists>l es. w_calls w' = w_calls w @ l \<and>
        mset es = mset (map snd (liveEntries (all_entries driver_cache (sys_managers s)) w)) \<and> distinct es \<and>
        filter is_end l = concat (map (\<lambda>c. [ThreadStopped c, CloseCalled c]) es)) \<and>
     (list_all (\<lambda>d. \<not> is_helios_driver d) ds \<longrightarrow> (\<forall>c. 0 < w_refs w' c \<longrightarrow> CloseCalled c \<in> set (w_calls w'))) \<and>
     sys_shutdown (driverOps E') s' v = (s', v) \<and> sys_connectController (driverOps E') i s' v = (None, s', v)"
proof -
  have inv: "sys_inv ds s w" by (rule sys_reachable_inv [OF assms(1)])
  then have ok: "caches_ok driver_cache (sys_managers s) w" by (simp add: sys_inv_def)
  from sys.shutdown_effect [OF ok assms(2,3)] obtain l es where e: "sys_managers s' = []" "sys_byDriverId s' = []"
    "sys_shutdownComplete s'" "w_refs w' = w_refs w" "w_calls w' = w_calls w @ l"
    "mset es = mset (map snd (liveEntries (all_entries driver_cache (sys_managers s)) w))" "ends l = concat (map ended es)" by blast
  have "distinct (map snd (liveEntries (all_entries driver_cache (sys_managers s)) w))"
    using ok by (simp add: caches_ok_def liveEntries_def distinct_map_filter)
  then have "distinct es" using e(6) by (metis mset_eq_imp_distinct_iff)
  moreover have "filter is_end l = concat (map (\<lambda>c. [ThreadStopped c, CloseCalled c]) es)"
    using e(7) by (simp add: ends_def ended_def [abs_def])
  moreover have "CloseCalled c \<in> set (w_calls w')" if "list_all (\<lambda>d. \<not> is_helios_driver d) ds" "0 < w_refs w' c" for c
  proof -
    have "caches_complete driver_cache (sys_managers s) w" using inv that(1) by (simp add: sys_inv_def)
    then have "no_orphans {} w'"
      using sys.shutdown_step [OF ok assms(3,2)] e(1) by (simp add: caches_complete_def addresses_def)
    with that(2) show ?thesis by (auto simp: no_orphans_def)
  qed
  moreover have "sys_shutdown (driverOps E') s' v = (s', v)" "sys_connectController (driverOps E') i s' v = (None, s', v)"
    using e(2,3) by (simp_all add: sys_shutdown_def sys_connectController_def managerFor_def)
  ultimately show ?thesis using e(1,4-6) by blast
qed

lemma system_shutdown_closes_once_witness:
  "CloseCalled 0 \<in> set (w_calls (snd (sys_shutdown (driverOps usb_surroundings) (usb_system [(''S1'', 0)]) (usb_world 1))))"
proof -
  let ?r = "sys_shutdown (driverOps usb_surroundings) (usb_system [(''S1'', 0)]) (usb_world 1)"
  have o: "\<not> sys_shutdownComplete (usb_system [(''S1'', 0)])" by (simp add: usb_system_def)
  from system_shutdown_closes_once [OF usb_connected o, of usb_surroundings "fst ?r" "snd ?r"]
  have "w_refs (snd ?r) = w_refs (usb_world 1)" "0 < w_refs (snd ?r) 0 \<Longrightarrow> CloseCalled 0 \<in> set (w_calls (snd ?r))" by auto
  then show ?thesis by (simp add: usb_world_def)
qed

end
