(* ===== verification/System_Disconnect.thy ===== *)
theory System_Disconnect
  imports System_Properties
begin

text \<open>
  Disconnecting a controller through \<open>System\<close>. Every driver but Helios caches a controller under
  the id of its record, so the application's driver id and controller id reach it. Helios caches it
  under the port path while the id is made from the name, and replaces a controller that lost its
  connection.
\<close>

section \<open>A Helios run\<close>

definition helios_info :: info where
  "helios_info = setDriverId ''libera.builtin.helios''
     (setUsageState UsageIdle (newHeliosInfo ''helios-1'' ''Helios 1'' 65535 ''1-2'' True 0))"

definition helios_dac :: UsbDevice where
  "helios_dac = \<lparr>ud_isHelios = True, ud_path = ''1-2'', ud_probe = ProbeOpened 0 ''Helios'' ''12345'' (Some ''Helios 1''), ud_stores = True\<rparr>"

definition helios_surroundings :: Surroundings where
  "helios_surroundings = example_surroundings\<lparr>su_helioses := Some [helios_dac], su_heliosMaxPps := 65535\<rparr>"

definition helios_manager :: "cache \<Rightarrow> (string \<times> string) list \<Rightarrow> driver_manager" where
  "helios_manager cs labels = HeliosM \<lparr>m_type = ''Helios'', m_cache = cs, m_own = \<lparr>hm_usbContext = True, hm_stableLabels = labels\<rparr>\<rparr>"

definition helios_system :: "cache \<Rightarrow> (string \<times> string) list \<Rightarrow> driver_manager System" where
  "helios_system cs labels = \<lparr>sys_managers = [(''libera.builtin.helios'', helios_manager cs labels)],
     sys_byDriverId = [(''libera.builtin.helios'', 0)], sys_shutdownComplete = False\<rparr>"

lemma helios_registry: "registry [HeliosDriver True] = [registrationOf (HeliosDriver True)]"
  by (simp add: registry_def AddControllerManager_def hasRegisteredDriverId_def normalizeRegistration_def
      registrationOf_def builtIn_def)

lemma helios_started:
  "newSystem (driverOps E) rank (registry [HeliosDriver True]) [] no_options w = (helios_system [] [], w)"
  unfolding helios_registry
  by (simp add: newSystem_def registrationsByType_def groupRegistration_def registrationOf_def builtIn_def
      no_options_def controllerTypeEnabled_def iterated_def selectedDrivers_def constructManager_def selectDriver_def
      driverOps_def newManager_def helios_system_def helios_manager_def Let_def)

lemma helios_reachable: "sys_reachable [HeliosDriver True] (helios_system [] []) example_world"
  by (rule sys_reachable.started [OF _ _ helios_started])
     (simp_all add: world_ok_def no_orphans_def example_world_def)

lemma helios_id: "makeHeliosControllerId ''Helios 1'' 0 {} = Some (''helios-1'', {''helios-1''})"
proof -
  have "sanitizeIdComponent ''Helios 1'' = ''helios-1''" by code_simp
  then show ?thesis by (simp add: makeHeliosControllerId_def idLoop.simps Let_def)
qed

lemma helios_discovers:
  "sys_discoverControllers (driverOps helios_surroundings) (helios_system [] []) example_world =
     Some ([Some helios_info], helios_system [] [(''1-2'', ''Helios 1'')], example_world)"
proof -
  have "trimAsciiWhitespace ''Helios'' = ''Helios''" "trimAsciiWhitespace ''12345'' = ''12345''" by code_simp+
  then have "collectDiscoveredControllers 65535 {} (Some [helios_dac]) \<lparr>hm_usbContext = True, hm_stableLabels = []\<rparr> =
      Some ([setUsageState UsageIdle (newHeliosInfo ''helios-1'' ''Helios 1'' 65535 ''1-2'' True 0)],
        \<lparr>hm_usbContext = True, hm_stableLabels = [(''1-2'', ''Helios 1'')]\<rparr>)"
    by (simp add: collectDiscoveredControllers_def helios_dac_def freeStep_def freeLabel_def newProbe_def helios_id
        seenPortPaths_def Let_def Collect_conj_eq)
  then show ?thesis
    by (simp add: sys_discoverControllers_def helios_system_def helios_manager_def driverOps_def driver_discover_def rewrap_def
        hel_discover_def liveControllers_def snapshotLocked_def liveEntries_def dropSnapshot_def helios_surroundings_def
        helios_info_def)
qed

definition helios_world :: "call list \<Rightarrow> (nat \<Rightarrow> bool) \<Rightarrow> world" where
  "helios_world calls up = example_world\<lparr>w_next := 1, w_refs := (\<lambda>c. 0)(0 := 1), w_asked := 1, w_calls := calls, w_up := up,
     w_identity := (\<lambda>c. ('''', ''''))(0 := (''helios-1'', ''Helios 1''))\<rparr>"

lemmas helios_run_simps =
  helios_system_def helios_manager_def driverOps_def driver_connect_def driver_disconnect_def driver_closeAll_def rewrap_def
  helios_info_def setDriverId_def setUsageState_def newHeliosInfo_def newControllerInfo_def managerFor_def
  mgr_connect_def mgr_disconnect_def mgr_closeAll_def heliosHooks_def hel_key_def portPathOf_def getOrCreateIf_def makeController_def
  hel_create_def hel_reuse_def hel_prepareNew_def hel_prepareExisting_def hel_disconnect_def hel_close_def hel_afterClose_def
  default_aroundClose_def default_stop_def make_shared_def called_def ask_def example_world_def replaceManager_def
  setControllerIdentity_def helios_world_def retain_def release_def weak_lock_def cache_take_def

lemma helios_connects:
  "sys_connectController (driverOps E) helios_info (helios_system [] l) example_world =
     (Some 0, helios_system [(''1-2'', 0)] l, helios_world [Constructed 0, ThreadStarted 0] ((\<lambda>c. False)(0 := True)))"
  by (simp add: sys_connectController_def helios_run_simps)

section \<open>Disconnecting by id\<close>

context backend
begin

lemma disconnect_effect:
  assumes "mgr_ok R (m_cache m) w" "map_of (m_cache m) k = Some c" "weak_lock w c" "mgr_disconnect H k m w = (b, m', w')"
  shows "b \<and> c \<notin> addresses (m_cache m') \<and> w_refs w' = w_refs w \<and>
     (\<exists>l. w_calls w' = w_calls w @ l \<and> ends l = ended c)"
proof -
  obtain s2 w2 where 2: "h_disconnect H k c (m_own m) (retain c w) = (s2, w2)" by fastforce
  with assms(2-4) have r: "b" "m_cache m' = AList.delete k (m_cache m)" "w' = release c w2"
    by (auto simp: mgr_disconnect_def cache_take_def)
  from disconnect [OF 2] obtain l where l: "calls_on c l (retain c w) w2" "ends l = ended c" by blast
  have "w_refs w' = w_refs w" "w_calls w' = w_calls w @ l"
    using l(1) assms(3) by (auto simp: r calls_on_def object_simps weak_lock_def fun_eq_iff)
  moreover have "c \<notin> addresses (m_cache m')"
    using delete_drops_entry [of "m_cache m" k c] assms(1,2) by (simp add: r addresses_def mgr_ok_def cache_ok_def)
  ultimately show ?thesis using r(1) l(2) by blast
qed

end

lemma driver_disconnect_effect:
  assumes "mgr_ok R (driver_cache m) w" "map_of (driver_cache m) k = Some c" "weak_lock w c"
  shows "case driver_disconnect E k m w of (b, m', w') \<Rightarrow>
     b \<and> c \<notin> addresses (driver_cache m') \<and> w_refs w' = w_refs w \<and> (\<exists>l. w_calls w' = w_calls w @ l \<and> ends l = ended c)"
proof -
  have effect: "case mgr_disconnect H k n w of (b, n', w') \<Rightarrow>
      b \<and> c \<notin> addresses (m_cache n') \<and> w_refs w' = w_refs w \<and> (\<exists>l. w_calls w' = w_calls w @ l \<and> ends l = ended c)"
    if "backend H" "mgr_ok R (m_cache n) w" "map_of (m_cache n) k = Some c" for H :: "(derived, 's) Hooks" and n
    using backend.disconnect_effect [OF that assms(3)] by (auto split: prod.split)
  show ?thesis
    using assms effect [OF etherDream.backend_axioms [of "su_rank E"]] effect [OF laserCubeNet.backend_axioms [of "su_rank E"]]
      effect [OF laserCubeUsb.backend_axioms [of "su_rank E"]] effect [OF lightSpace.backend_axioms [of "su_rank E"]]
      effect [OF idn.backend_axioms [of "su_rank E"]] effect [OF libera.backend_axioms [of "su_rank E"]]
      effect [OF plugin.backend_axioms [of "su_rank E"]] effect [OF helios.backend_axioms [of "su_rank E"]]
    by (cases m; simp add: driver_disconnect_def rewrap_def case_prod_beta)
qed



section \<open>Helios is not found by its id\<close>

text \<open>
  C24. With the Helios driver there is a run in which a record as discovery returned it is
  connected and the controller is live and cached, and disconnecting with the driver id and the id
  of that record finds nothing, stops nothing and closes nothing; the port path does find it.
\<close>

theorem helios_id_finds_nothing:
  "\<exists>i s s' w. sys_discoverControllers (driverOps helios_surroundings) (helios_system [] []) example_world = Some ([Some i], s, example_world) \<and>
     sys_reachable [HeliosDriver True] s example_world \<and>
     sys_connectController (driverOps helios_surroundings) i s example_world = (Some 0, s', w) \<and>
     0 < w_refs w 0 \<and> 0 \<in> addresses (all_entries driver_cache (sys_managers s')) \<and>
     sys_disconnectController (driverOps helios_surroundings) (driverIdString i) (ci_id i) s' w = (False, s', w) \<and>
     fst (sys_disconnectController (driverOps helios_surroundings) (driverIdString i) (portPathOf i) s' w)"
proof (intro exI conjI)
  let ?labels = "[(''1-2'', ''Helios 1'')]"
  show "sys_discoverControllers (driverOps helios_surroundings) (helios_system [] []) example_world =
      Some ([Some helios_info], helios_system [] ?labels, example_world)" by (rule helios_discovers)
  show "sys_reachable [HeliosDriver True] (helios_system [] ?labels) example_world"
    by (rule sys_reachable.stepped [OF helios_reachable, of helios_surroundings Discover])
       (simp add: sys_step_def helios_discovers)
  show "sys_connectController (driverOps helios_surroundings) helios_info (helios_system [] ?labels) example_world =
     (Some 0, helios_system [(''1-2'', 0)] ?labels, helios_world [Constructed 0, ThreadStarted 0] ((\<lambda>c. False)(0 := True)))"
    by (rule helios_connects)
qed (simp_all add: sys_disconnectController_def helios_run_simps addresses_def)

section \<open>A replaced Helios controller\<close>

text \<open>
  C25. With the Helios driver a reconnect after a lost connection evicts the old controller without
  stopping or closing it. There is a run in which the application still holds that controller,
  whose worker was started, and the \<open>System\<close> is shut down without ever stopping or closing it.
\<close>

theorem helios_evicted_never_closed:
  "\<exists>s w. sys_reachable [HeliosDriver True] s w \<and> sys_shutdownComplete s \<and> 0 < w_refs w 0 \<and>
     ThreadStarted 0 \<in> set (w_calls w) \<and> ThreadStopped 0 \<notin> set (w_calls w) \<and> CloseCalled 0 \<notin> set (w_calls w)"
proof -
  let ?E = helios_surroundings
  let ?up = "(\<lambda>c. False)(0 := True)"
  have 1: "sys_reachable [HeliosDriver True] (helios_system [(''1-2'', 0)] []) (helios_world [Constructed 0, ThreadStarted 0] ?up)"
    by (rule sys_reachable.stepped [OF helios_reachable, of ?E "ConnectTo helios_info"]) (simp add: sys_step_def helios_connects)
  have 2: "sys_reachable [HeliosDriver True] (helios_system [(''1-2'', 0)] [])
      (helios_world [Constructed 0, ThreadStarted 0] (?up(0 := False)))"
    by (rule sys_reachable.stepped [OF 1, of ?E "LinkMoves 0 False"]) (simp add: sys_step_def helios_world_def)
  let ?s = "helios_system [(''1-2'', 0)] []" and ?w = "helios_world [Constructed 0, ThreadStarted 0] (?up(0 := False))"
  obtain r s3 w3 where 3: "sys_connectController (driverOps ?E) helios_info ?s ?w = (r, s3, w3)" using prod_cases3 by blast
  then have f3: "s3 = helios_system [(''1-2'', 1)] []" "w_refs w3 = (\<lambda>c. 0)(0 := 1, 1 := 1)"
    "w_calls w3 = [Constructed 0, ThreadStarted 0, Constructed 1, ThreadStarted 1]"
    by (auto simp: sys_connectController_def helios_run_simps)
  have r3: "sys_reachable [HeliosDriver True] s3 w3"
    by (rule sys_reachable.stepped [OF 2, of ?E "ConnectTo helios_info"]) (simp only: sys_step_def prod.case sys_op.case 3 snd_conv)
  obtain s4 w4 where 4: "sys_shutdown (driverOps ?E) s3 w3 = (s4, w4)" by fastforce
  have r4: "sys_reachable [HeliosDriver True] s4 w4"
    by (rule sys_reachable.stepped [OF r3, of ?E Shutdown]) (simp add: sys_step_def 4)
  from 4 f3 have "sys_shutdownComplete s4" "w_refs w4 0 = 1"
    "w_calls w4 = [Constructed 0, ThreadStarted 0, Constructed 1, ThreadStarted 1, ThreadStopped 1, ShutdownPrepared 1, CloseCalled 1]"
    by (auto simp: sys_shutdown_def driver_destroy_def snapshotLocked_def liveEntries_def iterated_def stopAndClose_def
        dropSnapshot_def helios_run_simps Let_def)
  with r4 show ?thesis by (intro exI [of _ s4] exI [of _ w4]) simp
qed

end
