(* ===== verification/Spec2Isabelle.thy ===== *)
theory Spec2Isabelle
  imports Prelude Fp Bytes Laser_Point Text Geometry Ether_Dream_Wire Light_Space Light_Space_Pattern Device_Status
    Buffer_Estimator Frame_Scheduler Scheduler_Properties Controller_Events Point_Pipeline Pipeline_Properties
    Latency_Stats Streaming Point_Framer Controller Controller_Sources
    Ether_Dream_State Ether_Dream_Session Ether_Dream_Worker Ether_Dream_Frame Ether_Dream_Properties Ether_Dream_Runs
    Ether_Dream_Recovery Clock_Advance Laser_Cube_Net Laser_Cube_Runs Laser_Cube_Properties
    Light_Space_Net Light_Space_Receive Light_Space_Runs Light_Space_Properties
    Controller_Manager Manager_Lifecycle Controller_Infos Network_Discovery Discovery_Properties Helios_Naming
    Helios_Discovery Idn_Discovery Backend_Managers Extension_Managers
    System_Core System_Drivers System_Lifecycle System_Families System_Choice System_Typing System_Runs System_Properties
    System_Disconnect
begin

text \<open>
  Verification of the core of libera, a C++ library that drives laser projectors.

  The program. An application hands laser content to a controller either as a callback that
  generates points or as a queue of frames. A device driver (EtherDream, LightSpace,
  LaserCube, Helios, IDN, plugin) runs a worker that asks the controller for points or frames
  when the device can take more, post-processes them (arming, blanking, scanner sync),
  encodes them for the wire and estimates how much the device has buffered.

  The theories, bottom up, and the code each models (paths under src/src and
  src/include/libera):
  \<^item> \<open>Prelude\<close>: words, the clock as a stream of \<open>steady_clock\<close> readings in ns, bounds-checked
    reads.
  \<^item> \<open>Fp\<close>: IEEE single and double arithmetic on rationals with round-to-nearest-even (no
    signed zero, no exception flags), casts, \<open>llround\<close>, \<open>sqrt\<close>, as the C++ code uses them.
  \<^item> \<open>Bytes\<close>, \<open>Text\<close>: core/ByteBuffer.cpp, core/ByteRead.hpp, the big-endian helpers of
    lightspacenet/LightSpaceNetPacket.cpp, number formatting. The codec locale states the round
    trip of a fixed-width code once and is interpreted for each of the five codes.
  \<^item> \<open>Laser_Point\<close>: core/LaserPoint.hpp and the encoders of core/LaserControllerStreaming.cpp.
  \<^item> \<open>Ether_Dream_Wire\<close>: EtherDream/EtherDreamCommand.cpp and EtherDreamResponse.cpp.
  \<^item> \<open>Light_Space\<close>, \<open>Light_Space_Pattern\<close>: lightspacenet/LightSpaceNetPacket.cpp.
  \<^item> \<open>Device_Status\<close>: the status parsers of LightSpace and LaserCube devices.
  \<^item> \<open>Buffer_Estimator\<close>: core/BufferEstimator.cpp.
  \<^item> \<open>Frame_Scheduler\<close>, \<open>Scheduler_Properties\<close>: core/FrameScheduler.cpp, the queue of frames and
    what \<open>fillPoints\<close> and \<open>fillFrame\<close> take from it. The locale of budgeted queues carries the
    back-pressure argument for both submission paths.
  \<^item> \<open>Controller_Events\<close>: core/ControllerErrorTypes.hpp and the event code of
    core/LaserControllerStreaming.cpp.
  \<^item> \<open>Point_Pipeline\<close>, \<open>Pipeline_Properties\<close>: blanking, arming and scanner sync in
    core/LaserControllerStreaming.cpp; the second theory also interleaves the application's
    \<open>setArmed\<close> with the worker's batch.
  \<^item> \<open>Latency_Stats\<close>: the percentiles and the cached latency statistics of the same file, and the
    sample ring of EtherDream/EtherDreamController.cpp.
  \<^item> \<open>Streaming\<close>: point requests, their metrics and the estimated buffer of the same file.
  \<^item> \<open>Point_Framer\<close>: core/PointStreamFramer.cpp.
  \<^item> \<open>Controller\<close>, \<open>Controller_Sources\<close>: core/LaserController.cpp, and the controller as a
    transition system over all its operations.
  \<^item> \<open>Ether_Dream_State\<close>, \<open>Ether_Dream_Session\<close>, \<open>Ether_Dream_Worker\<close>: EtherDream/EtherDreamController.cpp
    in three layers, the state with the decisions taken from the DAC's status, the exchange of a
    command and its response, and the worker loop with the application as a step relation. It
    rests on \<open>Ether_Dream_Wire\<close> for the bytes, \<open>Controller\<close> for the points, \<open>Controller_Events\<close> for the
    errors and \<open>Buffer_Estimator\<close> for the levels.
  \<^item> \<open>Ether_Dream_Frame\<close>, \<open>Ether_Dream_Properties\<close>, \<open>Ether_Dream_Runs\<close>, \<open>Ether_Dream_Recovery\<close>: what each
    operation leaves alone; the contract every session operation keeps (locale
    \<open>session_operation\<close>, interpreted for stop, clear, prepare, begin, poll and the stream pass);
    the invariant of every run (legal commands, socket discipline, bounded sleeps); the reboot
    latch and the clear after a broken exchange.
  \<^item> \<open>Laser_Cube_Net\<close>, \<open>Laser_Cube_Runs\<close>, \<open>Laser_Cube_Properties\<close>: lasercubenet/LaserCubeNetController.cpp, the
    packets, the 256 slots of packets that wait for their acknowledgement, and the worker loop with
    the application and the discovery thread as a step relation; the invariants of its runs (slots,
    packets, sleeps) and the stall that drops the connection.
  \<^item> \<open>Light_Space_Net\<close>, \<open>Light_Space_Receive\<close>, \<open>Light_Space_Runs\<close>, \<open>Light_Space_Properties\<close>:
    lightspacenet/LightSpaceNetController.cpp, whole patterns and control commands on one TCP connection;
    the receive buffer against a plain scan of the byte stream, the wait for acknowledgements, and the
    invariant of the runs (legal packets, exact reception, pattern limit). \<open>Clock_Advance\<close> holds what both
    network controllers need of the clock.
  \<^item> \<open>Controller_Manager\<close>, \<open>Manager_Lifecycle\<close>: core/ControllerCache.hpp and core/ControllerManagerBase.hpp.
    A controller object is an address in a \<open>world\<close> of reference counts and of the calls made on the
    objects; the virtual functions of a manager are the record \<open>Hooks\<close>. The locale \<open>backend\<close> states
    what the base class expects of them, \<open>reusing_backend\<close> adds that a live controller is always
    reused; the cache and life-cycle lemmas are proved inside them.
  \<^item> \<open>Controller_Infos\<close>: the discovery records (the \<open>*ControllerInfo.hpp\<close> headers).
  \<^item> \<open>Network_Discovery\<close>, \<open>Discovery_Properties\<close>: the discovery threads of EtherDreamManager.cpp,
    LaserCubeNetManager.cpp and LightSpaceNetManager.cpp over streams of received datagrams.
  \<^item> \<open>Helios_Naming\<close>, \<open>Helios_Discovery\<close>, \<open>Idn_Discovery\<close>: the naming and identity rules and the
    discovery passes of HeliosManager.cpp and IdnManager.cpp. What USB probes, the vendored SDK and
    the network answer are arguments. The search loops for a free name or id are partial functions
    whose result is proved to exist while the names in use fit an \<open>int\<close>.
  \<^item> \<open>Backend_Managers\<close>, \<open>Extension_Managers\<close>: the overridden virtual functions of all eight managers
    (the plugin manager and the Libera protocol manager in the second), each an interpretation of
    \<open>backend\<close> or \<open>reusing_backend\<close>. Helios does not always reuse a live controller.
  \<^item> \<open>System_Core\<close>, \<open>System_Drivers\<close>: core/System.cpp over managers known by their virtual functions
    (\<open>ManagerOps\<close>), and the managers and registrars of the repository as its drivers. The record
    \<open>Surroundings\<close> holds what the environment answers to one call.
  \<^item> \<open>System_Lifecycle\<close>, \<open>System_Families\<close>, \<open>System_Choice\<close>, \<open>System_Typing\<close>, \<open>System_Runs\<close>,
    \<open>System_Properties\<close>, \<open>System_Disconnect\<close>: the contract \<open>System\<close> needs of a driver (locale \<open>drivers\<close>),
    its interpretation on the eight managers, the reference choice of one driver per controller
    type, and runs of calls, packets, pointer copies and link changes, whose invariant gives the
    ownership, typing, connection and shutdown properties.

  The world of \<open>System\<close> runs. An object is only what keeps it alive and what is called on it: its
  own worker is modelled apart from it, and a call on it that may fail takes the next
  answer of the stream \<open>w_answers\<close>. The iteration order of a hash table is the parameter \<open>rank\<close>.
  Calls of \<open>System\<close>, single packets of a discovery thread, copies and drops of pointers and link
  changes interleave in any order, each call with its own \<open>Surroundings\<close>; a call is one step.

  The network of the Ether Dream, LaserCube and LightSpace workers is a parameter: streams of answers for connects
  (or sockets operations), writes, reads and \<open>remote_endpoint\<close> checks, about which nothing is assumed, and a stream of readings of
  the \<open>running\<close> flag, so the thread may be stopped between any two tests of it. The application
  acts between two passes of the worker and may then replace the whole base-class state. The
  model records the socket events and the sleeps; log lines are left out.

  Conventions. A C++ object is a record, an operation a function on it; an \<open>enum class\<close> is a
  datatype; \<open>std::size_t\<close> counts are \<open>nat\<close> where the code only compares and subtracts guarded
  values, \<open>std::uint32_t\<close> and \<open>std::uint64_t\<close> are words where they wrap, \<open>int\<close> values are
  integers with the narrowing casts written out. The result \<open>None\<close> of an operation is
  undefined or unspecified behaviour of C++ (a read out of range, an \<open>llround\<close> outside
  \<open>long long\<close>, a signed overflow, a failed assertion's consequence); so a theorem that an
  operation returns \<open>Some\<close> says that none is reached. The epoch \<open>time_point{}\<close> is 0. A mutex
  serialises the operations that take it, so each is one step; a \<open>try_lock\<close> result is an
  argument. A callback is a function from the request and the points so far to the points;
  nothing is assumed of it.

  Loops. \<open>fillPoints\<close> is a \<open>partial_function\<close> whose termination from every state of the
  invariant is part of \<open>fillPoints_sound\<close>; \<open>fillFrame\<close> has a termination proof;
  \<open>settleBlankTail\<close> has the 8 iterations of the C++ loop as fuel, and \<open>prepareFrames\<close> the number
  of frames still wanted, each pass preparing one or stopping.

  Not modelled: the sockets themselves, the workers of the LaserCube USB, Helios, IDN, Libera protocol
  and plugin controllers, the AVB driver, the packages, settings and validation of plugins,
  USB transfers, threads and their priorities, logging output, the GUI, the advertisement codec of the
  Libera protocol (a git submodule), the vendored libraries (asio, the IDN and Helios SDKs, expected),
  which are glue or code the sources only call.
\<close>

end
